(* ===== verification/Prelude.thy ===== *)
theory Prelude
  imports Main "HOL-Library.List_Lexorder"
begin

text \<open>
  The vocabulary the component theories share.

  \<^item> Rust strings as lists of Unicode scalar values, with the \<open>str\<close> operations the sources
    call (\<open>trim\<close>, \<open>trim_end\<close>, \<open>split\<close>, \<open>lines\<close>, \<open>join\<close>, \<open>strip_prefix\<close>, UTF-8 lengths).
  \<^item> Results of fallible code: \<open>Ok\<close>, \<open>Err\<close>, and \<open>Panic\<close> for an index or slice out of range.
  \<^item> \<open>HashMap\<close> as an association list with distinct keys.  Rust leaves the iteration order
    unspecified; the order of the list stands for it, and theorems quantify over every state,
    so over every order.
  \<^item> The generic reachability predicate and the locale of inductive invariants.
\<close>

named_theorems str_simps \<open>computation rules for string operations\<close>
named_theorems hm_simps \<open>lookup, keys and values of hash maps after an update\<close>

section \<open>Results\<close>

datatype ('e, 'a) res = Ok (res_ok: 'a) | Err (res_err: 'e) | Panic

primrec bind_res :: "('e, 'a) res \<Rightarrow> ('a \<Rightarrow> ('e, 'b) res) \<Rightarrow> ('e, 'b) res" where
  "bind_res (Ok a) f = f a"
| "bind_res (Err e) f = Err e"
| "bind_res Panic f = Panic"

lemma bind_res_Ok_iff:
  "bind_res r f = Ok b \<longleftrightarrow> (\<exists>a. r = Ok a \<and> f a = Ok b)"
  by (cases r) auto

lemma bind_res_Err_iff:
  "bind_res r f = Err e \<longleftrightarrow> r = Err e \<or> (\<exists>a. r = Ok a \<and> f a = Err e)"
  by (cases r) auto

lemma bind_res_Panic_iff:
  "bind_res r f = Panic \<longleftrightarrow> r = Panic \<or> (\<exists>a. r = Ok a \<and> f a = Panic)"
  by (cases r) auto

lemmas bind_res_iffs = bind_res_Ok_iff bind_res_Err_iff bind_res_Panic_iff

section \<open>Strings\<close>

type_synonym uchar = nat
type_synonym str = "uchar list"

definition lit :: "string \<Rightarrow> str" where
  "lit s = map of_char s"

lemma lit_simps [simp, str_simps]:
  "lit [] = []" "lit (c # cs) = of_char c # lit cs"
  by (simp_all add: lit_def)

text \<open>The Unicode property White\_Space, which \<open>char::is_whitespace\<close> tests.\<close>

definition is_whitespace :: "uchar \<Rightarrow> bool" where
  "is_whitespace c \<longleftrightarrow>
     (9 \<le> c \<and> c \<le> 13) \<or> c = 32 \<or> c = 133 \<or> c = 160 \<or> c = 5760 \<or>
     (8192 \<le> c \<and> c \<le> 8202) \<or> c = 8232 \<or> c = 8233 \<or> c = 8239 \<or> c = 8287 \<or> c = 12288"

text \<open>An equation that decides the ASCII characters first, for evaluation.\<close>

lemma is_whitespace_code [code]:
  "is_whitespace c \<longleftrightarrow>
     (if c < 133 then c = 32 \<or> (9 \<le> c \<and> c \<le> 13)
      else c = 133 \<or> c = 160 \<or> c = 5760 \<or> (8192 \<le> c \<and> c \<le> 8202) \<or> c = 8232 \<or> c = 8233 \<or> c = 8239 \<or>
        c = 8287 \<or> c = 12288)"
  by (auto simp: is_whitespace_def)

definition trim_start :: "str \<Rightarrow> str" where
  "trim_start s = dropWhile is_whitespace s"

definition trim_end :: "str \<Rightarrow> str" where
  "trim_end s = rev (dropWhile is_whitespace (rev s))"

definition trim :: "str \<Rightarrow> str" where
  "trim s = trim_end (trim_start s)"

lemma dropWhile_append_all:
  "(\<forall>x \<in> set xs. P x) \<Longrightarrow> dropWhile P (xs @ ys) = dropWhile P ys"
  by (induction xs) auto

lemma trim_start_trim_end: "trim_start (trim_end s) = trim_end (trim_start s)"
proof (induction s)
  case (Cons c s)
  show ?case
  proof (cases "is_whitespace c")
    case True
    show ?thesis
    proof (cases "\<forall>x \<in> set s. is_whitespace x")
      case True
      with \<open>is_whitespace c\<close> show ?thesis
        by (auto simp: trim_start_def trim_end_def dropWhile_append_all dest: set_dropWhileD)
    next
      case False
      then have "trim_end (c # s) = c # trim_end s"
        by (auto simp: trim_end_def dropWhile_append)
      with True Cons show ?thesis
        by (simp add: trim_start_def)
    qed
  next
    case False
    then show ?thesis
      by (auto simp: trim_start_def trim_end_def dropWhile_append)
  qed
qed (simp add: trim_start_def trim_end_def)

lemma trim_end_eq_imp_trim_eq: "trim_end s = trim_end t \<Longrightarrow> trim s = trim t"
  by (metis trim_def trim_start_trim_end)

lemma trim_id:
  assumes "s = [] \<or> (\<not> is_whitespace (hd s) \<and> \<not> is_whitespace (last s))"
  shows "trim s = s"
proof (cases s)
  case (Cons c cs)
  with assms have "\<not> is_whitespace c" "\<not> is_whitespace (last s)" by auto
  then show ?thesis
    using Cons
    by (metis dropWhile_eq_self_iff hd_rev list.sel(1) rev_rev_ident trim_def
        trim_end_def trim_start_def)
qed (simp add: trim_def trim_end_def trim_start_def)

primrec strip_prefix :: "str \<Rightarrow> str \<Rightarrow> str option" where
  "strip_prefix [] s = Some s"
| "strip_prefix (p # ps) s =
     (case s of [] \<Rightarrow> None | c # cs \<Rightarrow> if c = p then strip_prefix ps cs else None)"

definition starts_with :: "str \<Rightarrow> str \<Rightarrow> bool" where
  "starts_with p s \<longleftrightarrow> strip_prefix p s \<noteq> None"

definition ends_with :: "str \<Rightarrow> str \<Rightarrow> bool" where
  "ends_with p s \<longleftrightarrow> starts_with (rev p) (rev s)"

lemma strip_prefix_append [simp]: "strip_prefix p (p @ s) = Some s"
  by (induction p) auto

lemma strip_prefix_Some_iff: "strip_prefix p s = Some t \<longleftrightarrow> s = p @ t"
  by (induction p arbitrary: s) (auto split: list.splits)

text \<open>\<open>to_ascii_lowercase\<close>, \<open>strip_suffix\<close>, \<open>split\<close> and \<open>trim_matches\<close> with a predicate.\<close>

definition to_ascii_lowercase :: "str \<Rightarrow> str" where
  "to_ascii_lowercase s = map (\<lambda>c. if 65 \<le> c \<and> c \<le> 90 then c + 32 else c) s"

definition strip_suffix :: "str \<Rightarrow> str \<Rightarrow> str option" where
  "strip_suffix suf s = map_option rev (strip_prefix (rev suf) (rev s))"

fun split_where :: "(uchar \<Rightarrow> bool) \<Rightarrow> str \<Rightarrow> str list" where
  "split_where p [] = [[]]"
| "split_where p (c # cs) =
     (if p c then [] # split_where p cs
      else case split_where p cs of [] \<Rightarrow> [[c]] | t # ts \<Rightarrow> (c # t) # ts)"

definition trim_matches :: "(uchar \<Rightarrow> bool) \<Rightarrow> str \<Rightarrow> str" where
  "trim_matches p s = rev (dropWhile p (rev (dropWhile p s)))"

lemma trim_matches_id:
  assumes "\<forall>c \<in> set s. \<not> p c"
  shows "trim_matches p s = s"
proof -
  have "dropWhile p t = t" if "\<forall>c \<in> set t. \<not> p c" for t
    using that by (cases t) auto
  from this [of s] this [of "rev s"] show ?thesis
    using assms by (simp add: trim_matches_def)
qed

text \<open>\<open>str::split(c)\<close>: always at least one piece; \<open>[T]::join\<close> is its inverse.\<close>

fun split_char :: "uchar \<Rightarrow> str \<Rightarrow> str list" where
  "split_char c [] = [[]]"
| "split_char c (x # xs) =
     (if x = c then [] # split_char c xs
      else case split_char c xs of [] \<Rightarrow> [[x]] | y # ys \<Rightarrow> (x # y) # ys)"

fun join :: "str \<Rightarrow> str list \<Rightarrow> str" where
  "join sep [] = []"
| "join sep [x] = x"
| "join sep (x # y # ys) = x @ sep @ join sep (y # ys)"

lemma split_char_ne [simp]: "split_char c s \<noteq> []"
  by (induction s) (auto split: list.splits)

lemma join_split_char [simp]: "join [c] (split_char c s) = s"
proof (induction s)
  case (Cons x xs)
  obtain y ys where ys: "split_char c xs = y # ys"
    by (meson neq_Nil_conv split_char_ne)
  show ?case
    using Cons ys by (cases ys) auto
qed simp

lemma split_char_append_sep:
  "c \<notin> set x \<Longrightarrow> split_char c (x @ c # s) = x # split_char c s"
  by (induction x) auto

lemma split_char_no_sep: "c \<notin> set x \<Longrightarrow> split_char c x = [x]"
  by (induction x) auto

lemma split_char_join:
  "xs \<noteq> [] \<Longrightarrow> (\<And>x. x \<in> set xs \<Longrightarrow> c \<notin> set x) \<Longrightarrow> split_char c (join [c] xs) = xs"
  by (induction "[c]" xs rule: join.induct)
    (auto simp: split_char_append_sep split_char_no_sep)

lemma split_char_pieces: "x \<in> set (split_char c s) \<Longrightarrow> c \<notin> set x"
  by (induction s arbitrary: x) (auto split: if_splits list.splits)

text \<open>
  \<open>str::lines\<close>: a line ends at a line feed, an optional carriage return before it belongs to
  the ending, and an unterminated last line is kept as it is unless it is empty.
\<close>

definition strip_cr :: "str \<Rightarrow> str" where
  "strip_cr s = (if s \<noteq> [] \<and> last s = 13 then butlast s else s)"

definition str_lines :: "str \<Rightarrow> str list" where
  "str_lines s = (let ps = split_char 10 s
     in map strip_cr (butlast ps) @ (if last ps = [] then [] else [last ps]))"

lemma str_lines_join:
  assumes "ls \<noteq> []" and "\<And>l. l \<in> set ls \<Longrightarrow> 10 \<notin> set l \<and> (l = [] \<or> last l \<noteq> 13)"
    and "last ls \<noteq> []"
  shows "str_lines (join [10] ls) = ls"
proof -
  have "split_char 10 (join [10] ls) = ls"
    using assms by (intro split_char_join) auto
  moreover have "map strip_cr (butlast ls) = butlast ls"
    using assms(2) by (intro map_idI) (auto simp: strip_cr_def dest: in_set_butlastD)
  ultimately show ?thesis
    using assms by (simp add: str_lines_def Let_def)
qed

subsection \<open>UTF-8 lengths and character boundaries\<close>

definition len_utf8 :: "uchar \<Rightarrow> nat" where
  "len_utf8 c = (if c < 128 then 1 else if c < 2048 then 2 else if c < 65536 then 3 else 4)"

definition str_len :: "str \<Rightarrow> nat" where
  "str_len s = sum_list (map len_utf8 s)"

text \<open>\<open>take_bytes s n\<close> is \<open>&s[..n]\<close>; \<open>None\<close> when \<open>n\<close> is not a character boundary.\<close>

fun take_bytes :: "str \<Rightarrow> nat \<Rightarrow> str option" where
  "take_bytes s 0 = Some []"
| "take_bytes [] (Suc n) = None"
| "take_bytes (c # cs) (Suc n) =
     (if len_utf8 c \<le> Suc n then map_option ((#) c) (take_bytes cs (Suc n - len_utf8 c)) else None)"

definition is_char_boundary :: "str \<Rightarrow> nat \<Rightarrow> bool" where
  "is_char_boundary s n \<longleftrightarrow> take_bytes s n \<noteq> None"

lemma len_utf8_pos [simp]: "0 < len_utf8 c"
  by (simp add: len_utf8_def)

lemma str_len_simps [simp]:
  "str_len [] = 0" "str_len (c # cs) = len_utf8 c + str_len cs"
  "str_len (s @ t) = str_len s + str_len t"
  by (simp_all add: str_len_def)

lemma take_bytes_prefix:
  "take_bytes s n = Some p \<Longrightarrow> str_len p = n \<and> (\<exists>t. s = p @ t)"
proof (induction s n arbitrary: p rule: take_bytes.induct)
  case (3 c cs n)
  then obtain q where "take_bytes cs (Suc n - len_utf8 c) = Some q" "p = c # q"
      and le: "len_utf8 c \<le> Suc n"
    by (auto split: if_splits)
  then show ?case
    using "3.IH" [OF le, of q] by auto
qed auto

lemma take_bytes_append: "take_bytes (p @ r) (str_len p) = Some p"
proof (induction p)
  case (Cons c p)
  obtain m where m: "len_utf8 c + str_len p = Suc m"
    by (metis add_is_0 len_utf8_pos not0_implies_Suc not_gr_zero)
  then have "len_utf8 c \<le> Suc m" "Suc m - len_utf8 c = str_len p"
    by linarith+
  then show ?case
    using Cons by (simp add: m)
qed simp

text \<open>Decimal rendering of an unsigned integer, as \<open>{}\<close> formats it.\<close>

fun show_nat :: "nat \<Rightarrow> str" where
  "show_nat n = (if n < 10 then [48 + n] else show_nat (n div 10) @ [48 + n mod 10])"

declare show_nat.simps [simp del]

text \<open>\<open>FromStr\<close> of an unsigned integer of \<open>bits\<close> bits.\<close>

definition is_digit :: "uchar \<Rightarrow> bool" where "is_digit c \<longleftrightarrow> 48 \<le> c \<and> c \<le> 57"

definition digits_value :: "str \<Rightarrow> nat" where
  "digits_value ds = foldl (\<lambda>v c. 10 * v + (c - 48)) 0 ds"

definition parse_uint :: "nat \<Rightarrow> str \<Rightarrow> nat option" where
  "parse_uint bits s =
     (let ds = (case s of c # cs \<Rightarrow> if c = 43 then cs else s | [] \<Rightarrow> s) in
      if ds = [] \<or> \<not> list_all is_digit ds \<or> digits_value ds \<ge> 2 ^ bits then None
      else Some (digits_value ds))"

lemma parse_uint_bound: "parse_uint bits s = Some v \<Longrightarrow> v < 2 ^ bits"
  by (simp add: parse_uint_def Let_def not_le split: if_splits)

text \<open>The first and the last occurrence of a pattern.\<close>

fun split_once :: "str \<Rightarrow> str \<Rightarrow> (str \<times> str) option" where
  "split_once pat [] = (if pat = [] then Some ([], []) else None)"
| "split_once pat (c # cs) =
     (case strip_prefix pat (c # cs) of
        Some r \<Rightarrow> Some ([], r)
      | None \<Rightarrow> map_option (\<lambda>(a, b). (c # a, b)) (split_once pat cs))"

definition rsplit_once :: "str \<Rightarrow> str \<Rightarrow> (str \<times> str) option" where
  "rsplit_once pat s = map_option (\<lambda>(a, b). (rev b, rev a)) (split_once (rev pat) (rev s))"

lemma strip_prefix_earlier:
  assumes "c \<notin> set p" "c \<notin> set a" "a \<noteq> []"
  shows "strip_prefix (p @ [c]) (a @ p @ c # r) = None"
proof (rule ccontr)
  assume "strip_prefix (p @ [c]) (a @ p @ c # r) \<noteq> None"
  then obtain q where "a @ p @ c # r = p @ c # q"
    by (auto simp: strip_prefix_Some_iff)
  then have "takeWhile (\<lambda>x. x \<noteq> c) ((a @ p) @ c # r) = takeWhile (\<lambda>x. x \<noteq> c) (p @ c # q)"
    by simp
  moreover have "takeWhile (\<lambda>x. x \<noteq> c) ((a @ p) @ c # r) = a @ p" "takeWhile (\<lambda>x. x \<noteq> c) (p @ c # q) = p"
    using assms by (subst takeWhile_append2; auto)+
  ultimately show False
    using assms(3) by simp
qed

lemma split_once_first:
  assumes "c \<notin> set p" "c \<notin> set a"
  shows "split_once (p @ [c]) (a @ p @ c # r) = Some (a, r)"
  using assms(2)
proof (induction a)
  case Nil
  have "strip_prefix (p @ [c]) (p @ c # r) = Some r"
    using strip_prefix_append [of "p @ [c]" r] by simp
  then show ?case
    by (cases p) simp_all
next
  case (Cons x a)
  then show ?case
    using strip_prefix_earlier [OF assms(1), of "x # a" r] by simp
qed

lemma join_snoc: "join sep (d @ [x]) = (if d = [] then x else join sep d @ sep @ x)"
  by (induction sep d rule: join.induct) (auto simp: neq_Nil_conv)

lemma map_filter_append: "List.map_filter f (xs @ ys) = List.map_filter f xs @ List.map_filter f ys"
  by (simp add: List.map_filter_def)

lemma set_map_filter: "y \<in> set (List.map_filter f xs) \<longleftrightarrow> (\<exists>x \<in> set xs. f x = Some y)"
  by (force simp: List.map_filter_def)

fun find_map :: "('a \<Rightarrow> 'b option) \<Rightarrow> 'a list \<Rightarrow> 'b option" where
  "find_map f [] = None"
| "find_map f (x # xs) = (case f x of Some y \<Rightarrow> Some y | None \<Rightarrow> find_map f xs)"

section \<open>Hash maps\<close>

type_synonym ('k, 'v) hmap = "('k \<times> 'v) list"

abbreviation hm_get :: "('k, 'v) hmap \<Rightarrow> 'k \<Rightarrow> 'v option" where
  "hm_get \<equiv> map_of"

abbreviation hm_keys :: "('k, 'v) hmap \<Rightarrow> 'k set" where
  "hm_keys m \<equiv> fst ` set m"

abbreviation hm_values :: "('k, 'v) hmap \<Rightarrow> 'v list" where
  "hm_values m \<equiv> map snd m"

definition hm_contains :: "('k, 'v) hmap \<Rightarrow> 'k \<Rightarrow> bool" where
  "hm_contains m k \<longleftrightarrow> map_of m k \<noteq> None"

definition hm_remove :: "'k \<Rightarrow> ('k, 'v) hmap \<Rightarrow> ('k, 'v) hmap" where
  "hm_remove k m = filter (\<lambda>(k', v). k' \<noteq> k) m"

fun hm_insert :: "'k \<Rightarrow> 'v \<Rightarrow> ('k, 'v) hmap \<Rightarrow> ('k, 'v) hmap" where
  "hm_insert k v [] = [(k, v)]"
| "hm_insert k v ((k', v') # m) = (if k' = k then (k, v) # m else (k', v') # hm_insert k v m)"

definition hm_map_values :: "('v \<Rightarrow> 'w) \<Rightarrow> ('k, 'v) hmap \<Rightarrow> ('k, 'w) hmap" where
  "hm_map_values f m = map (\<lambda>(k, v). (k, f v)) m"

definition hm_wf :: "('k, 'v) hmap \<Rightarrow> bool" where
  "hm_wf m \<longleftrightarrow> distinct (map fst m)"

text \<open>The interface the components rely on: what a lookup returns after each operation.\<close>

locale map_store =
  fixes get :: "'m \<Rightarrow> 'k \<Rightarrow> 'v option"
    and insert :: "'k \<Rightarrow> 'v \<Rightarrow> 'm \<Rightarrow> 'm"
    and remove :: "'k \<Rightarrow> 'm \<Rightarrow> 'm"
    and empty :: 'm
    and wf :: "'m \<Rightarrow> bool"
  assumes get_empty: "get empty k = None"
    and get_insert: "get (insert k v m) = (get m)(k \<mapsto> v)"
    and get_remove: "get (remove k m) = (get m)(k := None)"
    and wf_empty: "wf empty"
    and wf_insert: "wf m \<Longrightarrow> wf (insert k v m)"
    and wf_remove: "wf m \<Longrightarrow> wf (remove k m)"
begin

lemma get_remove_insert: "get (remove k (insert k v m)) = (get m)(k := None)"
  by (simp add: get_insert get_remove)

lemma get_insert_remove: "get (insert k v (remove k m)) = (get m)(k \<mapsto> v)"
  by (simp add: get_insert get_remove)

lemma dom_insert: "dom (get (insert k v m)) = Set.insert k (dom (get m))"
  by (simp add: get_insert)

lemma dom_remove: "dom (get (remove k m)) = dom (get m) - {k}"
  by (auto simp: get_remove)

end

lemma hm_get_insert: "hm_get (hm_insert k v m) = (hm_get m)(k \<mapsto> v)"
  by (induction k v m rule: hm_insert.induct) auto

lemma hm_get_remove: "hm_get (hm_remove k m) = (hm_get m)(k := None)"
  by (induction m) (auto simp: hm_remove_def fun_upd_def)

lemma hm_keys_insert: "hm_keys (hm_insert k v m) = insert k (hm_keys m)"
  by (induction k v m rule: hm_insert.induct) auto

lemma hm_keys_remove: "hm_keys (hm_remove k m) = hm_keys m - {k}"
  by (auto simp: hm_remove_def image_iff)

lemma hm_wf_insert: "hm_wf m \<Longrightarrow> hm_wf (hm_insert k v m)"
  by (induction k v m rule: hm_insert.induct)
    (auto simp: hm_wf_def hm_keys_insert)

lemma hm_wf_remove: "hm_wf m \<Longrightarrow> hm_wf (hm_remove k m)"
  by (auto simp: hm_wf_def hm_remove_def distinct_map_filter)

lemma hm_wf_Nil [simp]: "hm_wf []"
  by (simp add: hm_wf_def)

interpretation hm: map_store hm_get hm_insert hm_remove "[]" hm_wf
  by unfold_locales (simp_all add: hm_get_insert hm_get_remove hm_wf_insert hm_wf_remove)

lemma hm_keys_dom: "hm_keys m = dom (hm_get m)"
  by (simp add: dom_map_of_conv_image_fst)

lemma hm_contains_iff: "hm_contains m k \<longleftrightarrow> k \<in> hm_keys m"
  by (auto simp: hm_contains_def map_of_eq_None_iff)

lemma hm_get_map_values: "hm_get (hm_map_values f m) k = map_option f (hm_get m k)"
  by (induction m) (auto simp: hm_map_values_def)

lemma hm_keys_map_values: "hm_keys (hm_map_values f m) = hm_keys m"
  by (force simp: hm_map_values_def)

lemma map_fst_map_values [simp]: "map fst (hm_map_values f m) = map fst m"
  by (simp add: hm_map_values_def case_prod_unfold comp_def)

lemma hm_wf_map_values [simp]: "hm_wf (hm_map_values f m) = hm_wf m"
  by (simp add: hm_wf_def)

lemma hm_values_map_values: "hm_values (hm_map_values f m) = map f (hm_values m)"
  by (simp add: hm_map_values_def case_prod_unfold comp_def)

lemma length_hm_insert:
  "length (hm_insert k v m) = (if k \<in> hm_keys m then length m else Suc (length m))"
  by (induction k v m rule: hm_insert.induct) auto

lemma length_hm_remove:
  "hm_wf m \<Longrightarrow> length (hm_remove k m) = (if k \<in> hm_keys m then length m - 1 else length m)"
proof (induction m)
  case (Cons p m)
  obtain k' v where p: "p = (k', v)" by force
  have "length (hm_remove k (p # m)) = (if k' = k then 0 else 1) + length (hm_remove k m)"
    by (simp add: p hm_remove_def)
  moreover have "k' = k \<Longrightarrow> k \<notin> hm_keys m"
    using Cons.prems by (simp add: hm_wf_def p)
  moreover have "k \<in> hm_keys m \<Longrightarrow> 0 < length m" by auto
  ultimately show ?case
    using Cons by (auto simp: p hm_wf_def)
qed (simp add: hm_remove_def)

lemma hm_insert_new: "k \<notin> hm_keys m \<Longrightarrow> hm_insert k v m = m @ [(k, v)]"
  by (induction k v m rule: hm_insert.induct) auto

lemma hm_remove_absent: "k \<notin> hm_keys m \<Longrightarrow> hm_remove k m = m"
  by (force simp: hm_remove_def filter_id_conv)

lemmas hm_lookup = hm_get_insert hm_get_remove hm_get_map_values
lemmas hm_key_sets = hm_keys_insert hm_keys_remove hm_keys_map_values
declare hm_lookup [hm_simps] hm_key_sets [hm_simps]

section \<open>JSON values\<close>

text \<open>\<open>serde_json::Value\<close>; a number is kept as its text.\<close>

datatype json =
    JNull | JBool bool | JNumber str | JString str | JArray "json list" | JObject "(str \<times> json) list"

primrec as_bool :: "json \<Rightarrow> bool option" where
  "as_bool JNull = None"
| "as_bool (JBool b) = Some b"
| "as_bool (JNumber n) = None"
| "as_bool (JString s) = None"
| "as_bool (JArray xs) = None"
| "as_bool (JObject kvs) = None"

primrec as_str :: "json \<Rightarrow> str option" where
  "as_str JNull = None"
| "as_str (JBool b) = None"
| "as_str (JNumber n) = None"
| "as_str (JString s) = Some s"
| "as_str (JArray xs) = None"
| "as_str (JObject kvs) = None"

definition json_get :: "str \<Rightarrow> json \<Rightarrow> json option" where
  "json_get k v = (case v of JObject kvs \<Rightarrow> map_of kvs k | _ \<Rightarrow> None)"

section \<open>Reachable states and inductive invariants\<close>

inductive reach :: "('s \<Rightarrow> bool) \<Rightarrow> ('s \<Rightarrow> 's \<Rightarrow> bool) \<Rightarrow> 's \<Rightarrow> bool"
  for init :: "'s \<Rightarrow> bool" and step :: "'s \<Rightarrow> 's \<Rightarrow> bool" where
  reach_init: "init s \<Longrightarrow> reach init step s"
| reach_step: "reach init step s \<Longrightarrow> step s t \<Longrightarrow> reach init step t"

locale inductive_invariant =
  fixes init :: "'s \<Rightarrow> bool" and step :: "'s \<Rightarrow> 's \<Rightarrow> bool" and inv :: "'s \<Rightarrow> bool"
  assumes init_inv: "init s \<Longrightarrow> inv s"
    and step_inv: "inv s \<Longrightarrow> step s t \<Longrightarrow> inv t"
begin

lemma reach_inv: "reach init step s \<Longrightarrow> inv s"
  by (induction rule: reach.induct) (auto intro: init_inv step_inv)

lemma steps_inv: "step\<^sup>*\<^sup>* s t \<Longrightarrow> inv s \<Longrightarrow> inv t"
  by (induction rule: rtranclp_induct) (auto intro: step_inv)

end

end
