(* ===== verification/Patch_Parser.thy ===== *)
theory Patch_Parser
  imports Prelude
begin

text \<open>
  The parser of the patch format
  (\<open>xai-grok-tools/src/implementations/codex/apply_patch/parser.rs\<close>, errors of \<open>errors.rs\<close>).
  Slices and indexing that would panic out of range are \<open>Panic\<close> values; the two loops consume
  at least one line per round, which is their termination argument.
\<close>

section \<open>Data\<close>

datatype parse_error =
    InvalidPatchError str
  | InvalidHunkError (message: str) (line_number: nat)

record update_file_chunk =
  change_context :: "str option"
  old_lines :: "str list"
  new_lines :: "str list"
  is_end_of_file :: bool

datatype hunk =
    AddFile (path: str) (contents: str)
  | DeleteFile (path: str)
  | UpdateFile (path: str) (move_path: "str option") (chunks: "update_file_chunk list")

record parsed_patch =
  hunks :: "hunk list"
  patch :: str

datatype parse_mode = Strict | Lenient

definition BEGIN_PATCH_MARKER :: str where
  "BEGIN_PATCH_MARKER = lit ''*** Begin Patch''"
definition END_PATCH_MARKER :: str where
  "END_PATCH_MARKER = lit ''*** End Patch''"
definition ADD_FILE_MARKER :: str where
  "ADD_FILE_MARKER = lit ''*** Add File: ''"
definition DELETE_FILE_MARKER :: str where
  "DELETE_FILE_MARKER = lit ''*** Delete File: ''"
definition UPDATE_FILE_MARKER :: str where
  "UPDATE_FILE_MARKER = lit ''*** Update File: ''"
definition MOVE_TO_MARKER :: str where
  "MOVE_TO_MARKER = lit ''*** Move to: ''"
definition EOF_MARKER :: str where
  "EOF_MARKER = lit ''*** End of File''"
definition CHANGE_CONTEXT_MARKER :: str where
  "CHANGE_CONTEXT_MARKER = lit ''@@ ''"
definition EMPTY_CHANGE_CONTEXT_MARKER :: str where
  "EMPTY_CHANGE_CONTEXT_MARKER = lit ''@@''"

lemmas marker_defs =
  BEGIN_PATCH_MARKER_def END_PATCH_MARKER_def ADD_FILE_MARKER_def DELETE_FILE_MARKER_def
  UPDATE_FILE_MARKER_def MOVE_TO_MARKER_def EOF_MARKER_def CHANGE_CONTEXT_MARKER_def
  EMPTY_CHANGE_CONTEXT_MARKER_def

definition quoted :: "str \<Rightarrow> str" where
  "quoted s = [39] @ s @ [39]"

section \<open>Boundary checks\<close>

definition check_start_and_end_lines_strict ::
  "str option \<Rightarrow> str option \<Rightarrow> (parse_error, unit) res" where
  "check_start_and_end_lines_strict first_line last_line =
     (case (map_option trim first_line, map_option trim last_line) of
        (Some first, Some lst) \<Rightarrow>
          if first = BEGIN_PATCH_MARKER \<and> lst = END_PATCH_MARKER then Ok ()
          else if first \<noteq> BEGIN_PATCH_MARKER
          then Err (InvalidPatchError
            (lit ''The first line of the patch must be '' @ quoted BEGIN_PATCH_MARKER))
          else Err (InvalidPatchError
            (lit ''The last line of the patch must be '' @ quoted END_PATCH_MARKER))
      | (Some first, None) \<Rightarrow>
          if first \<noteq> BEGIN_PATCH_MARKER
          then Err (InvalidPatchError
            (lit ''The first line of the patch must be '' @ quoted BEGIN_PATCH_MARKER))
          else Err (InvalidPatchError
            (lit ''The last line of the patch must be '' @ quoted END_PATCH_MARKER))
      | (None, _) \<Rightarrow> Err (InvalidPatchError
            (lit ''The last line of the patch must be '' @ quoted END_PATCH_MARKER)))"

fun check_patch_boundaries_strict :: "str list \<Rightarrow> (parse_error, unit) res" where
  "check_patch_boundaries_strict [] = check_start_and_end_lines_strict None None"
| "check_patch_boundaries_strict [first] =
     check_start_and_end_lines_strict (Some first) (Some first)"
| "check_patch_boundaries_strict (first # l # ls) =
     check_start_and_end_lines_strict (Some first) (Some (last (l # ls)))"

definition check_patch_boundaries_lenient ::
  "str list \<Rightarrow> parse_error \<Rightarrow> (parse_error, str list) res" where
  "check_patch_boundaries_lenient original_lines original_parse_error =
     (case original_lines of
        first # l # ls \<Rightarrow>
          if (first = lit ''<<EOF'' \<or> first = lit ''<<'' @ quoted (lit ''EOF'') \<or>
              first = lit ''<<'' @ [34] @ lit ''EOF'' @ [34]) \<and>
             ends_with (lit ''EOF'') (last (l # ls)) \<and> 4 \<le> length original_lines
          then let inner_lines = butlast (tl original_lines)
               in bind_res (check_patch_boundaries_strict inner_lines) (\<lambda>_. Ok inner_lines)
          else Err original_parse_error
      | _ \<Rightarrow> Err original_parse_error)"

section \<open>One update chunk\<close>

fun chunk_loop ::
  "nat \<Rightarrow> str list \<Rightarrow> update_file_chunk \<Rightarrow> nat \<Rightarrow> (parse_error, update_file_chunk \<times> nat) res" where
  "chunk_loop ln [] chunk parsed_lines = Ok (chunk, parsed_lines)"
| "chunk_loop ln (l # ls) chunk parsed_lines =
     (if l = EOF_MARKER
      then if parsed_lines = 0
           then Err (InvalidHunkError (lit ''Update hunk does not contain any lines'') (ln + 1))
           else Ok (chunk\<lparr>is_end_of_file := True\<rparr>, parsed_lines + 1)
      else case l of
        [] \<Rightarrow> chunk_loop ln ls
          (chunk\<lparr>old_lines := old_lines chunk @ [[]], new_lines := new_lines chunk @ [[]]\<rparr>)
          (parsed_lines + 1)
      | c # cs \<Rightarrow>
          if c = 32 then chunk_loop ln ls
            (chunk\<lparr>old_lines := old_lines chunk @ [cs], new_lines := new_lines chunk @ [cs]\<rparr>)
            (parsed_lines + 1)
          else if c = 43 then chunk_loop ln ls
            (chunk\<lparr>new_lines := new_lines chunk @ [cs]\<rparr>) (parsed_lines + 1)
          else if c = 45 then chunk_loop ln ls
            (chunk\<lparr>old_lines := old_lines chunk @ [cs]\<rparr>) (parsed_lines + 1)
          else if parsed_lines = 0
          then Err (InvalidHunkError
            (lit ''Unexpected line found in update hunk: '' @ quoted l @
             lit ''. Every line should start with '' @ quoted [32] @ lit '' (context line), '' @
             quoted [43] @ lit '' (added line), or '' @ quoted [45] @ lit '' (removed line)'')
            (ln + 1))
          else Ok (chunk, parsed_lines))"

definition chunk_header :: "str \<Rightarrow> nat \<Rightarrow> bool \<Rightarrow> (parse_error, str option \<times> nat) res" where
  "chunk_header l0 ln allow_missing_context =
     (if l0 = EMPTY_CHANGE_CONTEXT_MARKER then Ok (None, 1)
      else case strip_prefix CHANGE_CONTEXT_MARKER l0 of
          Some context \<Rightarrow> Ok (Some context, 1)
        | None \<Rightarrow>
            if \<not> allow_missing_context
            then Err (InvalidHunkError
              (lit ''Expected update hunk to start with a @@ context marker, got: '' @ quoted l0) ln)
            else Ok (None, 0))"

definition parse_update_file_chunk ::
  "str list \<Rightarrow> nat \<Rightarrow> bool \<Rightarrow> (parse_error, update_file_chunk \<times> nat) res" where
  "parse_update_file_chunk ls ln allow_missing_context =
     (case ls of
        [] \<Rightarrow> Err (InvalidHunkError (lit ''Update hunk does not contain any lines'') ln)
      | l0 # _ \<Rightarrow>
          bind_res (chunk_header l0 ln allow_missing_context)
            (\<lambda>(ctx, start_index).
               if length ls \<le> start_index
               then Err (InvalidHunkError (lit ''Update hunk does not contain any lines'') (ln + 1))
               else
                 bind_res
                   (chunk_loop ln (drop start_index ls)
                     \<lparr>change_context = ctx, old_lines = [], new_lines = [], is_end_of_file = False\<rparr>
                     0)
                   (\<lambda>(chunk, parsed_lines). Ok (chunk, parsed_lines + start_index))))"

lemma chunk_header_no_panic: "chunk_header l0 ln b \<noteq> Panic"
  by (auto simp: chunk_header_def split: option.splits)

lemma chunk_loop_parsed:
  "chunk_loop ln ls chunk n = Ok (chunk', m) \<Longrightarrow>
   n \<le> m \<and> m \<le> n + length ls \<and> (ls \<noteq> [] \<longrightarrow> n = 0 \<longrightarrow> 0 < m)"
  by (induction ln ls chunk n rule: chunk_loop.induct)
    (fastforce split: if_splits list.splits)+

lemma chunk_loop_no_panic: "chunk_loop ln ls chunk n \<noteq> Panic"
  by (induction ln ls chunk n rule: chunk_loop.induct) (auto split: list.splits)

lemma parse_update_file_chunk_consumes:
  assumes "parse_update_file_chunk ls ln b = Ok (chunk, n)"
  shows "0 < n \<and> n \<le> length ls"
proof -
  from assms obtain l0 ls' ctx k m where ls: "ls = l0 # ls'" and k: "k < length ls"
    and loop: "chunk_loop ln (drop k ls)
      \<lparr>change_context = ctx, old_lines = [], new_lines = [], is_end_of_file = False\<rparr> 0 =
      Ok (chunk, m)" and n: "n = m + k"
    by (fastforce simp: parse_update_file_chunk_def bind_res_Ok_iff not_le
        split: list.splits if_splits)
  from chunk_loop_parsed [OF loop] k n show ?thesis by auto
qed

lemma parse_update_file_chunk_no_panic: "parse_update_file_chunk ls ln b \<noteq> Panic"
  by (auto simp: parse_update_file_chunk_def bind_res_Panic_iff chunk_loop_no_panic
      chunk_header_no_panic split: list.splits if_splits)

section \<open>One hunk\<close>

fun add_loop :: "str list \<Rightarrow> str \<Rightarrow> nat \<Rightarrow> str \<times> nat" where
  "add_loop [] acc n = (acc, n)"
| "add_loop (l # ls) acc n =
     (case strip_prefix [43] l of
        Some line_to_add \<Rightarrow> add_loop ls (acc @ line_to_add @ [10]) (n + 1)
      | None \<Rightarrow> (acc, n))"

function update_loop ::
  "nat \<Rightarrow> str list \<Rightarrow> nat \<Rightarrow> update_file_chunk list \<Rightarrow>
   (parse_error, update_file_chunk list \<times> nat) res" where
  "update_loop ln remaining parsed_lines cs =
     (case remaining of
        [] \<Rightarrow> Ok (cs, parsed_lines)
      | l # ls \<Rightarrow>
          if trim l = [] then update_loop ln ls (parsed_lines + 1) cs
          else if starts_with (lit ''***'') l then Ok (cs, parsed_lines)
          else case parse_update_file_chunk remaining (ln + parsed_lines) (cs = []) of
              Err e \<Rightarrow> Err e
            | Panic \<Rightarrow> Panic
            | Ok (chunk, n) \<Rightarrow>
                if n \<le> length remaining
                then update_loop ln (drop n remaining) (parsed_lines + n) (cs @ [chunk])
                else Panic)"
  by pat_completeness auto
termination
  by (relation "measure (\<lambda>(ln, remaining, n, cs). length remaining)")
    (auto dest: parse_update_file_chunk_consumes)

declare update_loop.simps [simp del]

definition parse_one_hunk :: "str list \<Rightarrow> nat \<Rightarrow> (parse_error, hunk \<times> nat) res" where
  "parse_one_hunk ls ln =
     (case ls of
        [] \<Rightarrow> Panic
      | l0 # rest \<Rightarrow>
          let first_line = trim l0 in
          case strip_prefix ADD_FILE_MARKER first_line of
            Some p \<Rightarrow> (case add_loop rest [] 1 of (cts, n) \<Rightarrow> Ok (AddFile p cts, n))
          | None \<Rightarrow>
          case strip_prefix DELETE_FILE_MARKER first_line of
            Some p \<Rightarrow> Ok (DeleteFile p, 1)
          | None \<Rightarrow>
          case strip_prefix UPDATE_FILE_MARKER first_line of
            Some p \<Rightarrow>
              let mv = (case rest of [] \<Rightarrow> None | x # _ \<Rightarrow> strip_prefix MOVE_TO_MARKER x);
                  remaining = (if mv = None then rest else tl rest);
                  parsed_lines = (if mv = None then 1 else 2)
              in bind_res (update_loop ln remaining parsed_lines [])
                   (\<lambda>(cs, n).
                      if cs = []
                      then Err (InvalidHunkError
                        (lit ''Update file hunk for path '' @ quoted p @ lit '' is empty'') ln)
                      else Ok (UpdateFile p mv cs, n))
          | None \<Rightarrow> Err (InvalidHunkError
              (quoted first_line @
               lit '' is not a valid hunk header. Valid hunk headers: '' @
               quoted (lit ''*** Add File: {path}'') @ lit '', '' @
               quoted (lit ''*** Delete File: {path}'') @ lit '', '' @
               quoted (lit ''*** Update File: {path}'')) ln))"

lemma add_loop_count: "add_loop ls acc n = (acc', m) \<Longrightarrow> n \<le> m \<and> m \<le> n + length ls"
  by (induction ls acc n rule: add_loop.induct) (auto split: option.splits)

text \<open>How one round of the chunk loop can go; the induction proofs split on it.\<close>

lemma update_loop_cases:
  obtains (stop) "update_loop ln remaining n cs = Ok (cs, n)"
  | (blank) l ls where "remaining = l # ls" "trim l = []"
      "update_loop ln remaining n cs = update_loop ln ls (n + 1) cs"
  | (fail) e where "update_loop ln remaining n cs = Err e"
  | (chunk) l ls chunk k where "remaining = l # ls" "trim l \<noteq> []" "\<not> starts_with (lit ''***'') l"
      "parse_update_file_chunk remaining (ln + n) (cs = []) = Ok (chunk, k)"
      "0 < k" "k \<le> length remaining"
      "update_loop ln remaining n cs = update_loop ln (drop k remaining) (n + k) (cs @ [chunk])"
proof (cases remaining)
  case Nil
  then show ?thesis by (intro stop) (simp add: update_loop.simps)
next
  case (Cons l ls)
  show ?thesis
  proof (cases "trim l = [] \<or> starts_with (lit ''***'') l")
    case True
    then show ?thesis
      using Cons update_loop.simps [of ln "l # ls" n cs]
      by (cases "trim l = []") (auto intro: stop blank)
  next
    case False
    show ?thesis
    proof (cases "parse_update_file_chunk remaining (ln + n) (cs = [])")
      case (Ok r)
      obtain c k where r: "r = (c, k)" by force
      have k: "0 < k \<and> k \<le> length remaining"
        using Ok r by (auto dest: parse_update_file_chunk_consumes)
      show ?thesis
        using False Cons Ok r k
        by (intro chunk [of l ls c k]) (simp_all add: update_loop.simps [of ln "l # ls" n cs])
    next
      case (Err e)
      then show ?thesis
        using False Cons by (intro fail [of e]) (simp add: update_loop.simps [of ln "l # ls" n cs])
    next
      case Panic
      then show ?thesis by (simp add: parse_update_file_chunk_no_panic)
    qed
  qed
qed

lemma update_loop_count:
  "update_loop ln remaining n cs = Ok (cs', m) \<Longrightarrow> n \<le> m \<and> m \<le> n + length remaining"
proof (induction "length remaining" arbitrary: remaining n cs rule: less_induct)
  case less
  show ?case
  proof (cases rule: update_loop_cases [of ln remaining n cs])
    case (blank l ls)
    then show ?thesis using less.hyps [of ls "n + 1" cs] less.prems by simp
  next
    case (chunk l ls c k)
    then show ?thesis
      using less.hyps [of "drop k remaining" "n + k" "cs @ [c]"] less.prems by simp
  qed (use less.prems in auto)
qed

lemma update_loop_no_panic: "update_loop ln remaining n cs \<noteq> Panic"
proof (induction "length remaining" arbitrary: remaining n cs rule: less_induct)
  case less
  show ?case
  proof (cases rule: update_loop_cases [of ln remaining n cs])
    case (blank l ls)
    then show ?thesis using less.hyps [of ls "n + 1" cs] by simp
  next
    case (chunk l ls c k)
    then show ?thesis using less.hyps [of "drop k remaining" "n + k" "cs @ [c]"] by simp
  qed auto
qed

lemma parse_one_hunk_consumes:
  "parse_one_hunk ls ln = Ok (h, n) \<Longrightarrow> 0 < n \<and> n \<le> length ls"
  by (fastforce simp: parse_one_hunk_def bind_res_Ok_iff Let_def
      split: list.splits option.splits prod.splits if_splits
      dest: add_loop_count update_loop_count)

lemma parse_one_hunk_no_panic: "ls \<noteq> [] \<Longrightarrow> parse_one_hunk ls ln \<noteq> Panic"
  by (auto simp: parse_one_hunk_def Let_def bind_res_Panic_iff update_loop_no_panic
      split: list.splits option.splits prod.splits if_splits)

section \<open>The whole patch\<close>

function hunk_loop :: "str list \<Rightarrow> nat \<Rightarrow> hunk list \<Rightarrow> (parse_error, hunk list) res" where
  "hunk_loop remaining ln hs =
     (if remaining = [] then Ok hs
      else case parse_one_hunk remaining ln of
          Err e \<Rightarrow> Err e
        | Panic \<Rightarrow> Panic
        | Ok (h, n) \<Rightarrow>
            if n \<le> length remaining then hunk_loop (drop n remaining) (ln + n) (hs @ [h]) else Panic)"
  by pat_completeness auto
termination
  by (relation "measure (\<lambda>(remaining, ln, hs). length remaining)")
    (auto dest: parse_one_hunk_consumes)

declare hunk_loop.simps [simp del]

text \<open>The slice \<open>&lines[1..last_line_index]\<close>, a panic when there are fewer than two lines.\<close>

definition inner_slice :: "str list \<Rightarrow> (parse_error, str list) res" where
  "inner_slice ls = (if 1 \<le> length ls - 1 then Ok (butlast (tl ls)) else Panic)"

definition parse_patch_text :: "str \<Rightarrow> parse_mode \<Rightarrow> (parse_error, parsed_patch) res" where
  "parse_patch_text p mode =
     (let all_lines = str_lines (trim p) in
      bind_res
        (case check_patch_boundaries_strict all_lines of
           Ok _ \<Rightarrow> Ok all_lines
         | Panic \<Rightarrow> Panic
         | Err e \<Rightarrow> (case mode of
             Strict \<Rightarrow> Err e
           | Lenient \<Rightarrow> check_patch_boundaries_lenient all_lines e))
        (\<lambda>ls. bind_res (inner_slice ls) (\<lambda>remaining.
           bind_res (hunk_loop remaining 2 []) (\<lambda>hs.
             Ok \<lparr>hunks = hs, patch = join [10] ls\<rparr>))))"

definition PARSE_IN_STRICT_MODE :: bool where
  "PARSE_IN_STRICT_MODE = False"

definition parse_patch :: "str \<Rightarrow> (parse_error, parsed_patch) res" where
  "parse_patch p = parse_patch_text p (if PARSE_IN_STRICT_MODE then Strict else Lenient)"

lemma check_strict_Ok:
  "check_patch_boundaries_strict ls = Ok () \<Longrightarrow>
   2 \<le> length ls \<and> trim (hd ls) = BEGIN_PATCH_MARKER \<and> trim (last ls) = END_PATCH_MARKER"
  by (induction ls rule: check_patch_boundaries_strict.induct)
    (auto simp: check_start_and_end_lines_strict_def marker_defs split: if_splits)

lemma check_strict_no_panic: "check_patch_boundaries_strict ls \<noteq> Panic"
  by (induction ls rule: check_patch_boundaries_strict.induct)
    (auto simp: check_start_and_end_lines_strict_def)

lemma check_lenient_Ok:
  "check_patch_boundaries_lenient ls e = Ok ls' \<Longrightarrow> check_patch_boundaries_strict ls' = Ok ()"
  by (auto simp: check_patch_boundaries_lenient_def bind_res_Ok_iff Let_def
      split: list.splits if_splits)

lemma check_lenient_no_panic: "check_patch_boundaries_lenient ls e \<noteq> Panic"
  by (auto simp: check_patch_boundaries_lenient_def bind_res_Panic_iff Let_def check_strict_no_panic
      split: list.splits)

lemma hunk_loop_no_panic: "hunk_loop remaining ln hs \<noteq> Panic"
proof (induction remaining ln hs rule: hunk_loop.induct)
  case (1 remaining ln hs)
  then show ?case
    by (subst hunk_loop.simps)
      (auto split: res.splits prod.splits dest: parse_one_hunk_consumes
        dest!: parse_one_hunk_no_panic [THEN notE, rotated])
qed

lemma inner_slice_no_panic: "2 \<le> length ls \<Longrightarrow> inner_slice ls \<noteq> Panic"
  by (simp add: inner_slice_def)

lemma parse_no_panic: "parse_patch_text p mode \<noteq> Panic"
proof -
  have "2 \<le> length ls" if "check_patch_boundaries_strict ls = Ok ()" for ls
    using check_strict_Ok [OF that] by simp
  then show ?thesis
    by (auto simp: parse_patch_text_def Let_def bind_res_Panic_iff check_strict_no_panic
        check_lenient_no_panic hunk_loop_no_panic
        split: res.splits parse_mode.splits
        dest: check_lenient_Ok inner_slice_no_panic)
qed

text \<open>
  C2. The parser always returns a parsed patch or an error and never panics: every index and
  every slice it takes is in range and both of its loops end, for every input text and in both
  modes.  An accepted text is framed by the two patch markers.
\<close>

theorem parse_patch_text_total:
  "(\<exists>e. parse_patch_text p mode = Err e) \<or>
   (\<exists>r ls. parse_patch_text p mode = Ok r \<and> patch r = join [10] ls \<and> 2 \<le> length ls \<and>
      trim (hd ls) = BEGIN_PATCH_MARKER \<and> trim (last ls) = END_PATCH_MARKER)"
proof (cases "parse_patch_text p mode")
  case (Ok r)
  then obtain ls where "check_patch_boundaries_strict ls = Ok ()" "patch r = join [10] ls"
    by (auto simp: parse_patch_text_def Let_def bind_res_Ok_iff
        split: res.splits parse_mode.splits dest: check_lenient_Ok)
  with Ok show ?thesis using check_strict_Ok by blast
qed (simp_all add: parse_no_panic)

end
