(* ===== verification/Patch_Roundtrip.thy ===== *)
theory Patch_Roundtrip
  imports Patch_Parser
begin

text \<open>
  A printer for the patch format, following the grammar in the header comment of \<open>parser.rs\<close>,
  and the theorem that the parser inverts it.
\<close>

section \<open>The printer\<close>

definition print_chunk :: "update_file_chunk \<Rightarrow> str list" where
  "print_chunk c =
     (case change_context c of
        None \<Rightarrow> EMPTY_CHANGE_CONTEXT_MARKER | Some ctx \<Rightarrow> CHANGE_CONTEXT_MARKER @ ctx) #
     map ((#) 45) (old_lines c) @ map ((#) 43) (new_lines c) @
     (if is_end_of_file c then [EOF_MARKER] else [])"

fun print_hunk :: "hunk \<Rightarrow> str list" where
  "print_hunk (AddFile p cts) =
     (ADD_FILE_MARKER @ p) # map ((#) 43) (butlast (split_char 10 cts))"
| "print_hunk (DeleteFile p) = [DELETE_FILE_MARKER @ p]"
| "print_hunk (UpdateFile p mv cs) =
     (UPDATE_FILE_MARKER @ p) #
     (case mv of None \<Rightarrow> [] | Some q \<Rightarrow> [MOVE_TO_MARKER @ q]) @ concat (map print_chunk cs)"

definition print_patch :: "hunk list \<Rightarrow> str" where
  "print_patch hs =
     join [10] (BEGIN_PATCH_MARKER # concat (map print_hunk hs) @ [END_PATCH_MARKER])"

text \<open>
  What a patch can carry: a line has no line feed and no final carriage return, a path has no
  line feed and does not end in white space, the text of an added file is empty or ends its
  last line, and a chunk changes something.
\<close>

definition line_ok :: "str \<Rightarrow> bool" where
  "line_ok l \<longleftrightarrow> 10 \<notin> set l \<and> (l = [] \<or> last l \<noteq> 13)"

definition path_ok :: "str \<Rightarrow> bool" where
  "path_ok p \<longleftrightarrow> p \<noteq> [] \<and> 10 \<notin> set p \<and> \<not> is_whitespace (last p)"

definition chunk_ok :: "update_file_chunk \<Rightarrow> bool" where
  "chunk_ok c \<longleftrightarrow> (old_lines c \<noteq> [] \<or> new_lines c \<noteq> []) \<and>
     list_all line_ok (old_lines c) \<and> list_all line_ok (new_lines c) \<and>
     (case change_context c of None \<Rightarrow> True | Some ctx \<Rightarrow> line_ok ctx)"

fun hunk_ok :: "hunk \<Rightarrow> bool" where
  "hunk_ok (AddFile p cts) \<longleftrightarrow>
     path_ok p \<and> last (split_char 10 cts) = [] \<and> list_all line_ok (split_char 10 cts)"
| "hunk_ok (DeleteFile p) \<longleftrightarrow> path_ok p"
| "hunk_ok (UpdateFile p mv cs) \<longleftrightarrow>
     path_ok p \<and> (case mv of None \<Rightarrow> True | Some q \<Rightarrow> line_ok q) \<and> cs \<noteq> [] \<and> list_all chunk_ok cs"

text \<open>A line that ends a chunk: a hunk header or the next context marker.\<close>

definition is_header :: "str \<Rightarrow> bool" where
  "is_header l \<longleftrightarrow> starts_with (lit ''***'') l \<and> l \<noteq> EOF_MARKER"

definition ends_chunk :: "str list \<Rightarrow> bool" where
  "ends_chunk rest \<longleftrightarrow>
     rest = [] \<or> is_header (hd rest) \<or> (\<exists>cs. hd rest = 64 # cs)"

section \<open>Chunks\<close>

lemma chunk_loop_dels:
  "chunk_loop ln (map ((#) 45) xs @ rest) c n =
   chunk_loop ln rest (c\<lparr>old_lines := old_lines c @ xs\<rparr>) (n + length xs)"
  by (induction xs arbitrary: c n) (auto simp: marker_defs)

lemma chunk_loop_adds:
  "chunk_loop ln (map ((#) 43) xs @ rest) c n =
   chunk_loop ln rest (c\<lparr>new_lines := new_lines c @ xs\<rparr>) (n + length xs)"
  by (induction xs arbitrary: c n) (auto simp: marker_defs)

lemma chunk_loop_stop:
  assumes "ends_chunk rest" and "0 < n"
  shows "chunk_loop ln rest c n = Ok (c, n)"
proof (cases rest)
  case (Cons l ls)
  with assms have "is_header l \<or> (\<exists>cs. l = 64 # cs)" by (simp add: ends_chunk_def)
  then show ?thesis
    using Cons \<open>0 < n\<close>
    by (auto simp: is_header_def starts_with_def marker_defs split: list.splits)
qed simp

lemma chunk_header_print:
  "chunk_header (hd (print_chunk c)) ln b = Ok (change_context c, 1)"
  by (cases "change_context c")
    (auto simp: print_chunk_def chunk_header_def marker_defs)

lemma parse_update_file_chunk_print:
  assumes "chunk_ok c" and "\<not> is_end_of_file c \<longrightarrow> ends_chunk rest"
  shows "parse_update_file_chunk (print_chunk c @ rest) ln b = Ok (c, length (print_chunk c))"
proof -
  let ?body = "map ((#) 45) (old_lines c) @ map ((#) 43) (new_lines c) @
    (if is_end_of_file c then [EOF_MARKER] else [])"
  let ?c0 = "\<lparr>change_context = change_context c, old_lines = [], new_lines = [],
    is_end_of_file = False\<rparr>"
  obtain h where split: "print_chunk c = h # ?body"
    by (simp add: print_chunk_def)
  have pos: "0 < length (old_lines c) + length (new_lines c)"
    using assms(1) by (auto simp: chunk_ok_def)
  have loop: "chunk_loop ln (?body @ rest) ?c0 0 = Ok (c, length ?body)"
  proof (cases "is_end_of_file c")
    case True
    with pos show ?thesis by (simp add: chunk_loop_dels chunk_loop_adds)
  next
    case False
    with assms(2) pos show ?thesis
      by (simp add: chunk_loop_dels chunk_loop_adds chunk_loop_stop)
  qed
  have "?body @ rest \<noteq> []" using pos by auto
  moreover have "chunk_header h ln b = Ok (change_context c, 1)"
    using chunk_header_print [of c ln b] by (simp add: split)
  ultimately show ?thesis
    using loop unfolding split by (simp add: parse_update_file_chunk_def)
qed

lemma print_chunk_hd: "\<exists>cs. hd (print_chunk c) = 64 # cs"
  by (cases "change_context c") (auto simp: print_chunk_def marker_defs)

lemma print_chunk_ne: "print_chunk c \<noteq> []"
  by (simp add: print_chunk_def)

lemma ends_chunk_print:
  "rest = [] \<or> is_header (hd rest) \<Longrightarrow> ends_chunk (concat (map print_chunk cs) @ rest)"
proof (cases cs)
  case (Cons c cs')
  then show ?thesis
    using print_chunk_hd [of c] print_chunk_ne [of c]
    by (auto simp: ends_chunk_def hd_append)
qed (auto simp: ends_chunk_def)

lemma update_loop_stop:
  "rest = [] \<or> is_header (hd rest) \<Longrightarrow> update_loop ln rest n acc = Ok (acc, n)"
proof (cases rest)
  case (Cons l ls)
  moreover assume "rest = [] \<or> is_header (hd rest)"
  ultimately have star: "starts_with (lit ''***'') l" by (simp add: is_header_def)
  then obtain cs where "l = 42 # cs" by (auto simp: starts_with_def split: list.splits if_splits)
  then have "trim l \<noteq> []"
    by (auto simp: trim_def trim_start_def trim_end_def is_whitespace_def dropWhile_append)
  with star Cons show ?thesis by (simp add: update_loop.simps)
qed (simp add: update_loop.simps)

lemma update_loop_print:
  assumes "list_all chunk_ok cs" and "rest = [] \<or> is_header (hd rest)"
  shows "update_loop ln (concat (map print_chunk cs) @ rest) n acc =
    Ok (acc @ cs, n + length (concat (map print_chunk cs)))"
  using assms
proof (induction cs arbitrary: n acc)
  case Nil
  then show ?case by (simp add: update_loop_stop)
next
  case (Cons c cs)
  let ?rem = "print_chunk c @ concat (map print_chunk cs) @ rest"
  obtain t where hd: "hd (print_chunk c) = 64 # t" using print_chunk_hd by blast
  obtain ls where rem: "?rem = (64 # t) # ls"
    using hd by (cases "print_chunk c") (auto simp: print_chunk_ne)
  have "trim (64 # t) \<noteq> []" "\<not> starts_with (lit ''***'') (64 # t)"
    by (auto simp: trim_def trim_start_def trim_end_def is_whitespace_def dropWhile_append
        starts_with_def)
  moreover have "parse_update_file_chunk ?rem (ln + n) (acc = []) = Ok (c, length (print_chunk c))"
    using Cons.prems by (intro parse_update_file_chunk_print) (auto intro: ends_chunk_print)
  moreover have "length (print_chunk c) \<le> Suc (length ls)"
    using arg_cong [OF rem, of length] by simp
  ultimately have "update_loop ln ?rem n acc =
      update_loop ln (drop (length (print_chunk c)) ?rem) (n + length (print_chunk c)) (acc @ [c])"
    unfolding update_loop.simps [of ln ?rem] by (simp add: rem)
  then show ?case
    using Cons by (simp add: add.assoc)
qed

section \<open>Hunks\<close>

lemma trim_marker_path:
  assumes "path_ok p" and "m \<noteq> []" and "\<not> is_whitespace (hd m)"
  shows "trim (m @ p) = m @ p"
  using assms by (intro trim_id) (auto simp: path_ok_def hd_append)

lemma add_loop_print:
  "add_loop (map ((#) 43) ls @ rest) acc n =
   add_loop rest (acc @ concat (map (\<lambda>l. l @ [10]) ls)) (n + length ls)"
  by (induction ls arbitrary: acc n) auto

lemma add_loop_stop: "rest = [] \<or> is_header (hd rest) \<Longrightarrow> add_loop rest acc n = (acc, n)"
  by (cases rest) (auto simp: is_header_def starts_with_def split: list.splits if_splits)

lemma concat_lines: "xs \<noteq> [] \<Longrightarrow> last xs = [] \<Longrightarrow>
  concat (map (\<lambda>l. l @ [c]) (butlast xs)) = join [c] xs"
  by (induction "[c]" xs rule: join.induct) auto

lemma parse_one_hunk_print:
  assumes "hunk_ok h" and "rest = [] \<or> is_header (hd rest)"
  shows "parse_one_hunk (print_hunk h @ rest) ln = Ok (h, length (print_hunk h))"
proof (cases h)
  case (AddFile p cts)
  then have "trim (ADD_FILE_MARKER @ p) = ADD_FILE_MARKER @ p"
    using assms by (intro trim_marker_path) (auto simp: marker_defs is_whitespace_def)
  moreover have "concat (map (\<lambda>l. l @ [10]) (butlast (split_char 10 cts))) = cts"
    using assms AddFile by (simp add: concat_lines)
  ultimately show ?thesis
    using assms AddFile by (simp add: parse_one_hunk_def add_loop_print add_loop_stop)
next
  case (DeleteFile p)
  then have "trim (DELETE_FILE_MARKER @ p) = DELETE_FILE_MARKER @ p"
    using assms by (intro trim_marker_path) (auto simp: marker_defs is_whitespace_def)
  moreover have "strip_prefix ADD_FILE_MARKER (DELETE_FILE_MARKER @ p) = None"
    by (simp add: marker_defs)
  ultimately show ?thesis
    using DeleteFile by (simp add: parse_one_hunk_def)
next
  case (UpdateFile p mv cs)
  have tr: "trim (UPDATE_FILE_MARKER @ p) = UPDATE_FILE_MARKER @ p"
    using assms UpdateFile by (intro trim_marker_path) (auto simp: marker_defs is_whitespace_def)
  have other: "strip_prefix ADD_FILE_MARKER (UPDATE_FILE_MARKER @ p) = None"
      "strip_prefix DELETE_FILE_MARKER (UPDATE_FILE_MARKER @ p) = None"
    by (simp_all add: marker_defs)
  have ok: "list_all chunk_ok cs" "cs \<noteq> []" using assms(1) UpdateFile by auto
  obtain c cs' where cs: "cs = c # cs'" using ok(2) by (cases cs) auto
  obtain t b where body: "concat (map print_chunk cs) @ rest = (64 # t) # b"
    using print_chunk_hd [of c] print_chunk_ne [of c] by (cases "print_chunk c") (auto simp: cs)
  have no_move: "strip_prefix MOVE_TO_MARKER (64 # t) = None" by (simp add: marker_defs)
  note loop = update_loop_print [OF ok(1) assms(2)]
  show ?thesis
  proof (cases mv)
    case None
    then show ?thesis
      using UpdateFile tr other no_move loop [of ln 1 "[]"] ok(2)
      by (simp add: parse_one_hunk_def body)
  next
    case (Some q)
    then show ?thesis
      using UpdateFile tr other loop [of ln 2 "[]"] ok(2)
      by (simp add: parse_one_hunk_def)
  qed
qed

lemma print_hunk_ne: "print_hunk h \<noteq> []"
  by (cases h) auto

lemma print_hunk_hd: "is_header (hd (print_hunk h))"
  by (cases h) (auto simp: is_header_def starts_with_def marker_defs)

lemma hunk_loop_print:
  "list_all hunk_ok hs \<Longrightarrow> hunk_loop (concat (map print_hunk hs)) ln acc = Ok (acc @ hs)"
proof (induction hs arbitrary: ln acc)
  case Nil
  then show ?case by (simp add: hunk_loop.simps)
next
  case (Cons h hs)
  let ?rest = "concat (map print_hunk hs)"
  have "?rest = [] \<or> is_header (hd ?rest)"
    by (cases hs) (auto simp: print_hunk_ne print_hunk_hd hd_append)
  with Cons.prems have "parse_one_hunk (print_hunk h @ ?rest) ln = Ok (h, length (print_hunk h))"
    by (intro parse_one_hunk_print) auto
  then show ?case
    using Cons by (simp add: hunk_loop.simps [of "print_hunk h @ ?rest"] print_hunk_ne)
qed

section \<open>The whole patch\<close>

lemma line_ok_append: "line_ok m \<Longrightarrow> line_ok l \<Longrightarrow> line_ok (m @ l)"
  by (auto simp: line_ok_def last_append)

lemma path_ok_line_ok: "path_ok p \<Longrightarrow> line_ok p"
  by (auto simp: path_ok_def line_ok_def is_whitespace_def)

lemma line_ok_markers [simp]:
  "line_ok ADD_FILE_MARKER" "line_ok DELETE_FILE_MARKER" "line_ok UPDATE_FILE_MARKER"
  "line_ok MOVE_TO_MARKER" "line_ok EOF_MARKER" "line_ok CHANGE_CONTEXT_MARKER"
  "line_ok EMPTY_CHANGE_CONTEXT_MARKER" "line_ok BEGIN_PATCH_MARKER" "line_ok END_PATCH_MARKER"
  by (simp_all add: line_ok_def marker_defs)

lemma line_ok_prefixed [simp]: "line_ok (45 # l) = line_ok l" "line_ok (43 # l) = line_ok l"
  by (auto simp: line_ok_def)

lemma print_chunk_lines: "chunk_ok c \<Longrightarrow> list_all line_ok (print_chunk c)"
  by (auto simp: print_chunk_def chunk_ok_def list_all_iff intro: line_ok_append
      split: option.splits)

lemma print_hunk_lines: "hunk_ok h \<Longrightarrow> list_all line_ok (print_hunk h)"
proof (cases h)
  case (AddFile p cts)
  assume "hunk_ok h"
  then have "list_all line_ok (butlast (split_char 10 cts))" "path_ok p"
    using AddFile by (auto simp: list_all_iff dest: in_set_butlastD)
  with AddFile show ?thesis
    by (simp add: list_all_iff line_ok_append path_ok_line_ok)
next
  case (DeleteFile p)
  assume "hunk_ok h"
  with DeleteFile show ?thesis by (simp add: line_ok_append path_ok_line_ok)
next
  case (UpdateFile p mv cs)
  assume ok: "hunk_ok h"
  then have "list_all line_ok (concat (map print_chunk cs))"
    using UpdateFile print_chunk_lines by (fastforce simp: list_all_iff)
  with ok UpdateFile show ?thesis
    by (auto simp: line_ok_append path_ok_line_ok split: option.splits)
qed

lemma join_hd: "ls \<noteq> [] \<Longrightarrow> hd ls \<noteq> [] \<Longrightarrow> join sep ls \<noteq> [] \<and> hd (join sep ls) = hd (hd ls)"
  by (induction sep ls rule: join.induct) auto

lemma join_last:
  "ls \<noteq> [] \<Longrightarrow> last ls \<noteq> [] \<Longrightarrow> join sep ls \<noteq> [] \<and> last (join sep ls) = last (last ls)"
  by (induction sep ls rule: join.induct) (auto simp: last_append)

text \<open>
  C3. The parser inverts the printer: for every list of well-formed file operations, parsing
  the printed patch succeeds, gives back exactly those operations in order, and reports the
  patch text unchanged.
\<close>

theorem parse_print_roundtrip:
  assumes "list_all hunk_ok hs"
  shows "parse_patch (print_patch hs) = Ok \<lparr>hunks = hs, patch = print_patch hs\<rparr>"
proof -
  let ?body = "concat (map print_hunk hs)"
  let ?ls = "BEGIN_PATCH_MARKER # ?body @ [END_PATCH_MARKER]"
  have "list_all line_ok ?body"
    using assms print_hunk_lines by (fastforce simp: list_all_iff)
  then have ok: "list_all line_ok ?ls" by simp
  have ends: "hd ?ls \<noteq> []" "last ?ls \<noteq> []" by (simp_all add: marker_defs)
  have ws: "\<not> is_whitespace (hd BEGIN_PATCH_MARKER)" "\<not> is_whitespace (last END_PATCH_MARKER)"
    by (simp_all add: marker_defs is_whitespace_def)
  have "trim (print_patch hs) = print_patch hs"
    unfolding print_patch_def
    using join_hd [of ?ls "[10]"] join_last [of ?ls "[10]"] ends
    by (intro trim_id) (simp add: ws del: join.simps)
  then have lines: "str_lines (trim (print_patch hs)) = ?ls"
    using ok ends unfolding print_patch_def
    by (simp only:) (rule str_lines_join; auto simp: list_all_iff line_ok_def)
  obtain l ls where cons: "?body @ [END_PATCH_MARKER] = l # ls"
    by (cases ?body) auto
  have "trim BEGIN_PATCH_MARKER = BEGIN_PATCH_MARKER" "trim END_PATCH_MARKER = END_PATCH_MARKER"
    by (rule trim_id; simp add: marker_defs is_whitespace_def)+
  moreover have "last (l # ls) = END_PATCH_MARKER"
    using arg_cong [OF cons, of last] by simp
  ultimately have strict: "check_patch_boundaries_strict ?ls = Ok ()"
    unfolding cons by (simp add: check_start_and_end_lines_strict_def)
  have "inner_slice ?ls = Ok ?body"
    by (simp add: inner_slice_def butlast_append)
  with lines strict show ?thesis
    using hunk_loop_print [OF assms, of 2 "[]"]
    by (simp add: parse_patch_def parse_patch_text_def print_patch_def)
qed

definition sample_hunks :: "hunk list" where
  "sample_hunks =
     [AddFile (lit ''a.txt'') (lit ''hello'' @ [10]),
      UpdateFile (lit ''b.py'') (Some (lit ''c.py''))
        [\<lparr>change_context = Some (lit ''def f():''), old_lines = [lit ''x = 1''],
          new_lines = [lit ''x = 2'', []], is_end_of_file = True\<rparr>],
      DeleteFile (lit ''d'')]"

theorem parse_print_roundtrip_witness:
  "list_all hunk_ok sample_hunks \<and>
   parse_patch (print_patch sample_hunks) =
     Ok \<lparr>hunks = sample_hunks, patch = print_patch sample_hunks\<rparr>"
proof -
  have "list_all hunk_ok sample_hunks"
    by (simp add: sample_hunks_def path_ok_def chunk_ok_def line_ok_def is_whitespace_def)
  then show ?thesis using parse_print_roundtrip by blast
qed

end
