(* ===== verification/Seek_Sequence.thy ===== *)
theory Seek_Sequence
  imports Prelude
begin

text \<open>
  The fuzzy line matcher of the patch engine
  (\<open>xai-grok-tools/src/implementations/codex/apply_patch/seek_sequence.rs\<close>): four passes of
  decreasing strictness over the same candidate positions.  The locale \<open>match_ladder\<close> states
  what the search needs of its passes, each pass accepting whatever a stricter one accepts, and
  proves soundness, completeness and preference once.
\<close>

section \<open>The matcher\<close>

definition normalise_char :: "uchar \<Rightarrow> uchar" where
  "normalise_char c =
     (if c \<in> {8208, 8209, 8210, 8211, 8212, 8213, 8722} then 45
      else if c \<in> {8216, 8217, 8218, 8219} then 39
      else if c \<in> {8220, 8221, 8222, 8223} then 34
      else if c \<in> {160, 8194, 8195, 8196, 8197, 8198, 8199, 8200, 8201, 8202, 8239, 8287, 12288}
      then 32
      else c)"

definition normalise :: "str \<Rightarrow> str" where
  "normalise s = map normalise_char (trim s)"

text \<open>
  The inner loop of passes 2 to 4: \<open>pat\<close> against \<open>lines[i + p_idx]\<close>.  Reading past the end would
  panic in the source; the candidates never do (\<open>candidate_in_range\<close> below).
\<close>

fun lines_match :: "(str \<Rightarrow> str) \<Rightarrow> str list \<Rightarrow> nat \<Rightarrow> str list \<Rightarrow> bool" where
  "lines_match key ls i [] = True"
| "lines_match key ls i (pat # pats) =
     (i < length ls \<and> key (ls ! i) = key pat \<and> lines_match key ls (Suc i) pats)"

definition exact_match :: "str list \<Rightarrow> nat \<Rightarrow> str list \<Rightarrow> bool" where
  "exact_match ls i pat \<longleftrightarrow> take (length pat) (drop i ls) = pat"

definition search_start :: "str list \<Rightarrow> str list \<Rightarrow> nat \<Rightarrow> bool \<Rightarrow> nat" where
  "search_start ls pat start eof =
     (if eof \<and> length pat \<le> length ls then length ls - length pat else start)"

definition candidates :: "str list \<Rightarrow> str list \<Rightarrow> nat \<Rightarrow> bool \<Rightarrow> nat list" where
  "candidates ls pat start eof =
     [search_start ls pat start eof..<Suc (length ls - length pat)]"

definition seek_sequence :: "str list \<Rightarrow> str list \<Rightarrow> nat \<Rightarrow> bool \<Rightarrow> nat option" where
  "seek_sequence ls pat start eof =
     (if pat = [] then Some start
      else if length ls < length pat then None
      else
        let is = candidates ls pat start eof in
        case find (\<lambda>i. exact_match ls i pat) is of
          Some i \<Rightarrow> Some i
        | None \<Rightarrow>
            (case find (\<lambda>i. lines_match trim_end ls i pat) is of
               Some i \<Rightarrow> Some i
             | None \<Rightarrow>
                 (case find (\<lambda>i. lines_match trim ls i pat) is of
                    Some i \<Rightarrow> Some i
                  | None \<Rightarrow> find (\<lambda>i. lines_match normalise ls i pat) is)))"

section \<open>A ladder of passes\<close>

lemma find_upt_Some_iff:
  "find P [a..<b] = Some i \<longleftrightarrow> a \<le> i \<and> i < b \<and> P i \<and> (\<forall>j. a \<le> j \<and> j < i \<longrightarrow> \<not> P j)"
proof
  assume "find P [a..<b] = Some i"
  then obtain k where k: "k < b - a" "P ([a..<b] ! k)" "i = [a..<b] ! k"
      and less: "\<forall>j<k. \<not> P ([a..<b] ! j)"
    by (auto simp: find_Some_iff)
  have "\<not> P j" if "a \<le> j" "j < i" for j
    using less [rule_format, of "j - a"] that k by simp
  with k show "a \<le> i \<and> i < b \<and> P i \<and> (\<forall>j. a \<le> j \<and> j < i \<longrightarrow> \<not> P j)"
    by auto
next
  assume "a \<le> i \<and> i < b \<and> P i \<and> (\<forall>j. a \<le> j \<and> j < i \<longrightarrow> \<not> P j)"
  then show "find P [a..<b] = Some i"
    by (auto simp: find_Some_iff intro!: exI [of _ "i - a"])
qed

fun first_pass :: "('a \<Rightarrow> bool) list \<Rightarrow> 'a list \<Rightarrow> 'a option" where
  "first_pass [] xs = None"
| "first_pass (P # Ps) xs = (case find P xs of Some x \<Rightarrow> Some x | None \<Rightarrow> first_pass Ps xs)"

locale match_ladder =
  fixes passes :: "('a \<Rightarrow> bool) list"
  assumes nonempty: "passes \<noteq> []"
    and ladder: "Suc k < length passes \<Longrightarrow> (passes ! k) x \<Longrightarrow> (passes ! Suc k) x"
begin

lemma ladder_le:
  "k \<le> l \<Longrightarrow> l < length passes \<Longrightarrow> (passes ! k) x \<Longrightarrow> (passes ! l) x"
  by (induction rule: dec_induct) (auto intro: ladder)

lemma first_pass_None_all: "first_pass Ps xs = None \<longleftrightarrow> (\<forall>P \<in> set Ps. \<forall>x \<in> set xs. \<not> P x)"
proof (induction Ps)
  case (Cons P Ps)
  then show ?case
  proof (cases "find P xs")
    case None
    then have "\<forall>x \<in> set xs. \<not> P x" by (simp add: find_None_iff)
    with Cons None show ?thesis by simp
  next
    case (Some x)
    then have "x \<in> set xs \<and> P x" by (auto simp: find_Some_iff)
    with Some show ?thesis by auto
  qed
qed simp

lemma first_pass_None:
  "first_pass passes xs = None \<longleftrightarrow> (\<forall>x \<in> set xs. \<not> last passes x)"
proof
  assume "first_pass passes xs = None"
  then show "\<forall>x \<in> set xs. \<not> last passes x"
    using nonempty by (auto simp: first_pass_None_all)
next
  assume loosest: "\<forall>x \<in> set xs. \<not> last passes x"
  have "\<not> P x" if "P \<in> set passes" "x \<in> set xs" for P x
  proof
    assume "P x"
    from that(1) obtain k where "k < length passes" "P = passes ! k"
      by (auto simp: in_set_conv_nth)
    with \<open>P x\<close> have "last passes x"
      using ladder_le [of k "length passes - 1" x] nonempty by (simp add: last_conv_nth)
    with loosest that(2) show False by blast
  qed
  then show "first_pass passes xs = None"
    unfolding first_pass_None_all by blast
qed

lemma first_pass_Some_upt_gen:
  "first_pass Ps [a..<b] = Some i \<Longrightarrow>
   \<exists>k < length Ps. a \<le> i \<and> i < b \<and> (Ps ! k) i \<and> (\<forall>j. a \<le> j \<and> j < i \<longrightarrow> \<not> (Ps ! k) j) \<and>
     (\<forall>l < k. \<forall>j. a \<le> j \<and> j < b \<longrightarrow> \<not> (Ps ! l) j)"
proof (induction Ps)
  case (Cons P Ps)
  show ?case
  proof (cases "find P [a..<b]")
    case None
    with Cons.prems have "first_pass Ps [a..<b] = Some i" by simp
    then obtain k where k: "k < length Ps"
        "a \<le> i \<and> i < b \<and> (Ps ! k) i \<and> (\<forall>j. a \<le> j \<and> j < i \<longrightarrow> \<not> (Ps ! k) j) \<and>
         (\<forall>l < k. \<forall>j. a \<le> j \<and> j < b \<longrightarrow> \<not> (Ps ! l) j)"
      using Cons.IH by blast
    moreover have "\<forall>j. a \<le> j \<and> j < b \<longrightarrow> \<not> P j"
      using None by (auto simp: find_None_iff)
    ultimately show ?thesis
      by (intro exI [of _ "Suc k"]) (auto simp: nth_Cons split: nat.splits)
  next
    case (Some j)
    with Cons.prems have "find P [a..<b] = Some i" by simp
    then show ?thesis
      by (intro exI [of _ 0]) (auto simp: find_upt_Some_iff)
  qed
qed simp

end

section \<open>The four passes form a ladder\<close>

definition seek_passes :: "str list \<Rightarrow> str list \<Rightarrow> (nat \<Rightarrow> bool) list" where
  "seek_passes ls pat =
     [\<lambda>i. exact_match ls i pat, \<lambda>i. lines_match trim_end ls i pat,
      \<lambda>i. lines_match trim ls i pat, \<lambda>i. lines_match normalise ls i pat]"

lemma lines_match_iff:
  "lines_match key ls i pat \<longleftrightarrow>
   (\<forall>k < length pat. i + k < length ls \<and> key (ls ! (i + k)) = key (pat ! k))"
  by (induction pat arbitrary: i) (simp_all add: All_less_Suc2)

lemma take_drop_eq_iff:
  "take (length ys) (drop i xs) = ys \<longleftrightarrow>
   (\<forall>k < length ys. i + k < length xs \<and> xs ! (i + k) = ys ! k)"
  (is "?L \<longleftrightarrow> ?R")
proof
  assume eq: ?L
  then have len: "length ys \<le> length xs - i"
    by (metis length_drop length_take min.absorb_iff1 min.commute)
  show ?R
  proof (intro allI impI)
    fix k
    assume k: "k < length ys"
    with len have "i \<le> length xs" by linarith
    with k have "take (length ys) (drop i xs) ! k = xs ! (i + k)" by simp
    with eq k len show "i + k < length xs \<and> xs ! (i + k) = ys ! k" by auto
  qed
next
  assume R: ?R
  have len: "length ys \<le> length xs - i"
  proof (cases "length ys")
    case (Suc n)
    with R have "i + n < length xs" by (metis lessI)
    with Suc show ?thesis by simp
  qed simp
  show ?L
  proof (rule nth_equalityI)
    show "length (take (length ys) (drop i xs)) = length ys"
      using len by simp
  next
    fix k
    assume "k < length (take (length ys) (drop i xs))"
    then have k: "k < length ys" by simp
    with R have "xs ! (i + k) = ys ! k" "i + k < length xs" by blast+
    with k show "take (length ys) (drop i xs) ! k = ys ! k" by simp
  qed
qed

lemma exact_match_iff:
  "exact_match ls i pat \<longleftrightarrow> (\<forall>k < length pat. i + k < length ls \<and> ls ! (i + k) = pat ! k)"
  unfolding exact_match_def by (rule take_drop_eq_iff)

lemma lines_match_mono:
  assumes "\<And>s t. key s = key t \<Longrightarrow> key' s = key' t"
  shows "lines_match key ls i pat \<Longrightarrow> lines_match key' ls i pat"
  unfolding lines_match_iff using assms by blast

lemma exact_match_lines_match: "exact_match ls i pat \<Longrightarrow> lines_match key ls i pat"
  unfolding lines_match_iff exact_match_iff by metis

lemma trim_eq_imp_normalise_eq: "trim s = trim t \<Longrightarrow> normalise s = normalise t"
  by (simp add: normalise_def)

interpretation seek: match_ladder "seek_passes ls pat" for ls pat
proof unfold_locales
  show "seek_passes ls pat \<noteq> []"
    by (simp add: seek_passes_def)
next
  fix k i
  assume "Suc k < length (seek_passes ls pat)" and "(seek_passes ls pat ! k) i"
  then show "(seek_passes ls pat ! Suc k) i"
    by (auto simp: seek_passes_def less_Suc_eq_0_disj numeral_eq_Suc
        intro: exact_match_lines_match
          lines_match_mono [of trim_end, OF trim_end_eq_imp_trim_eq]
          lines_match_mono [of trim, OF trim_eq_imp_normalise_eq])
qed

lemma seek_sequence_first_pass:
  "pat \<noteq> [] \<Longrightarrow> length pat \<le> length ls \<Longrightarrow>
   seek_sequence ls pat start eof = first_pass (seek_passes ls pat) (candidates ls pat start eof)"
  by (auto simp: seek_sequence_def seek_passes_def Let_def split: option.splits)

lemma candidate_in_range:
  "length pat \<le> length ls \<Longrightarrow> i \<in> set (candidates ls pat start eof) \<Longrightarrow>
   i + length pat \<le> length ls"
  by (auto simp: candidates_def)

lemma seek_sequence_bounds:
  assumes ne: "pat \<noteq> []" and some: "seek_sequence ls pat start eof = Some i"
  shows "search_start ls pat start eof \<le> i \<and> i + length pat \<le> length ls"
proof -
  have le: "length pat \<le> length ls"
    using assms by (auto simp: seek_sequence_def split: if_splits)
  with ne some show ?thesis
    using seek.first_pass_Some_upt_gen
      [of "seek_passes ls pat" "search_start ls pat start eof" "Suc (length ls - length pat)" i]
    by (auto simp: seek_sequence_first_pass candidates_def)
qed

text \<open>
  The windows the code looks at.  An end-of-file search looks at the last window of the file only:
  it never falls back to the windows from \<open>start\<close> on, although the comment on the function
  announces that it does.  Any other search looks at every window from \<open>start\<close> on.
\<close>

definition searched_window :: "str list \<Rightarrow> str list \<Rightarrow> nat \<Rightarrow> bool \<Rightarrow> nat \<Rightarrow> bool" where
  "searched_window ls pat start eof i \<longleftrightarrow>
     (if eof then i + length pat = length ls else start \<le> i \<and> i + length pat \<le> length ls)"

lemma searched_window_upt:
  assumes "pat \<noteq> []" "length pat \<le> length ls"
  shows "searched_window ls pat start eof i \<longleftrightarrow>
    search_start ls pat start eof \<le> i \<and> i < Suc (length ls - length pat)"
  using assms by (auto simp: searched_window_def search_start_def)

lemma searched_window_short:
  "length ls < length pat \<Longrightarrow> \<not> searched_window ls pat start eof i"
  by (auto simp: searched_window_def)

text \<open>
  C1. What \<open>seek_sequence\<close> returns for a non-empty pattern.  The windows searched are all those
  from \<open>start\<close> on, and for an end-of-file search the last window of the file alone.  A result is a
  searched window; it matches at one of the four levels, no earlier searched window matches at
  that level, and no searched window matches at a stricter level.  No result is returned exactly
  when no searched window matches even at the loosest level; in particular an end-of-file search
  gives nothing when the last lines of the file do not match, even if an earlier window does.
\<close>

theorem seek_sequence_correct:
  assumes "pat \<noteq> []"
  shows "case seek_sequence ls pat start eof of
      Some i \<Rightarrow> searched_window ls pat start eof i \<and>
        (\<exists>k < 4. (seek_passes ls pat ! k) i \<and>
          (\<forall>j < i. searched_window ls pat start eof j \<longrightarrow> \<not> (seek_passes ls pat ! k) j) \<and>
          (\<forall>l < k. \<forall>j. searched_window ls pat start eof j \<longrightarrow> \<not> (seek_passes ls pat ! l) j))
    | None \<Rightarrow> (\<forall>i. searched_window ls pat start eof i \<longrightarrow> \<not> lines_match normalise ls i pat)"
proof (cases "length pat \<le> length ls")
  case False
  with assms show ?thesis by (simp add: seek_sequence_def searched_window_short)
next
  case True
  let ?a = "search_start ls pat start eof" and ?b = "Suc (length ls - length pat)"
  have eq: "seek_sequence ls pat start eof = first_pass (seek_passes ls pat) [?a..<?b]"
    using assms True by (simp add: seek_sequence_first_pass candidates_def)
  have four: "length (seek_passes ls pat) = 4"
    by (simp add: seek_passes_def)
  note win = searched_window_upt [OF assms True, of start eof]
  show ?thesis
  proof (cases "seek_sequence ls pat start eof")
    case None
    with eq have "\<forall>i \<in> set [?a..<?b]. \<not> last (seek_passes ls pat) i"
      by (simp only: seek.first_pass_None [symmetric])
    then have "\<forall>i. ?a \<le> i \<and> i < ?b \<longrightarrow> \<not> lines_match normalise ls i pat"
      by (auto simp: seek_passes_def)
    with None show ?thesis by (simp add: win)
  next
    case (Some i)
    with eq have "first_pass (seek_passes ls pat) [?a..<?b] = Some i" by simp
    from seek.first_pass_Some_upt_gen [OF this] four Some show ?thesis
      by (auto simp only: win option.case)
  qed
qed

text \<open>
  The exact line in a three-line file is found at level one, and the end-of-file search for
  the first line of a file finds nothing.
\<close>

theorem seek_sequence_correct_witness:
  "seek_sequence [[97], [98, 32], [98]] [[98]] 0 False = Some 2 \<and>
   (\<exists>k < 4. (seek_passes [[97], [98, 32], [98]] [[98]] ! k) 2) \<and>
   seek_sequence [[97], [98]] [[97]] 0 True = None \<and> \<not> lines_match normalise [[97], [98]] 1 [[97]]"
proof -
  have some: "seek_sequence [[97], [98, 32], [98]] [[98]] 0 False = Some 2"
    by (simp add: seek_sequence_def candidates_def search_start_def exact_match_def upt_rec)
  have none: "seek_sequence [[97], [98]] [[97]] 0 True = None"
    by (simp add: seek_sequence_def candidates_def search_start_def exact_match_def upt_rec
        normalise_def normalise_char_def trim_def trim_start_def trim_end_def is_whitespace_code)
  have "[[98]] \<noteq> ([] :: str list)" "[[97]] \<noteq> ([] :: str list)" by simp_all
  from seek_sequence_correct [OF this(1), of "[[97], [98, 32], [98]]" 0 False]
    seek_sequence_correct [OF this(2), of "[[97], [98]]" 0 True] some none
  show ?thesis by (auto simp: searched_window_def)
qed

end
