(* ===== verification/Patch_Apply.thy ===== *)
theory Patch_Apply
  imports Patch_Parser Seek_Sequence
begin

text \<open>
  The in-memory application of update chunks
  (\<open>xai-grok-tools/src/implementations/codex/apply_patch/apply.rs\<close>): locate every chunk, collect
  \<open>(start, old_len, new_lines)\<close> replacements, and apply them from the last to the first.
  \<open>Vec::insert\<close> past the end is a \<open>Panic\<close>.
\<close>

section \<open>Locating the chunks\<close>

datatype apply_error =
    Parse parse_error
  | ComputeReplacements str
  | Io (io_context: str) (io_message: str) (io_path: "str option")

type_synonym replacement = "nat \<times> nat \<times> str list"

definition last_is_empty :: "str list \<Rightarrow> bool" where
  "last_is_empty ls \<longleftrightarrow> ls \<noteq> [] \<and> last ls = []"

definition seek_context ::
  "str list \<Rightarrow> str \<Rightarrow> update_file_chunk \<Rightarrow> nat \<Rightarrow> (apply_error, nat) res" where
  "seek_context ls p chunk line_index =
     (case change_context chunk of
        None \<Rightarrow> Ok line_index
      | Some ctx_line \<Rightarrow>
          (case seek_sequence ls [ctx_line] line_index False of
             Some idx \<Rightarrow> Ok (idx + 1)
           | None \<Rightarrow> Err (ComputeReplacements
               (lit ''Failed to find context '' @ quoted ctx_line @ lit '' in '' @ p))))"

definition locate_chunk ::
  "str list \<Rightarrow> str \<Rightarrow> update_file_chunk \<Rightarrow> nat \<Rightarrow> (apply_error, replacement \<times> nat) res" where
  "locate_chunk ls p chunk line_index0 =
     bind_res (seek_context ls p chunk line_index0) (\<lambda>line_index.
       if old_lines chunk = []
       then let insertion_idx = (if last_is_empty ls then length ls - 1 else length ls)
            in Ok ((insertion_idx, 0, new_lines chunk), line_index)
       else
         let found = seek_sequence ls (old_lines chunk) line_index (is_end_of_file chunk);
             retry = (found = None \<and> last_is_empty (old_lines chunk));
             pattern = (if retry then butlast (old_lines chunk) else old_lines chunk);
             new_slice = (if retry \<and> last_is_empty (new_lines chunk)
                          then butlast (new_lines chunk) else new_lines chunk);
             found' = (if retry then seek_sequence ls pattern line_index (is_end_of_file chunk)
                       else found)
         in case found' of
              Some start_idx \<Rightarrow>
                Ok ((start_idx, length pattern, new_slice), start_idx + length pattern)
            | None \<Rightarrow> Err (ComputeReplacements
                (lit ''Failed to find expected lines in '' @ p @ [58, 10] @
                 join [10] (old_lines chunk))))"

fun replacements_loop ::
  "str list \<Rightarrow> str \<Rightarrow> update_file_chunk list \<Rightarrow> nat \<Rightarrow> replacement list \<Rightarrow>
   (apply_error, replacement list) res" where
  "replacements_loop ls p [] line_index acc = Ok acc"
| "replacements_loop ls p (chunk # cs) line_index acc =
     bind_res (locate_chunk ls p chunk line_index)
       (\<lambda>(r, line_index'). replacements_loop ls p cs line_index' (acc @ [r]))"

definition compute_replacements ::
  "str list \<Rightarrow> str \<Rightarrow> update_file_chunk list \<Rightarrow> (apply_error, replacement list) res" where
  "compute_replacements ls p cs =
     bind_res (replacements_loop ls p cs 0 []) (\<lambda>rs. Ok (sort_key fst rs))"

section \<open>Applying the replacements\<close>

fun remove_loop :: "nat \<Rightarrow> nat \<Rightarrow> str list \<Rightarrow> str list" where
  "remove_loop start_idx 0 ls = ls"
| "remove_loop start_idx (Suc n) ls =
     remove_loop start_idx n
       (if start_idx < length ls then take start_idx ls @ drop (Suc start_idx) ls else ls)"

definition vec_insert :: "nat \<Rightarrow> 'a \<Rightarrow> 'a list \<Rightarrow> (apply_error, 'a list) res" where
  "vec_insert i x xs = (if i \<le> length xs then Ok (take i xs @ x # drop i xs) else Panic)"

fun insert_loop :: "nat \<Rightarrow> str list \<Rightarrow> str list \<Rightarrow> (apply_error, str list) res" where
  "insert_loop i [] ls = Ok ls"
| "insert_loop i (x # xs) ls = bind_res (vec_insert i x ls) (\<lambda>ls'. insert_loop (i + 1) xs ls')"

fun apply_rev :: "replacement list \<Rightarrow> str list \<Rightarrow> (apply_error, str list) res" where
  "apply_rev [] ls = Ok ls"
| "apply_rev ((start_idx, old_len, new_segment) # rs) ls =
     bind_res (insert_loop start_idx new_segment (remove_loop start_idx old_len ls))
       (\<lambda>ls'. apply_rev rs ls')"

definition apply_replacements :: "str list \<Rightarrow> replacement list \<Rightarrow> (apply_error, str list) res" where
  "apply_replacements ls rs = apply_rev (rev rs) ls"

definition original_lines :: "str \<Rightarrow> str list" where
  "original_lines content =
     (let ls = split_char 10 content in if last_is_empty ls then butlast ls else ls)"

definition finish_lines :: "str list \<Rightarrow> str" where
  "finish_lines ls = join [10] (if last_is_empty ls then ls else ls @ [[]])"

definition derive_new_contents ::
  "str \<Rightarrow> str \<Rightarrow> update_file_chunk list \<Rightarrow> (apply_error, str) res" where
  "derive_new_contents original_content p cs =
     (let ls = original_lines original_content in
      bind_res (compute_replacements ls p cs) (\<lambda>rs.
        bind_res (apply_replacements ls rs) (\<lambda>ls'. Ok (finish_lines ls'))))"

section \<open>The final line ending\<close>

lemma join_snoc_empty: "ls \<noteq> [] \<Longrightarrow> join sep (ls @ [[]]) = join sep ls @ sep"
  by (induction sep ls rule: join.induct) auto

lemma finish_lines_newline: "finish_lines ls = [] \<or> last (finish_lines ls) = 10"
proof (cases "ls = [] \<or> ls = [[]]")
  case False
  obtain ls' where "(if last_is_empty ls then ls else ls @ [[]]) = ls' @ [[]]" "ls' \<noteq> []"
  proof (cases "last_is_empty ls")
    case True
    with False show ?thesis
      using that [of "butlast ls"] append_butlast_last_id [of ls]
      by (cases ls rule: rev_cases) (auto simp: last_is_empty_def)
  next
    case not_empty: False
    with False show ?thesis using that [of ls] by simp
  qed
  then show ?thesis by (simp add: finish_lines_def join_snoc_empty)
qed (auto simp: finish_lines_def last_is_empty_def)

section \<open>The effect of one replacement\<close>

lemma remove_loop_eq: "remove_loop i n ls = take i ls @ drop (i + n) ls"
proof (induction i n ls rule: remove_loop.induct)
  case (2 i n ls)
  then show ?case
    by (cases "i < length ls") (auto simp: min_def add.commute)
qed simp

lemma insert_loop_eq:
  "i \<le> length ls \<Longrightarrow> insert_loop i xs ls = Ok (take i ls @ xs @ drop i ls)"
proof (induction i xs ls rule: insert_loop.induct)
  case (2 i x xs ls)
  then show ?case by (simp add: vec_insert_def)
qed simp

lemma apply_one_eq:
  "i \<le> length ls \<Longrightarrow>
   insert_loop i xs (remove_loop i n ls) = Ok (take i ls @ xs @ drop (i + n) ls)"
  by (simp add: remove_loop_eq insert_loop_eq min_def)

text \<open>
  Applied from the back, a replacement never touches what lies before its start, so every
  start index stays inside the vector.
\<close>

lemma apply_rev_no_panic:
  assumes "sorted_wrt (\<lambda>r s. fst s \<le> fst r) rs" and "\<forall>r \<in> set rs. fst r \<le> length ls"
  shows "apply_rev rs ls \<noteq> Panic"
  using assms
proof (induction rs arbitrary: ls)
  case (Cons r rs)
  obtain i n xs where r: "r = (i, n, xs)" by (cases r)
  from Cons.prems have i: "i \<le> length ls" by (simp add: r)
  let ?ls' = "take i ls @ xs @ drop (i + n) ls"
  have "\<forall>s \<in> set rs. fst s \<le> length ?ls'"
    using Cons.prems i by (auto simp: r min_def)
  then have "apply_rev rs ?ls' \<noteq> Panic"
    using Cons.prems by (intro Cons.IH) auto
  with i show ?case by (simp add: r apply_one_eq)
qed simp

lemma apply_rev_no_err: "apply_rev rs ls \<noteq> Err e"
proof -
  have ins: "insert_loop i xs ls \<noteq> Err e" for i xs ls
    by (induction i xs ls rule: insert_loop.induct) (auto simp: bind_res_Err_iff vec_insert_def)
  show ?thesis
    by (induction rs ls rule: apply_rev.induct) (auto simp: bind_res_Err_iff ins)
qed

section \<open>Replacement lists\<close>

lemma seek_context_bound:
  "seek_context ls p chunk i = Ok j \<Longrightarrow> i \<le> length ls \<Longrightarrow> i \<le> j \<and> j \<le> length ls"
proof (cases "change_context chunk")
  case (Some ctx)
  assume "seek_context ls p chunk i = Ok j"
  with Some obtain k where k: "seek_sequence ls [ctx] i False = Some k" "j = k + 1"
    by (auto simp: seek_context_def split: option.splits)
  have "search_start ls [ctx] i False \<le> k \<and> k + 1 \<le> length ls"
    using seek_sequence_bounds [of "[ctx]" ls i False k] k by simp
  then show ?thesis using k by (simp add: search_start_def)
qed (auto simp: seek_context_def)

lemma locate_chunk_bound:
  assumes "locate_chunk ls p chunk i = Ok ((s, n, xs), j)" and "i \<le> length ls"
  shows "s + n \<le> length ls \<and> j \<le> length ls \<and>
    (old_lines chunk \<noteq> [] \<longrightarrow> \<not> is_end_of_file chunk \<longrightarrow> i \<le> s \<and> j = s + n) \<and>
    (old_lines chunk = [] \<longrightarrow> \<not> last_is_empty ls \<longrightarrow> s = length ls \<and> n = 0 \<and> i \<le> j)"
proof -
  from assms(1) obtain i' where i': "seek_context ls p chunk i = Ok i'"
    by (auto simp: locate_chunk_def bind_res_Ok_iff)
  note i_bound = seek_context_bound [OF i' assms(2)]
  show ?thesis
  proof (cases "old_lines chunk = []")
    case True
    with assms(1) i' i_bound show ?thesis
      by (auto simp: locate_chunk_def Let_def split: if_splits)
  next
    case False
    with assms(1) i' obtain pat where
      found: "seek_sequence ls pat i' (is_end_of_file chunk) = Some s" and
      n: "n = length pat" and j: "j = s + n"
      by (auto simp: locate_chunk_def Let_def split: if_splits option.splits)
    show ?thesis
    proof (cases "pat = []")
      case True
      with found n j i_bound False show ?thesis by (simp add: seek_sequence_def)
    next
      case ne: False
      from seek_sequence_bounds [OF ne found] n j i_bound False show ?thesis
        by (auto simp: search_start_def)
    qed
  qed
qed

lemma replacements_loop_acc:
  "replacements_loop ls p cs i acc =
   bind_res (replacements_loop ls p cs i []) (\<lambda>rs. Ok (acc @ rs))"
proof (induction cs arbitrary: i acc)
  case (Cons c cs)
  show ?case
  proof (cases "locate_chunk ls p c i")
    case (Ok r)
    obtain r' j where r: "r = (r', j)" by (cases r) blast
    have "replacements_loop ls p cs j (acc @ [r']) =
        bind_res (replacements_loop ls p cs j []) (\<lambda>rs. Ok ((acc @ [r']) @ rs))"
      by (rule Cons.IH)
    moreover have "replacements_loop ls p cs j [r'] =
        bind_res (replacements_loop ls p cs j []) (\<lambda>rs. Ok ([r'] @ rs))"
      by (rule Cons.IH)
    ultimately show ?thesis
      by (cases "replacements_loop ls p cs j []") (simp_all add: Ok r)
  qed simp_all
qed simp

lemma replacements_loop_ConsE:
  assumes "replacements_loop ls p (c # cs) i [] = Ok rs"
  obtains r j rs' where "locate_chunk ls p c i = Ok (r, j)"
    "replacements_loop ls p cs j [] = Ok rs'" "rs = r # rs'"
proof -
  from assms obtain r j where r: "locate_chunk ls p c i = Ok (r, j)"
      and rest: "replacements_loop ls p cs j [r] = Ok rs"
    by (auto simp: bind_res_Ok_iff)
  from rest obtain rs' where "replacements_loop ls p cs j [] = Ok rs'" "rs = r # rs'"
    by (subst (asm) replacements_loop_acc) (auto simp: bind_res_Ok_iff)
  with r that show thesis by blast
qed

lemma replacements_loop_bound:
  "replacements_loop ls p cs i [] = Ok rs \<Longrightarrow> i \<le> length ls \<Longrightarrow>
   \<forall>(s, n, xs) \<in> set rs. s + n \<le> length ls"
proof (induction cs arbitrary: i rs)
  case (Cons c cs)
  from Cons.prems(1) obtain r j rs' where r: "locate_chunk ls p c i = Ok (r, j)"
      and rest: "replacements_loop ls p cs j [] = Ok rs'" and rs: "rs = r # rs'"
    by (rule replacements_loop_ConsE)
  obtain s n xs where r': "r = (s, n, xs)" by (cases r)
  from locate_chunk_bound r r' Cons.prems(2) have "s + n \<le> length ls" "j \<le> length ls" by blast+
  with Cons.IH [OF rest] show ?case by (simp add: rs r')
qed simp

lemma locate_chunk_no_panic: "locate_chunk ls p c i \<noteq> Panic"
  by (auto simp: locate_chunk_def seek_context_def bind_res_Panic_iff Let_def split: option.splits)

lemma replacements_loop_no_panic: "replacements_loop ls p cs i acc \<noteq> Panic"
  by (induction ls p cs i acc rule: replacements_loop.induct)
    (auto simp: bind_res_Panic_iff locate_chunk_no_panic)

lemma derive_no_panic: "derive_new_contents content p cs \<noteq> Panic"
proof -
  let ?ls = "original_lines content"
  have "apply_replacements ?ls (sort_key fst rs) \<noteq> Panic"
    if "replacements_loop ?ls p cs 0 [] = Ok rs" for rs
  proof -
    have "sorted_wrt (\<lambda>r s. fst s \<le> fst r) (rev (sort_key fst rs))"
      using sorted_sort_key [of fst rs] by (simp add: sorted_wrt_rev sorted_map)
    moreover have "\<forall>r \<in> set (rev (sort_key fst rs)). fst r \<le> length ?ls"
      using replacements_loop_bound [OF that] by auto
    ultimately show ?thesis
      by (simp add: apply_replacements_def apply_rev_no_panic)
  qed
  then show ?thesis
    by (auto simp: derive_new_contents_def compute_replacements_def Let_def bind_res_Panic_iff
        bind_res_Ok_iff replacements_loop_no_panic)
qed

text \<open>
  Applying a patch to a file never panics, whatever the chunks are, overlapping ones
  included: every \<open>Vec::insert\<close> is within the vector because the replacements are applied from
  the highest start index down.  The outcome is a new text, empty or ending in a line feed, or a
  \<open>ComputeReplacements\<close> error.
\<close>

theorem derive_new_contents_total:
  "(\<exists>t. derive_new_contents content p cs = Ok t \<and> (t = [] \<or> last t = 10)) \<or>
   (\<exists>m. derive_new_contents content p cs = Err (ComputeReplacements m))"
proof -
  have seek: "seek_context ls q c i = Err e \<Longrightarrow> \<exists>m. e = ComputeReplacements m" for ls q c i e
    by (auto simp: seek_context_def split: option.splits)
  have locate: "locate_chunk ls q c i = Err e \<Longrightarrow> \<exists>m. e = ComputeReplacements m" for ls q c i e
    by (auto simp: locate_chunk_def bind_res_Err_iff Let_def dest: seek
        split: if_splits option.splits)
  have loop: "replacements_loop ls p cs i acc = Err e \<Longrightarrow> \<exists>m. e = ComputeReplacements m"
    for ls i acc e
    by (induction ls p cs i acc rule: replacements_loop.induct)
      (auto simp: bind_res_Err_iff dest: locate)
  show ?thesis
  proof (cases "derive_new_contents content p cs")
    case (Ok t)
    then obtain ls where "t = finish_lines ls"
      by (auto simp: derive_new_contents_def Let_def bind_res_Ok_iff)
    with Ok show ?thesis using finish_lines_newline by blast
  next
    case (Err e)
    then have "\<exists>m. e = ComputeReplacements m"
      by (auto simp: derive_new_contents_def compute_replacements_def Let_def bind_res_Err_iff
          apply_replacements_def apply_rev_no_err dest: loop)
    with Err show ?thesis by blast
  qed (simp add: derive_no_panic)
qed

section \<open>Reference semantics\<close>

text \<open>
  The reference: walk the file from the front, keep what lies between the replacements and put
  the new lines in place of the old ones.
\<close>

fun splice :: "nat \<Rightarrow> str list \<Rightarrow> replacement list \<Rightarrow> str list" where
  "splice pos ls [] = drop pos ls"
| "splice pos ls ((s, n, xs) # rs) = take (s - pos) (drop pos ls) @ xs @ splice (s + n) ls rs"

fun disjoint_from :: "nat \<Rightarrow> nat \<Rightarrow> replacement list \<Rightarrow> bool" where
  "disjoint_from len pos [] \<longleftrightarrow> pos \<le> len"
| "disjoint_from len pos ((s, n, xs) # rs) \<longleftrightarrow> pos \<le> s \<and> disjoint_from len (s + n) rs"

lemma disjoint_from_le: "disjoint_from len pos rs \<Longrightarrow> pos \<le> len"
  by (induction len pos rs rule: disjoint_from.induct) auto

lemma disjoint_from_mono: "disjoint_from len pos rs \<Longrightarrow> q \<le> pos \<Longrightarrow> disjoint_from len q rs"
  by (cases rs) auto

lemma disjoint_from_start: "disjoint_from len pos rs \<Longrightarrow> r \<in> set rs \<Longrightarrow> pos \<le> fst r"
  by (induction len pos rs rule: disjoint_from.induct) force+

lemma apply_rev_append: "apply_rev (rs @ rs') ls = bind_res (apply_rev rs ls) (apply_rev rs')"
proof (induction rs ls rule: apply_rev.induct)
  case (2 i n xs rs ls)
  show ?case
    by (cases "insert_loop i xs (remove_loop i n ls)") (simp_all add: 2)
qed simp

lemma take_append_between: "pos \<le> s \<Longrightarrow> take pos ls @ take (s - pos) (drop pos ls) = take s ls"
  by (metis add_diff_inverse_nat not_less take_add)

lemma apply_rev_splice:
  "disjoint_from (length ls) pos rs \<Longrightarrow>
   apply_rev (rev rs) ls = Ok (take pos ls @ splice pos ls rs)"
proof (induction rs arbitrary: pos)
  case (Cons r rs)
  obtain s n xs where r: "r = (s, n, xs)" by (cases r)
  have pos: "pos \<le> s" and rest: "disjoint_from (length ls) (s + n) rs"
    using Cons.prems by (simp_all add: r)
  let ?ls' = "take (s + n) ls @ splice (s + n) ls rs"
  have le: "s + n \<le> length ls" using rest by (rule disjoint_from_le)
  have "take s ?ls' = take s ls" "drop (s + n) ?ls' = splice (s + n) ls rs"
    using le by simp_all
  then have "apply_rev [r] ?ls' = (Ok (take s ls @ xs @ splice (s + n) ls rs))"
    using le by (simp add: r apply_one_eq del: drop_append take_append)
  then show ?case
    using Cons.IH [OF rest] take_append_between [OF pos, of ls]
    by (simp add: r apply_rev_append flip: append_assoc)
qed simp

lemma insort_addition:
  "disjoint_from len pos rs \<Longrightarrow> disjoint_from len pos (insort_key fst (len, 0, xs) rs)"
proof (induction rs arbitrary: pos)
  case (Cons r rs)
  then show ?case by (cases r) (auto dest: disjoint_from_le)
qed simp

lemma insort_first:
  "disjoint_from len (s + n) rs \<Longrightarrow> insort_key fst (s, n, xs) rs = (s, n, xs) # rs"
  by (cases rs) auto

lemma replacements_loop_disjoint:
  assumes "list_all (\<lambda>c. \<not> is_end_of_file c) cs"
    and "\<not> last_is_empty ls \<or> list_all (\<lambda>c. old_lines c \<noteq> []) cs"
  shows "replacements_loop ls p cs i [] = Ok rs \<Longrightarrow> i \<le> length ls \<Longrightarrow>
    disjoint_from (length ls) i (sort_key fst rs)"
  using assms
proof (induction cs arbitrary: i rs)
  case (Cons c cs)
  from Cons.prems(1) obtain r j rs' where r: "locate_chunk ls p c i = Ok (r, j)"
      and rest: "replacements_loop ls p cs j [] = Ok rs'" and rs: "rs = r # rs'"
    by (rule replacements_loop_ConsE)
  obtain s n xs where r': "r = (s, n, xs)" by (cases r)
  note bound = locate_chunk_bound [OF r [unfolded r'] Cons.prems(2)]
  have IH: "disjoint_from (length ls) j (sort_key fst rs')"
    using Cons.IH [OF rest] Cons.prems bound by auto
  show ?case
  proof (cases "old_lines c = []")
    case True
    with bound Cons.prems have "s = length ls" "n = 0" "i \<le> j" by auto
    with IH show ?thesis
      by (auto simp: rs r' intro: insort_addition disjoint_from_mono)
  next
    case False
    with bound Cons.prems have "i \<le> s" "j = s + n" by auto
    with IH show ?thesis by (simp add: rs r' insort_first)
  qed
qed simp

text \<open>
  C4. The result of an update is the reference splice.  When no chunk is marked as end-of-file
  and no pure addition meets a file whose last line is blank, the replacements a patch computes
  never overlap, and applying them in place from the back gives exactly the file with every
  located window exchanged for its new lines and everything else kept.
\<close>

theorem derive_new_contents_splice:
  assumes "list_all (\<lambda>c. \<not> is_end_of_file c) cs"
    and "\<not> last_is_empty (original_lines content) \<or> list_all (\<lambda>c. old_lines c \<noteq> []) cs"
    and "compute_replacements (original_lines content) p cs = Ok rs"
  shows "disjoint_from (length (original_lines content)) 0 rs \<and>
    derive_new_contents content p cs =
      Ok (finish_lines (splice 0 (original_lines content) rs))"
proof -
  let ?ls = "original_lines content"
  from assms(3) obtain rs0 where "replacements_loop ?ls p cs 0 [] = Ok rs0" "rs = sort_key fst rs0"
    by (auto simp: compute_replacements_def bind_res_Ok_iff)
  with replacements_loop_disjoint [OF assms(1,2)]
  have disj: "disjoint_from (length ?ls) 0 rs" by simp
  from apply_rev_splice [OF disj] have "apply_replacements ?ls rs = Ok (splice 0 ?ls rs)"
    by (simp add: apply_replacements_def)
  with assms(3) disj show ?thesis
    by (simp add: derive_new_contents_def)
qed

lemmas seek_eval = seek_sequence_def candidates_def search_start_def exact_match_def upt_rec

definition sample_chunks :: "update_file_chunk list" where
  "sample_chunks =
     [\<lparr>change_context = None, old_lines = [], new_lines = [lit ''z''], is_end_of_file = False\<rparr>,
      \<lparr>change_context = None, old_lines = [lit ''b''], new_lines = [lit ''x'', lit ''y''],
        is_end_of_file = False\<rparr>]"

lemma sample_replacements:
  "compute_replacements (original_lines (lit ''a'' @ [10] @ lit ''b'' @ [10])) p sample_chunks =
   Ok [(1, 1, [lit ''x'', lit ''y'']), (2, 0, [lit ''z''])]"
  by (simp add: compute_replacements_def sample_chunks_def locate_chunk_def seek_context_def
      original_lines_def last_is_empty_def Let_def seek_eval)

theorem derive_new_contents_splice_witness:
  "derive_new_contents (lit ''a'' @ [10] @ lit ''b'' @ [10]) (lit ''f'') sample_chunks =
   Ok (lit ''a'' @ [10] @ lit ''x'' @ [10] @ lit ''y'' @ [10] @ lit ''z'' @ [10])"
proof -
  let ?content = "lit ''a'' @ [10] @ lit ''b'' @ [10]"
  have lines: "original_lines ?content = [lit ''a'', lit ''b'']"
    by (simp add: original_lines_def last_is_empty_def Let_def)
  have "list_all (\<lambda>c. \<not> is_end_of_file c) sample_chunks"
    by (simp add: sample_chunks_def)
  moreover have "\<not> last_is_empty (original_lines ?content) \<or>
      list_all (\<lambda>c. old_lines c \<noteq> []) sample_chunks"
    unfolding lines by (simp add: last_is_empty_def)
  ultimately have "derive_new_contents ?content (lit ''f'') sample_chunks =
      Ok (finish_lines (splice 0 (original_lines ?content)
        [(1, 1, [lit ''x'', lit ''y'']), (2, 0, [lit ''z''])]))"
    using derive_new_contents_splice sample_replacements by blast
  then show ?thesis
    unfolding lines by (simp add: finish_lines_def last_is_empty_def)
qed

section \<open>A pure addition after a replaced blank last line\<close>

lemma apply_two_blank:
  assumes "last_is_empty ls" "i + n = length ls" "0 < n"
  shows "apply_replacements ls [(i, n, new), (length ls - 1, 0, x # xs)] =
    Ok (take i ls @ new @ xs @ [[]])"
proof -
  have tail: "drop (length ls - Suc 0) ls = [[]]"
    using assms(1) by (cases ls rule: rev_cases) (auto simp: last_is_empty_def)
  have "i \<le> length ls - 1" "min (length ls - 1) i = i" "i + n - (length ls - 1) = 1"
    using assms(2,3) by auto
  then show ?thesis
    using assms(2,3) by (simp add: apply_replacements_def insert_loop_eq apply_one_eq tail
        del: insert_loop.simps)
qed

text \<open>
  C5. Where the last line of the file is blank, the condition of the splice theorem is needed.
  Take any file whose last line is blank, any chunk whose replaced lines reach to the end of the
  file, and after it a chunk that only adds lines.  The addition goes before the blank line, which
  the first chunk replaces; applied from the back, the first replacement removes the first line
  the addition has just inserted in place of the blank line.  The first added line is lost,
  whatever it is, and the blank line that was to be replaced survives at the end.
\<close>

theorem addition_after_blank_line_lost:
  assumes "last_is_empty (original_lines content)"
    and "locate_chunk (original_lines content) p c 0 = Ok ((i, n, new), j)"
    and "i + n = length (original_lines content)" and "0 < n"
    and "old_lines d = []" and "new_lines d = x # xs"
    and "seek_context (original_lines content) p d j = Ok k"
  shows "derive_new_contents content p [c, d] =
    Ok (finish_lines (take i (original_lines content) @ new @ xs @ [[]]))"
proof -
  let ?ls = "original_lines content"
  have "replacements_loop ?ls p [c, d] 0 [] = Ok [(i, n, new), (length ?ls - 1, 0, x # xs)]"
    using assms by (simp add: locate_chunk_def [of _ _ d])
  moreover have "i \<le> length ?ls - 1" using assms(3,4) by simp
  ultimately have "compute_replacements ?ls p [c, d] =
      Ok [(i, n, new), (length ?ls - 1, 0, x # xs)]"
    by (simp add: compute_replacements_def)
  then show ?thesis
    using apply_two_blank [OF assms(1,3,4), of new x xs] by (simp add: derive_new_contents_def Let_def)
qed

text \<open>A file \<open>a\<close> with a blank second line: the blank line becomes \<open>b\<close>, the added line is gone.\<close>

theorem addition_after_blank_line_lost_witness:
  "derive_new_contents (lit ''a'' @ [10, 10]) (lit ''f'')
     [\<lparr>change_context = None, old_lines = [[]], new_lines = [lit ''b''], is_end_of_file = False\<rparr>,
      \<lparr>change_context = None, old_lines = [], new_lines = [lit ''c''], is_end_of_file = False\<rparr>] =
   Ok (lit ''a'' @ [10] @ lit ''b'' @ [10])"
proof -
  let ?c = "\<lparr>change_context = None, old_lines = [[]], new_lines = [lit ''b''],
      is_end_of_file = False\<rparr> :: update_file_chunk"
  have ls: "original_lines [97, 10, 10] = [[97], []]"
    by (simp add: original_lines_def last_is_empty_def)
  have loc: "locate_chunk [[97], []] (lit ''f'') ?c 0 = Ok ((1, 1, [[98]]), 2)"
    by (simp add: locate_chunk_def seek_context_def Let_def seek_eval last_is_empty_def)
  have "derive_new_contents (lit ''a'' @ [10, 10]) (lit ''f'') [?c,
      \<lparr>change_context = None, old_lines = [], new_lines = [lit ''c''], is_end_of_file = False\<rparr>] =
    Ok (finish_lines (take 1 (original_lines (lit ''a'' @ [10, 10])) @ [lit ''b''] @ [] @ [[]]))"
    by (rule addition_after_blank_line_lost [where j = 2 and n = 1 and k = 2])
      (simp_all add: ls loc [simplified] last_is_empty_def seek_context_def)
  then show ?thesis
    by (simp add: ls finish_lines_def last_is_empty_def)
qed

end
