(* ===== verification/Patch_Tool.thy ===== *)
theory Patch_Tool
  imports Patch_Apply
begin

text \<open>
  The \<open>apply_patch\<close> tool (\<open>xai-grok-tools/src/implementations/codex/apply_patch/tool.rs\<close>): parse,
  compute every file change in memory, then write.  The file system behind the \<open>AsyncFileSystem\<close>
  trait is a parameter, a record of operations over an abstract state; \<open>reads_writes\<close> names what
  the theorems rely on.
\<close>

section \<open>Data\<close>

record 'fs file_system =
  read_file :: "'fs \<Rightarrow> str \<Rightarrow> str + str"
  write_file :: "'fs \<Rightarrow> str \<Rightarrow> str \<Rightarrow> str + 'fs"
  delete_file :: "'fs \<Rightarrow> str \<Rightarrow> str + 'fs"
  create_parent_dirs :: "'fs \<Rightarrow> str \<Rightarrow> str + 'fs"

datatype file_change =
    Add str str
  | Delete str str
  | Update str str str
  | Move str str str str

record file_written =
  absolute_path :: str
  content :: str
  previous_content :: "str option"
  is_new_file :: bool

record file_result =
  result_path :: str
  action :: str
  old_text :: "str option"
  new_text :: str
  move_to :: "str option"

datatype apply_patch_output =
    ParseErrorOutput str
  | EmptyPatch str
  | ApplicationError str
  | Success (files: "file_result list") (tool_output_for_prompt: str)
  | ToolError str

text \<open>\<open>Path::join\<close> on Unix: an absolute second path replaces the first.\<close>

definition path_join :: "str \<Rightarrow> str \<Rightarrow> str" where
  "path_join cwd p =
     (if starts_with (lit ''/'') p then p
      else if cwd = [] \<or> ends_with (lit ''/'') cwd then cwd @ p else cwd @ lit ''/'' @ p)"

section \<open>Phase 2: changes in memory\<close>

fun error_text :: "parse_error \<Rightarrow> str" where
  "error_text (InvalidPatchError m) = lit ''invalid patch: '' @ m"
| "error_text (InvalidHunkError m n) =
     lit ''invalid hunk at line '' @ show_nat n @ lit '', '' @ m"

fun apply_error_text :: "apply_error \<Rightarrow> str" where
  "apply_error_text (Parse e) = error_text e"
| "apply_error_text (ComputeReplacements m) = m"
| "apply_error_text (Io c m q) = c @ lit '': '' @ m"

fun compute_change :: "'fs file_system \<Rightarrow> 'fs \<Rightarrow> str \<Rightarrow> hunk \<Rightarrow> (str, file_change) res" where
  "compute_change F fs cwd (AddFile p cts) = Ok (Add (path_join cwd p) cts)"
| "compute_change F fs cwd (DeleteFile p) =
     (case read_file F fs (path_join cwd p) of
        Inl e \<Rightarrow> Err (lit ''Failed to read file: '' @ path_join cwd p @ lit '', '' @ e)
      | Inr original \<Rightarrow> Ok (Delete (path_join cwd p) original))"
| "compute_change F fs cwd (UpdateFile p mv cs) =
     (case read_file F fs (path_join cwd p) of
        Inl e \<Rightarrow> Err (lit ''Failed to read file to update: '' @ path_join cwd p @ lit '', '' @ e)
      | Inr original \<Rightarrow>
          (case derive_new_contents original (path_join cwd p) cs of
             Panic \<Rightarrow> Panic
           | Err e \<Rightarrow> Err (apply_error_text e)
           | Ok new_content \<Rightarrow>
               (case mv of
                  Some dest \<Rightarrow>
                    Ok (Move (path_join cwd p) (path_join cwd dest) original new_content)
                | None \<Rightarrow> Ok (Update (path_join cwd p) original new_content))))"

fun compute_all_changes ::
  "'fs file_system \<Rightarrow> 'fs \<Rightarrow> str \<Rightarrow> hunk list \<Rightarrow> (str, file_change list) res" where
  "compute_all_changes F fs cwd [] = Ok []"
| "compute_all_changes F fs cwd (h # hs) =
     bind_res (compute_change F fs cwd h) (\<lambda>c.
       bind_res (compute_all_changes F fs cwd hs) (\<lambda>cs. Ok (c # cs)))"

section \<open>Phase 3: writes\<close>

text \<open>
  The state of the write loop.  A failing operation stops the loop with the effects made so far
  in place, as the early return of the source does.
\<close>

record 'fs tool_state =
  fs_of :: 'fs
  notifications :: "file_written list"
  results :: "file_result list"

fun apply_change ::
  "'fs file_system \<Rightarrow> file_change \<Rightarrow> 'fs tool_state \<Rightarrow> 'fs tool_state \<times> str option" where
  "apply_change F (Add p c) s =
     (case create_parent_dirs F (fs_of s) p of
        Inl e \<Rightarrow> (s, Some e)
      | Inr fs1 \<Rightarrow>
          (case write_file F fs1 p c of
             Inl e \<Rightarrow> (s\<lparr>fs_of := fs1\<rparr>, Some e)
           | Inr fs2 \<Rightarrow>
               (s\<lparr>fs_of := fs2,
                  notifications := notifications s @
                    [\<lparr>absolute_path = p, content = c, previous_content = None, is_new_file = True\<rparr>],
                  results := results s @
                    [\<lparr>result_path = p, action = lit ''added'', old_text = None, new_text = c,
                      move_to = None\<rparr>]\<rparr>, None)))"
| "apply_change F (Delete p original) s =
     (case delete_file F (fs_of s) p of
        Inl e \<Rightarrow> (s, Some e)
      | Inr fs1 \<Rightarrow>
          (s\<lparr>fs_of := fs1,
             notifications := notifications s @
               [\<lparr>absolute_path = p, content = [], previous_content = Some original,
                 is_new_file = False\<rparr>],
             results := results s @
               [\<lparr>result_path = p, action = lit ''deleted'', old_text = Some original, new_text = [],
                 move_to = None\<rparr>]\<rparr>, None))"
| "apply_change F (Update p original c) s =
     (case write_file F (fs_of s) p c of
        Inl e \<Rightarrow> (s, Some e)
      | Inr fs1 \<Rightarrow>
          (s\<lparr>fs_of := fs1,
             notifications := notifications s @
               [\<lparr>absolute_path = p, content = c, previous_content = Some original,
                 is_new_file = False\<rparr>],
             results := results s @
               [\<lparr>result_path = p, action = lit ''modified'', old_text = Some original, new_text = c,
                 move_to = None\<rparr>]\<rparr>, None))"
| "apply_change F (Move src dest original c) s =
     (case create_parent_dirs F (fs_of s) dest of
        Inl e \<Rightarrow> (s, Some e)
      | Inr fs1 \<Rightarrow>
          (case write_file F fs1 dest c of
             Inl e \<Rightarrow> (s\<lparr>fs_of := fs1\<rparr>, Some e)
           | Inr fs2 \<Rightarrow>
               (case delete_file F fs2 src of
                  Inl e \<Rightarrow> (s\<lparr>fs_of := fs2\<rparr>, Some e)
                | Inr fs3 \<Rightarrow>
                    (s\<lparr>fs_of := fs3,
                       notifications := notifications s @
                         [\<lparr>absolute_path = dest, content = c, previous_content = None,
                           is_new_file = True\<rparr>,
                          \<lparr>absolute_path = src, content = [], previous_content = Some original,
                           is_new_file = False\<rparr>],
                       results := results s @
                         [\<lparr>result_path = src, action = lit ''moved'', old_text = Some original,
                           new_text = c, move_to = Some dest\<rparr>]\<rparr>, None))))"

fun apply_changes ::
  "'fs file_system \<Rightarrow> file_change list \<Rightarrow> 'fs tool_state \<Rightarrow> 'fs tool_state \<times> str option" where
  "apply_changes F [] s = (s, None)"
| "apply_changes F (c # cs) s =
     (case apply_change F c s of (s', Some e) \<Rightarrow> (s', Some e) | (s', None) \<Rightarrow> apply_changes F cs s')"

definition summary_line :: "file_result \<Rightarrow> str" where
  "summary_line r =
     (if action r = lit ''added'' then lit ''A''
      else if action r = lit ''deleted'' then lit ''D'' else lit ''M'') @ [32] @ result_path r @ [10]"

definition build_summary :: "file_result list \<Rightarrow> str" where
  "build_summary rs =
     lit ''Success. Updated the following files:'' @ [10] @ concat (map summary_line rs)"

fun parse_failure_text :: "parse_error \<Rightarrow> str" where
  "parse_failure_text (InvalidPatchError m) = lit ''Invalid patch: '' @ m"
| "parse_failure_text (InvalidHunkError m n) =
     lit ''Invalid patch hunk on line '' @ show_nat n @ lit '': '' @ m"

definition run_apply_patch ::
  "'fs file_system \<Rightarrow> str \<Rightarrow> str \<Rightarrow> 'fs \<Rightarrow> ('fs tool_state \<times> apply_patch_output) option" where
  "run_apply_patch F cwd input fs =
     (let s0 = \<lparr>fs_of = fs, notifications = [], results = []\<rparr> in
      case parse_patch input of
        Panic \<Rightarrow> None
      | Err e \<Rightarrow> Some (s0, ParseErrorOutput (parse_failure_text e))
      | Ok parsed \<Rightarrow>
          if hunks parsed = [] then Some (s0, EmptyPatch (lit ''No files were modified.''))
          else
            (case compute_all_changes F fs cwd (hunks parsed) of
               Panic \<Rightarrow> None
             | Err m \<Rightarrow> Some (s0, ApplicationError m)
             | Ok changes \<Rightarrow>
                 (case apply_changes F changes s0 of
                    (s, Some e) \<Rightarrow> Some (s, ToolError e)
                  | (s, None) \<Rightarrow> Some (s, Success (results s) (build_summary (results s))))))"

section \<open>Properties\<close>

lemma compute_change_no_panic: "compute_change F fs cwd h \<noteq> Panic"
  by (cases h) (auto split: sum.splits res.splits option.splits
      simp: derive_no_panic)

lemma compute_all_changes_no_panic: "compute_all_changes F fs cwd hs \<noteq> Panic"
  by (induction hs) (auto simp: bind_res_Panic_iff compute_change_no_panic)

text \<open>The laws of the file system: a write that succeeds is what the next read returns, and it
  leaves the other files alone.\<close>

definition reads_writes :: "'fs file_system \<Rightarrow> bool" where
  "reads_writes F \<longleftrightarrow>
     (\<forall>fs p c fs'. write_file F fs p c = Inr fs' \<longrightarrow>
        read_file F fs' p = Inr c \<and> (\<forall>q. q \<noteq> p \<longrightarrow> read_file F fs' q = read_file F fs q))"

text \<open>
  C6. The tool always returns, and it touches the file system only after the whole patch has
  been parsed and every change has been computed: an output that reports a parse error, an empty
  patch or an application error comes with the file system unchanged and no notification sent.
\<close>

theorem apply_patch_all_or_nothing:
  "\<exists>s out. run_apply_patch F cwd input fs = Some (s, out) \<and>
     (case out of
        Success fl txt \<Rightarrow> fl = results s \<and> txt = build_summary fl \<and> fl \<noteq> []
      | ToolError e \<Rightarrow> True
      | _ \<Rightarrow> fs_of s = fs \<and> notifications s = [] \<and> results s = [])"
proof -
  have parse: "parse_patch input \<noteq> Panic"
    by (simp add: parse_patch_def parse_no_panic)
  have grow: "apply_changes F cs s = (s', None) \<Longrightarrow> length (results s') = length (results s) + length cs"
    for cs s s'
  proof (induction cs arbitrary: s)
    case (Cons c cs)
    obtain s1 where s1: "apply_change F c s = (s1, None)" "apply_changes F cs s1 = (s', None)"
      using Cons.prems by (auto split: prod.splits option.splits)
    moreover have "length (results s1) = Suc (length (results s))"
      using s1(1) by (cases c) (auto split: sum.splits)
    ultimately show ?case using Cons.IH by simp
  qed simp
  have same: "compute_all_changes F fs cwd hs = Ok cs \<Longrightarrow> length cs = length hs" for hs cs
    by (induction hs arbitrary: cs) (auto simp: bind_res_Ok_iff)
  show ?thesis
  proof (cases "parse_patch input")
    case (Ok parsed)
    show ?thesis
    proof (cases "hunks parsed = []")
      case False
      show ?thesis
      proof (cases "compute_all_changes F fs cwd (hunks parsed)")
        case changes: (Ok cs)
        obtain s r where run: "apply_changes F cs \<lparr>fs_of = fs, notifications = [], results = []\<rparr> = (s, r)"
          by force
        have "results s \<noteq> []" if "r = None"
          using grow [OF run [unfolded that]] same [OF changes] False by auto
        with Ok False changes run show ?thesis
          by (cases r) (simp_all add: run_apply_patch_def)
      qed (use Ok False in \<open>auto simp: run_apply_patch_def compute_all_changes_no_panic\<close>)
    qed (simp add: Ok run_apply_patch_def)
  qed (use parse in \<open>auto simp: run_apply_patch_def\<close>)
qed

section \<open>Several updates of one file\<close>

definition is_update_of :: "str \<Rightarrow> str \<Rightarrow> hunk \<Rightarrow> bool" where
  "is_update_of cwd q h \<longleftrightarrow> (\<exists>p cs. h = UpdateFile p None cs \<and> path_join cwd p = q)"

fun plain_update :: "hunk \<Rightarrow> bool" where
  "plain_update (UpdateFile p None cs) = True"
| "plain_update _ = False"

lemma apply_changes_append:
  "apply_changes F (cs @ cs') s =
   (case apply_changes F cs s of (s', Some e) \<Rightarrow> (s', Some e) | (s', None) \<Rightarrow> apply_changes F cs' s')"
proof (induction cs arbitrary: s)
  case (Cons c cs)
  then show ?case by (cases "apply_change F c s") (auto split: option.splits)
qed simp

lemma compute_all_changes_append:
  "compute_all_changes F fs cwd (hs @ hs') =
   bind_res (compute_all_changes F fs cwd hs) (\<lambda>cs.
     bind_res (compute_all_changes F fs cwd hs') (\<lambda>cs'. Ok (cs @ cs')))"
proof (induction hs)
  case (Cons h hs)
  then show ?case
    by (cases "compute_change F fs cwd h"; cases "compute_all_changes F fs cwd hs";
        cases "compute_all_changes F fs cwd hs'") simp_all
next
  case Nil
  then show ?case by (cases "compute_all_changes F fs cwd hs'") simp_all
qed

text \<open>
  Every update is computed from the file as it was before the patch.  After a successful
  patch of plain updates, the text of a file is the last update of that file applied to the
  original text; updates of the same file that come earlier in the patch leave no trace in it.
\<close>

theorem last_update_wins:
  assumes "reads_writes F"
    and "compute_all_changes F fs cwd hs = Ok changes"
    and "hs = before @ UpdateFile p None cs # after"
    and "list_all plain_update hs" and "\<not> list_ex (is_update_of cwd (path_join cwd p)) after"
    and "apply_changes F changes s = (s', None)"
    and "read_file F fs (path_join cwd p) = Inr original"
  shows "\<exists>t. derive_new_contents original (path_join cwd p) cs = Ok t \<and>
    read_file F (fs_of s') (path_join cwd p) = Inr t"
proof -
  let ?q = "path_join cwd p"
  from assms(2,3) obtain c1 c2 t where changes: "changes = c1 @ Update ?q original t # c2"
      and t: "derive_new_contents original ?q cs = Ok t"
      and c2: "compute_all_changes F fs cwd after = Ok c2"
    using assms(7)
    by (auto simp: compute_all_changes_append bind_res_Ok_iff split: res.splits)
  have keep: "read_file F (fs_of u') ?q = read_file F (fs_of u) ?q"
    if "compute_all_changes F fs cwd hs2 = Ok cs2" "list_all plain_update hs2"
      "\<not> list_ex (is_update_of cwd ?q) hs2" "apply_changes F cs2 u = (u', None)" for hs2 cs2 u u'
    using that
  proof (induction hs2 arbitrary: cs2 u)
    case (Cons h hs2)
    from Cons.prems(2) obtain p2 ch2 where h: "h = UpdateFile p2 None ch2"
      by (cases h rule: plain_update.cases) auto
    with Cons.prems(3) have ne: "path_join cwd p2 \<noteq> ?q" by (auto simp: is_update_of_def)
    from Cons.prems(1) h obtain o2 t2 cs3 where cs2: "cs2 = Update (path_join cwd p2) o2 t2 # cs3"
        and cs3: "compute_all_changes F fs cwd hs2 = Ok cs3"
      by (auto simp: bind_res_Ok_iff split: sum.splits res.splits)
    from Cons.prems(4) cs2 obtain u1 where u1: "apply_change F (Update (path_join cwd p2) o2 t2) u = (u1, None)"
        and rest: "apply_changes F cs3 u1 = (u', None)"
      by (auto split: prod.splits option.splits)
    from u1 have "read_file F (fs_of u1) ?q = read_file F (fs_of u) ?q"
      using assms(1) ne by (auto simp: reads_writes_def split: sum.splits)
    with Cons.IH [OF cs3 _ _ rest] Cons.prems(2,3) show ?case by auto
  qed simp
  from assms(6) changes obtain s1 s2 where "apply_changes F c1 s = (s1, None)"
      and step: "apply_change F (Update ?q original t) s1 = (s2, None)"
      and rest: "apply_changes F c2 s2 = (s', None)"
    by (auto simp: apply_changes_append split: prod.splits option.splits)
  from step have "read_file F (fs_of s2) ?q = Inr t"
    using assms(1) by (auto simp: reads_writes_def split: sum.splits)
  moreover have "read_file F (fs_of s') ?q = read_file F (fs_of s2) ?q"
    using assms(3,4,5) by (intro keep [OF c2 _ _ rest]) auto
  ultimately show ?thesis using t by auto
qed

text \<open>A file system in memory, for the witness.\<close>

definition mem_fs :: "(str, str) hmap file_system" where
  "mem_fs = \<lparr>read_file = (\<lambda>m p. case hm_get m p of Some c \<Rightarrow> Inr c | None \<Rightarrow> Inl []),
     write_file = (\<lambda>m p c. Inr (hm_insert p c m)),
     delete_file = (\<lambda>m p. Inr (hm_remove p m)),
     create_parent_dirs = (\<lambda>m p. Inr m)\<rparr>"

lemma reads_writes_mem_fs: "reads_writes mem_fs"
  by (simp add: reads_writes_def mem_fs_def hm_get_insert)

definition two_updates :: "hunk list" where
  "two_updates =
     [UpdateFile (lit ''f'') None
        [\<lparr>change_context = None, old_lines = [lit ''a''], new_lines = [lit ''A''],
          is_end_of_file = False\<rparr>],
      UpdateFile (lit ''f'') None
        [\<lparr>change_context = None, old_lines = [lit ''b''], new_lines = [lit ''B''],
          is_end_of_file = False\<rparr>]]"

definition file_ab :: str where
  "file_ab = lit ''a'' @ [10] @ lit ''b'' @ [10]"

lemmas derive_eval = derive_new_contents_def compute_replacements_def locate_chunk_def
  seek_context_def original_lines_def last_is_empty_def Let_def seek_eval apply_replacements_def
  vec_insert_def finish_lines_def file_ab_def

lemma derive_file_ab:
  "derive_new_contents file_ab p
     [\<lparr>change_context = None, old_lines = [lit ''a''], new_lines = [lit ''A''],
       is_end_of_file = False\<rparr>] = Ok (lit ''A'' @ [10] @ lit ''b'' @ [10])"
  "derive_new_contents file_ab p
     [\<lparr>change_context = None, old_lines = [lit ''b''], new_lines = [lit ''B''],
       is_end_of_file = False\<rparr>] = Ok (lit ''a'' @ [10] @ lit ''B'' @ [10])"
  by (simp_all add: derive_eval)

lemma path_join_f: "path_join [] (lit ''f'') = lit ''f''"
  by (simp add: path_join_def starts_with_def)

theorem last_update_wins_witness:
  "\<exists>changes s'. compute_all_changes mem_fs [(lit ''f'', file_ab)] [] two_updates = Ok changes \<and>
     apply_changes mem_fs changes
       \<lparr>fs_of = [(lit ''f'', file_ab)], notifications = [], results = []\<rparr> = (s', None) \<and>
     read_file mem_fs (fs_of s') (lit ''f'') = Inr (lit ''a'' @ [10] @ lit ''B'' @ [10])"
proof -
  let ?fs = "[(lit ''f'', file_ab)]"
  let ?s = "\<lparr>fs_of = ?fs, notifications = [], results = []\<rparr>"
  let ?u = "\<lambda>x y. [\<lparr>change_context = None, old_lines = [lit x], new_lines = [lit y],
    is_end_of_file = False\<rparr>]"
  have read: "read_file mem_fs ?fs (lit ''f'') = Inr file_ab" by (simp add: mem_fs_def)
  obtain changes where changes: "compute_all_changes mem_fs ?fs [] two_updates = Ok changes"
    by (simp add: two_updates_def path_join_f [simplified] read [simplified]
        derive_file_ab [simplified])
  have "\<exists>s'. apply_changes mem_fs cs s = (s', None)" for cs s
  proof (induction cs arbitrary: s)
    case (Cons c cs)
    then show ?case by (cases c) (simp_all add: mem_fs_def)
  qed simp
  then obtain s' where s': "apply_changes mem_fs changes ?s = (s', None)" by blast
  have split: "two_updates = [UpdateFile (lit ''f'') None (?u ''a'' ''A'')] @
      UpdateFile (lit ''f'') None (?u ''b'' ''B'') # []"
    by (simp add: two_updates_def)
  have plain: "list_all plain_update two_updates" by (simp add: two_updates_def)
  have "\<exists>t. derive_new_contents file_ab (path_join [] (lit ''f'')) (?u ''b'' ''B'') = Ok t \<and>
      read_file mem_fs (fs_of s') (path_join [] (lit ''f'')) = Inr t"
    by (rule last_update_wins [OF reads_writes_mem_fs changes split plain _ s'])
      (simp_all only: path_join_f read list_ex_iff list.set Set.bex_empty not_False_eq_True)
  with changes s' show ?thesis
    unfolding path_join_f derive_file_ab by auto
qed

end
