(* ===== verification/Capability.thy ===== *)
theory Capability
  imports Prelude "HOL-Library.Sublist"
begin

text \<open>
  Tool kinds, tool configurations and the capability modes of subagents
  (\<open>xai-grok-tools/src/types/tool.rs\<close>, \<open>src/registry/types.rs\<close> and
  \<open>src/implementations/grok_build/task/types.rs\<close>): which tools of a parent a child keeps.
\<close>

section \<open>Data\<close>

datatype tool_kind =
    Read | Edit | Delete | ListDir | Write | Move | Search | Lsp | Execute | Plan | WebSearch
  | WebFetch | BackgroundTaskAction | WaitTasksAction | KillTaskAction | ListKind | Skill
  | MemorySearch | MemoryGet | TaskKind | EnterPlan | ExitPlan | AskUser | ImageGen | VideoGen
  | ImageToVideo | ReferenceToVideo | DeployApp | SearchTool | UseTool | Monitor | GoalUpdate
  | WorkflowKind | OtherKind

record tool_config =
  tc_id :: str
  tc_params :: "(str, json) hmap option"
  tc_name_override :: "str option"
  tc_params_name_overrides :: "(str, str) hmap option"
  tc_description_override :: "str option"
  tc_behavior_version :: "str option"
  tc_kind :: "tool_kind option"

record tool_server_config =
  tools :: "tool_config list"
  behavior_preset :: "str option"

datatype capability_mode = ReadOnly | ReadWrite | ExecuteMode | AllMode

section \<open>Operations\<close>

definition is_background_capable_bash_tool :: "tool_config \<Rightarrow> bool" where
  "is_background_capable_bash_tool tc =
     (if tc_id tc = lit ''GrokBuild:run_terminal_cmd'' \<or>
         tc_id tc = lit ''GrokBuildConcise:run_terminal_cmd''
      then (case Option.bind (Option.bind (tc_params tc)
              (\<lambda>params. hm_get params (lit ''enabled_background''))) as_bool of
              Some b \<Rightarrow> b | None \<Rightarrow> True)
      else tc_id tc = lit ''OpenCode:bash'')"

definition is_task_lifecycle_tool :: "tool_config \<Rightarrow> bool" where
  "is_task_lifecycle_tool tc \<longleftrightarrow>
     tc_kind tc = Some BackgroundTaskAction \<or> tc_kind tc = Some KillTaskAction"

definition spawns_background :: "tool_config list \<Rightarrow> bool" where
  "spawns_background tcs \<longleftrightarrow>
     list_ex (\<lambda>tc. tc_kind tc = Some TaskKind) tcs \<or> list_ex is_background_capable_bash_tool tcs"

definition prune_orphaned_background_task_tools :: "tool_server_config \<Rightarrow> tool_server_config" where
  "prune_orphaned_background_task_tools config =
     (if spawns_background (tools config) then config
      else config\<lparr>tools := filter (\<lambda>tc. \<not> is_task_lifecycle_tool tc) (tools config)\<rparr>)"

fun allowed_tool_kinds :: "capability_mode \<Rightarrow> tool_kind list" where
  "allowed_tool_kinds ReadOnly =
     [Read, ListDir, ListKind, Search, Lsp, Plan, MemorySearch, MemoryGet, WebSearch, WebFetch,
      BackgroundTaskAction, KillTaskAction, TaskKind, EnterPlan, ExitPlan, AskUser, Skill]"
| "allowed_tool_kinds ReadWrite =
     [Read, ListDir, ListKind, Search, Lsp, Edit, Write, Delete, Move, Plan, MemorySearch,
      MemoryGet, WebSearch, WebFetch, ImageGen, VideoGen, ImageToVideo, ReferenceToVideo,
      BackgroundTaskAction, KillTaskAction, TaskKind, EnterPlan, ExitPlan, AskUser, Skill]"
| "allowed_tool_kinds ExecuteMode =
     [Read, ListDir, ListKind, Search, Lsp, Execute, Plan, MemorySearch, MemoryGet, WebSearch,
      WebFetch, BackgroundTaskAction, KillTaskAction, TaskKind, EnterPlan, ExitPlan, AskUser, Skill]"
| "allowed_tool_kinds AllMode =
     [Read, ListDir, ListKind, Search, Lsp, Edit, Write, Delete, Move, Execute, Plan, MemorySearch,
      MemoryGet, WebSearch, WebFetch, ImageGen, VideoGen, ImageToVideo, ReferenceToVideo,
      BackgroundTaskAction, KillTaskAction, TaskKind, EnterPlan, ExitPlan, AskUser, Skill]"

definition kind_allowed :: "capability_mode \<Rightarrow> tool_config \<Rightarrow> bool" where
  "kind_allowed mode tc =
     (case tc_kind tc of Some k \<Rightarrow> k \<in> set (allowed_tool_kinds mode) | None \<Rightarrow> True)"

definition filter_tool_config ::
  "capability_mode \<Rightarrow> tool_server_config \<Rightarrow> tool_server_config" where
  "filter_tool_config mode config =
     (if mode = AllMode then config
      else prune_orphaned_background_task_tools
        (config\<lparr>tools := filter (kind_allowed mode) (tools config)\<rparr>))"

section \<open>Properties\<close>

lemma spawns_background_keep:
  "(\<And>tc. tc_kind tc = Some TaskKind \<Longrightarrow> P tc) \<Longrightarrow>
   (\<And>tc. is_background_capable_bash_tool tc \<Longrightarrow> tc \<in> set tcs \<Longrightarrow> P tc) \<Longrightarrow>
   spawns_background (filter P tcs) = spawns_background tcs"
  by (auto simp: spawns_background_def list_ex_iff)

lemma subseq_prune: "subseq (tools (prune_orphaned_background_task_tools c)) (tools c)"
  by (simp add: prune_orphaned_background_task_tools_def)

lemma filter_tool_config_mem:
  "mode \<noteq> AllMode \<Longrightarrow>
   tc \<in> set (tools (filter_tool_config mode c)) \<longleftrightarrow>
   tc \<in> set (tools c) \<and> kind_allowed mode tc \<and>
   (is_task_lifecycle_tool tc \<longrightarrow> spawns_background (filter (kind_allowed mode) (tools c)))"
  by (auto simp: filter_tool_config_def prune_orphaned_background_task_tools_def)

text \<open>
  Restricting a child's tools.  Under a restricted mode the filtered configuration is an
  order-preserving sublist of the parent's, it keeps no tool whose kind the mode does not allow
  (so a read-only or execute child has no editing tool and a read-only or read-write child no
  terminal), and a tool that polls or kills background tasks is kept only next to one that can
  start them.  Filtering again changes nothing.
\<close>

theorem filter_tool_config_correct:
  assumes "mode \<noteq> AllMode"
  shows "subseq (tools (filter_tool_config mode c)) (tools c) \<and>
    (\<forall>tc \<in> set (tools (filter_tool_config mode c)).
       (\<forall>k. tc_kind tc = Some k \<longrightarrow> k \<in> set (allowed_tool_kinds mode)) \<and>
       (mode \<noteq> ReadWrite \<longrightarrow> tc_kind tc \<notin> Some ` {Edit, Write, Delete, Move}) \<and>
       (mode \<noteq> ExecuteMode \<longrightarrow> tc_kind tc \<noteq> Some Execute) \<and>
       (is_task_lifecycle_tool tc \<longrightarrow> spawns_background (tools (filter_tool_config mode c)))) \<and>
    filter_tool_config mode (filter_tool_config mode c) = filter_tool_config mode c"
proof (intro conjI ballI)
  show "subseq (tools (filter_tool_config mode c)) (tools c)"
    using assms by (auto simp: filter_tool_config_def prune_orphaned_background_task_tools_def)
next
  fix tc
  assume tc: "tc \<in> set (tools (filter_tool_config mode c))"
  then have allowed: "kind_allowed mode tc"
    using assms by (simp add: filter_tool_config_mem)
  then show k: "\<forall>k. tc_kind tc = Some k \<longrightarrow> k \<in> set (allowed_tool_kinds mode)"
    by (auto simp: kind_allowed_def)
  show "mode \<noteq> ReadWrite \<longrightarrow> tc_kind tc \<notin> Some ` {Edit, Write, Delete, Move}"
    using k assms by (cases mode) auto
  show "mode \<noteq> ExecuteMode \<longrightarrow> tc_kind tc \<noteq> Some Execute"
    using k assms by (cases mode) auto
  show "is_task_lifecycle_tool tc \<longrightarrow> spawns_background (tools (filter_tool_config mode c))"
    using tc assms
    by (auto simp: filter_tool_config_def prune_orphaned_background_task_tools_def)
next
  let ?f = "filter (kind_allowed mode) (tools c)"
  have keep: "spawns_background (filter (\<lambda>tc. \<not> is_task_lifecycle_tool tc) ts) \<Longrightarrow>
      spawns_background ts" for ts
    by (auto simp: spawns_background_def list_ex_iff)
  have idem: "filter (\<lambda>tc. \<not> is_task_lifecycle_tool tc \<and> kind_allowed mode tc \<and>
      \<not> is_task_lifecycle_tool tc) ts =
      filter (\<lambda>tc. kind_allowed mode tc \<and> \<not> is_task_lifecycle_tool tc) ts" for ts
    by (rule filter_cong) auto
  show "filter_tool_config mode (filter_tool_config mode c) = filter_tool_config mode c"
    using assms keep [of ?f]
    by (auto simp: filter_tool_config_def prune_orphaned_background_task_tools_def
        filter_filter conj_commute idem)
qed

definition sample_tools :: tool_server_config where
  "sample_tools =
     \<lparr>tools = map (\<lambda>(i, k). \<lparr>tc_id = lit i, tc_params = None, tc_name_override = None,
        tc_params_name_overrides = None, tc_description_override = None,
        tc_behavior_version = None, tc_kind = k\<rparr>)
        [(''read'', Some Read), (''edit'', Some Edit), (''kill'', Some KillTaskAction),
         (''mcp'', None)],
      behavior_preset = None\<rparr>"

theorem filter_tool_config_correct_witness:
  "map tc_id (tools (filter_tool_config ReadOnly sample_tools)) = [lit ''read'', lit ''mcp''] \<and>
   subseq (tools (filter_tool_config ReadOnly sample_tools)) (tools sample_tools)"
proof -
  have "ReadOnly \<noteq> AllMode" by simp
  from filter_tool_config_correct [OF this, of sample_tools] show ?thesis
    by (simp add: sample_tools_def filter_tool_config_def prune_orphaned_background_task_tools_def
        spawns_background_def is_background_capable_bash_tool_def kind_allowed_def
        is_task_lifecycle_tool_def)
qed

end
