(* ===== verification/Coordinator_Types.thy ===== *)
theory Coordinator_Types
  imports Capability "HOL-Library.Word"
begin

text \<open>
  The data of the subagent coordinator
  (\<open>xai-grok-tools/src/implementations/grok_build/task/types.rs\<close> and \<open>coordinator_state.rs\<close>).

  A \<open>oneshot::Sender\<close> is a channel number, a \<open>CancellationToken\<close> a token number and the runtime
  handle of a live child (\<open>ChildControl\<close>) a control number; the actor's state keeps what was sent
  and what was cancelled.  Instants and durations are milliseconds.
\<close>

type_synonym chan = nat
type_synonym token = nat
type_synonym control = nat
type_synonym instant = nat

section \<open>Requests\<close>

datatype subagent_owner = Task | Workflow (run_id: str)

fun workflow_run_id :: "subagent_owner \<Rightarrow> str option" where
  "workflow_run_id Task = None"
| "workflow_run_id (Workflow r) = Some r"

fun is_workflow :: "subagent_owner \<Rightarrow> bool" where
  "is_workflow Task = False"
| "is_workflow (Workflow r) = True"

datatype model_override_provenance = Harness | Tool
datatype isolation_mode = NoIsolation | Worktree

record runtime_overrides =
  ov_model :: "str option"
  ov_model_override_provenance :: model_override_provenance
  ov_reasoning_effort :: "str option"
  ov_persona :: "str option"
  ov_capability_mode :: "capability_mode option"
  ov_isolation :: "isolation_mode option"
  ov_harness_agent_type :: "str option"
  ov_completion_output_cap :: "nat option"
  ov_spawn_depth :: "nat option"
  ov_output_token_budget :: "nat option"
  ov_output_schema :: "json option"
  ov_loop_task_id :: "str option"

record subagent_request =
  req_id :: str
  req_prompt :: str
  req_description :: str
  req_subagent_type :: str
  req_parent_session_id :: str
  req_parent_prompt_id :: "str option"
  req_resume_from :: "str option"
  req_cwd :: "str option"
  req_runtime_overrides :: runtime_overrides
  req_run_in_background :: bool
  req_surface_completion :: bool
  req_await_to_completion :: bool
  req_fork_context :: bool
  req_owner :: subagent_owner
  req_cancel_token :: token

section \<open>Results\<close>

record subagent_result =
  rs_success :: bool
  rs_output :: str
  rs_error :: "str option"
  rs_cancelled :: bool
  rs_subagent_id :: str
  rs_child_session_id :: str
  rs_tool_calls :: nat
  rs_turns :: nat
  rs_duration_ms :: nat
  rs_tokens_used :: nat
  rs_output_tokens_used :: nat
  rs_total_tokens_used :: nat
  rs_output_usage_incomplete :: bool
  rs_worktree_path :: "str option"
  rs_backgrounded :: bool

definition default_result :: subagent_result where
  "default_result =
     \<lparr>rs_success = False, rs_output = [], rs_error = None, rs_cancelled = False,
      rs_subagent_id = [], rs_child_session_id = [], rs_tool_calls = 0, rs_turns = 0,
      rs_duration_ms = 0, rs_tokens_used = 0, rs_output_tokens_used = 0, rs_total_tokens_used = 0,
      rs_output_usage_incomplete = False, rs_worktree_path = None, rs_backgrounded = False\<rparr>"

definition result_status :: "subagent_result \<Rightarrow> str" where
  "result_status r =
     (if rs_cancelled r then lit ''cancelled''
      else if rs_success r then lit ''completed'' else lit ''failed'')"

record subagent_progress =
  pr_turn_count :: nat
  pr_tool_call_count :: nat
  pr_tokens_used :: nat
  pr_context_window_tokens :: nat
  pr_context_usage_pct :: nat
  pr_tools_used :: "str list"
  pr_error_count :: nat

datatype snapshot_status =
    Initializing
  | Running subagent_progress
  | Completed (out_text: str) (out_tool_calls: nat) (out_turns: nat) (out_worktree: "str option")
  | Failed (fail_error: str)
  | Cancelled (cancel_reason: "str option")

fun is_terminal :: "snapshot_status \<Rightarrow> bool" where
  "is_terminal Initializing = False"
| "is_terminal (Running p) = False"
| "is_terminal (Completed a b c d) = True"
| "is_terminal (Failed e) = True"
| "is_terminal (Cancelled r) = True"

record subagent_snapshot =
  sn_subagent_id :: str
  sn_description :: str
  sn_subagent_type :: str
  sn_status :: snapshot_status
  sn_started_at_epoch_ms :: nat
  sn_duration_ms :: nat
  sn_persona :: "str option"

definition is_running :: "subagent_snapshot \<Rightarrow> bool" where
  "is_running s = (case sn_status s of Running _ \<Rightarrow> True | Initializing \<Rightarrow> True | _ \<Rightarrow> False)"

record subagent_inspection =
  in_snapshot :: subagent_snapshot
  in_parent_session_id :: str
  in_child_session_id :: str
  in_fork_parent_prompt_id :: "str option"
  in_resumed_from :: "str option"

record completion_summary =
  cs_subagent_id :: str
  cs_subagent_type :: str
  cs_description :: str
  cs_success :: bool
  cs_duration_ms :: nat
  cs_tool_calls :: nat
  cs_turns :: nat
  cs_output :: str

record active_subagent_summary =
  as_subagent_id :: str
  as_subagent_type :: str
  as_description :: str
  as_elapsed_ms :: nat

record outstanding_reply =
  live_ids :: "str list"
  background_live :: bool
  subagent_usage_not_applied :: bool

record registry_counts =
  n_pending :: nat
  n_active :: nat
  n_completed :: nat

record spawned_ref =
  ref_subagent_id :: str
  ref_child_session_id :: str
  ref_subagent_type :: str
  ref_description :: str
  ref_persona :: "str option"
  ref_resumed_from :: "str option"

record resume_source =
  src_subagent_id :: str
  src_child_session_id :: str
  src_child_cwd :: str
  src_worktree_path :: "str option"
  src_snapshot_ref :: "str option"
  src_subagent_type :: str
  src_persona :: "str option"
  src_model_id :: "str option"

datatype resume_lookup = ResumeActive | ResumeCompleted resume_source | ResumeMissing

datatype cancel_outcome = CancelCancelled | AlreadyFinished str | NotFound

datatype validate_outcome =
    ValidateOk | ValidateUnknown "str list" | ValidateDisabled | ValidateNotAllowed "str list"
  | ValidationUnavailable

record type_summary =
  ts_tool_names :: "(tool_kind, str) hmap"
  ts_can_read :: bool
  ts_can_search :: bool
  ts_can_execute :: bool

datatype describe_outcome =
    DescribeOk type_summary | DescribeUnknown "str list" | DescribeNotAllowed "str list"
  | DescribeDisabled | DescribeUnavailable

section \<open>Commands\<close>

datatype cancel_target = SubagentId str | ParentPromptId str | WorkflowRunId str

text \<open>One constructor per \<open>SubagentEvent\<close>, the fields of its request in order.\<close>

datatype subagent_event =
    Spawn subagent_request chan
  | Query str "str option" bool "nat option" chan
  | Cancel "str option" cancel_target chan
  | ListActive str chan
  | ListRunning str chan
  | Completions "str option" "str list" chan
  | DiscardSessionCompletions str
  | Outstanding str str chan
  | ClearUsageNotApplied str str
  | MarkUsageNotApplied str str chan
  | RegistryCounts chan
  | Inspect str "str option" chan
  | SpawnedRefs str str chan
  | ValidateType str str chan
  | DescribeType str "str option" str chan
  | LoopUnitActive str chan

text \<open>Everything the actor sends on a reply channel.\<close>

datatype reply =
    RResult subagent_result
  | RSnapshot "subagent_snapshot option"
  | RCancel cancel_outcome
  | RActive "active_subagent_summary list"
  | RInspections "subagent_inspection list"
  | RInspection "subagent_inspection option"
  | RCompletions "completion_summary list"
  | ROutstanding outstanding_reply
  | RUnit
  | RCounts registry_counts
  | RRefs "spawned_ref list"
  | RValidate validate_outcome
  | RDescribe describe_outcome
  | RBool bool
  | RResume resume_lookup

section \<open>Children\<close>

record pending_child =
  pc_request :: subagent_request
  pc_started_at :: instant
  pc_cancellation :: token
  pc_spawn_reply :: "chan option"
  pc_foreground_deadline :: "instant option"
  pc_handle_only :: bool
  pc_explicitly_killed :: bool

record active_child =
  ac_request :: subagent_request
  ac_started_at :: instant
  ac_cancellation :: token
  ac_spawn_reply :: "chan option"
  ac_foreground_deadline :: "instant option"
  ac_handle_only :: bool
  ac_definition_background :: bool
  ac_explicitly_killed :: bool
  ac_child_session_id :: str
  ac_persona :: "str option"
  ac_resumed_from :: "str option"
  ac_child_cwd :: str
  ac_worktree_path :: "str option"
  ac_effective_model_id :: str
  ac_control :: control

record completed_child =
  cc_request :: subagent_request
  cc_started_at :: instant
  cc_child_session_id :: str
  cc_persona :: "str option"
  cc_resumed_from :: "str option"
  cc_child_cwd :: str
  cc_worktree_path :: "str option"
  cc_snapshot_ref :: "str option"
  cc_persisted_output_ref :: "str option"
  cc_effective_model_id :: str
  cc_result :: subagent_result

record started_child =
  sc_child_session_id :: str
  sc_persona :: "str option"
  sc_resumed_from :: "str option"
  sc_child_cwd :: str
  sc_worktree_path :: "str option"
  sc_effective_model_id :: str
  sc_definition_background :: bool
  sc_control :: control

datatype internal_event =
    Started str started_child chan
  | ResumeSource str str chan

record 'd run_output =
  ro_result :: subagent_result
  ro_completion_data :: 'd
  ro_snapshot_ref :: "str option"

record disposition =
  foreground_delivered :: bool
  backgrounded :: bool
  waiter_delivered :: bool
  explicitly_killed :: bool
  should_surface :: bool

record 'd child_completion =
  cp_request :: subagent_request
  cp_result :: subagent_result
  cp_completion_data :: 'd
  cp_disposition :: disposition

record blocking_waiter =
  bw_deadline :: instant
  bw_respond_to :: chan

record buffered_completion =
  bc_parent_session_id :: str
  bc_summary :: completion_summary

record coordinator_config =
  foreground_budget :: nat
  buffer_completions :: bool
  buffered_completion_output_cap :: "nat option"

definition default_config :: coordinator_config where
  "default_config =
     \<lparr>foreground_budget = 45000, buffer_completions = False, buffered_completion_output_cap = None\<rparr>"

record running_seed =
  sd_subagent_id :: str
  sd_description :: str
  sd_subagent_type :: str
  sd_started_at_epoch_ms :: nat
  sd_duration_ms :: nat
  sd_persona :: "str option"
  sd_parent_session_id :: str
  sd_child_session_id :: str
  sd_fork_parent_prompt_id :: "str option"
  sd_resumed_from :: "str option"

datatype progress_target =
    TargetQuery chan
  | TargetInspect chan
  | TargetList "64 word" nat

record list_request =
  lr_slots :: "subagent_inspection option list"
  lr_remaining :: nat
  lr_respond_to :: chan

datatype child_record = PendingRecord pending_child | ActiveRecord active_child

fun record_request :: "child_record \<Rightarrow> subagent_request" where
  "record_request (PendingRecord c) = pc_request c"
| "record_request (ActiveRecord c) = ac_request c"

fun record_explicitly_killed :: "child_record \<Rightarrow> bool" where
  "record_explicitly_killed (PendingRecord c) = pc_explicitly_killed c"
| "record_explicitly_killed (ActiveRecord c) = ac_explicitly_killed c"

section \<open>Snapshots and summaries\<close>

text \<open>The two clocks the snapshots read: a monotonic one and the wall clock since the epoch.\<close>

record clock =
  mono :: instant
  wall :: nat

definition instant_to_epoch_ms :: "clock \<Rightarrow> instant \<Rightarrow> nat" where
  "instant_to_epoch_ms k i = wall k - (mono k - i)"

definition elapsed :: "clock \<Rightarrow> instant \<Rightarrow> nat" where
  "elapsed k i = mono k - i"

definition active_summary :: "clock \<Rightarrow> active_child \<Rightarrow> active_subagent_summary" where
  "active_summary k c =
     \<lparr>as_subagent_id = req_id (ac_request c), as_subagent_type = req_subagent_type (ac_request c),
      as_description = req_description (ac_request c), as_elapsed_ms = elapsed k (ac_started_at c)\<rparr>"

definition running_seed_of :: "clock \<Rightarrow> active_child \<Rightarrow> running_seed" where
  "running_seed_of k c =
     \<lparr>sd_subagent_id = req_id (ac_request c), sd_description = req_description (ac_request c),
      sd_subagent_type = req_subagent_type (ac_request c),
      sd_started_at_epoch_ms = instant_to_epoch_ms k (ac_started_at c),
      sd_duration_ms = elapsed k (ac_started_at c), sd_persona = ac_persona c,
      sd_parent_session_id = req_parent_session_id (ac_request c),
      sd_child_session_id = ac_child_session_id c,
      sd_fork_parent_prompt_id = req_parent_prompt_id (ac_request c),
      sd_resumed_from = ac_resumed_from c\<rparr>"

definition running_inspection ::
  "running_seed \<Rightarrow> subagent_progress \<Rightarrow> subagent_inspection" where
  "running_inspection sd p =
     \<lparr>in_snapshot =
        \<lparr>sn_subagent_id = sd_subagent_id sd, sn_description = sd_description sd,
         sn_subagent_type = sd_subagent_type sd, sn_status = Running p,
         sn_started_at_epoch_ms = sd_started_at_epoch_ms sd, sn_duration_ms = sd_duration_ms sd,
         sn_persona = sd_persona sd\<rparr>,
      in_parent_session_id = sd_parent_session_id sd, in_child_session_id = sd_child_session_id sd,
      in_fork_parent_prompt_id = sd_fork_parent_prompt_id sd,
      in_resumed_from = sd_resumed_from sd\<rparr>"

definition pending_snapshot :: "clock \<Rightarrow> pending_child \<Rightarrow> subagent_snapshot" where
  "pending_snapshot k c =
     \<lparr>sn_subagent_id = req_id (pc_request c), sn_description = req_description (pc_request c),
      sn_subagent_type = req_subagent_type (pc_request c), sn_status = Initializing,
      sn_started_at_epoch_ms = instant_to_epoch_ms k (pc_started_at c),
      sn_duration_ms = elapsed k (pc_started_at c),
      sn_persona = ov_persona (req_runtime_overrides (pc_request c))\<rparr>"

definition pending_inspection :: "clock \<Rightarrow> pending_child \<Rightarrow> subagent_inspection" where
  "pending_inspection k c =
     \<lparr>in_snapshot = pending_snapshot k c,
      in_parent_session_id = req_parent_session_id (pc_request c), in_child_session_id = [],
      in_fork_parent_prompt_id = req_parent_prompt_id (pc_request c),
      in_resumed_from = req_resume_from (pc_request c)\<rparr>"

definition completed_status :: "completed_child \<Rightarrow> str option \<Rightarrow> snapshot_status" where
  "completed_status c persisted_output =
     (if rs_cancelled (cc_result c) then Cancelled (rs_error (cc_result c))
      else if rs_success (cc_result c)
      then Completed (case persisted_output of Some t \<Rightarrow> t | None \<Rightarrow> rs_output (cc_result c))
             (rs_tool_calls (cc_result c)) (rs_turns (cc_result c)) (rs_worktree_path (cc_result c))
      else Failed (case rs_error (cc_result c) of Some e \<Rightarrow> e | None \<Rightarrow> lit ''Unknown error''))"

definition completed_snapshot ::
  "clock \<Rightarrow> completed_child \<Rightarrow> str option \<Rightarrow> subagent_snapshot" where
  "completed_snapshot k c persisted_output =
     \<lparr>sn_subagent_id = req_id (cc_request c), sn_description = req_description (cc_request c),
      sn_subagent_type = req_subagent_type (cc_request c),
      sn_status = completed_status c persisted_output,
      sn_started_at_epoch_ms = instant_to_epoch_ms k (cc_started_at c),
      sn_duration_ms = rs_duration_ms (cc_result c), sn_persona = cc_persona c\<rparr>"

definition completed_inspection ::
  "clock \<Rightarrow> completed_child \<Rightarrow> str option \<Rightarrow> subagent_inspection" where
  "completed_inspection k c persisted_output =
     \<lparr>in_snapshot = completed_snapshot k c persisted_output,
      in_parent_session_id = req_parent_session_id (cc_request c),
      in_child_session_id = cc_child_session_id c,
      in_fork_parent_prompt_id = req_parent_prompt_id (cc_request c),
      in_resumed_from = cc_resumed_from c\<rparr>"

lemma completed_status_terminal [simp]: "is_terminal (completed_status c p)"
  by (simp add: completed_status_def)

section \<open>Capped outputs\<close>

text \<open>\<open>while end > 0 && !output.is_char_boundary(end) { end -= 1 }\<close>\<close>

fun boundary_below :: "str \<Rightarrow> nat \<Rightarrow> nat" where
  "boundary_below s 0 = 0"
| "boundary_below s (Suc n) =
     (if is_char_boundary s (Suc n) then Suc n else boundary_below s n)"

definition cap_completion_output :: "str \<Rightarrow> nat \<Rightarrow> str" where
  "cap_completion_output output cap =
     (if str_len output \<le> cap then output
      else let end = boundary_below output cap in
        (case take_bytes output end of Some p \<Rightarrow> p | None \<Rightarrow> []) @ [10] @
        lit ''[output truncated: '' @ show_nat end @ lit '' of '' @ show_nat (str_len output) @
        lit '' bytes shown]'')"

definition completion_summary_of ::
  "subagent_request \<Rightarrow> subagent_result \<Rightarrow> completion_summary" where
  "completion_summary_of req res =
     \<lparr>cs_subagent_id = req_id req, cs_subagent_type = req_subagent_type req,
      cs_description = req_description req,
      cs_success = (rs_success res \<and> \<not> rs_cancelled res), cs_duration_ms = rs_duration_ms res,
      cs_tool_calls = rs_tool_calls res, cs_turns = rs_turns res,
      cs_output = (case ov_completion_output_cap (req_runtime_overrides req) of
         Some cap \<Rightarrow> cap_completion_output (rs_output res) cap
       | None \<Rightarrow> rs_output res)\<rparr>"

lemma boundary_below_le: "boundary_below s n \<le> n"
  by (induction n) auto

lemma boundary_below_boundary: "is_char_boundary s (boundary_below s n)"
  by (induction n) (auto simp: is_char_boundary_def)

text \<open>A boundary is never further than three bytes below the cap.\<close>

lemma boundary_below_greatest: "is_char_boundary s m \<Longrightarrow> m \<le> n \<Longrightarrow> m \<le> boundary_below s n"
  by (induction n) (auto simp: le_Suc_eq)

end
