(* ===== verification/Coordinator.thy ===== *)
theory Coordinator
  imports Coordinator_Types
begin

text \<open>
  The single-writer subagent coordinator (\<open>task/coordinator.rs\<close>, \<open>task/coordinator/query.rs\<close> and
  the trait \<open>ForegroundChild\<close> of \<open>task/coordinator_state.rs\<close>): its state, one definition per
  handler, and one iteration of the actor's loop.

  What the actor does to the outside is recorded in the state: \<open>st_sent\<close> is every value a live
  receiver got, in order; \<open>st_cancelled\<close> and \<open>st_control_cancels\<close> are the tokens and controls that
  were cancelled; \<open>st_completions\<close> and \<open>st_running_counts\<close> are the calls of
  \<open>ChildRunner::on_completed\<close> and \<open>ChildRunner::running_count_changed\<close>.  A receiver that was dropped
  is in \<open>st_closed\<close>; a send to it fails, and whether a send succeeds is \<open>send_ok\<close>.  A future that
  waits in a \<open>FuturesUnordered\<close> is the data the source keeps beside it.  One loop iteration reads
  the clocks once.  An index out of range sets \<open>st_panicked\<close>.
\<close>

section \<open>State\<close>

record prompt_scope =
  ps_parent_session_id :: str
  ps_prompt_id :: str

record 'd coordinator =
  st_pending :: "(str, pending_child) hmap"
  st_active :: "(str, active_child) hmap"
  st_completed :: "(str, completed_child) hmap"
  st_completed_order :: "str list"
  st_waiters :: "(str, blocking_waiter list) hmap"
  st_workflow_cancel_waiters :: "(str, chan list) hmap"
  st_usage_not_applied :: "prompt_scope set"
  st_pending_completions :: "buffered_completion list"
  st_runs :: "str list"
  st_validations :: "chan list"
  st_descriptions :: "chan list"
  st_progress :: "(running_seed \<times> progress_target) list"
  st_list_requests :: "(64 word, list_request) hmap"
  st_next_list_request_id :: "64 word"
  st_commands_open :: bool
  st_closed :: "chan set"
  st_cancelled :: "token set"
  st_control_cancels :: "control set"
  st_sent :: "(chan \<times> reply) list"
  st_completions :: "'d child_completion list"
  st_running_counts :: "nat list"
  st_panicked :: bool

definition new_coordinator :: "'d coordinator" where
  "new_coordinator =
     \<lparr>st_pending = [], st_active = [], st_completed = [], st_completed_order = [], st_waiters = [],
      st_workflow_cancel_waiters = [], st_usage_not_applied = {}, st_pending_completions = [],
      st_runs = [], st_validations = [], st_descriptions = [], st_progress = [],
      st_list_requests = [], st_next_list_request_id = 0, st_commands_open = True, st_closed = {},
      st_cancelled = {}, st_control_cancels = {}, st_sent = [], st_completions = [],
      st_running_counts = [], st_panicked = False\<rparr>"

definition MAX_COMPLETED_ENTRIES :: nat where "MAX_COMPLETED_ENTRIES = 1024"
definition MAX_PENDING_COMPLETIONS :: nat where "MAX_PENDING_COMPLETIONS = 256"

definition OUTPUT_UNAVAILABLE_PLACEHOLDER :: str where
  "OUTPUT_UNAVAILABLE_PLACEHOLDER = lit ''[subagent output no longer available]''"

text \<open>The methods of the host's \<open>ChildRunner\<close> whose results the actor uses.\<close>

record 'd runner =
  persisted_output_ref :: "'d \<Rightarrow> str option"
  load_persisted_output :: "str \<Rightarrow> str option"
  default_data :: 'd

section \<open>Effects\<close>

definition send_ok :: "chan \<Rightarrow> 'd coordinator \<Rightarrow> bool" where
  "send_ok ch s \<longleftrightarrow> ch \<notin> st_closed s"

definition send :: "chan \<Rightarrow> reply \<Rightarrow> 'd coordinator \<Rightarrow> 'd coordinator" where
  "send ch r s = (if send_ok ch s then s\<lparr>st_sent := st_sent s @ [(ch, r)]\<rparr> else s)"

definition send_all :: "chan list \<Rightarrow> reply \<Rightarrow> 'd coordinator \<Rightarrow> 'd coordinator" where
  "send_all chs r s = fold (\<lambda>ch. send ch r) chs s"

definition cancel_tokens :: "token set \<Rightarrow> 'd coordinator \<Rightarrow> 'd coordinator" where
  "cancel_tokens ts s = s\<lparr>st_cancelled := st_cancelled s \<union> ts\<rparr>"

definition cancel_controls :: "control set \<Rightarrow> 'd coordinator \<Rightarrow> 'd coordinator" where
  "cancel_controls cs s = s\<lparr>st_control_cancels := st_control_cancels s \<union> cs\<rparr>"

definition running_count_changed :: "'d coordinator \<Rightarrow> 'd coordinator" where
  "running_count_changed s =
     s\<lparr>st_running_counts := st_running_counts s @ [length (st_pending s) + length (st_active s)]\<rparr>"

definition belongs_to_session :: "subagent_request \<Rightarrow> str option \<Rightarrow> bool" where
  "belongs_to_session req sess = (case sess of None \<Rightarrow> True | Some i \<Rightarrow> req_parent_session_id req = i)"

definition opt_filter :: "('a \<Rightarrow> bool) \<Rightarrow> 'a option \<Rightarrow> 'a option" where
  "opt_filter P x = (case x of None \<Rightarrow> None | Some a \<Rightarrow> if P a then Some a else None)"

definition workflow_outstanding ::
  "(str, pending_child) hmap \<Rightarrow> (str, active_child) hmap \<Rightarrow> str \<Rightarrow> nat" where
  "workflow_outstanding pend act r =
     length (filter (\<lambda>c. workflow_run_id (req_owner (pc_request c)) = Some r) (hm_values pend)) +
     length (filter (\<lambda>c. workflow_run_id (req_owner (ac_request c)) = Some r) (hm_values act))"

section \<open>Foreground children\<close>

text \<open>The trait \<open>ForegroundChild\<close> as a dictionary, with its two implementations.\<close>

record 'c foreground_child =
  fc_id :: "'c \<Rightarrow> str"
  fc_child_session_id :: "'c \<Rightarrow> str"
  fc_deadline :: "'c \<Rightarrow> instant option"
  fc_caller_gone :: "chan set \<Rightarrow> 'c \<Rightarrow> bool"
  fc_is_workflow :: "'c \<Rightarrow> bool"
  fc_take_reply :: "'c \<Rightarrow> chan option \<times> 'c"
  fc_mark_backgrounded :: "'c \<Rightarrow> 'c"
  fc_cancel :: "'c \<Rightarrow> token set \<times> control set"

definition pending_ops :: "pending_child foreground_child" where
  "pending_ops =
     \<lparr>fc_id = (\<lambda>c. req_id (pc_request c)), fc_child_session_id = (\<lambda>c. req_id (pc_request c)),
      fc_deadline = pc_foreground_deadline,
      fc_caller_gone = (\<lambda>closed c. \<not> pc_handle_only c \<and>
        (case pc_spawn_reply c of None \<Rightarrow> False | Some tx \<Rightarrow> tx \<in> closed)),
      fc_is_workflow = (\<lambda>c. is_workflow (req_owner (pc_request c))),
      fc_take_reply = (\<lambda>c. (pc_spawn_reply c, c\<lparr>pc_spawn_reply := None\<rparr>)),
      fc_mark_backgrounded = (\<lambda>c. c\<lparr>pc_handle_only := True, pc_foreground_deadline := None\<rparr>),
      fc_cancel = (\<lambda>c. ({pc_cancellation c}, {}))\<rparr>"

definition active_ops :: "active_child foreground_child" where
  "active_ops =
     \<lparr>fc_id = (\<lambda>c. req_id (ac_request c)), fc_child_session_id = ac_child_session_id,
      fc_deadline = ac_foreground_deadline,
      fc_caller_gone = (\<lambda>closed c. \<not> ac_handle_only c \<and>
        (case ac_spawn_reply c of None \<Rightarrow> False | Some tx \<Rightarrow> tx \<in> closed)),
      fc_is_workflow = (\<lambda>c. is_workflow (req_owner (ac_request c))),
      fc_take_reply = (\<lambda>c. (ac_spawn_reply c, c\<lparr>ac_spawn_reply := None\<rparr>)),
      fc_mark_backgrounded = (\<lambda>c. c\<lparr>ac_handle_only := True, ac_foreground_deadline := None\<rparr>),
      fc_cancel = (\<lambda>c. ({ac_cancellation c}, {ac_control c}))\<rparr>"

definition handoff_result :: "'c foreground_child \<Rightarrow> 'c \<Rightarrow> subagent_result" where
  "handoff_result ops c = default_result
     \<lparr>rs_backgrounded := True, rs_subagent_id := fc_id ops c,
      rs_child_session_id := fc_child_session_id ops c\<rparr>"

text \<open>The new child and, when one is owed, the channel of the interim reply.\<close>

definition background_at_deadline ::
  "'c foreground_child \<Rightarrow> instant \<Rightarrow> 'c \<Rightarrow> 'c \<times> (chan \<times> reply) option" where
  "background_at_deadline ops now c =
     (case fc_deadline ops c of
        None \<Rightarrow> (c, None)
      | Some d \<Rightarrow>
          if now < d then (c, None)
          else let (r, c') = fc_take_reply ops c in
            (fc_mark_backgrounded ops c',
             map_option (\<lambda>ch. (ch, RResult (handoff_result ops c'))) r))"

text \<open>The new child and the tokens and controls that are cancelled.\<close>

definition background_if_caller_gone ::
  "'c foreground_child \<Rightarrow> chan set \<Rightarrow> 'c \<Rightarrow> 'c \<times> token set \<times> control set" where
  "background_if_caller_gone ops closed c =
     (if \<not> fc_caller_gone ops closed c then (c, {}, {})
      else let c' = snd (fc_take_reply ops c) in
        if fc_is_workflow ops c' then (c', fc_cancel ops c')
        else (fc_mark_backgrounded ops c', {}, {}))"

definition reap_abandoned_callers :: "'d coordinator \<Rightarrow> 'd coordinator" where
  "reap_abandoned_callers s =
     (let fp = background_if_caller_gone pending_ops (st_closed s);
          fa = background_if_caller_gone active_ops (st_closed s) in
      cancel_controls
        (\<Union>((\<lambda>c. snd (snd (fp c))) ` set (hm_values (st_pending s))) \<union>
         \<Union>((\<lambda>c. snd (snd (fa c))) ` set (hm_values (st_active s))))
      (cancel_tokens
        (\<Union>((\<lambda>c. fst (snd (fp c))) ` set (hm_values (st_pending s))) \<union>
         \<Union>((\<lambda>c. fst (snd (fa c))) ` set (hm_values (st_active s))))
        (s\<lparr>st_pending := hm_map_values (\<lambda>c. fst (fp c)) (st_pending s),
           st_active := hm_map_values (\<lambda>c. fst (fa c)) (st_active s)\<rparr>)))"

section \<open>Queries, inspection and progress\<close>

definition persisted_output :: "'d runner \<Rightarrow> completed_child \<Rightarrow> str option" where
  "persisted_output R c = map_option (\<lambda>reference. case load_persisted_output R reference of
       Some t \<Rightarrow> t | None \<Rightarrow> OUTPUT_UNAVAILABLE_PLACEHOLDER) (cc_persisted_output_ref c)"

definition completed_snapshot_for_query ::
  "'d runner \<Rightarrow> clock \<Rightarrow> completed_child \<Rightarrow> subagent_snapshot" where
  "completed_snapshot_for_query R k c = completed_snapshot k c (persisted_output R c)"

definition completed_inspection_for_query ::
  "'d runner \<Rightarrow> clock \<Rightarrow> completed_child \<Rightarrow> subagent_inspection" where
  "completed_inspection_for_query R k c = completed_inspection k c (persisted_output R c)"

definition ready_snapshot ::
  "'d runner \<Rightarrow> clock \<Rightarrow> str \<Rightarrow> 'd coordinator \<Rightarrow> subagent_snapshot option" where
  "ready_snapshot R k i s =
     (case opt_filter (\<lambda>c. \<not> is_workflow (req_owner (cc_request c))) (hm_get (st_completed s) i) of
        Some c \<Rightarrow> Some (completed_snapshot_for_query R k c)
      | None \<Rightarrow> map_option (pending_snapshot k)
          (opt_filter (\<lambda>c. \<not> is_workflow (req_owner (pc_request c))) (hm_get (st_pending s) i)))"

definition finish_list_slot ::
  "64 word \<Rightarrow> nat \<Rightarrow> subagent_inspection option \<Rightarrow> 'd coordinator \<Rightarrow> 'd coordinator" where
  "finish_list_slot rid index inspection s =
     (case hm_get (st_list_requests s) rid of
        None \<Rightarrow> s
      | Some r \<Rightarrow>
          if length (lr_slots r) \<le> index then s\<lparr>st_panicked := True\<rparr>
          else let r' = r\<lparr>lr_slots := (lr_slots r)[index := inspection],
                          lr_remaining := lr_remaining r - 1\<rparr> in
            if lr_remaining r' \<noteq> 0
            then s\<lparr>st_list_requests := hm_insert rid r' (st_list_requests s)\<rparr>
            else send (lr_respond_to r') (RInspections (List.map_filter id (lr_slots r')))
                   (s\<lparr>st_list_requests := hm_remove rid (st_list_requests s)\<rparr>))"

text \<open>The reply for a child that is not (or no longer) active.\<close>

definition inactive_reply ::
  "'d runner \<Rightarrow> clock \<Rightarrow> str \<Rightarrow> progress_target \<Rightarrow> 'd coordinator \<Rightarrow> 'd coordinator" where
  "inactive_reply R k i target s = (case target of
      TargetQuery ch \<Rightarrow> send ch (RSnapshot (ready_snapshot R k i s)) s
    | TargetInspect ch \<Rightarrow> send ch (RInspection
        (map_option (completed_inspection_for_query R k) (hm_get (st_completed s) i))) s
    | TargetList rid index \<Rightarrow> finish_list_slot rid index None s)"

definition queue_active_progress ::
  "'d runner \<Rightarrow> clock \<Rightarrow> str \<Rightarrow> progress_target \<Rightarrow> 'd coordinator \<Rightarrow> 'd coordinator" where
  "queue_active_progress R k i target s = (case hm_get (st_active s) i of
      None \<Rightarrow> inactive_reply R k i target s
    | Some c \<Rightarrow> s\<lparr>st_progress := st_progress s @ [(running_seed_of k c, target)]\<rparr>)"

definition finish_progress ::
  "'d runner \<Rightarrow> clock \<Rightarrow> running_seed \<Rightarrow> progress_target \<Rightarrow> subagent_progress \<Rightarrow>
   'd coordinator \<Rightarrow> 'd coordinator" where
  "finish_progress R k seed target p s =
     (if \<not> hm_contains (st_active s) (sd_subagent_id seed)
      then inactive_reply R k (sd_subagent_id seed) target s
      else let insp = running_inspection seed p in
        case target of
          TargetQuery ch \<Rightarrow> send ch (RSnapshot (Some (in_snapshot insp))) s
        | TargetInspect ch \<Rightarrow> send ch (RInspection (Some insp)) s
        | TargetList rid index \<Rightarrow> finish_list_slot rid index (Some insp) s)"

definition push_waiter :: "str \<Rightarrow> blocking_waiter \<Rightarrow> 'd coordinator \<Rightarrow> 'd coordinator" where
  "push_waiter i w s = s\<lparr>st_waiters := hm_insert i
     ((case hm_get (st_waiters s) i of None \<Rightarrow> [] | Some ws \<Rightarrow> ws) @ [w]) (st_waiters s)\<rparr>"

definition query_waiter :: "clock \<Rightarrow> nat option \<Rightarrow> chan \<Rightarrow> blocking_waiter" where
  "query_waiter k timeout_ms ch =
     \<lparr>bw_deadline = mono k + (case timeout_ms of Some t \<Rightarrow> t | None \<Rightarrow> 30000), bw_respond_to = ch\<rparr>"

definition handle_query ::
  "'d runner \<Rightarrow> clock \<Rightarrow> str \<Rightarrow> str option \<Rightarrow> bool \<Rightarrow> nat option \<Rightarrow> chan \<Rightarrow>
   'd coordinator \<Rightarrow> 'd coordinator" where
  "handle_query R k i sess block timeout_ms ch s =
     (case opt_filter (\<lambda>c. belongs_to_session (cc_request c) sess) (hm_get (st_completed s) i) of
        Some c \<Rightarrow> send ch (RSnapshot (if is_workflow (req_owner (cc_request c)) then None
                                 else Some (completed_snapshot_for_query R k c))) s
      | None \<Rightarrow>
     (case opt_filter (\<lambda>c. belongs_to_session (ac_request c) sess) (hm_get (st_active s) i) of
        Some c \<Rightarrow>
          if is_workflow (req_owner (ac_request c)) then send ch (RSnapshot None) s
          else if block then push_waiter i (query_waiter k timeout_ms ch) s
          else queue_active_progress R k i (TargetQuery ch) s
      | None \<Rightarrow>
     (case opt_filter (\<lambda>c. belongs_to_session (pc_request c) sess) (hm_get (st_pending s) i) of
        Some c \<Rightarrow>
          if is_workflow (req_owner (pc_request c)) then send ch (RSnapshot None) s
          else if block then push_waiter i (query_waiter k timeout_ms ch) s
          else send ch (RSnapshot (Some (pending_snapshot k c))) s
      | None \<Rightarrow> send ch (RSnapshot None) s)))"

definition handle_inspect ::
  "'d runner \<Rightarrow> clock \<Rightarrow> str \<Rightarrow> str option \<Rightarrow> chan \<Rightarrow> 'd coordinator \<Rightarrow> 'd coordinator" where
  "handle_inspect R k i sess ch s =
     (case opt_filter (\<lambda>c. belongs_to_session (cc_request c) sess) (hm_get (st_completed s) i) of
        Some c \<Rightarrow> send ch (RInspection (Some (completed_inspection_for_query R k c))) s
      | None \<Rightarrow>
     (case opt_filter (\<lambda>c. belongs_to_session (pc_request c) sess) (hm_get (st_pending s) i) of
        Some c \<Rightarrow> send ch (RInspection (Some (pending_inspection k c))) s
      | None \<Rightarrow>
     (case opt_filter (\<lambda>c. belongs_to_session (ac_request c) sess) (hm_get (st_active s) i) of
        Some c \<Rightarrow> queue_active_progress R k i (TargetInspect ch) s
      | None \<Rightarrow> send ch (RInspection None) s)))"

fun queue_list :: "'d runner \<Rightarrow> clock \<Rightarrow> 64 word \<Rightarrow> nat \<Rightarrow> str list \<Rightarrow> 'd coordinator \<Rightarrow> 'd coordinator" where
  "queue_list R k rid index [] s = s"
| "queue_list R k rid index (i # is) s =
     queue_list R k rid (Suc index) is (queue_active_progress R k i (TargetList rid index) s)"

definition session_task :: "str \<Rightarrow> active_child \<Rightarrow> bool" where
  "session_task sess c \<longleftrightarrow>
     req_parent_session_id (ac_request c) = sess \<and> \<not> is_workflow (req_owner (ac_request c))"

definition handle_list_running ::
  "'d runner \<Rightarrow> clock \<Rightarrow> str \<Rightarrow> chan \<Rightarrow> 'd coordinator \<Rightarrow> 'd coordinator" where
  "handle_list_running R k sess ch s =
     (let ids = map (\<lambda>c. req_id (ac_request c)) (filter (session_task sess) (hm_values (st_active s)))
      in if ids = [] then send ch (RInspections []) s
         else let rid = st_next_list_request_id s in
           queue_list R k rid 0 ids
             (s\<lparr>st_next_list_request_id := rid + 1,
                st_list_requests := hm_insert rid
                  \<lparr>lr_slots = replicate (length ids) None, lr_remaining = length ids,
                   lr_respond_to = ch\<rparr> (st_list_requests s)\<rparr>))"

section \<open>Cancellation\<close>

definition cancel_one ::
  "str \<Rightarrow> str option \<Rightarrow> bool \<Rightarrow> 'd coordinator \<Rightarrow> cancel_outcome \<times> 'd coordinator" where
  "cancel_one i sess explicit s =
     (case opt_filter (\<lambda>c. belongs_to_session (ac_request c) sess) (hm_get (st_active s) i) of
        Some c \<Rightarrow> (CancelCancelled,
          cancel_controls {ac_control c} (cancel_tokens {ac_cancellation c}
            (s\<lparr>st_active := hm_insert i
                 (c\<lparr>ac_explicitly_killed := (ac_explicitly_killed c \<or> explicit)\<rparr>) (st_active s)\<rparr>)))
      | None \<Rightarrow>
     (case opt_filter (\<lambda>c. belongs_to_session (pc_request c) sess) (hm_get (st_pending s) i) of
        Some c \<Rightarrow> (CancelCancelled,
          cancel_tokens {pc_cancellation c}
            (s\<lparr>st_pending := hm_insert i
                 (c\<lparr>pc_explicitly_killed := (pc_explicitly_killed c \<or> explicit)\<rparr>) (st_pending s)\<rparr>))
      | None \<Rightarrow>
     (case opt_filter (\<lambda>c. belongs_to_session (cc_request c) sess) (hm_get (st_completed s) i) of
        Some c \<Rightarrow> (AlreadyFinished (result_status (cc_result c)), s)
      | None \<Rightarrow> (NotFound, s))))"

text \<open>The loops of \<open>cancel_parent_prompt\<close> and \<open>cancel_workflow_children\<close> over both maps.\<close>

definition cancel_matching :: "(subagent_request \<Rightarrow> bool) \<Rightarrow> 'd coordinator \<Rightarrow> 'd coordinator" where
  "cancel_matching P s =
     (let acts = filter (\<lambda>c. P (ac_request c)) (hm_values (st_active s));
          pends = filter (\<lambda>c. P (pc_request c)) (hm_values (st_pending s)) in
      cancel_controls (set (map ac_control acts))
        (cancel_tokens (set (map ac_cancellation acts) \<union> set (map pc_cancellation pends)) s))"

definition cancel_parent_prompt :: "str \<Rightarrow> str option \<Rightarrow> 'd coordinator \<Rightarrow> 'd coordinator" where
  "cancel_parent_prompt prompt sess s =
     cancel_matching (\<lambda>req. req_parent_prompt_id req = Some prompt \<and> belongs_to_session req sess) s"

definition cancel_workflow_children :: "str \<Rightarrow> str option \<Rightarrow> 'd coordinator \<Rightarrow> 'd coordinator" where
  "cancel_workflow_children run sess s =
     cancel_matching (\<lambda>req. workflow_run_id (req_owner req) = Some run \<and> belongs_to_session req sess) s"

definition cancel_all_children :: "'d coordinator \<Rightarrow> 'd coordinator" where
  "cancel_all_children s = cancel_matching (\<lambda>req. True) s"

definition resolve_workflow_cancel_waiters :: "str \<Rightarrow> 'd coordinator \<Rightarrow> 'd coordinator" where
  "resolve_workflow_cancel_waiters run s =
     (if workflow_outstanding (st_pending s) (st_active s) run \<noteq> 0 then s
      else send_all (case hm_get (st_workflow_cancel_waiters s) run of None \<Rightarrow> [] | Some chs \<Rightarrow> chs)
             (RCancel CancelCancelled)
             (s\<lparr>st_workflow_cancel_waiters := hm_remove run (st_workflow_cancel_waiters s)\<rparr>))"

section \<open>Spawning\<close>

text \<open>A request from a child's own session is re-parented to the session at the root.\<close>

definition reparent :: "'d coordinator \<Rightarrow> subagent_request \<Rightarrow> subagent_request" where
  "reparent s req =
     (case List.find (\<lambda>c. ac_child_session_id c = req_parent_session_id req)
             (hm_values (st_active s)) of
        None \<Rightarrow> req
      | Some c \<Rightarrow>
          let ov = req_runtime_overrides req;
              ov' = (if ov_loop_task_id ov = None
                     then ov\<lparr>ov_loop_task_id := ov_loop_task_id (req_runtime_overrides (ac_request c))\<rparr>
                     else ov) in
          req\<lparr>req_parent_session_id := req_parent_session_id (ac_request c),
              req_surface_completion := False, req_runtime_overrides := ov'\<rparr>)"

definition id_taken :: "'d coordinator \<Rightarrow> str \<Rightarrow> bool" where
  "id_taken s i \<longleftrightarrow>
     hm_contains (st_pending s) i \<or> hm_contains (st_active s) i \<or> hm_contains (st_completed s) i"

definition duplicate_result :: "str \<Rightarrow> subagent_result" where
  "duplicate_result i = default_result
     \<lparr>rs_success := False,
      rs_error := Some (lit ''Subagent id '' @ [39] @ i @ [39] @ lit '' already exists''),
      rs_subagent_id := i, rs_child_session_id := i\<rparr>"

definition new_pending ::
  "coordinator_config \<Rightarrow> clock \<Rightarrow> subagent_request \<Rightarrow> chan \<Rightarrow> pending_child" where
  "new_pending cfg k req ch =
     \<lparr>pc_request = req, pc_started_at = mono k, pc_cancellation = req_cancel_token req,
      pc_spawn_reply = Some ch,
      pc_foreground_deadline =
        (if \<not> req_run_in_background req \<and> \<not> req_await_to_completion req
         then Some (mono k + foreground_budget cfg) else None),
      pc_handle_only = req_run_in_background req, pc_explicitly_killed = False\<rparr>"

definition handle_spawn ::
  "coordinator_config \<Rightarrow> clock \<Rightarrow> subagent_request \<Rightarrow> chan \<Rightarrow> 'd coordinator \<Rightarrow> 'd coordinator" where
  "handle_spawn cfg k req0 ch s =
     (let req = reparent s req0; i = req_id req in
      if id_taken s i then send ch (RResult (duplicate_result i)) s
      else let s1 = running_count_changed
                      (s\<lparr>st_pending := hm_insert i (new_pending cfg k req ch) (st_pending s)\<rparr>)
           in s1\<lparr>st_runs := st_runs s1 @ [i]\<rparr>)"

section \<open>The other commands\<close>

definition handle_cancel :: "str option \<Rightarrow> cancel_target \<Rightarrow> chan \<Rightarrow> 'd coordinator \<Rightarrow> 'd coordinator" where
  "handle_cancel sess target ch s = (case target of
      SubagentId i \<Rightarrow> (let (outcome, s') = cancel_one i sess True s in send ch (RCancel outcome) s')
    | ParentPromptId p \<Rightarrow> send ch (RCancel CancelCancelled) (cancel_parent_prompt p sess s)
    | WorkflowRunId run \<Rightarrow>
        (let s1 = cancel_workflow_children run sess s in
         if workflow_outstanding (st_pending s1) (st_active s1) run = 0
         then send ch (RCancel CancelCancelled) s1
         else s1\<lparr>st_workflow_cancel_waiters := hm_insert run
               ((case hm_get (st_workflow_cancel_waiters s1) run of None \<Rightarrow> [] | Some w \<Rightarrow> w) @ [ch])
               (st_workflow_cancel_waiters s1)\<rparr>))"

definition handle_completions ::
  "str option \<Rightarrow> str list \<Rightarrow> chan \<Rightarrow> 'd coordinator \<Rightarrow> 'd coordinator" where
  "handle_completions sess suppress ch s =
     (let owned = (\<lambda>b. case sess of None \<Rightarrow> True | Some i \<Rightarrow> bc_parent_session_id b = i);
          mine = filter owned (st_pending_completions s);
          s1 = s\<lparr>st_pending_completions := filter (\<lambda>b. \<not> owned b) (st_pending_completions s)\<rparr> in
      send ch (RCompletions (filter (\<lambda>c. cs_subagent_id c \<notin> set suppress) (map bc_summary mine))) s1)"

definition prompt_request :: "str \<Rightarrow> str \<Rightarrow> subagent_request \<Rightarrow> bool" where
  "prompt_request sess prompt req \<longleftrightarrow>
     req_parent_session_id req = sess \<and> req_parent_prompt_id req = Some prompt"

definition outstanding_reply_of :: "str \<Rightarrow> str \<Rightarrow> 'd coordinator \<Rightarrow> outstanding_reply" where
  "outstanding_reply_of sess prompt s =
     (let task = (\<lambda>req. prompt_request sess prompt req \<and> \<not> is_workflow (req_owner req)) in
      \<lparr>live_ids = sort
         (map (\<lambda>c. req_id (pc_request c))
            (filter (\<lambda>c. task (pc_request c) \<and> \<not> pc_handle_only c) (hm_values (st_pending s))) @
          map (\<lambda>c. req_id (ac_request c))
            (filter (\<lambda>c. task (ac_request c) \<and> \<not> ac_handle_only c \<and> \<not> ac_definition_background c)
               (hm_values (st_active s)))),
       background_live =
         (list_ex (\<lambda>c. task (pc_request c) \<and> pc_handle_only c) (hm_values (st_pending s)) \<or>
          list_ex (\<lambda>c. task (ac_request c) \<and> (ac_handle_only c \<or> ac_definition_background c))
            (hm_values (st_active s))),
       subagent_usage_not_applied =
         (\<lparr>ps_parent_session_id = sess, ps_prompt_id = prompt\<rparr> \<in> st_usage_not_applied s)\<rparr>)"

definition active_ref :: "active_child \<Rightarrow> spawned_ref" where
  "active_ref c =
     \<lparr>ref_subagent_id = req_id (ac_request c), ref_child_session_id = ac_child_session_id c,
      ref_subagent_type = req_subagent_type (ac_request c),
      ref_description = req_description (ac_request c), ref_persona = ac_persona c,
      ref_resumed_from = ac_resumed_from c\<rparr>"

definition completed_ref :: "completed_child \<Rightarrow> spawned_ref" where
  "completed_ref c =
     \<lparr>ref_subagent_id = req_id (cc_request c), ref_child_session_id = cc_child_session_id c,
      ref_subagent_type = req_subagent_type (cc_request c),
      ref_description = req_description (cc_request c), ref_persona = cc_persona c,
      ref_resumed_from = cc_resumed_from c\<rparr>"

definition spawned_refs_of :: "str \<Rightarrow> str \<Rightarrow> 'd coordinator \<Rightarrow> spawned_ref list" where
  "spawned_refs_of sess prompt s = sort_key ref_subagent_id
     (map active_ref
        (filter (\<lambda>c. prompt_request sess prompt (ac_request c)) (hm_values (st_active s))) @
      map completed_ref
        (filter (\<lambda>c. prompt_request sess prompt (cc_request c)) (hm_values (st_completed s))))"

definition loop_unit_active :: "str \<Rightarrow> 'd coordinator \<Rightarrow> bool" where
  "loop_unit_active task s \<longleftrightarrow>
     list_ex (\<lambda>c. ov_loop_task_id (req_runtime_overrides (pc_request c)) = Some task)
       (hm_values (st_pending s)) \<or>
     list_ex (\<lambda>c. ov_loop_task_id (req_runtime_overrides (ac_request c)) = Some task)
       (hm_values (st_active s))"

fun handle_command ::
  "'d runner \<Rightarrow> coordinator_config \<Rightarrow> clock \<Rightarrow> subagent_event \<Rightarrow> 'd coordinator \<Rightarrow> 'd coordinator" where
  "handle_command R cfg k (Spawn req ch) s = handle_spawn cfg k req ch s"
| "handle_command R cfg k (Query i sess block timeout_ms ch) s =
     handle_query R k i sess block timeout_ms ch s"
| "handle_command R cfg k (Cancel sess target ch) s = handle_cancel sess target ch s"
| "handle_command R cfg k (ListActive sess ch) s =
     send ch (RActive (map (active_summary k) (filter (session_task sess) (hm_values (st_active s))))) s"
| "handle_command R cfg k (ListRunning sess ch) s = handle_list_running R k sess ch s"
| "handle_command R cfg k (Completions sess suppress ch) s = handle_completions sess suppress ch s"
| "handle_command R cfg k (DiscardSessionCompletions sess) s =
     s\<lparr>st_pending_completions :=
         filter (\<lambda>b. bc_parent_session_id b \<noteq> sess) (st_pending_completions s)\<rparr>"
| "handle_command R cfg k (Outstanding sess prompt ch) s =
     (let s1 = reap_abandoned_callers s
      in send ch (ROutstanding (outstanding_reply_of sess prompt s1)) s1)"
| "handle_command R cfg k (ClearUsageNotApplied sess prompt) s =
     s\<lparr>st_usage_not_applied :=
         st_usage_not_applied s - {\<lparr>ps_parent_session_id = sess, ps_prompt_id = prompt\<rparr>}\<rparr>"
| "handle_command R cfg k (MarkUsageNotApplied sess prompt ch) s =
     send ch RUnit (s\<lparr>st_usage_not_applied :=
         insert \<lparr>ps_parent_session_id = sess, ps_prompt_id = prompt\<rparr> (st_usage_not_applied s)\<rparr>)"
| "handle_command R cfg k (RegistryCounts ch) s =
     send ch (RCounts \<lparr>n_pending = length (st_pending s), n_active = length (st_active s),
                       n_completed = length (st_completed s)\<rparr>) s"
| "handle_command R cfg k (Inspect i sess ch) s = handle_inspect R k i sess ch s"
| "handle_command R cfg k (SpawnedRefs sess prompt ch) s =
     send ch (RRefs (spawned_refs_of sess prompt s)) s"
| "handle_command R cfg k (ValidateType ty sess ch) s =
     s\<lparr>st_validations := st_validations s @ [ch]\<rparr>"
| "handle_command R cfg k (DescribeType ty harness sess ch) s =
     s\<lparr>st_descriptions := st_descriptions s @ [ch]\<rparr>"
| "handle_command R cfg k (LoopUnitActive task ch) s = send ch (RBool (loop_unit_active task s)) s"

section \<open>Reports from the runtime\<close>

definition promote :: "pending_child \<Rightarrow> started_child \<Rightarrow> active_child" where
  "promote p c =
     \<lparr>ac_request = pc_request p, ac_started_at = pc_started_at p,
      ac_cancellation = pc_cancellation p, ac_spawn_reply = pc_spawn_reply p,
      ac_foreground_deadline = pc_foreground_deadline p, ac_handle_only = pc_handle_only p,
      ac_definition_background = sc_definition_background c,
      ac_explicitly_killed = pc_explicitly_killed p,
      ac_child_session_id = sc_child_session_id c, ac_persona = sc_persona c,
      ac_resumed_from = sc_resumed_from c, ac_child_cwd = sc_child_cwd c,
      ac_worktree_path = sc_worktree_path c, ac_effective_model_id = sc_effective_model_id c,
      ac_control = sc_control c\<rparr>"

definition handle_started ::
  "str \<Rightarrow> started_child \<Rightarrow> chan \<Rightarrow> 'd coordinator \<Rightarrow> 'd coordinator" where
  "handle_started i c ch s =
     (case hm_get (st_pending s) i of
        None \<Rightarrow> send ch (RBool False) s
      | Some p \<Rightarrow>
          (let s1 = s\<lparr>st_pending := hm_remove i (st_pending s)\<rparr> in
           if pc_cancellation p \<in> st_cancelled s
           then send ch (RBool False) (s1\<lparr>st_pending := hm_insert i p (st_pending s1)\<rparr>)
           else send ch (RBool True) (s1\<lparr>st_active := hm_insert i (promote p c) (st_active s1)\<rparr>)))"

definition resume_source_of :: "completed_child \<Rightarrow> resume_source" where
  "resume_source_of c =
     \<lparr>src_subagent_id = req_id (cc_request c), src_child_session_id = cc_child_session_id c,
      src_child_cwd = cc_child_cwd c, src_worktree_path = cc_worktree_path c,
      src_snapshot_ref = cc_snapshot_ref c, src_subagent_type = req_subagent_type (cc_request c),
      src_persona = cc_persona c, src_model_id = Some (cc_effective_model_id c)\<rparr>"

definition resume_lookup_of :: "str \<Rightarrow> str \<Rightarrow> 'd coordinator \<Rightarrow> resume_lookup" where
  "resume_lookup_of i sess s =
     (if (case hm_get (st_pending s) i of None \<Rightarrow> False
          | Some c \<Rightarrow> req_parent_session_id (pc_request c) = sess) \<or>
         (case hm_get (st_active s) i of None \<Rightarrow> False
          | Some c \<Rightarrow> req_parent_session_id (ac_request c) = sess)
      then ResumeActive
      else case opt_filter (\<lambda>c. req_parent_session_id (cc_request c) = sess)
                  (hm_get (st_completed s) i) of
             Some c \<Rightarrow> ResumeCompleted (resume_source_of c)
           | None \<Rightarrow> ResumeMissing)"

fun handle_internal :: "internal_event \<Rightarrow> 'd coordinator \<Rightarrow> 'd coordinator" where
  "handle_internal (Started i c ch) s = handle_started i c ch s"
| "handle_internal (ResumeSource i sess ch) s = send ch (RResume (resume_lookup_of i sess s)) s"

section \<open>Completion\<close>

definition take_record :: "str \<Rightarrow> 'd coordinator \<Rightarrow> (child_record \<times> 'd coordinator) option" where
  "take_record i s = (case hm_get (st_active s) i of
      Some c \<Rightarrow> Some (ActiveRecord c, s\<lparr>st_active := hm_remove i (st_active s)\<rparr>)
    | None \<Rightarrow> (case hm_get (st_pending s) i of
        Some c \<Rightarrow> Some (PendingRecord c, s\<lparr>st_pending := hm_remove i (st_pending s)\<rparr>)
      | None \<Rightarrow> None))"

fun record_spawn_reply :: "child_record \<Rightarrow> chan option" where
  "record_spawn_reply (PendingRecord c) = pc_spawn_reply c"
| "record_spawn_reply (ActiveRecord c) = ac_spawn_reply c"

fun record_handle_only :: "child_record \<Rightarrow> bool" where
  "record_handle_only (PendingRecord c) = pc_handle_only c"
| "record_handle_only (ActiveRecord c) = ac_handle_only c"

fun completed_of :: "'d runner \<Rightarrow> child_record \<Rightarrow> 'd run_output \<Rightarrow> completed_child" where
  "completed_of R (PendingRecord c) out =
     \<lparr>cc_request = pc_request c, cc_started_at = pc_started_at c,
      cc_child_session_id = rs_child_session_id (ro_result out),
      cc_persona = ov_persona (req_runtime_overrides (pc_request c)),
      cc_resumed_from = req_resume_from (pc_request c),
      cc_child_cwd = (case req_cwd (pc_request c) of Some d \<Rightarrow> d | None \<Rightarrow> []),
      cc_worktree_path = rs_worktree_path (ro_result out), cc_snapshot_ref = ro_snapshot_ref out,
      cc_persisted_output_ref = persisted_output_ref R (ro_completion_data out),
      cc_effective_model_id = [], cc_result = ro_result out\<rparr>"
| "completed_of R (ActiveRecord c) out =
     \<lparr>cc_request = ac_request c, cc_started_at = ac_started_at c,
      cc_child_session_id = ac_child_session_id c, cc_persona = ac_persona c,
      cc_resumed_from = ac_resumed_from c, cc_child_cwd = ac_child_cwd c,
      cc_worktree_path = ac_worktree_path c, cc_snapshot_ref = ro_snapshot_ref out,
      cc_persisted_output_ref = persisted_output_ref R (ro_completion_data out),
      cc_effective_model_id = ac_effective_model_id c, cc_result = ro_result out\<rparr>"

text \<open>The block that fills the between-turn buffer and drops its oldest entries.\<close>

definition buffered_of ::
  "coordinator_config \<Rightarrow> subagent_request \<Rightarrow> subagent_result \<Rightarrow> buffered_completion" where
  "buffered_of cfg req res =
     (let sm = completion_summary_of req res in
      \<lparr>bc_parent_session_id = req_parent_session_id req,
       bc_summary = (case buffered_completion_output_cap cfg of
          Some cap \<Rightarrow> sm\<lparr>cs_output := cap_completion_output (cs_output sm) cap\<rparr>
        | None \<Rightarrow> sm)\<rparr>)"

definition buffer_completion ::
  "coordinator_config \<Rightarrow> subagent_request \<Rightarrow> subagent_result \<Rightarrow> 'd coordinator \<Rightarrow> 'd coordinator" where
  "buffer_completion cfg req res s =
     (if buffer_completions cfg \<and> req_surface_completion req \<and> \<not> is_workflow (req_owner req)
      then let l = st_pending_completions s @ [buffered_of cfg req res] in
        s\<lparr>st_pending_completions :=
            (if length l > MAX_PENDING_COMPLETIONS then drop (length l - MAX_PENDING_COMPLETIONS) l
             else l)\<rparr>
      else s)"

text \<open>What happens to the spawn caller: whether it was answered, and the final handle flag.\<close>

definition foreground_outcome :: "child_record \<Rightarrow> 'd coordinator \<Rightarrow> bool \<times> bool" where
  "foreground_outcome rec s = (case record_spawn_reply rec of
      Some ch \<Rightarrow>
        if record_handle_only rec then (False, True) else (send_ok ch s, \<not> send_ok ch s)
    | None \<Rightarrow> (False, True))"

definition disposition_of ::
  "child_record \<Rightarrow> subagent_result \<Rightarrow> blocking_waiter list \<Rightarrow> 'd coordinator \<Rightarrow> disposition" where
  "disposition_of rec res ws s =
     (let (fg, handle) = foreground_outcome rec s;
          wd = list_ex (\<lambda>w. send_ok (bw_respond_to w) s) ws;
          killed = record_explicitly_killed rec in
      \<lparr>foreground_delivered = fg, backgrounded = handle, waiter_delivered = wd,
       explicitly_killed = killed,
       should_surface = (req_surface_completion (record_request rec) \<and> handle \<and>
         \<not> rs_cancelled res \<and> \<not> wd \<and> \<not> killed)\<rparr>)"

definition commit_completed ::
  "str \<Rightarrow> completed_child \<Rightarrow> 'd coordinator \<Rightarrow> 'd coordinator" where
  "commit_completed i c s = running_count_changed
     (s\<lparr>st_completed := hm_insert i
          (if cc_persisted_output_ref c \<noteq> None then c\<lparr>cc_result := (cc_result c)\<lparr>rs_output := []\<rparr>\<rparr> else c)
          (st_completed s),
        st_completed_order := st_completed_order s @ [i]\<rparr>)"

definition finish_child ::
  "'d runner \<Rightarrow> coordinator_config \<Rightarrow> clock \<Rightarrow> str \<Rightarrow> 'd run_output \<Rightarrow> 'd coordinator \<Rightarrow> 'd coordinator" where
  "finish_child R cfg k i out s =
     (case take_record i s of
        None \<Rightarrow> s
      | Some (rec, s1) \<Rightarrow>
          (let req = record_request rec;
               completed = completed_of R rec out;
               ws = (case hm_get (st_waiters s1) i of None \<Rightarrow> [] | Some ws \<Rightarrow> ws);
               s2 = send_all (map bw_respond_to ws)
                      (RSnapshot (Some (completed_snapshot k completed None)))
                      (s1\<lparr>st_waiters := hm_remove i (st_waiters s1)\<rparr>);
               s3 = (case record_spawn_reply rec of
                       Some ch \<Rightarrow> send ch (RResult (ro_result out)) s2 | None \<Rightarrow> s2);
               s4 = buffer_completion cfg req (ro_result out) s3;
               s5 = commit_completed i completed s4;
               s6 = s5\<lparr>st_completions := st_completions s5 @
                        [\<lparr>cp_request = req, cp_result = ro_result out,
                          cp_completion_data = ro_completion_data out,
                          cp_disposition = disposition_of rec (ro_result out) ws s\<rparr>]\<rparr>
           in case workflow_run_id (req_owner req) of
                Some run \<Rightarrow> resolve_workflow_cancel_waiters run s6
              | None \<Rightarrow> s6))"

definition panicked_output :: "'d runner \<Rightarrow> subagent_request \<Rightarrow> 'd run_output" where
  "panicked_output R req =
     \<lparr>ro_result = default_result
        \<lparr>rs_success := False, rs_error := Some (lit ''Subagent runtime panicked''),
         rs_subagent_id := req_id req, rs_child_session_id := req_id req\<rparr>,
      ro_completion_data = default_data R, ro_snapshot_ref = None\<rparr>"

definition finish_panicked_child ::
  "'d runner \<Rightarrow> coordinator_config \<Rightarrow> clock \<Rightarrow> str \<Rightarrow> 'd coordinator \<Rightarrow> 'd coordinator" where
  "finish_panicked_child R cfg k i s =
     (case (case hm_get (st_active s) i of Some c \<Rightarrow> Some (ac_request c)
            | None \<Rightarrow> map_option pc_request (hm_get (st_pending s) i)) of
        None \<Rightarrow> s
      | Some req \<Rightarrow> finish_child R cfg k i (panicked_output R req) s)"

section \<open>Deadlines\<close>

definition option_min :: "nat list \<Rightarrow> nat option" where
  "option_min xs = (if xs = [] then None else Some (Min (set xs)))"

definition next_deadline :: "'d coordinator \<Rightarrow> instant option" where
  "next_deadline s = option_min
     (List.map_filter pc_foreground_deadline (hm_values (st_pending s)) @
      List.map_filter ac_foreground_deadline (hm_values (st_active s)) @
      map bw_deadline (concat (hm_values (st_waiters s))))"

definition send_handoffs :: "(chan \<times> reply) option list \<Rightarrow> 'd coordinator \<Rightarrow> 'd coordinator" where
  "send_handoffs rs s = fold (\<lambda>r s. case r of None \<Rightarrow> s | Some (ch, v) \<Rightarrow> send ch v s) rs s"

definition background_due :: "instant \<Rightarrow> 'd coordinator \<Rightarrow> 'd coordinator" where
  "background_due now s =
     (let fp = background_at_deadline pending_ops now; fa = background_at_deadline active_ops now in
      send_handoffs (map (\<lambda>c. snd (fp c)) (hm_values (st_pending s)) @
                     map (\<lambda>c. snd (fa c)) (hm_values (st_active s)))
        (s\<lparr>st_pending := hm_map_values (\<lambda>c. fst (fp c)) (st_pending s),
           st_active := hm_map_values (\<lambda>c. fst (fa c)) (st_active s)\<rparr>))"

definition answer_due_waiter ::
  "'d runner \<Rightarrow> clock \<Rightarrow> str \<Rightarrow> blocking_waiter \<Rightarrow> 'd coordinator \<Rightarrow> 'd coordinator" where
  "answer_due_waiter R k i w s =
     (if bw_respond_to w \<in> st_closed s then s
      else if hm_contains (st_active s) i
      then queue_active_progress R k i (TargetQuery (bw_respond_to w)) s
      else send (bw_respond_to w) (RSnapshot (ready_snapshot R k i s)) s)"

definition process_waiters ::
  "'d runner \<Rightarrow> clock \<Rightarrow> str \<Rightarrow> 'd coordinator \<Rightarrow> 'd coordinator" where
  "process_waiters R k i s =
     (let ws = (case hm_get (st_waiters s) i of None \<Rightarrow> [] | Some ws \<Rightarrow> ws);
          due = filter (\<lambda>w. bw_deadline w \<le> mono k) ws;
          live = filter (\<lambda>w. \<not> bw_deadline w \<le> mono k) ws;
          rest = hm_remove i (st_waiters s) in
      fold (answer_due_waiter R k i) due
        (s\<lparr>st_waiters := (if live = [] then rest else hm_insert i live rest)\<rparr>))"

definition process_deadlines :: "'d runner \<Rightarrow> clock \<Rightarrow> 'd coordinator \<Rightarrow> 'd coordinator" where
  "process_deadlines R k s =
     (let s1 = background_due (mono k) (reap_abandoned_callers s)
      in fold (process_waiters R k) (map fst (st_waiters s1)) s1)"

section \<open>The loop\<close>

text \<open>What wakes the actor, one constructor per branch of \<open>select!\<close>.\<close>

datatype 'd wake =
    WInternal internal_event
  | WRun str "'d run_output option"
  | WValidation chan validate_outcome
  | WDescription chan describe_outcome
  | WProgress running_seed progress_target subagent_progress
  | WCommand subagent_event
  | WCommandsClosed
  | WDeadline

definition loop_done :: "'d coordinator \<Rightarrow> bool" where
  "loop_done s \<longleftrightarrow> \<not> st_commands_open s \<and> st_runs s = [] \<and> st_validations s = [] \<and>
     st_descriptions s = [] \<and> st_progress s = []"

definition enabled :: "clock \<Rightarrow> 'd wake \<Rightarrow> 'd coordinator \<Rightarrow> bool" where
  "enabled k w s \<longleftrightarrow> \<not> loop_done s \<and> \<not> st_panicked s \<and> (case w of
      WInternal e \<Rightarrow> True
    | WRun i out \<Rightarrow> i \<in> set (st_runs s)
    | WValidation ch out \<Rightarrow> ch \<in> set (st_validations s)
    | WDescription ch out \<Rightarrow> ch \<in> set (st_descriptions s)
    | WProgress seed target p \<Rightarrow> (seed, target) \<in> set (st_progress s)
    | WCommand c \<Rightarrow> st_commands_open s
    | WCommandsClosed \<Rightarrow> st_commands_open s
    | WDeadline \<Rightarrow> (case next_deadline s of None \<Rightarrow> False | Some d \<Rightarrow> d \<le> mono k))"

fun dispatch ::
  "'d runner \<Rightarrow> coordinator_config \<Rightarrow> clock \<Rightarrow> 'd wake \<Rightarrow> 'd coordinator \<Rightarrow> 'd coordinator" where
  "dispatch R cfg k (WInternal e) s = handle_internal e s"
| "dispatch R cfg k (WRun i out) s =
     (let s1 = s\<lparr>st_runs := remove1 i (st_runs s)\<rparr> in
      case out of Some out \<Rightarrow> finish_child R cfg k i out s1
      | None \<Rightarrow> finish_panicked_child R cfg k i s1)"
| "dispatch R cfg k (WValidation ch out) s =
     send ch (RValidate out) (s\<lparr>st_validations := remove1 ch (st_validations s)\<rparr>)"
| "dispatch R cfg k (WDescription ch out) s =
     send ch (RDescribe out) (s\<lparr>st_descriptions := remove1 ch (st_descriptions s)\<rparr>)"
| "dispatch R cfg k (WProgress seed target p) s =
     finish_progress R k seed target p
       (s\<lparr>st_progress := remove1 (seed, target) (st_progress s)\<rparr>)"
| "dispatch R cfg k (WCommand c) s = handle_command R cfg k c (reap_abandoned_callers s)"
| "dispatch R cfg k WCommandsClosed s = s\<lparr>st_commands_open := False\<rparr>"
| "dispatch R cfg k WDeadline s = process_deadlines R k s"

text \<open>The \<open>while\<close> loop that evicts the oldest completed children.\<close>

fun evict_loop ::
  "str list \<Rightarrow> (str, completed_child) hmap \<Rightarrow> str list \<times> (str, completed_child) hmap" where
  "evict_loop order m =
     (if length m \<le> MAX_COMPLETED_ENTRIES then (order, m)
      else case order of [] \<Rightarrow> ([], m) | i # order' \<Rightarrow> evict_loop order' (hm_remove i m))"

declare evict_loop.simps [simp del]

definition evict :: "'d coordinator \<Rightarrow> 'd coordinator" where
  "evict s = (let (order, m) = evict_loop (st_completed_order s) (st_completed s)
     in s\<lparr>st_completed_order := order, st_completed := m\<rparr>)"

definition iteration ::
  "'d runner \<Rightarrow> coordinator_config \<Rightarrow> clock \<Rightarrow> 'd wake \<Rightarrow> 'd coordinator \<Rightarrow> 'd coordinator" where
  "iteration R cfg k w s = evict (dispatch R cfg k w s)"

text \<open>
  The actor in its environment: an iteration of the loop, a receiver that is dropped, or a token
  that the caller cancels.  \<open>select!\<close> is biased; every enabled branch is allowed here, which covers
  the order the code picks.
\<close>

inductive coord_step ::
  "'d runner \<Rightarrow> coordinator_config \<Rightarrow> 'd coordinator \<Rightarrow> 'd coordinator \<Rightarrow> bool"
  for R :: "'d runner" and cfg :: coordinator_config where
  step_iteration: "enabled k w s \<Longrightarrow> coord_step R cfg s (iteration R cfg k w s)"
| step_close: "coord_step R cfg s (s\<lparr>st_closed := insert ch (st_closed s)\<rparr>)"
| step_cancel: "coord_step R cfg s (s\<lparr>st_cancelled := insert t (st_cancelled s)\<rparr>)"

inductive_cases coord_stepE: "coord_step R cfg s t"

abbreviation coord_reach :: "'d runner \<Rightarrow> coordinator_config \<Rightarrow> 'd coordinator \<Rightarrow> bool" where
  "coord_reach R cfg \<equiv> reach (\<lambda>s. s = new_coordinator) (coord_step R cfg)"

end
