(* ===== verification/Coordinator_Inv.thy ===== *)
theory Coordinator_Inv
  imports Coordinator
begin

text \<open>
  The invariant of the subagent coordinator and its abstract specification.

  \<^item> \<open>live_requests\<close> and \<open>done_requests\<close> abstract the three registries to the two maps a client
    reasons about; \<open>registry_next\<close> is what every wake-up of the loop does to them.
  \<^item> \<open>coord_inv\<close> is the representation invariant; every handler keeps it.
  \<^item> \<open>foreground_laws\<close> is the contract of the trait \<open>ForegroundChild\<close>, interpreted on both
    implementations.
\<close>

named_theorems coord_simps \<open>effects of the coordinator's primitives as record updates\<close>

section \<open>Effects as updates\<close>

lemma send_eq [coord_simps]:
  "send ch r s = s\<lparr>st_sent := st_sent s @ (if ch \<in> st_closed s then [] else [(ch, r)])\<rparr>"
  by (simp add: send_def send_ok_def)

lemma send_all_eq [coord_simps]:
  "send_all chs r s =
     s\<lparr>st_sent := st_sent s @ map (\<lambda>ch. (ch, r)) (filter (\<lambda>ch. ch \<notin> st_closed s) chs)\<rparr>"
  unfolding send_all_def by (induction chs arbitrary: s) (simp_all add: send_eq)

lemma send_handoffs_eq [coord_simps]:
  "send_handoffs rs s = s\<lparr>st_sent := st_sent s @
     filter (\<lambda>(ch, v). ch \<notin> st_closed s) (List.map_filter id rs)\<rparr>"
  unfolding send_handoffs_def
  by (induction rs arbitrary: s)
    (auto simp: send_eq map_filter_simps split: option.splits)

text \<open>The part of the state the invariant reads.\<close>

definition core where
  "core s = (st_pending s, st_active s, st_completed s, st_completed_order s, st_waiters s,
     st_workflow_cancel_waiters s, st_pending_completions s, st_runs s)"

lemma core_effects [simp]:
  "core (send ch r s) = core s"
  "core (send_all chs r s) = core s"
  "core (send_handoffs rs s) = core s"
  "core (cancel_tokens ts s) = core s"
  "core (cancel_controls cs s) = core s"
  "core (running_count_changed s) = core s"
  "core (cancel_matching P s) = core s"
  by (simp_all add: core_def coord_simps cancel_tokens_def cancel_controls_def
      running_count_changed_def cancel_matching_def)

lemma core_updates [simp]:
  "core (s\<lparr>st_usage_not_applied := a\<rparr>) = core s"
  "core (s\<lparr>st_validations := b\<rparr>) = core s"
  "core (s\<lparr>st_descriptions := b\<rparr>) = core s"
  "core (s\<lparr>st_progress := c\<rparr>) = core s"
  "core (s\<lparr>st_list_requests := d\<rparr>) = core s"
  "core (s\<lparr>st_next_list_request_id := e\<rparr>) = core s"
  "core (s\<lparr>st_commands_open := f\<rparr>) = core s"
  "core (s\<lparr>st_closed := g\<rparr>) = core s"
  "core (s\<lparr>st_cancelled := g\<rparr>) = core s"
  "core (s\<lparr>st_completions := h\<rparr>) = core s"
  "core (s\<lparr>st_panicked := f\<rparr>) = core s"
  by (simp_all add: core_def)

lemma core_finish_list_slot [simp]: "core (finish_list_slot rid j x s) = core s"
  by (simp add: finish_list_slot_def Let_def split: option.splits)

lemma core_inactive_reply [simp]: "core (inactive_reply R k i t s) = core s"
  by (simp add: inactive_reply_def split: progress_target.splits)

lemma core_queue_active_progress [simp]: "core (queue_active_progress R k i t s) = core s"
  by (simp add: queue_active_progress_def split: option.splits)

lemma core_finish_progress [simp]: "core (finish_progress R k sd t p s) = core s"
  by (simp add: finish_progress_def Let_def split: progress_target.splits)

lemma core_queue_list [simp]: "core (queue_list R k rid j is s) = core s"
  by (induction "is" arbitrary: j s) auto

lemma core_handle_list_running [simp]: "core (handle_list_running R k sess ch s) = core s"
  by (simp add: handle_list_running_def Let_def)

lemma core_handle_inspect [simp]: "core (handle_inspect R k i sess ch s) = core s"
  by (simp add: handle_inspect_def split: option.splits)

lemma core_answer_due_waiter [simp]: "core (answer_due_waiter R k i w s) = core s"
  by (simp add: answer_due_waiter_def)

lemma core_fold_answer [simp]: "core (fold (answer_due_waiter R k i) ws s) = core s"
  by (induction ws arbitrary: s) auto

lemma core_fields:
  assumes "core s = core t"
  shows "st_pending s = st_pending t" "st_active s = st_active t" "st_completed s = st_completed t"
    "st_completed_order s = st_completed_order t" "st_waiters s = st_waiters t"
    "st_workflow_cancel_waiters s = st_workflow_cancel_waiters t"
    "st_pending_completions s = st_pending_completions t" "st_runs s = st_runs t"
  using assms by (simp_all add: core_def)

section \<open>The contract of a foreground child\<close>

locale foreground_laws =
  fixes ops :: "'c foreground_child" and request :: "'c \<Rightarrow> subagent_request"
    and handle_only :: "'c \<Rightarrow> bool" and reply :: "'c \<Rightarrow> chan option"
  assumes take_fst: "fst (fc_take_reply ops c) = reply c"
    and take_reply_none: "reply (snd (fc_take_reply ops c)) = None"
    and take_request: "request (snd (fc_take_reply ops c)) = request c"
    and take_deadline: "fc_deadline ops (snd (fc_take_reply ops c)) = fc_deadline ops c"
    and mark_request: "request (fc_mark_backgrounded ops c) = request c"
    and mark_deadline: "fc_deadline ops (fc_mark_backgrounded ops c) = None"
    and mark_handle: "handle_only (fc_mark_backgrounded ops c)"
    and mark_reply: "reply (fc_mark_backgrounded ops c) = reply c"
    and gone_iff: "fc_caller_gone ops closed c \<longleftrightarrow>
      \<not> handle_only c \<and> (\<exists>tx. reply c = Some tx \<and> tx \<in> closed)"
    and workflow_iff: "fc_is_workflow ops c = is_workflow (req_owner (request c))"
begin

lemma deadline_request [simp]: "request (fst (background_at_deadline ops now c)) = request c"
  by (auto simp: background_at_deadline_def take_request mark_request split: option.splits prod.splits)
    (metis snd_conv take_request)

lemma gone_request [simp]: "request (fst (background_if_caller_gone ops cl c)) = request c"
  by (simp add: background_if_caller_gone_def Let_def take_request mark_request)

text \<open>No deadline that is due survives, and the interim reply goes to the spawn caller.\<close>

lemma deadline_not_due:
  "fc_deadline ops (fst (background_at_deadline ops now c)) = Some d \<Longrightarrow> now < d"
  by (auto simp: background_at_deadline_def mark_deadline split: option.splits prod.splits if_splits)

lemma deadline_due:
  assumes "fc_deadline ops c = Some d" "d \<le> now"
  shows "handle_only (fst (background_at_deadline ops now c))"
    and "reply (fst (background_at_deadline ops now c)) = None"
    and "fc_deadline ops (fst (background_at_deadline ops now c)) = None"
  using assms by (auto simp: background_at_deadline_def mark_handle mark_reply mark_deadline
      split: prod.splits) (metis snd_conv take_reply_none)

lemma gone_resolved: "\<not> fc_caller_gone ops cl (fst (background_if_caller_gone ops cl c))"
  by (auto simp: background_if_caller_gone_def Let_def gone_iff take_reply_none mark_handle)

lemma gone_idem:
  "background_if_caller_gone ops cl (fst (background_if_caller_gone ops cl c)) =
   (fst (background_if_caller_gone ops cl c), {}, {})"
  using gone_resolved by (simp add: background_if_caller_gone_def)

text \<open>A task child whose caller is gone keeps running in the background; nothing is cancelled.\<close>

lemma gone_task:
  assumes "fc_caller_gone ops cl c" "\<not> is_workflow (req_owner (request c))"
  shows "handle_only (fst (background_if_caller_gone ops cl c))"
    and "snd (background_if_caller_gone ops cl c) = ({}, {})"
  using assms
  by (simp_all add: background_if_caller_gone_def Let_def workflow_iff take_request mark_handle)

end

interpretation pf: foreground_laws pending_ops pc_request pc_handle_only pc_spawn_reply
  by unfold_locales (auto simp: pending_ops_def split: option.splits)

interpretation af: foreground_laws active_ops ac_request ac_handle_only ac_spawn_reply
  by unfold_locales (auto simp: active_ops_def split: option.splits)

section \<open>The abstract registry\<close>

definition live_requests :: "'d coordinator \<Rightarrow> str \<Rightarrow> subagent_request option" where
  "live_requests s i = (case hm_get (st_active s) i of
      Some c \<Rightarrow> Some (ac_request c)
    | None \<Rightarrow> map_option pc_request (hm_get (st_pending s) i))"

definition done_requests :: "'d coordinator \<Rightarrow> str \<Rightarrow> subagent_request option" where
  "done_requests s i = map_option cc_request (hm_get (st_completed s) i)"

text \<open>
  The registry a client reasons about: the requests of the live children, the requests of the
  finished ones, and the order in which they finished.  Each wake-up of the loop stands for one
  action: a spawn adds its request unless the id is in use, the end of a run moves exactly that
  child to the finished ones, of which the latest 1024 are kept, and nothing else changes it.
\<close>

type_synonym registry =
  "(str \<rightharpoonup> subagent_request) \<times> (str \<rightharpoonup> subagent_request) \<times> str list"

datatype registry_action = RegSpawn subagent_request | RegFinish str | RegNone

definition registry_of :: "'d coordinator \<Rightarrow> registry" where
  "registry_of s = (live_requests s, done_requests s, st_completed_order s)"

definition trim_registry :: "registry \<Rightarrow> registry" where
  "trim_registry r = (case r of (live, fin, order) \<Rightarrow>
     let kept = drop (length order - MAX_COMPLETED_ENTRIES) order in (live, fin |` set kept, kept))"

fun registry_change :: "registry_action \<Rightarrow> registry \<Rightarrow> registry" where
  "registry_change (RegSpawn req) (live, fin, order) =
     (if req_id req \<in> dom live \<union> dom fin then (live, fin, order)
      else (live(req_id req \<mapsto> req), fin, order))"
| "registry_change (RegFinish i) (live, fin, order) = (live(i := None), fin(i := live i), order @ [i])"
| "registry_change RegNone r = r"

fun registry_next :: "registry_action \<Rightarrow> registry \<Rightarrow> registry" where
  "registry_next (RegFinish i) r = trim_registry (registry_change (RegFinish i) r)"
| "registry_next a r = registry_change a r"

fun wake_action :: "'d coordinator \<Rightarrow> 'd wake \<Rightarrow> registry_action" where
  "wake_action s (WCommand (Spawn req ch)) = RegSpawn (reparent s req)"
| "wake_action s (WRun i out) = RegFinish i"
| "wake_action s w = RegNone"

section \<open>The invariant\<close>

definition live_ids_of :: "'d coordinator \<Rightarrow> str set" where
  "live_ids_of s = hm_keys (st_pending s) \<union> hm_keys (st_active s)"

definition store_inv :: "'d coordinator \<Rightarrow> bool" where
  "store_inv s \<longleftrightarrow>
     hm_wf (st_pending s) \<and> hm_wf (st_active s) \<and> hm_wf (st_completed s) \<and>
     hm_keys (st_pending s) \<inter> hm_keys (st_active s) = {} \<and>
     live_ids_of s \<inter> hm_keys (st_completed s) = {} \<and>
     (\<forall>i req. live_requests s i = Some req \<longrightarrow> req_id req = i) \<and>
     (\<forall>i req. done_requests s i = Some req \<longrightarrow> req_id req = i) \<and>
     distinct (st_completed_order s) \<and> set (st_completed_order s) = hm_keys (st_completed s)"

definition workflow_live :: "'d coordinator \<Rightarrow> str \<Rightarrow> bool" where
  "workflow_live s run \<longleftrightarrow>
     (\<exists>i req. live_requests s i = Some req \<and> workflow_run_id (req_owner req) = Some run)"

definition waiting_inv :: "'d coordinator \<Rightarrow> bool" where
  "waiting_inv s \<longleftrightarrow>
     hm_wf (st_waiters s) \<and> hm_keys (st_waiters s) \<subseteq> live_ids_of s \<and>
     hm_wf (st_workflow_cancel_waiters s) \<and>
     (\<forall>run \<in> hm_keys (st_workflow_cancel_waiters s). workflow_live s run) \<and>
     length (st_pending_completions s) \<le> MAX_PENDING_COMPLETIONS"

definition runs_inv :: "'d coordinator \<Rightarrow> bool" where
  "runs_inv s \<longleftrightarrow> distinct (st_runs s) \<and> set (st_runs s) = live_ids_of s"

definition coord_inv :: "'d coordinator \<Rightarrow> bool" where
  "coord_inv s \<longleftrightarrow> store_inv s \<and> waiting_inv s \<and> runs_inv s \<and>
     length (st_completed s) \<le> MAX_COMPLETED_ENTRIES"

lemma dom_live_requests: "dom (live_requests s) = live_ids_of s"
  by (auto simp: live_requests_def live_ids_of_def hm_keys_dom split: option.splits)

lemma dom_done_requests: "dom (done_requests s) = hm_keys (st_completed s)"
  by (auto simp: done_requests_def hm_keys_dom)

lemma live_requests_core: "core s = core t \<Longrightarrow> live_requests s = live_requests t"
  by (rule ext) (simp only: live_requests_def core_fields [of s t])

lemma done_requests_core: "core s = core t \<Longrightarrow> done_requests s = done_requests t"
  by (rule ext) (simp only: done_requests_def core_fields [of s t])

lemma live_ids_core: "core s = core t \<Longrightarrow> live_ids_of s = live_ids_of t"
  by (simp add: live_ids_of_def core_def)

lemma inv_core:
  assumes "core s = core t"
  shows "store_inv s = store_inv t" "waiting_inv s = waiting_inv t" "runs_inv s = runs_inv t"
  unfolding store_inv_def waiting_inv_def runs_inv_def workflow_live_def core_fields [OF assms]
    live_requests_core [OF assms] live_ids_core [OF assms] done_requests_core [OF assms]
  by (rule refl)+

lemma live_requests_updates [simp]:
  "live_requests (s\<lparr>st_waiters := a\<rparr>) = live_requests s"
  "live_requests (s\<lparr>st_workflow_cancel_waiters := b\<rparr>) = live_requests s"
  "live_requests (s\<lparr>st_pending_completions := c\<rparr>) = live_requests s"
  "live_requests (s\<lparr>st_runs := d\<rparr>) = live_requests s"
  "live_requests (s\<lparr>st_completed := e\<rparr>) = live_requests s"
  "live_requests (s\<lparr>st_completed_order := d\<rparr>) = live_requests s"
  by (intro ext, simp add: live_requests_def split: option.split)+

lemma done_requests_updates [simp]:
  "done_requests (s\<lparr>st_waiters := a\<rparr>) = done_requests s"
  "done_requests (s\<lparr>st_workflow_cancel_waiters := b\<rparr>) = done_requests s"
  "done_requests (s\<lparr>st_pending_completions := c\<rparr>) = done_requests s"
  "done_requests (s\<lparr>st_runs := d\<rparr>) = done_requests s"
  "done_requests (s\<lparr>st_pending := f\<rparr>) = done_requests s"
  "done_requests (s\<lparr>st_active := g\<rparr>) = done_requests s"
  "done_requests (s\<lparr>st_completed_order := d\<rparr>) = done_requests s"
  by (intro ext, simp add: done_requests_def)+

lemma live_ids_updates [simp]:
  "live_ids_of (s\<lparr>st_waiters := a\<rparr>) = live_ids_of s"
  "live_ids_of (s\<lparr>st_workflow_cancel_waiters := b\<rparr>) = live_ids_of s"
  "live_ids_of (s\<lparr>st_pending_completions := c\<rparr>) = live_ids_of s"
  "live_ids_of (s\<lparr>st_runs := d\<rparr>) = live_ids_of s"
  "live_ids_of (s\<lparr>st_completed := e\<rparr>) = live_ids_of s"
  "live_ids_of (s\<lparr>st_completed_order := d\<rparr>) = live_ids_of s"
  by (simp_all add: live_ids_of_def)

text \<open>A step that only rewrites the live children in place, keeping their requests.\<close>

lemma inv_in_place:
  assumes "live_requests s' = live_requests s" "done_requests s' = done_requests s"
    and "hm_wf (st_pending s')" "hm_wf (st_active s')"
    and "hm_keys (st_pending s') \<inter> hm_keys (st_active s') = {}"
    and "st_completed s' = st_completed s" "st_completed_order s' = st_completed_order s"
    and "st_runs s' = st_runs s"
  shows "store_inv s \<Longrightarrow> store_inv s'" "runs_inv s \<Longrightarrow> runs_inv s'"
proof -
  have "live_ids_of s' = live_ids_of s"
    using assms(1) by (metis dom_live_requests)
  with assms show "store_inv s \<Longrightarrow> store_inv s'" "runs_inv s \<Longrightarrow> runs_inv s'"
    by (simp_all add: store_inv_def runs_inv_def)
qed

lemma workflow_outstanding_zero:
  assumes "hm_wf (st_pending s)" "hm_wf (st_active s)"
    "hm_keys (st_pending s) \<inter> hm_keys (st_active s) = {}"
  shows "workflow_outstanding (st_pending s) (st_active s) run = 0 \<longleftrightarrow> \<not> workflow_live s run"
proof -
  have wp: "(i, c) \<in> set (st_pending s) \<longleftrightarrow> hm_get (st_pending s) i = Some c" for i c
    using assms(1) by (simp add: hm_wf_def)
  have wa: "(i, c) \<in> set (st_active s) \<longleftrightarrow> hm_get (st_active s) i = Some c" for i c
    using assms(2) by (simp add: hm_wf_def)
  have disj: "hm_get (st_pending s) i = Some c \<Longrightarrow> hm_get (st_active s) i = None" for i c
    using assms(3) by (metis Int_iff domI domIff empty_iff hm_keys_dom)
  have "workflow_live s run \<longleftrightarrow>
    (\<exists>i c. (i, c) \<in> set (st_pending s) \<and> workflow_run_id (req_owner (pc_request c)) = Some run) \<or>
    (\<exists>i c. (i, c) \<in> set (st_active s) \<and> workflow_run_id (req_owner (ac_request c)) = Some run)"
  proof -
    have "live_requests s i = Some req \<longleftrightarrow>
        (\<exists>c. hm_get (st_pending s) i = Some c \<and> pc_request c = req) \<or>
        (\<exists>c. hm_get (st_active s) i = Some c \<and> ac_request c = req)" for i req
      using disj [of i] by (auto simp: live_requests_def split: option.splits)
    then show ?thesis
      unfolding workflow_live_def wp wa by metis
  qed
  then show ?thesis
    by (force simp: workflow_outstanding_def filter_empty_conv)
qed

section \<open>Every handler keeps the invariant\<close>

text \<open>Rewriting all live children by functions that keep their requests.\<close>

lemma live_requests_map:
  assumes "st_pending s' = hm_map_values f (st_pending s)" "st_active s' = hm_map_values g (st_active s)"
    and "\<And>c. pc_request (f c) = pc_request c" "\<And>c. ac_request (g c) = ac_request c"
  shows "live_requests s' = live_requests s"
  using assms
  by (intro ext) (simp add: live_requests_def hm_get_map_values option.map_comp comp_def
      split: option.split)

definition base_inv :: "'d coordinator \<Rightarrow> bool" where
  "base_inv s \<longleftrightarrow> store_inv s \<and> waiting_inv s \<and> runs_inv s"

lemma base_inv_core:
  assumes "core s = core t"
  shows "base_inv s = base_inv t"
  unfolding base_inv_def inv_core [OF assms] by (rule refl)

lemma base_inv_live:
  assumes "live_requests s' = live_requests s"
    and "hm_wf (st_pending s')" "hm_wf (st_active s')"
    and "hm_keys (st_pending s') \<inter> hm_keys (st_active s') = {}"
    and "st_completed s' = st_completed s" "st_completed_order s' = st_completed_order s"
    and "st_runs s' = st_runs s" "st_waiters s' = st_waiters s"
    and "st_workflow_cancel_waiters s' = st_workflow_cancel_waiters s"
    and "st_pending_completions s' = st_pending_completions s"
    and "base_inv s"
  shows "base_inv s'"
proof -
  have "live_ids_of s' = live_ids_of s"
    using assms(1) by (metis dom_live_requests)
  moreover have "done_requests s' = done_requests s"
    using assms(5) by (intro ext) (simp add: done_requests_def)
  ultimately show ?thesis
    using assms by (simp add: base_inv_def store_inv_def runs_inv_def waiting_inv_def workflow_live_def)
qed

lemma base_inv_map:
  assumes "st_pending s' = hm_map_values f (st_pending s)" "st_active s' = hm_map_values g (st_active s)"
    and "\<And>c. pc_request (f c) = pc_request c" "\<And>c. ac_request (g c) = ac_request c"
    and "st_completed s' = st_completed s" "st_completed_order s' = st_completed_order s"
    and "st_runs s' = st_runs s" "st_waiters s' = st_waiters s"
    and "st_workflow_cancel_waiters s' = st_workflow_cancel_waiters s"
    and "st_pending_completions s' = st_pending_completions s"
    and "base_inv s"
  shows "base_inv s'"
proof (rule base_inv_live [OF live_requests_map [OF assms(1-4)]])
  show "hm_keys (st_pending s') \<inter> hm_keys (st_active s') = {}"
    using assms(11) by (simp add: assms(1,2) hm_keys_map_values base_inv_def store_inv_def)
qed (use assms in \<open>simp_all add: base_inv_def store_inv_def\<close>)

lemmas reap_simps = reap_abandoned_callers_def Let_def cancel_tokens_def cancel_controls_def

lemma reap_registry [simp]:
  "live_requests (reap_abandoned_callers s) = live_requests s"
  "done_requests (reap_abandoned_callers s) = done_requests s"
  "st_completed_order (reap_abandoned_callers s) = st_completed_order s"
proof -
  show "live_requests (reap_abandoned_callers s) = live_requests s"
    by (rule live_requests_map [where f = "\<lambda>c. fst (background_if_caller_gone pending_ops (st_closed s) c)"
          and g = "\<lambda>c. fst (background_if_caller_gone active_ops (st_closed s) c)"])
      (simp_all add: reap_simps)
  show "done_requests (reap_abandoned_callers s) = done_requests s"
    by (intro ext) (simp add: done_requests_def reap_simps)
qed (simp add: reap_simps)

lemma reap_inv: "base_inv s \<Longrightarrow> base_inv (reap_abandoned_callers s)"
  by (rule base_inv_map [where f = "\<lambda>c. fst (background_if_caller_gone pending_ops (st_closed s) c)"
          and g = "\<lambda>c. fst (background_if_caller_gone active_ops (st_closed s) c)" and s = s])
    (simp_all add: reap_simps)

lemmas background_due_simps = background_due_def Let_def send_handoffs_eq

lemma background_due_registry [simp]:
  "live_requests (background_due now s) = live_requests s"
  "done_requests (background_due now s) = done_requests s"
  "st_completed_order (background_due now s) = st_completed_order s"
proof -
  show "live_requests (background_due now s) = live_requests s"
    by (rule live_requests_map [where f = "\<lambda>c. fst (background_at_deadline pending_ops now c)"
          and g = "\<lambda>c. fst (background_at_deadline active_ops now c)"])
      (simp_all add: background_due_simps)
  show "done_requests (background_due now s) = done_requests s"
    by (intro ext) (simp add: done_requests_def background_due_simps)
qed (simp add: background_due_simps)

lemma background_due_inv: "base_inv s \<Longrightarrow> base_inv (background_due now s)"
  by (rule base_inv_map [where f = "\<lambda>c. fst (background_at_deadline pending_ops now c)"
          and g = "\<lambda>c. fst (background_at_deadline active_ops now c)" and s = s])
    (simp_all add: background_due_simps)

subsection \<open>Waiters\<close>

text \<open>Replacing the blocking waiters by ones of live children.\<close>

lemma base_inv_waiters:
  assumes "base_inv s" "hm_wf ws" "hm_keys ws \<subseteq> live_ids_of s"
  shows "base_inv (s\<lparr>st_waiters := ws\<rparr>)"
  using assms
  by (simp add: base_inv_def store_inv_def waiting_inv_def runs_inv_def workflow_live_def)

lemma process_waiters_inv:
  assumes "base_inv s"
  shows "base_inv (process_waiters R k i s)" "live_requests (process_waiters R k i s) = live_requests s"
    "done_requests (process_waiters R k i s) = done_requests s"
    "st_completed_order (process_waiters R k i s) = st_completed_order s"
proof -
  define live where "live = filter (\<lambda>w. \<not> bw_deadline w \<le> mono k)
    (case hm_get (st_waiters s) i of None \<Rightarrow> [] | Some ws \<Rightarrow> ws)"
  define ws where "ws = (if live = [] then hm_remove i (st_waiters s)
    else hm_insert i live (hm_remove i (st_waiters s)))"
  have core: "core (process_waiters R k i s) = core (s\<lparr>st_waiters := ws\<rparr>)"
    by (simp add: process_waiters_def Let_def ws_def live_def)
  have wf: "hm_wf (st_waiters s)" and sub: "hm_keys (st_waiters s) \<subseteq> live_ids_of s"
    using assms by (simp_all add: base_inv_def waiting_inv_def)
  have "live \<noteq> [] \<Longrightarrow> i \<in> hm_keys (st_waiters s)"
    by (auto simp: live_def hm_keys_dom split: option.splits)
  then have "hm_keys ws \<subseteq> live_ids_of s"
    using sub by (auto simp: ws_def hm_key_sets)
  moreover have "hm_wf ws"
    using wf by (simp add: ws_def hm_wf_insert hm_wf_remove)
  ultimately have "base_inv (s\<lparr>st_waiters := ws\<rparr>)"
    using assms by (intro base_inv_waiters)
  then show "base_inv (process_waiters R k i s)"
    by (simp add: base_inv_core [OF core])
  show "live_requests (process_waiters R k i s) = live_requests s"
    by (simp add: live_requests_core [OF core])
  show "done_requests (process_waiters R k i s) = done_requests s"
    by (simp add: done_requests_core [OF core])
  show "st_completed_order (process_waiters R k i s) = st_completed_order s"
    by (simp add: core_fields(4) [OF core])
qed

lemma fold_process_waiters_inv:
  assumes "base_inv s"
  shows "base_inv (fold (process_waiters R k) is s) \<and>
    live_requests (fold (process_waiters R k) is s) = live_requests s \<and>
    done_requests (fold (process_waiters R k) is s) = done_requests s \<and>
    st_completed_order (fold (process_waiters R k) is s) = st_completed_order s"
  using assms
proof (induction "is" arbitrary: s)
  case (Cons i "is")
  from Cons.IH [OF process_waiters_inv(1) [OF Cons.prems, of R k i]] process_waiters_inv [OF Cons.prems]
  show ?case by simp
qed simp

lemma process_deadlines_inv:
  assumes "base_inv s"
  shows "base_inv (process_deadlines R k s)" "registry_of (process_deadlines R k s) = registry_of s"
  using fold_process_waiters_inv [OF background_due_inv [OF reap_inv [OF assms]],
      of R k _ "mono k"]
  by (simp_all add: process_deadlines_def Let_def registry_of_def)

lemma push_waiter_inv:
  assumes "base_inv s" "i \<in> live_ids_of s"
  shows "base_inv (push_waiter i w s)"
  using assms unfolding push_waiter_def
  by (intro base_inv_waiters) (auto simp: base_inv_def waiting_inv_def hm_wf_insert hm_keys_insert)

lemma registry_core:
  assumes "core s = core t"
  shows "registry_of s = registry_of t"
  unfolding registry_of_def live_requests_core [OF assms] done_requests_core [OF assms]
    core_fields(4) [OF assms] by (rule refl)

lemma registry_push_waiter [simp]: "registry_of (push_waiter i w s) = registry_of s"
  by (simp add: registry_of_def push_waiter_def)

lemma live_idsI:
  "hm_get (st_active s) i = Some a \<Longrightarrow> i \<in> live_ids_of s"
  "hm_get (st_pending s) i = Some p \<Longrightarrow> i \<in> live_ids_of s"
  by (auto simp: live_ids_of_def hm_keys_dom)

lemma opt_filter_Some: "opt_filter P x = Some a \<longleftrightarrow> x = Some a \<and> P a"
  by (auto simp: opt_filter_def split: option.splits)

lemma handle_query_cases:
  "core (handle_query R k i sess b tm ch s) = core s \<or>
   (\<exists>w. handle_query R k i sess b tm ch s = push_waiter i w s \<and> i \<in> live_ids_of s)"
proof (cases "opt_filter (\<lambda>c. belongs_to_session (cc_request c) sess) (hm_get (st_completed s) i)")
  case fin: None
  show ?thesis
  proof (cases "opt_filter (\<lambda>c. belongs_to_session (ac_request c) sess) (hm_get (st_active s) i)")
    case act: None
    show ?thesis
    proof (cases "opt_filter (\<lambda>c. belongs_to_session (pc_request c) sess) (hm_get (st_pending s) i)")
      case (Some c)
      then have "i \<in> live_ids_of s"
        by (auto simp: opt_filter_Some intro: live_idsI)
      then show ?thesis
        by (simp add: handle_query_def fin act Some) blast
    qed (simp add: handle_query_def fin act)
  next
    case (Some c)
    then have "i \<in> live_ids_of s"
      by (auto simp: opt_filter_Some intro: live_idsI)
    then show ?thesis
      by (simp add: handle_query_def fin Some) blast
  qed
qed (simp add: handle_query_def)

lemma handle_query_inv:
  assumes "base_inv s"
  shows "base_inv (handle_query R k i sess b tm ch s)"
    "registry_of (handle_query R k i sess b tm ch s) = registry_of s"
proof -
  consider "core (handle_query R k i sess b tm ch s) = core s"
    | w where "handle_query R k i sess b tm ch s = push_waiter i w s" "i \<in> live_ids_of s"
    using handle_query_cases by blast
  then show "base_inv (handle_query R k i sess b tm ch s)"
    "registry_of (handle_query R k i sess b tm ch s) = registry_of s"
    using assms by (cases; metis base_inv_core registry_core push_waiter_inv registry_push_waiter)+
qed

subsection \<open>Cancellation and completions\<close>

lemma live_requests_cancel_one [simp]:
  "live_requests (snd (cancel_one i sess e s)) = live_requests s"
  by (intro ext)
    (auto simp: cancel_one_def cancel_tokens_def cancel_controls_def live_requests_def
      opt_filter_Some hm_get_insert split: option.splits)

lemma cancel_one_frame:
  "st_completed (snd (cancel_one i sess e s)) = st_completed s"
  "st_completed_order (snd (cancel_one i sess e s)) = st_completed_order s"
  "st_runs (snd (cancel_one i sess e s)) = st_runs s"
  "st_waiters (snd (cancel_one i sess e s)) = st_waiters s"
  "st_workflow_cancel_waiters (snd (cancel_one i sess e s)) = st_workflow_cancel_waiters s"
  "st_pending_completions (snd (cancel_one i sess e s)) = st_pending_completions s"
  by (simp_all add: cancel_one_def cancel_tokens_def cancel_controls_def split: option.split)

lemma cancel_one_keys:
  "hm_keys (st_pending (snd (cancel_one i sess e s))) = hm_keys (st_pending s)"
  "hm_keys (st_active (snd (cancel_one i sess e s))) = hm_keys (st_active s)"
  by (auto simp: cancel_one_def cancel_tokens_def cancel_controls_def opt_filter_Some hm_keys_dom
      hm_get_insert split: option.split)

lemma cancel_one_wf:
  "hm_wf (st_pending s) \<Longrightarrow> hm_wf (st_pending (snd (cancel_one i sess e s)))"
  "hm_wf (st_active s) \<Longrightarrow> hm_wf (st_active (snd (cancel_one i sess e s)))"
  by (simp_all add: cancel_one_def cancel_tokens_def cancel_controls_def hm_wf_insert
      split: option.split)

lemma cancel_one_inv: "base_inv s \<Longrightarrow> base_inv (snd (cancel_one i sess e s))"
  by (rule base_inv_live [of _ s])
    (simp_all add: cancel_one_frame cancel_one_keys cancel_one_wf base_inv_def store_inv_def)

lemma cancel_workflow_inv:
  assumes "base_inv s" "workflow_outstanding (st_pending s) (st_active s) run \<noteq> 0"
  shows "base_inv (s\<lparr>st_workflow_cancel_waiters :=
    hm_insert run chs (st_workflow_cancel_waiters s)\<rparr>)"
  using assms workflow_outstanding_zero [of s run]
  by (simp add: base_inv_def store_inv_def waiting_inv_def runs_inv_def workflow_live_def
      hm_wf_insert hm_keys_insert)

lemma registry_updates [simp]:
  "registry_of (s\<lparr>st_workflow_cancel_waiters := b\<rparr>) = registry_of s"
  "registry_of (s\<lparr>st_pending_completions := c\<rparr>) = registry_of s"
  "registry_of (s\<lparr>st_runs := d\<rparr>) = registry_of s"
  by (simp_all add: registry_of_def)

lemma handle_cancel_inv:
  assumes "base_inv s"
  shows "base_inv (handle_cancel sess target ch s) \<and>
    registry_of (handle_cancel sess target ch s) = registry_of s"
proof (cases target)
  case (SubagentId i)
  have "core (handle_cancel sess target ch s) = core (snd (cancel_one i sess True s))"
    by (simp add: handle_cancel_def SubagentId Let_def split: prod.split)
  moreover have "registry_of (snd (cancel_one i sess True s)) = registry_of s"
    by (auto simp: registry_of_def done_requests_def cancel_one_frame)
  ultimately show ?thesis
    using base_inv_core registry_core cancel_one_inv [OF assms] by metis
next
  case (ParentPromptId p)
  have "core (handle_cancel sess target ch s) = core s"
    by (simp add: handle_cancel_def ParentPromptId cancel_parent_prompt_def)
  with assms base_inv_core registry_core show ?thesis by metis
next
  case (WorkflowRunId run)
  let ?s1 = "cancel_workflow_children run sess s"
  have c1: "core ?s1 = core s"
    by (simp add: cancel_workflow_children_def)
  note fs = core_fields(1,2) [OF c1]
  show ?thesis
  proof (cases "workflow_outstanding (st_pending s) (st_active s) run = 0")
    case True
    then have "core (handle_cancel sess target ch s) = core s"
      by (simp add: handle_cancel_def WorkflowRunId Let_def fs c1)
    with assms base_inv_core registry_core show ?thesis by metis
  next
    case False
    have "base_inv ?s1" using base_inv_core [OF c1] assms by simp
    with False registry_core [OF c1] show ?thesis
      by (simp add: handle_cancel_def WorkflowRunId Let_def cancel_workflow_inv fs)
  qed
qed

lemma base_inv_shrink_buffer:
  "base_inv s \<Longrightarrow> base_inv (s\<lparr>st_pending_completions := filter P (st_pending_completions s)\<rparr>)"
  by (auto simp: base_inv_def store_inv_def waiting_inv_def runs_inv_def workflow_live_def
      intro: le_trans [OF length_filter_le])

lemma handle_completions_inv:
  assumes "base_inv s"
  shows "base_inv (handle_completions sess supp ch s)"
    and "registry_of (handle_completions sess supp ch s) = registry_of s"
proof -
  obtain P where "core (handle_completions sess supp ch s) =
      core (s\<lparr>st_pending_completions := filter P (st_pending_completions s)\<rparr>)"
    by (auto simp: handle_completions_def Let_def)
  from base_inv_core [OF this] registry_core [OF this] base_inv_shrink_buffer [OF assms]
  show "base_inv (handle_completions sess supp ch s)"
    and "registry_of (handle_completions sess supp ch s) = registry_of s" by auto
qed

subsection \<open>Spawning and promotion\<close>

lemma id_taken_iff: "id_taken s i \<longleftrightarrow> i \<in> live_ids_of s \<or> i \<in> hm_keys (st_completed s)"
  by (auto simp: id_taken_def hm_contains_iff live_ids_of_def)

lemma workflow_live_mono:
  "workflow_live s run \<Longrightarrow> live_requests s \<subseteq>\<^sub>m live_requests t \<Longrightarrow> workflow_live t run"
  by (metis (no_types, lifting) domI map_le_def workflow_live_def)

lemma spawn_inv:
  fixes s :: "'d coordinator"
  assumes inv: "base_inv s" and new: "\<not> id_taken s i" and req: "req_id (pc_request c) = i"
  defines "t \<equiv> s\<lparr>st_pending := hm_insert i c (st_pending s), st_runs := st_runs s @ [i]\<rparr>"
  shows "base_inv t" and "live_requests t = (live_requests s)(i \<mapsto> pc_request c)"
proof -
  have ni: "i \<notin> live_ids_of s" "i \<notin> hm_keys (st_completed s)" and ka: "i \<notin> hm_keys (st_active s)"
    using new by (auto simp: id_taken_iff live_ids_of_def)
  then have na: "hm_get (st_active s) i = None"
    by (simp add: map_of_eq_None_iff)
  show lr: "live_requests t = (live_requests s)(i \<mapsto> pc_request c)"
    by (intro ext) (auto simp: live_requests_def t_def hm_get_insert na split: option.split)
  have fs: "st_pending t = hm_insert i c (st_pending s)" "st_active t = st_active s"
    "st_completed t = st_completed s" "st_completed_order t = st_completed_order s"
    "done_requests t = done_requests s"
    by (simp_all add: t_def)
  have ids: "live_ids_of t = insert i (live_ids_of s)"
    by (auto simp: live_ids_of_def fs hm_keys_insert)
  have "live_requests s \<subseteq>\<^sub>m live_requests t"
    using ni by (auto simp: lr map_le_def dom_live_requests)
  note wl = workflow_live_mono [OF _ this]
  have "store_inv t"
    using inv ni ka req unfolding base_inv_def store_inv_def ids fs
    by (auto simp: lr hm_wf_insert hm_keys_insert)
  moreover have "waiting_inv t"
    using inv wl unfolding base_inv_def waiting_inv_def ids by (auto simp: t_def)
  moreover have "runs_inv t"
    using inv ni unfolding base_inv_def runs_inv_def ids by (auto simp: t_def)
  ultimately show "base_inv t" by (simp add: base_inv_def)
qed

lemma req_id_reparent [simp]: "req_id (reparent s req) = req_id req"
  by (simp add: reparent_def Let_def split: option.split)

lemma handle_spawn_inv:
  assumes "base_inv s"
  shows "base_inv (handle_spawn cfg k req ch s) \<and>
    registry_of (handle_spawn cfg k req ch s) = registry_change (RegSpawn (reparent s req)) (registry_of s)"
proof -
  let ?req = "reparent s req"
  let ?t = "s\<lparr>st_pending := hm_insert (req_id req) (new_pending cfg k ?req ch) (st_pending s),
    st_runs := st_runs s @ [req_id req]\<rparr>"
  have taken: "id_taken s (req_id req) \<longleftrightarrow>
      req_id ?req \<in> dom (live_requests s) \<union> dom (done_requests s)"
    by (simp add: id_taken_iff dom_live_requests dom_done_requests)
  show ?thesis
  proof (cases "id_taken s (req_id req)")
    case True
    then have "core (handle_spawn cfg k req ch s) = core s"
      by (simp add: handle_spawn_def Let_def)
    from base_inv_core [OF this] registry_core [OF this] assms True show ?thesis
      unfolding taken by (simp add: registry_of_def)
  next
    case False
    then have c: "core (handle_spawn cfg k req ch s) = core ?t"
      by (simp add: handle_spawn_def Let_def running_count_changed_def core_def)
    have pr: "pc_request (new_pending cfg k ?req ch) = ?req"
      by (simp add: new_pending_def)
    note sp = spawn_inv [OF assms False, of "new_pending cfg k ?req ch", unfolded pr, simplified]
    have "registry_of ?t = registry_change (RegSpawn ?req) (registry_of s)"
      using False sp(2) unfolding taken by (simp add: registry_of_def)
    with base_inv_core [OF c] registry_core [OF c] sp(1) show ?thesis by simp
  qed
qed

text \<open>Reaping abandoned callers does not touch what \<open>reparent\<close> reads of the active children.\<close>

lemma find_map_same:
  "(\<And>x. P (f x) = P x) \<Longrightarrow> List.find P (map f xs) = map_option f (List.find P xs)"
  by (induction xs) simp_all

lemma reparent_reap: "reparent (reap_abandoned_callers s) req = reparent s req"
proof -
  let ?f = "\<lambda>c. fst (background_if_caller_gone active_ops (st_closed s) c)"
  have act: "hm_values (st_active (reap_abandoned_callers s)) = map ?f (hm_values (st_active s))"
    by (simp add: reap_simps hm_values_map_values)
  have "ac_child_session_id (?f c) = ac_child_session_id c" for c
    by (simp add: background_if_caller_gone_def active_ops_def Let_def)
  then show ?thesis
    unfolding reparent_def act
    by (subst find_map_same) (auto simp: Let_def split: option.split)
qed

end
