(* ===== verification/Coordinator_Run.thy ===== *)
theory Coordinator_Run
  imports Coordinator_Inv
begin

text \<open>
  Promotion, completion and eviction keep the coordinator's invariant; hence so does every iteration
  of the loop, and the loop implements the abstract registry.
\<close>

section \<open>Promotion\<close>

lemma handle_started_inv:
  assumes "base_inv s"
  shows "base_inv (handle_started i c ch s) \<and>
    registry_of (handle_started i c ch s) = registry_of s"
proof (cases "hm_get (st_pending s) i")
  case None
  then have "core (handle_started i c ch s) = core s"
    by (simp add: handle_started_def)
  with assms base_inv_core registry_core show ?thesis by metis
next
  case (Some p)
  let ?P = "hm_insert i p (hm_remove i (st_pending s))"
  let ?t = "if pc_cancellation p \<in> st_cancelled s then s\<lparr>st_pending := ?P\<rparr>
    else s\<lparr>st_pending := hm_remove i (st_pending s), st_active := hm_insert i (promote p c) (st_active s)\<rparr>"
  have ni: "i \<notin> hm_keys (st_active s)" and kp: "i \<in> hm_keys (st_pending s)"
    using assms Some unfolding base_inv_def store_inv_def by (auto simp: hm_keys_dom)
  then have na: "hm_get (st_active s) i = None"
    by (simp add: map_of_eq_None_iff)
  have core: "core (handle_started i c ch s) = core ?t"
    by (simp add: handle_started_def Some Let_def)
  have lr: "live_requests ?t = live_requests s"
    by (intro ext) (auto simp: live_requests_def hm_lookup Some na promote_def split: option.split)
  have "base_inv ?t"
  proof (rule base_inv_live [OF lr])
    show "hm_keys (st_pending ?t) \<inter> hm_keys (st_active ?t) = {}"
      using assms ni kp by (auto simp: base_inv_def store_inv_def hm_key_sets)
    show "hm_wf (st_pending ?t)" "hm_wf (st_active ?t)"
      using assms by (simp_all add: base_inv_def store_inv_def hm_wf_insert hm_wf_remove)
  qed (use assms in simp_all)
  moreover have "registry_of ?t = registry_of s"
    by (simp add: registry_of_def lr)
  ultimately show ?thesis
    by (simp only: base_inv_core [OF core] registry_core [OF core])
qed

section \<open>Completion\<close>

lemma take_record_None: "take_record i s = None \<longleftrightarrow> i \<notin> live_ids_of s"
  by (auto simp: take_record_def live_ids_of_def map_of_eq_None_iff [symmetric] split: option.splits)

lemma take_record_request:
  assumes "take_record i s = Some (rec, s1)"
  shows "live_requests s i = Some (record_request rec)"
  using assms by (auto simp: take_record_def live_requests_def split: option.splits)

lemma take_record_frame:
  assumes "take_record i s = Some (rec, s1)"
  shows "st_completed s1 = st_completed s" "st_completed_order s1 = st_completed_order s"
    "st_runs s1 = st_runs s" "st_waiters s1 = st_waiters s"
    "st_workflow_cancel_waiters s1 = st_workflow_cancel_waiters s"
    "st_pending_completions s1 = st_pending_completions s" "st_closed s1 = st_closed s"
    "st_sent s1 = st_sent s" "st_completions s1 = st_completions s"
  using assms by (auto simp: take_record_def split: option.splits)

lemma take_record_live:
  assumes "take_record i s = Some (rec, s1)" "store_inv s"
  shows "live_requests s1 = (live_requests s)(i := None)"
    "hm_wf (st_pending s1)" "hm_wf (st_active s1)"
    "hm_keys (st_pending s1) \<inter> hm_keys (st_active s1) = {}"
proof -
  have disj: "hm_get (st_active s) i = Some a \<Longrightarrow> hm_get (st_pending s) i = None" for a
    using assms(2) unfolding store_inv_def hm_keys_dom by blast
  show "live_requests s1 = (live_requests s)(i := None)"
    using assms(1) disj
    by (intro ext) (auto simp: take_record_def live_requests_def hm_get_remove split: option.splits)
  show "hm_wf (st_pending s1)" "hm_wf (st_active s1)"
    using assms by (auto simp: take_record_def store_inv_def hm_wf_remove split: option.splits)
  have "st_pending s1 = st_pending s \<or> st_pending s1 = hm_remove i (st_pending s)"
    using assms(1) by (auto simp: take_record_def split: option.splits)
  then have "hm_keys (st_pending s1) \<subseteq> hm_keys (st_pending s)"
    by (elim disjE) (simp_all only: hm_keys_remove Diff_subset order_refl)
  moreover have "st_active s1 = st_active s \<or> st_active s1 = hm_remove i (st_active s)"
    using assms(1) by (auto simp: take_record_def split: option.splits)
  then have "hm_keys (st_active s1) \<subseteq> hm_keys (st_active s)"
    by (elim disjE) (simp_all only: hm_keys_remove Diff_subset order_refl)
  moreover have "hm_keys (st_pending s) \<inter> hm_keys (st_active s) = {}"
    using assms(2) by (simp add: store_inv_def)
  ultimately show "hm_keys (st_pending s1) \<inter> hm_keys (st_active s1) = {}"
    by (meson disjoint_iff subset_iff)
qed

text \<open>The core of the state after a child finished, before the workflow waiters are resolved.\<close>

definition finished_state ::
  "'d runner \<Rightarrow> coordinator_config \<Rightarrow> str \<Rightarrow> child_record \<Rightarrow> 'd run_output \<Rightarrow> 'd coordinator \<Rightarrow> 'd coordinator" where
  "finished_state R cfg i rec out s1 =
     commit_completed i (completed_of R rec out)
       (buffer_completion cfg (record_request rec) (ro_result out)
          (s1\<lparr>st_waiters := hm_remove i (st_waiters s1)\<rparr>))"

lemma buffer_completion_core:
  "core s = core t \<Longrightarrow> core (buffer_completion cfg req res s) = core (buffer_completion cfg req res t)"
  by (simp add: buffer_completion_def core_def Let_def)

lemma commit_completed_core:
  "core s = core t \<Longrightarrow> core (commit_completed i c s) = core (commit_completed i c t)"
  by (simp add: commit_completed_def core_def running_count_changed_def)

lemma resolve_core:
  "core s = core t \<Longrightarrow>
   core (resolve_workflow_cancel_waiters run s) = core (resolve_workflow_cancel_waiters run t)"
  by (simp add: resolve_workflow_cancel_waiters_def core_def send_all_eq)

lemma finish_child_core:
  assumes "take_record i s = Some (rec, s1)"
  shows "core (finish_child R cfg k i out s) =
    core (case workflow_run_id (req_owner (record_request rec)) of
       Some run \<Rightarrow> resolve_workflow_cancel_waiters run (finished_state R cfg i rec out s1)
     | None \<Rightarrow> finished_state R cfg i rec out s1)"
proof -
  define s0 where "s0 = s1\<lparr>st_waiters := hm_remove i (st_waiters s1)\<rparr>"
  define s3 where "s3 = (let s2 = send_all
       (map bw_respond_to (case hm_get (st_waiters s1) i of None \<Rightarrow> [] | Some ws \<Rightarrow> ws))
       (RSnapshot (Some (completed_snapshot k (completed_of R rec out) None))) s0
     in case record_spawn_reply rec of
          Some ch \<Rightarrow> send ch (RResult (ro_result out)) s2 | None \<Rightarrow> s2)"
  define s5 where "s5 = commit_completed i (completed_of R rec out)
     (buffer_completion cfg (record_request rec) (ro_result out) s3)"
  define s6 where "s6 = s5\<lparr>st_completions := st_completions s5 @
      [\<lparr>cp_request = record_request rec, cp_result = ro_result out,
        cp_completion_data = ro_completion_data out,
        cp_disposition = disposition_of rec (ro_result out)
          (case hm_get (st_waiters s1) i of None \<Rightarrow> [] | Some ws \<Rightarrow> ws) s\<rparr>]\<rparr>"
  have "core s3 = core s0"
    by (simp add: s3_def Let_def split: option.split)
  then have "core s6 = core (finished_state R cfg i rec out s1)"
    unfolding s6_def core_updates s5_def finished_state_def s0_def
    by (intro commit_completed_core buffer_completion_core)
  moreover have "finish_child R cfg k i out s =
      (case workflow_run_id (req_owner (record_request rec)) of
         Some run \<Rightarrow> resolve_workflow_cancel_waiters run s6 | None \<Rightarrow> s6)"
    unfolding s6_def s5_def s3_def s0_def
    by (simp only: finish_child_def assms Let_def option.case prod.case)
  ultimately show ?thesis
    using resolve_core [of s6 "finished_state R cfg i rec out s1"]
    by (cases "workflow_run_id (req_owner (record_request rec))") simp_all
qed

lemma buffer_completion_frame:
  "st_pending (buffer_completion cfg req res s) = st_pending s"
  "st_active (buffer_completion cfg req res s) = st_active s"
  "st_completed (buffer_completion cfg req res s) = st_completed s"
  "st_completed_order (buffer_completion cfg req res s) = st_completed_order s"
  "st_runs (buffer_completion cfg req res s) = st_runs s"
  "st_waiters (buffer_completion cfg req res s) = st_waiters s"
  "st_workflow_cancel_waiters (buffer_completion cfg req res s) = st_workflow_cancel_waiters s"
  "st_closed (buffer_completion cfg req res s) = st_closed s"
  "st_sent (buffer_completion cfg req res s) = st_sent s"
  "st_completions (buffer_completion cfg req res s) = st_completions s"
  by (simp_all add: buffer_completion_def Let_def)

lemma buffer_completion_bound:
  "length (st_pending_completions s) \<le> MAX_PENDING_COMPLETIONS \<Longrightarrow>
   length (st_pending_completions (buffer_completion cfg req res s)) \<le> MAX_PENDING_COMPLETIONS"
  by (simp add: buffer_completion_def Let_def MAX_PENDING_COMPLETIONS_def)

lemma cc_request_completed_of [simp]: "cc_request (completed_of R rec out) = record_request rec"
  by (cases rec) simp_all

lemma finished_state_fields:
  "st_pending (finished_state R cfg i rec out s1) = st_pending s1"
  "st_active (finished_state R cfg i rec out s1) = st_active s1"
  "st_completed_order (finished_state R cfg i rec out s1) = st_completed_order s1 @ [i]"
  "st_runs (finished_state R cfg i rec out s1) = st_runs s1"
  "st_waiters (finished_state R cfg i rec out s1) = hm_remove i (st_waiters s1)"
  "st_workflow_cancel_waiters (finished_state R cfg i rec out s1) = st_workflow_cancel_waiters s1"
  by (simp_all add: finished_state_def commit_completed_def running_count_changed_def
      buffer_completion_frame)

lemma finished_state_completed:
  "\<exists>c. st_completed (finished_state R cfg i rec out s1) = hm_insert i c (st_completed s1) \<and>
     cc_request c = record_request rec"
  by (simp add: finished_state_def commit_completed_def running_count_changed_def
      buffer_completion_frame del: ex_simps) (metis cc_request_completed_of completed_child.select_convs(1)
      completed_child.surjective completed_child.update_convs(11))

lemma finished_state_inv:
  fixes s :: "'d coordinator" and R :: "'d runner" and cfg :: coordinator_config
    and out :: "'d run_output"
  assumes take: "take_record i s = Some (rec, s1)" and store: "store_inv s"
    and waiting: "waiting_inv s"
    and runs: "distinct (st_runs s)" "set (st_runs s) = live_ids_of s - {i}"
  defines "t \<equiv> finished_state R cfg i rec out s1"
  shows "store_inv t" "runs_inv t" "hm_wf (st_waiters t)" "hm_keys (st_waiters t) \<subseteq> live_ids_of t"
    "length (st_pending_completions t) \<le> MAX_PENDING_COMPLETIONS"
    "live_requests t = (live_requests s)(i := None)"
    "done_requests t = (done_requests s)(i \<mapsto> record_request rec)"
proof -
  note fr = take_record_frame [OF take] and lv = take_record_live [OF take store]
  note fs = finished_state_fields [of R cfg i rec out s1, folded t_def, unfolded fr]
  obtain c where cm: "st_completed t = hm_insert i c (st_completed s)" "cc_request c = record_request rec"
    using finished_state_completed [of R cfg i rec out s1] by (auto simp: t_def fr)
  show live: "live_requests t = (live_requests s)(i := None)"
    unfolding lv(1) [symmetric] by (intro ext) (simp add: live_requests_def fs split: option.split)
  show dn: "done_requests t = (done_requests s)(i \<mapsto> record_request rec)"
    by (intro ext) (simp add: done_requests_def cm hm_get_insert)
  have ids: "live_ids_of t = live_ids_of s - {i}"
    by (simp add: dom_live_requests [symmetric] live)
  have i: "i \<in> live_ids_of s"
    using take_record_request [OF take] by (auto simp: dom_live_requests [symmetric])
  have "req_id (record_request rec) = i"
    using store take_record_request [OF take] by (simp add: store_inv_def)
  moreover have "i \<notin> hm_keys (st_completed s)"
    using store i unfolding store_inv_def by blast
  ultimately show "store_inv t"
    using store i lv(2-4)
    unfolding store_inv_def ids live dn
    by (auto simp: fs cm(1) hm_wf_insert hm_keys_insert)
  show "runs_inv t"
    using runs by (simp add: runs_inv_def fs ids)
  show "hm_wf (st_waiters t)" "hm_keys (st_waiters t) \<subseteq> live_ids_of t"
    using waiting unfolding fs ids by (auto simp: waiting_inv_def hm_wf_remove hm_keys_remove)
  show "length (st_pending_completions t) \<le> MAX_PENDING_COMPLETIONS"
    using waiting unfolding t_def finished_state_def commit_completed_def running_count_changed_def
    by (simp add: buffer_completion_bound fr waiting_inv_def)
qed

lemma finish_child_inv:
  fixes s :: "'d coordinator"
  assumes take: "take_record i s = Some (rec, s1)" and store: "store_inv s"
    and waiting: "waiting_inv s"
    and runs: "distinct (st_runs s)" "set (st_runs s) = live_ids_of s - {i}"
  shows "base_inv (finish_child R cfg k i out s)"
    "live_requests (finish_child R cfg k i out s) = (live_requests s)(i := None)"
    "done_requests (finish_child R cfg k i out s) = (done_requests s)(i \<mapsto> record_request rec)"
    "st_completed_order (finish_child R cfg k i out s) = st_completed_order s @ [i]"
proof -
  define t where "t = finished_state R cfg i rec out s1"
  note ft = finished_state_inv [OF assms, of R cfg out, folded t_def]
  let ?own = "workflow_run_id (req_owner (record_request rec))"
  define u where "u = (case ?own of Some run \<Rightarrow> resolve_workflow_cancel_waiters run t | None \<Rightarrow> t)"
  have core: "core (finish_child R cfg k i out s) = core u"
    unfolding u_def t_def by (rule finish_child_core [OF take])
  have wcw: "st_workflow_cancel_waiters t = st_workflow_cancel_waiters s"
    by (simp add: t_def finished_state_fields take_record_frame [OF take])
  have wf_other: "workflow_live t run" if "workflow_live s run" "?own \<noteq> Some run" for run
    using that take_record_request [OF take] unfolding workflow_live_def ft(6)
    by (metis fun_upd_other option.inject)
  have wo: "workflow_outstanding (st_pending t) (st_active t) run = 0 \<longleftrightarrow> \<not> workflow_live t run" for run
    using ft(1) by (intro workflow_outstanding_zero) (simp_all add: store_inv_def)
  have live_s: "workflow_live s run" if "run \<in> hm_keys (st_workflow_cancel_waiters s)" for run
    using waiting that unfolding waiting_inv_def by blast
  have u_wcw: "st_workflow_cancel_waiters u = (case ?own of
      Some run \<Rightarrow> if workflow_live t run then st_workflow_cancel_waiters s
        else hm_remove run (st_workflow_cancel_waiters s) | None \<Rightarrow> st_workflow_cancel_waiters s)"
    by (simp add: u_def resolve_workflow_cancel_waiters_def wo wcw send_all_eq split: option.split)
  have u_core: "core (u\<lparr>st_workflow_cancel_waiters := x\<rparr>) = core (t\<lparr>st_workflow_cancel_waiters := x\<rparr>)" for x
    by (simp add: u_def resolve_workflow_cancel_waiters_def send_all_eq core_def split: option.split)
  have same: "live_requests u = live_requests t" "done_requests u = done_requests t"
    using live_requests_core [OF u_core] done_requests_core [OF u_core] by simp_all
  have "\<forall>run \<in> hm_keys (st_workflow_cancel_waiters u). workflow_live u run"
    using live_s wf_other
    by (auto simp: u_wcw workflow_live_def [of u] same workflow_live_def [of t, symmetric]
        hm_keys_remove hm_remove_def split: option.splits if_splits)
      (metis image_eqI fst_conv)+
  moreover have "hm_wf (st_workflow_cancel_waiters u)"
    using waiting by (simp add: u_wcw waiting_inv_def hm_wf_remove split: option.split)
  moreover have "store_inv u" "runs_inv u" "hm_wf (st_waiters u)" "hm_keys (st_waiters u) \<subseteq> live_ids_of u"
    "length (st_pending_completions u) \<le> MAX_PENDING_COMPLETIONS"
  proof -
    have "st_waiters u = st_waiters t" "st_pending_completions u = st_pending_completions t"
      "st_pending u = st_pending t" "st_active u = st_active t" "st_completed u = st_completed t"
      "st_completed_order u = st_completed_order t" "st_runs u = st_runs t"
      using u_core [of "[]"] by (simp_all add: core_def)
    then show "store_inv u" "runs_inv u" "hm_wf (st_waiters u)" "hm_keys (st_waiters u) \<subseteq> live_ids_of u"
      "length (st_pending_completions u) \<le> MAX_PENDING_COMPLETIONS"
      using ft(1-5) by (simp_all add: store_inv_def runs_inv_def live_ids_of_def same)
  qed
  ultimately have "base_inv u"
    by (simp add: base_inv_def waiting_inv_def)
  then show "base_inv (finish_child R cfg k i out s)"
    by (simp only: base_inv_core [OF core])
  show "live_requests (finish_child R cfg k i out s) = (live_requests s)(i := None)"
    "done_requests (finish_child R cfg k i out s) = (done_requests s)(i \<mapsto> record_request rec)"
    using live_requests_core [OF core] done_requests_core [OF core] by (simp_all add: same ft)
  have "st_completed_order u = st_completed_order t"
    using u_core [of "[]"] by (simp add: core_def)
  then show "st_completed_order (finish_child R cfg k i out s) = st_completed_order s @ [i]"
    by (simp add: core_fields(4) [OF core] t_def finished_state_fields take_record_frame [OF take])
qed

section \<open>Eviction\<close>

lemma evict_loop_spec:
  assumes "evict_loop order m = (order', m')" "hm_wf m" "distinct order" "set order = hm_keys m"
  shows "hm_wf m' \<and> distinct order' \<and> set order' = hm_keys m' \<and> hm_keys m' \<subseteq> hm_keys m \<and>
    length m' \<le> MAX_COMPLETED_ENTRIES \<and> (\<exists>gone. order = gone @ order') \<and>
    hm_get m' = hm_get m |` hm_keys m' \<and>
    length m' = min (length m) MAX_COMPLETED_ENTRIES"
  using assms
proof (induction order m arbitrary: order' m' rule: evict_loop.induct)
  case (1 order m)
  show ?case
  proof (cases "length m \<le> MAX_COMPLETED_ENTRIES")
    case True
    with "1.prems" show ?thesis
      by (auto simp: evict_loop.simps [of order m] restrict_map_def map_of_eq_None_iff intro!: ext)
  next
    case False
    then obtain i rest where ord: "order = i # rest"
      using "1.prems"(4) by (cases order) (auto simp: MAX_COMPLETED_ENTRIES_def)
    have i: "i \<in> hm_keys m" and rest: "set rest = hm_keys (hm_remove i m)"
      using "1.prems"(3,4) by (auto simp: ord hm_keys_remove)
    have ev: "evict_loop rest (hm_remove i m) = (order', m')"
      using "1.prems"(1) False by (simp add: ord evict_loop.simps [of "i # rest" m])
    note IH = "1.IH" [OF False ord ev hm_wf_remove [OF "1.prems"(2)] _ rest]
    have IH': "hm_wf m' \<and> distinct order' \<and> set order' = hm_keys m' \<and>
        hm_keys m' \<subseteq> hm_keys (hm_remove i m) \<and> length m' \<le> MAX_COMPLETED_ENTRIES \<and>
        (\<exists>gone. rest = gone @ order') \<and> hm_get m' = hm_get (hm_remove i m) |` hm_keys m' \<and>
        length m' = min (length (hm_remove i m)) MAX_COMPLETED_ENTRIES"
      using IH "1.prems"(3) by (simp add: ord)
    have "i \<notin> hm_keys m'" and sub: "hm_keys m' \<subseteq> hm_keys m"
      using IH' by (auto simp: hm_keys_remove)
    then have "hm_get m' = hm_get m |` hm_keys m'"
      using IH' by (auto simp: hm_get_remove restrict_map_def intro!: ext)
    moreover have "length (hm_remove i m) = length m - 1"
      using i by (simp add: length_hm_remove "1.prems"(2))
    ultimately show ?thesis
      using IH' sub False by (auto simp: ord)
  qed
qed

lemma done_requests_evict:
  assumes "store_inv s"
  shows "done_requests (evict s) = done_requests s |` hm_keys (st_completed (evict s))"
  using evict_loop_spec [of "st_completed_order s" "st_completed s"] assms
  by (intro ext)
    (auto simp: done_requests_def evict_def store_inv_def restrict_map_def split: prod.splits)

lemma evict_frame:
  "live_requests (evict s) = live_requests s" "live_ids_of (evict s) = live_ids_of s"
  "st_pending (evict s) = st_pending s" "st_active (evict s) = st_active s"
  "st_waiters (evict s) = st_waiters s" "st_runs (evict s) = st_runs s"
  "st_workflow_cancel_waiters (evict s) = st_workflow_cancel_waiters s"
  "st_pending_completions (evict s) = st_pending_completions s"
  "st_sent (evict s) = st_sent s" "st_cancelled (evict s) = st_cancelled s"
  "st_panicked (evict s) = st_panicked s" "st_completions (evict s) = st_completions s"
  "st_progress (evict s) = st_progress s" "st_list_requests (evict s) = st_list_requests s"
  "st_next_list_request_id (evict s) = st_next_list_request_id s" "st_closed (evict s) = st_closed s"
  "st_control_cancels (evict s) = st_control_cancels s"
  by (simp_all add: evict_def split: prod.split)

lemma evict_inv:
  assumes "base_inv s"
  shows "coord_inv (evict s)"
proof -
  have "store_inv (evict s)" "length (st_completed (evict s)) \<le> MAX_COMPLETED_ENTRIES"
  proof (atomize (full), goal_cases)
    case 1
    obtain order' m' where ev: "evict_loop (st_completed_order s) (st_completed s) = (order', m')"
      by force
    have st: "store_inv s" using assms by (simp add: base_inv_def)
    note sp = evict_loop_spec [OF ev] st [unfolded store_inv_def]
    have fs: "st_completed (evict s) = m'" "st_completed_order (evict s) = order'"
      by (simp_all add: evict_def ev)
    have "hm_keys m' \<subseteq> hm_keys (st_completed s)" "live_ids_of s \<inter> hm_keys (st_completed s) = {}"
      using sp by simp_all
    then have "live_ids_of s \<inter> hm_keys m' = {}"
      by blast
    moreover have "\<forall>i req. done_requests (evict s) i = Some req \<longrightarrow> req_id req = i"
      using st unfolding done_requests_evict [OF st]
      by (auto simp: restrict_map_def store_inv_def split: if_splits)
    ultimately show ?case
      using sp unfolding store_inv_def evict_frame fs by simp
  qed
  moreover have "waiting_inv (evict s)" "runs_inv (evict s)"
    using assms by (simp_all add: base_inv_def waiting_inv_def runs_inv_def workflow_live_def evict_frame)
  ultimately show ?thesis
    by (simp add: coord_inv_def)
qed

text \<open>Eviction keeps the latest entries of the completion order.\<close>

lemma length_hm_distinct:
  assumes "hm_wf m" "distinct order" "set order = hm_keys m"
  shows "length m = length order"
  using assms distinct_card [of "map fst m"] distinct_card [of order] by (simp add: hm_wf_def)

lemma evict_registry:
  assumes "store_inv s"
  shows "registry_of (evict s) = trim_registry (registry_of s)"
proof -
  obtain order' m' where ev: "evict_loop (st_completed_order s) (st_completed s) = (order', m')"
    by force
  note st = assms [unfolded store_inv_def]
  have sp: "hm_wf m'" "distinct order'" "set order' = hm_keys m'"
      "\<exists>gone. st_completed_order s = gone @ order'"
      "length m' = min (length (st_completed s)) MAX_COMPLETED_ENTRIES"
    using evict_loop_spec [OF ev] st by simp_all
  then obtain gone where gone: "st_completed_order s = gone @ order'" by blast
  have "length order' = min (length (st_completed_order s)) MAX_COMPLETED_ENTRIES"
    using sp length_hm_distinct [of m' order'] length_hm_distinct [of "st_completed s" "st_completed_order s"] st
    by simp
  then have "order' = drop (length (st_completed_order s) - MAX_COMPLETED_ENTRIES) (st_completed_order s)"
    unfolding gone by (auto simp: min_def split: if_splits)
  moreover have "st_completed (evict s) = m'" "st_completed_order (evict s) = order'"
    by (simp_all add: evict_def ev)
  ultimately show ?thesis
    by (simp add: registry_of_def trim_registry_def Let_def evict_frame done_requests_evict [OF assms]
        sp(3) [symmetric])
qed

lemma trim_registry_same:
  assumes "coord_inv s"
  shows "trim_registry (registry_of s) = registry_of s"
proof -
  have st: "store_inv s" and small: "length (st_completed s) \<le> MAX_COMPLETED_ENTRIES"
    using assms by (simp_all add: coord_inv_def)
  have "length (st_completed_order s) \<le> MAX_COMPLETED_ENTRIES"
    using st small length_hm_distinct [of "st_completed s" "st_completed_order s"]
    by (simp add: store_inv_def)
  moreover have "dom (done_requests s) = set (st_completed_order s)"
    using st by (simp add: dom_done_requests store_inv_def)
  then have "done_requests s |` set (st_completed_order s) = done_requests s"
    by (intro ext) (metis domIff restrict_in restrict_out)
  ultimately show ?thesis
    by (simp add: registry_of_def trim_registry_def)
qed

section \<open>The loop\<close>

lemma handle_command_inv:
  assumes "base_inv s"
  shows "base_inv (handle_command R cfg k c s) \<and>
    registry_of (handle_command R cfg k c s) = registry_change (wake_action s (WCommand c)) (registry_of s)"
proof -
  have same: ?thesis if "core (handle_command R cfg k c s) = core s"
    and "wake_action s (WCommand c) = RegNone"
    using assms base_inv_core [OF that(1)] registry_core [OF that(1)] that(2) by simp
  show ?thesis
  proof (cases c)
    case (Spawn req ch)
    then show ?thesis
      using handle_spawn_inv [OF assms, of cfg k req ch] by simp
  next
    case (Query i sess b tm ch)
    then show ?thesis
      using handle_query_inv [OF assms, of R k i sess b tm ch] by simp
  next
    case (Cancel sess target ch)
    then show ?thesis
      using handle_cancel_inv [OF assms, of sess target ch] by simp
  next
    case (Completions sess supp ch)
    then show ?thesis
      using handle_completions_inv [OF assms, of sess supp ch] by simp
  next
    case (DiscardSessionCompletions sess)
    then show ?thesis
      using base_inv_shrink_buffer [OF assms] by simp
  next
    case (Outstanding sess prompt ch)
    let ?r = "reap_abandoned_callers s"
    have "core (handle_command R cfg k c s) = core ?r"
      by (simp add: Outstanding Let_def)
    from base_inv_core [OF this] registry_core [OF this] reap_inv [OF assms] show ?thesis
      by (simp add: Outstanding registry_of_def)
  qed (rule same; simp)+
qed

lemma finish_run_inv:
  assumes "base_inv s" "i \<in> set (st_runs s)"
  defines "s1 \<equiv> s\<lparr>st_runs := remove1 i (st_runs s)\<rparr>"
  shows "base_inv (finish_child R cfg k i out s1) \<and>
    registry_of (finish_child R cfg k i out s1) = registry_change (RegFinish i) (registry_of s)"
proof -
  have "store_inv s1" "waiting_inv s1"
    using assms(1) by (simp_all add: s1_def base_inv_def store_inv_def waiting_inv_def workflow_live_def)
  moreover have runs: "distinct (st_runs s1)" "set (st_runs s1) = live_ids_of s1 - {i}" "i \<in> live_ids_of s1"
    using assms by (auto simp: s1_def base_inv_def runs_inv_def)
  then obtain rec s2 where take: "take_record i s1 = Some (rec, s2)"
    using take_record_None [of i s1] by fastforce
  moreover have "live_requests s i = Some (record_request rec)"
    using take_record_request [OF take] by (simp add: s1_def)
  moreover have "registry_of s = (live_requests s1, done_requests s1, st_completed_order s1)"
    by (simp add: registry_of_def s1_def)
  ultimately show ?thesis
    using finish_child_inv [of i s1 rec s2 R cfg k out] runs take_record_request [OF take]
    by (simp add: registry_of_def)
qed

lemma finish_panicked_eq:
  "finish_panicked_child R cfg k i s = (case live_requests s i of
     None \<Rightarrow> s | Some req \<Rightarrow> finish_child R cfg k i (panicked_output R req) s)"
  by (simp add: finish_panicked_child_def live_requests_def)

lemma dispatch_inv:
  assumes "base_inv s" "enabled k w s"
  shows "base_inv (dispatch R cfg k w s) \<and>
    registry_of (dispatch R cfg k w s) = registry_change (wake_action s w) (registry_of s)"
proof -
  have same: ?thesis if "core (dispatch R cfg k w s) = core s" and "wake_action s w = RegNone"
    using assms base_inv_core [OF that(1)] registry_core [OF that(1)] that(2) by simp
  show ?thesis
  proof (cases w)
    case (WInternal e)
    show ?thesis
    proof (cases e)
      case (Started i c ch)
      then show ?thesis
        using handle_started_inv [OF assms(1), of i c ch] by (simp add: WInternal)
    qed (rule same; simp add: WInternal)
  next
    case (WRun i out)
    then have i: "i \<in> set (st_runs s)"
      using assms(2) by (simp add: enabled_def)
    then obtain req where "live_requests s i = Some req"
      using assms(1) by (metis base_inv_def domD dom_live_requests runs_inv_def)
    then have "\<exists>out'. dispatch R cfg k w s =
        finish_child R cfg k i out' (s\<lparr>st_runs := remove1 i (st_runs s)\<rparr>)"
      by (auto simp: WRun finish_panicked_eq Let_def split: option.split)
    then show ?thesis
      using finish_run_inv [OF assms(1) i] by (auto simp: WRun)
  next
    case (WCommand c)
    let ?r = "reap_abandoned_callers s"
    have "registry_of ?r = registry_of s"
      by (simp add: registry_of_def)
    moreover have "wake_action ?r w = wake_action s w"
      by (cases c) (simp_all add: WCommand reparent_reap)
    ultimately show ?thesis
      using handle_command_inv [OF reap_inv [OF assms(1)], of R cfg k c] by (simp add: WCommand)
  next
    case WDeadline
    then show ?thesis
      using process_deadlines_inv [OF assms(1)] by simp
  qed (rule same; simp)+
qed

lemma iteration_inv:
  assumes "coord_inv s" "enabled k w s"
  shows "coord_inv (iteration R cfg k w s)"
    "registry_of (iteration R cfg k w s) = registry_next (wake_action s w) (registry_of s)"
proof -
  have "base_inv s" using assms(1) by (simp add: coord_inv_def base_inv_def)
  note d = dispatch_inv [OF this assms(2), of R cfg]
  then show "coord_inv (iteration R cfg k w s)"
    by (simp add: iteration_def evict_inv)
  have ev: "registry_of (iteration R cfg k w s) =
      trim_registry (registry_change (wake_action s w) (registry_of s))"
    using d evict_registry [of "dispatch R cfg k w s"] by (simp add: iteration_def base_inv_def)
  have "trim_registry (registry_change a (registry_of s)) = registry_next a (registry_of s)" for a
    using trim_registry_same [OF assms(1)]
    by (cases a) (auto simp: registry_of_def trim_registry_def Let_def)
  with ev show "registry_of (iteration R cfg k w s) = registry_next (wake_action s w) (registry_of s)"
    by simp
qed

lemma coord_inv_core: "core s = core t \<Longrightarrow> coord_inv s = coord_inv t"
  using inv_core [of s t] core_fields(3) [of s t] by (simp add: coord_inv_def)

lemma coord_step_inv:
  assumes "coord_inv s" "coord_step R cfg s t"
  shows "coord_inv t"
  using assms(2)
proof cases
  case (step_iteration k w)
  then show ?thesis using iteration_inv [OF assms(1)] by simp
qed (use assms(1) coord_inv_core [of t s] in simp_all)

lemma new_coordinator_inv: "coord_inv new_coordinator"
  by (auto simp: coord_inv_def store_inv_def waiting_inv_def runs_inv_def new_coordinator_def
      live_ids_of_def live_requests_def done_requests_def)

interpretation coord: inductive_invariant "\<lambda>s. s = new_coordinator" "coord_step R cfg" coord_inv
  by unfold_locales (auto simp: new_coordinator_inv coord_step_inv)

end
