(* ===== verification/Coordinator_Props.thy ===== *)
theory Coordinator_Props
  imports Coordinator_Run
begin

text \<open>
  What the coordinator promises its clients: the registry's invariant and lifecycle, delivery of
  completions, isolation of sessions, and progress of the deadline timer.
\<close>

section \<open>Delivery when a child finishes\<close>

definition waiters_of :: "str \<Rightarrow> 'd coordinator \<Rightarrow> blocking_waiter list" where
  "waiters_of i s = (case hm_get (st_waiters s) i of None \<Rightarrow> [] | Some ws \<Rightarrow> ws)"

definition spawn_chans :: "child_record \<Rightarrow> chan list" where
  "spawn_chans rec = (case record_spawn_reply rec of None \<Rightarrow> [] | Some ch \<Rightarrow> [ch])"

text \<open>The workflow cancellations that wait for exactly the children that are gone in \<open>s1\<close>.\<close>

definition resolved_chans :: "child_record \<Rightarrow> 'd coordinator \<Rightarrow> chan list" where
  "resolved_chans rec s1 = (case workflow_run_id (req_owner (record_request rec)) of
      None \<Rightarrow> []
    | Some run \<Rightarrow>
        if workflow_outstanding (st_pending s1) (st_active s1) run \<noteq> 0 then []
        else (case hm_get (st_workflow_cancel_waiters s1) run of None \<Rightarrow> [] | Some chs \<Rightarrow> chs))"

definition delivered :: "'d coordinator \<Rightarrow> (chan \<times> reply) list \<Rightarrow> (chan \<times> reply) list" where
  "delivered s rs = filter (\<lambda>(ch, r). ch \<notin> st_closed s) rs"

lemma delivered_Nil [simp]: "delivered s [] = []"
  by (simp add: delivered_def)

lemma delivered_map:
  "delivered s (map (\<lambda>ch. (ch, r)) chs) = map (\<lambda>ch. (ch, r)) (filter (\<lambda>ch. ch \<notin> st_closed s) chs)"
  by (simp add: delivered_def filter_map comp_def)

lemmas finish_child_simps = finish_child_def Let_def coord_simps commit_completed_def
  running_count_changed_def buffer_completion_frame resolve_workflow_cancel_waiters_def

lemma finish_child_sent:
  assumes "take_record i s = Some (rec, s1)"
  shows "st_sent (finish_child R cfg k i out s) = st_sent s @
    delivered s (map (\<lambda>ch. (ch, RSnapshot (Some (completed_snapshot k (completed_of R rec out) None))))
      (map bw_respond_to (waiters_of i s))) @
    delivered s (map (\<lambda>ch. (ch, RResult (ro_result out))) (spawn_chans rec)) @
    delivered s (map (\<lambda>ch. (ch, RCancel CancelCancelled)) (resolved_chans rec s1))"
  unfolding delivered_map
  by (simp add: finish_child_simps assms take_record_frame [OF assms] waiters_of_def spawn_chans_def
      resolved_chans_def split: option.split)

lemma finish_child_log:
  assumes "take_record i s = Some (rec, s1)"
  shows "st_completions (finish_child R cfg k i out s) = st_completions s @
    [\<lparr>cp_request = record_request rec, cp_result = ro_result out,
      cp_completion_data = ro_completion_data out,
      cp_disposition = disposition_of rec (ro_result out) (waiters_of i s) s\<rparr>]"
  by (simp add: finish_child_simps assms take_record_frame [OF assms] waiters_of_def split: option.split)

lemma finish_child_completed:
  assumes "take_record i s = Some (rec, s1)"
  shows "hm_get (st_completed (finish_child R cfg k i out s)) i = Some
    (let c = completed_of R rec out in if cc_persisted_output_ref c \<noteq> None
     then c\<lparr>cc_result := (cc_result c)\<lparr>rs_output := []\<rparr>\<rparr> else c)"
  by (simp add: finish_child_simps assms take_record_frame [OF assms] hm_get_insert split: option.split)

section \<open>Concrete data for the witnesses\<close>

definition ex_overrides :: runtime_overrides where
  "ex_overrides =
     \<lparr>ov_model = None, ov_model_override_provenance = Tool, ov_reasoning_effort = None,
      ov_persona = None, ov_capability_mode = None, ov_isolation = None,
      ov_harness_agent_type = None, ov_completion_output_cap = None, ov_spawn_depth = None,
      ov_output_token_budget = None, ov_output_schema = None, ov_loop_task_id = None\<rparr>"

definition ex_request :: subagent_request where
  "ex_request =
     \<lparr>req_id = [1], req_prompt = [], req_description = [], req_subagent_type = [],
      req_parent_session_id = [7], req_parent_prompt_id = Some [8], req_resume_from = None,
      req_cwd = None, req_runtime_overrides = ex_overrides, req_run_in_background = False,
      req_surface_completion = True, req_await_to_completion = False, req_fork_context = False,
      req_owner = Task, req_cancel_token = 3\<rparr>"

definition ex_runner :: "unit runner" where
  "ex_runner = \<lparr>persisted_output_ref = (\<lambda>_. Some [5]), load_persisted_output = (\<lambda>_. Some [65]),
                default_data = ()\<rparr>"

definition ex_clock :: clock where "ex_clock = \<lparr>mono = 100, wall = 1000\<rparr>"

definition ex_started :: started_child where
  "ex_started =
     \<lparr>sc_child_session_id = [9], sc_persona = None, sc_resumed_from = None, sc_child_cwd = [],
      sc_worktree_path = None, sc_effective_model_id = [], sc_definition_background = False,
      sc_control = 4\<rparr>"

definition ex_output :: "unit run_output" where
  "ex_output = \<lparr>ro_result = default_result\<lparr>rs_success := True, rs_output := [65]\<rparr>,
                ro_completion_data = (), ro_snapshot_ref = None\<rparr>"

text \<open>One child was spawned and then reported its start.\<close>

definition ex_pending :: "unit coordinator" where
  "ex_pending = iteration ex_runner default_config ex_clock (WCommand (Spawn ex_request 1)) new_coordinator"

definition ex_active :: "unit coordinator" where
  "ex_active = iteration ex_runner default_config ex_clock (WInternal (Started [1] ex_started 2)) ex_pending"

lemmas ex_defs = ex_overrides_def ex_request_def ex_runner_def ex_clock_def ex_started_def
  ex_output_def default_config_def

lemma evict_small: "length (st_completed s) \<le> MAX_COMPLETED_ENTRIES \<Longrightarrow> evict s = s"
  by (simp add: evict_def evict_loop.simps)

lemma ex_pending_eq:
  "ex_pending = new_coordinator
     \<lparr>st_pending := [([1], new_pending default_config ex_clock ex_request 1)], st_runs := [[1]],
      st_running_counts := [1]\<rparr>"
proof -
  have "reap_abandoned_callers (new_coordinator :: unit coordinator) = new_coordinator"
    by (simp add: reap_simps new_coordinator_def hm_map_values_def)
  then show ?thesis
    unfolding ex_pending_def iteration_def
    by (simp add: handle_spawn_def reparent_def Let_def id_taken_def hm_contains_def
        running_count_changed_def new_coordinator_def evict_small MAX_COMPLETED_ENTRIES_def)
       (simp add: ex_request_def)
qed

lemma ex_active_eq:
  "ex_active = new_coordinator
     \<lparr>st_active := [([1], promote (new_pending default_config ex_clock ex_request 1) ex_started)],
      st_runs := [[1]], st_running_counts := [1], st_sent := [(2, RBool True)]\<rparr>"
  unfolding ex_active_def iteration_def
  by (simp add: ex_pending_eq handle_started_def Let_def coord_simps new_coordinator_def evict_small
      MAX_COMPLETED_ENTRIES_def hm_remove_def)

lemma coord_reach_new: "coord_reach R cfg new_coordinator"
  by (rule reach_init) (rule refl)

lemma coord_reach_iteration:
  assumes "coord_reach R cfg s" "enabled k w s"
  shows "coord_reach R cfg (iteration R cfg k w s)"
  by (rule reach_step [OF assms(1)]) (rule step_iteration [OF assms(2)])

lemma ex_reach: "coord_reach ex_runner default_config ex_pending" "coord_reach ex_runner default_config ex_active"
proof -
  have en: "enabled ex_clock (WCommand (Spawn ex_request 1)) (new_coordinator :: unit coordinator)"
    by (simp add: enabled_def loop_done_def new_coordinator_def)
  show *: "coord_reach ex_runner default_config ex_pending"
    unfolding ex_pending_def by (rule coord_reach_iteration [OF coord_reach_new en])
  have "enabled ex_clock (WInternal (Started [1] ex_started 2)) ex_pending"
    by (simp add: enabled_def loop_done_def ex_pending_eq new_coordinator_def)
  with * show "coord_reach ex_runner default_config ex_active"
    unfolding ex_active_def by (intro coord_reach_iteration)
qed

section \<open>The registry\<close>

text \<open>
  C27. In every reachable state of the coordinator the three registries are disjoint maps, the futures
  that run are exactly those of the pending and active children and each runs once, the eviction
  queue lists every completed child once, at most 1024 completed children and 256 buffered
  completions are kept, only live children have blocking waiters, and a workflow cancellation
  waits only while children of that workflow are live.
\<close>

theorem coordinator_invariant:
  assumes "coord_reach R cfg s"
  shows "hm_wf (st_pending s) \<and> hm_wf (st_active s) \<and> hm_wf (st_completed s) \<and>
    hm_keys (st_pending s) \<inter> hm_keys (st_active s) = {} \<and>
    (hm_keys (st_pending s) \<union> hm_keys (st_active s)) \<inter> hm_keys (st_completed s) = {} \<and>
    distinct (st_runs s) \<and> set (st_runs s) = hm_keys (st_pending s) \<union> hm_keys (st_active s) \<and>
    distinct (st_completed_order s) \<and> set (st_completed_order s) = hm_keys (st_completed s) \<and>
    length (st_completed s) \<le> 1024 \<and> length (st_pending_completions s) \<le> 256 \<and>
    hm_keys (st_waiters s) \<subseteq> hm_keys (st_pending s) \<union> hm_keys (st_active s) \<and>
    (\<forall>run \<in> hm_keys (st_workflow_cancel_waiters s).
       workflow_outstanding (st_pending s) (st_active s) run \<noteq> 0)"
proof -
  have inv: "coord_inv s" by (rule coord.reach_inv [OF assms])
  then have "\<forall>run \<in> hm_keys (st_workflow_cancel_waiters s).
       workflow_outstanding (st_pending s) (st_active s) run \<noteq> 0"
    using workflow_outstanding_zero [of s]
    by (auto simp: coord_inv_def waiting_inv_def store_inv_def)
  then show ?thesis
    using inv by (simp add: coord_inv_def store_inv_def waiting_inv_def runs_inv_def live_ids_of_def
        MAX_COMPLETED_ENTRIES_def MAX_PENDING_COMPLETIONS_def)
qed

theorem coordinator_invariant_witness:
  "set (st_runs ex_active) = {[1]} \<and> hm_keys (st_pending ex_active) \<inter> hm_keys (st_active ex_active) = {}"
  using coordinator_invariant [OF ex_reach(2)] by (simp add: ex_active_eq new_coordinator_def)

text \<open>
  C28. The coordinator implements the abstract registry of live and finished requests.  It starts
  empty, and what an iteration of the loop does to it is determined by the event the loop woke
  up for: a spawn adds exactly its request (re-parented as the code does) unless the id is live or
  finished, in which case nothing changes; the end of a child's run, regular or panicked, moves
  exactly that child from the live to the finished ones with its request, at the end of the
  completion order, and forgets only what lies beyond the latest 1024; every other event,
  cancellations, queries, start reports and deadlines included, leaves every live and every
  finished child as it is.
\<close>

theorem coordinator_refines_registry:
  fixes s :: "'d coordinator"
  assumes "coord_reach R cfg s" and "enabled k w s"
  shows "registry_of (new_coordinator :: 'd coordinator) = (Map.empty, Map.empty, []) \<and>
    registry_of (iteration R cfg k w s) = registry_next (wake_action s w) (registry_of s)"
proof
  show "registry_of (new_coordinator :: 'd coordinator) = (Map.empty, Map.empty, [])"
    by (auto simp: registry_of_def new_coordinator_def live_requests_def done_requests_def)
qed (rule iteration_inv(2) [OF coord.reach_inv [OF assms(1)] assms(2)])

text \<open>The child \<open>[1]\<close> that was spawned and started finishes.\<close>

theorem coordinator_refines_registry_witness:
  "registry_of (iteration ex_runner default_config ex_clock (WRun [1] (Some ex_output)) ex_active) =
     (Map.empty, [[1] \<mapsto> ex_request], [[1]])"
proof -
  have en: "enabled ex_clock (WRun [1] (Some ex_output)) ex_active"
    by (simp add: enabled_def loop_done_def ex_active_eq new_coordinator_def)
  have reg: "registry_of ex_active = ([[1] \<mapsto> ex_request], Map.empty, [])"
    by (auto simp: registry_of_def ex_active_eq new_coordinator_def live_requests_def done_requests_def
        promote_def new_pending_def)
  show ?thesis
    using coordinator_refines_registry [OF ex_reach(2) en]
    by (simp add: reg trim_registry_def Let_def MAX_COMPLETED_ENTRIES_def)
qed

text \<open>
  When the loop of a reachable coordinator ends, no child is pending or active, no caller
  waits for one, and the final \<open>cancel_all_children\<close> has nothing left to cancel.
\<close>

theorem loop_exit_clean:
  assumes "coord_reach R cfg s" and "loop_done s"
  shows "st_pending s = [] \<and> st_active s = [] \<and> st_waiters s = [] \<and>
    st_workflow_cancel_waiters s = [] \<and> st_cancelled (cancel_all_children s) = st_cancelled s \<and>
    st_control_cancels (cancel_all_children s) = st_control_cancels s"
proof -
  have inv: "coord_inv s" by (rule coord.reach_inv [OF assms(1)])
  have "live_ids_of s = {}"
    using inv assms(2) by (simp add: coord_inv_def runs_inv_def loop_done_def)
  moreover from this have "st_waiters s = []"
    using inv by (auto simp: coord_inv_def waiting_inv_def)
  moreover have "\<not> workflow_live s run" for run
    using \<open>live_ids_of s = {}\<close> by (auto simp: workflow_live_def dom_live_requests [symmetric])
  then have "st_workflow_cancel_waiters s = []"
    using inv by (cases "st_workflow_cancel_waiters s") (auto simp: coord_inv_def waiting_inv_def)
  ultimately show ?thesis
    by (simp add: live_ids_of_def cancel_all_children_def cancel_matching_def cancel_tokens_def
        cancel_controls_def)
qed

lemma ex_closed_reach:
  "coord_reach ex_runner default_config
     (iteration ex_runner default_config ex_clock WCommandsClosed new_coordinator)"
proof -
  have en: "enabled ex_clock WCommandsClosed (new_coordinator :: unit coordinator)"
    by (simp add: enabled_def loop_done_def new_coordinator_def)
  show ?thesis by (rule coord_reach_iteration [OF coord_reach_new en])
qed

theorem loop_exit_clean_witness:
  "st_pending (iteration ex_runner default_config ex_clock WCommandsClosed new_coordinator) = []"
proof -
  have "loop_done (iteration ex_runner default_config ex_clock WCommandsClosed new_coordinator)"
    by (simp add: iteration_def evict_small new_coordinator_def loop_done_def)
  from loop_exit_clean [OF ex_closed_reach this] show ?thesis by blast
qed

end
