(* ===== verification/Coordinator_Clients.thy ===== *)
theory Coordinator_Clients
  imports Coordinator_Props
begin

text \<open>
  The coordinator as its clients see it: who gets a finished child's result, what a cancellation
  may touch, what the timer does, and what the queries answer.
\<close>

section \<open>Completion\<close>

lemma take_record_runs:
  "take_record i (s\<lparr>st_runs := x\<rparr>) =
     map_option (\<lambda>(rec, s1). (rec, s1\<lparr>st_runs := x\<rparr>)) (take_record i s)"
  by (simp add: take_record_def split: option.split)

lemma run_finished:
  assumes "coord_inv s" "i \<in> set (st_runs s)"
  obtains rec s1 where "take_record i s = Some (rec, s1)"
    and "live_requests (dispatch R cfg k (WRun i (Some out)) s) = (live_requests s)(i := None)"
proof -
  let ?x = "remove1 i (st_runs s)"
  let ?s = "s\<lparr>st_runs := ?x\<rparr>"
  have i: "i \<in> live_ids_of s"
    using assms by (simp add: coord_inv_def runs_inv_def)
  then obtain rec s1 where tr: "take_record i s = Some (rec, s1)"
    using take_record_None [of i s] by fastforce
  then have "take_record i ?s = Some (rec, s1\<lparr>st_runs := ?x\<rparr>)"
    by (simp add: take_record_runs)
  moreover have "store_inv ?s" "waiting_inv ?s"
    using assms(1) by (simp_all add: coord_inv_def store_inv_def waiting_inv_def workflow_live_def)
  moreover have "distinct (st_runs ?s)" "set (st_runs ?s) = live_ids_of ?s - {i}"
    using assms by (auto simp: coord_inv_def runs_inv_def)
  ultimately show thesis
    using that [OF tr] finish_child_inv(2) [of i ?s] by (simp add: Let_def)
qed

text \<open>
  C29. When the future of a child of a reachable coordinator completes, the child is no longer
  live, its final record is committed under its id, every blocking waiter whose receiver is alive
  gets the same terminal snapshot, then the spawn caller gets the result, then, if it was the
  last child of its workflow run, every pending cancellation of that run is answered; nothing else
  is sent, and the host is told exactly once.
\<close>

theorem finish_child_delivers:
  assumes "coord_reach R cfg s" and "i \<in> set (st_runs s)"
  shows "\<exists>rec s1. take_record i s = Some (rec, s1) \<and>
    (let t = dispatch R cfg k (WRun i (Some out)) s; c = completed_of R rec out;
         snap = completed_snapshot k c None in
     i \<notin> live_ids_of t \<and> is_terminal (sn_status snap) \<and>
     hm_get (st_completed t) i = Some (if cc_persisted_output_ref c \<noteq> None
       then c\<lparr>cc_result := (cc_result c)\<lparr>rs_output := []\<rparr>\<rparr> else c) \<and>
     st_sent t = st_sent s @
       delivered s (map (\<lambda>w. (bw_respond_to w, RSnapshot (Some snap))) (waiters_of i s)) @
       delivered s (map (\<lambda>ch. (ch, RResult (ro_result out))) (spawn_chans rec)) @
       delivered s (map (\<lambda>ch. (ch, RCancel CancelCancelled)) (resolved_chans rec s1)) \<and>
     length (st_completions t) = length (st_completions s) + 1)"
proof -
  obtain rec s1 where tr: "take_record i s = Some (rec, s1)"
    and live: "live_requests (dispatch R cfg k (WRun i (Some out)) s) = (live_requests s)(i := None)"
    by (rule run_finished [OF coord.reach_inv [OF assms(1)] assms(2)])
  let ?s = "s\<lparr>st_runs := remove1 i (st_runs s)\<rparr>"
  let ?s1 = "s1\<lparr>st_runs := remove1 i (st_runs s)\<rparr>"
  have tr': "take_record i ?s = Some (rec, ?s1)"
    by (simp add: take_record_runs tr)
  have fr: "waiters_of i ?s = waiters_of i s" "delivered ?s = delivered s"
    "resolved_chans rec ?s1 = resolved_chans rec s1"
    by (auto simp: waiters_of_def delivered_def resolved_chans_def split: option.split)
  have "i \<notin> live_ids_of (dispatch R cfg k (WRun i (Some out)) s)"
    unfolding dom_live_requests [symmetric] live by simp
  then show ?thesis
    using finish_child_sent [OF tr', of R cfg k out] finish_child_log [OF tr', of R cfg k out]
      finish_child_completed [OF tr', of R cfg k out]
    by (intro exI [of _ rec] exI [of _ s1])
      (simp add: tr Let_def fr comp_def completed_snapshot_def)
qed

theorem finish_child_delivers_witness:
  "\<exists>rec s1. take_record [1] ex_active = Some (rec, s1) \<and>
     [1] \<notin> live_ids_of (dispatch ex_runner default_config ex_clock (WRun [1] (Some ex_output)) ex_active)"
proof -
  have "[1] \<in> set (st_runs ex_active)" by (simp add: ex_active_eq)
  from finish_child_delivers [OF ex_reach(2) this, of ex_clock ex_output] show ?thesis
    unfolding Let_def by blast
qed

text \<open>
  The disposition the host gets tells the truth about delivery, and no completion is lost or
  announced twice: the host is asked to surface a completion that should be surfaced exactly when
  neither the spawn caller (waiting in the foreground) nor a blocking waiter received it, and
  it was neither cancelled nor killed by the user.
\<close>

theorem disposition_surfaces_undelivered:
  "(let d = disposition_of rec res ws s in
    (foreground_delivered d \<longleftrightarrow> \<not> record_handle_only rec \<and>
       (\<exists>ch. record_spawn_reply rec = Some ch \<and> ch \<notin> st_closed s)) \<and>
    (waiter_delivered d \<longleftrightarrow> (\<exists>w. w \<in> set ws \<and> bw_respond_to w \<notin> st_closed s)) \<and>
    backgrounded d = (\<not> foreground_delivered d) \<and>
    explicitly_killed d = record_explicitly_killed rec \<and>
    (should_surface d \<longleftrightarrow> req_surface_completion (record_request rec) \<and> \<not> rs_cancelled res \<and>
       \<not> record_explicitly_killed rec \<and> \<not> foreground_delivered d \<and> \<not> waiter_delivered d))"
  by (auto simp: disposition_of_def foreground_outcome_def Let_def send_ok_def list_ex_iff
      split: option.splits)

section \<open>Cancellation\<close>

lemma cancel_one_tokens:
  "st_cancelled (snd (cancel_one i sess e s)) \<subseteq> st_cancelled s \<union>
     {pc_cancellation c |c j. hm_get (st_pending s) j = Some c \<and> belongs_to_session (pc_request c) sess} \<union>
     {ac_cancellation c |c j. hm_get (st_active s) j = Some c \<and> belongs_to_session (ac_request c) sess}"
  "st_control_cancels (snd (cancel_one i sess e s)) \<subseteq> st_control_cancels s \<union>
     {ac_control c |c j. hm_get (st_active s) j = Some c \<and> belongs_to_session (ac_request c) sess}"
  by (auto simp: cancel_one_def cancel_tokens_def cancel_controls_def opt_filter_Some split: option.split)

lemma cancel_matching_tokens:
  assumes "hm_wf (st_pending s)" "hm_wf (st_active s)"
    and "\<And>req. P req \<Longrightarrow> belongs_to_session req sess"
  shows "st_cancelled (cancel_matching P s) \<subseteq> st_cancelled s \<union>
     {pc_cancellation c |c j. hm_get (st_pending s) j = Some c \<and> belongs_to_session (pc_request c) sess} \<union>
     {ac_cancellation c |c j. hm_get (st_active s) j = Some c \<and> belongs_to_session (ac_request c) sess}"
    and "st_control_cancels (cancel_matching P s) \<subseteq> st_control_cancels s \<union>
     {ac_control c |c j. hm_get (st_active s) j = Some c \<and> belongs_to_session (ac_request c) sess}"
  using assms
  by (auto simp: cancel_matching_def Let_def cancel_tokens_def cancel_controls_def hm_wf_def)

lemma handle_cancel_effect:
  assumes "hm_wf (st_pending s)" "hm_wf (st_active s)"
  shows "st_cancelled (handle_cancel sess target ch s) \<subseteq> st_cancelled s \<union>
     {pc_cancellation c |c j. hm_get (st_pending s) j = Some c \<and> belongs_to_session (pc_request c) sess} \<union>
     {ac_cancellation c |c j. hm_get (st_active s) j = Some c \<and> belongs_to_session (ac_request c) sess} \<and>
    st_control_cancels (handle_cancel sess target ch s) \<subseteq> st_control_cancels s \<union>
     {ac_control c |c j. hm_get (st_active s) j = Some c \<and> belongs_to_session (ac_request c) sess}"
proof (cases target)
  case (SubagentId i)
  have "st_cancelled (handle_cancel sess target ch s) = st_cancelled (snd (cancel_one i sess True s))"
    "st_control_cancels (handle_cancel sess target ch s) = st_control_cancels (snd (cancel_one i sess True s))"
    by (simp_all add: handle_cancel_def SubagentId Let_def coord_simps split: prod.split)
  then show ?thesis
    using cancel_one_tokens [where i = i and sess = sess and e = True and s = s] by (simp only: simp_thms)
next
  case (ParentPromptId p)
  let ?P = "\<lambda>req. req_parent_prompt_id req = Some p \<and> belongs_to_session req sess"
  have "st_cancelled (handle_cancel sess target ch s) = st_cancelled (cancel_matching ?P s)"
    "st_control_cancels (handle_cancel sess target ch s) = st_control_cancels (cancel_matching ?P s)"
    by (simp_all add: handle_cancel_def ParentPromptId coord_simps cancel_parent_prompt_def)
  then show ?thesis
    using cancel_matching_tokens [OF assms, of ?P sess] by (simp only: simp_thms)
next
  case (WorkflowRunId run)
  let ?P = "\<lambda>req. workflow_run_id (req_owner req) = Some run \<and> belongs_to_session req sess"
  have "st_cancelled (handle_cancel sess target ch s) = st_cancelled (cancel_matching ?P s)"
    "st_control_cancels (handle_cancel sess target ch s) = st_control_cancels (cancel_matching ?P s)"
    by (simp_all add: handle_cancel_def WorkflowRunId Let_def coord_simps cancel_workflow_children_def)
  then show ?thesis
    using cancel_matching_tokens [OF assms, of ?P sess] by (simp only: simp_thms)
qed

lemma handle_cancel_others:
  "hm_get (st_active s) i = Some a \<Longrightarrow> \<not> belongs_to_session (ac_request a) sess \<Longrightarrow>
   hm_get (st_active (handle_cancel sess target ch s)) i = Some a"
  "hm_get (st_pending s) i = Some p \<Longrightarrow> \<not> belongs_to_session (pc_request p) sess \<Longrightarrow>
   hm_get (st_pending (handle_cancel sess target ch s)) i = Some p"
  by (cases target; auto simp: handle_cancel_def Let_def coord_simps cancel_parent_prompt_def
      cancel_workflow_children_def cancel_matching_def cancel_one_def cancel_tokens_def
      cancel_controls_def opt_filter_Some hm_get_insert split: prod.split option.split)+

text \<open>
  C30. A cancellation scoped to a session, whatever its target, cancels only tokens and controls of
  live children of that session, and leaves every child of another session as it was.
\<close>

theorem cancel_isolated:
  assumes "coord_reach R cfg s"
  shows "(let t = handle_cancel (Some sess) target ch s in
    st_cancelled t \<subseteq> st_cancelled s \<union>
      {pc_cancellation c |c j. hm_get (st_pending s) j = Some c \<and>
         req_parent_session_id (pc_request c) = sess} \<union>
      {ac_cancellation c |c j. hm_get (st_active s) j = Some c \<and>
         req_parent_session_id (ac_request c) = sess} \<and>
    st_control_cancels t \<subseteq> st_control_cancels s \<union>
      {ac_control c |c j. hm_get (st_active s) j = Some c \<and>
         req_parent_session_id (ac_request c) = sess} \<and>
    (\<forall>j c. hm_get (st_active s) j = Some c \<and> req_parent_session_id (ac_request c) \<noteq> sess \<longrightarrow>
       hm_get (st_active t) j = Some c) \<and>
    (\<forall>j c. hm_get (st_pending s) j = Some c \<and> req_parent_session_id (pc_request c) \<noteq> sess \<longrightarrow>
       hm_get (st_pending t) j = Some c))"
proof -
  have "hm_wf (st_pending s)" "hm_wf (st_active s)"
    using coord.reach_inv [OF assms] by (simp_all add: coord_inv_def store_inv_def)
  note eff = handle_cancel_effect [OF this, of "Some sess" target ch]
  show ?thesis
    unfolding Let_def
    using eff handle_cancel_others [where sess = "Some sess" and s = s and target = target and ch = ch]
    by (simp add: belongs_to_session_def)
qed

theorem cancel_isolated_witness:
  "hm_get (st_active (handle_cancel (Some [6]) (SubagentId [1]) 5 ex_active)) [1] =
   hm_get (st_active ex_active) [1]"
proof -
  obtain c where c: "hm_get (st_active ex_active) [1] = Some c"
    "req_parent_session_id (ac_request c) \<noteq> [6]"
    by (simp add: ex_active_eq new_coordinator_def promote_def new_pending_def ex_request_def)
  then show ?thesis
    using cancel_isolated [OF ex_reach(2), of "[6]" "SubagentId [1]" 5]
    unfolding Let_def by metis
qed

lemma cancel_pending:
  assumes "hm_get (st_pending s) i = Some p" "hm_get (st_active s) i = None"
    and "belongs_to_session (pc_request p) sess"
  shows "handle_cancel sess (SubagentId i) ch s = send ch (RCancel CancelCancelled)
    (cancel_tokens {pc_cancellation p}
       (s\<lparr>st_pending := hm_insert i (p\<lparr>pc_explicitly_killed := True\<rparr>) (st_pending s)\<rparr>))"
  using assms by (simp add: handle_cancel_def cancel_one_def opt_filter_def)

text \<open>
  The race between a cancellation and a promotion is closed: once a pending child was cancelled
  by id, with any later cancellations of tokens and dropped receivers, the report that its runtime
  started is refused, the child stays pending with the kill recorded, and when it then ends the
  host is not asked to surface it.
\<close>

theorem cancelled_child_not_promoted:
  assumes "coord_reach R cfg s" and "hm_get (st_pending s) i = Some p"
    and "belongs_to_session (pc_request p) sess"
  shows "(let s1 = handle_cancel sess (SubagentId i) ch s;
              s2 = s1\<lparr>st_cancelled := st_cancelled s1 \<union> ts, st_closed := st_closed s1 \<union> cs\<rparr>;
              t = handle_started i c ack s2;
              u = finish_child R cfg k i out t in
    st_active t = st_active s \<and>
    hm_get (st_pending t) i = Some (p\<lparr>pc_explicitly_killed := True\<rparr>) \<and>
    st_sent t = st_sent s1 @ delivered s2 [(ack, RBool False)] \<and>
    should_surface (cp_disposition (last (st_completions u))) = False)"
proof -
  have na: "hm_get (st_active s) i = None"
    using coord.reach_inv [OF assms(1)] assms(2)
    by (auto simp: coord_inv_def store_inv_def map_of_eq_None_iff hm_keys_dom)
  define s1 where "s1 = handle_cancel sess (SubagentId i) ch s"
  define s2 where "s2 = s1\<lparr>st_cancelled := st_cancelled s1 \<union> ts, st_closed := st_closed s1 \<union> cs\<rparr>"
  define t where "t = handle_started i c ack s2"
  let ?q = "p\<lparr>pc_explicitly_killed := True\<rparr>"
  have f1: "hm_get (st_pending s2) i = Some ?q" "st_active s2 = st_active s"
    "pc_cancellation p \<in> st_cancelled s2" "st_sent s2 = st_sent s1"
    by (simp_all add: s2_def s1_def cancel_pending [OF assms(2) na assms(3)] coord_simps
        cancel_tokens_def hm_get_insert)
  have t: "st_active t = st_active s" "hm_get (st_pending t) i = Some ?q"
    "st_sent t = st_sent s1 @ delivered s2 [(ack, RBool False)]"
    using f1 by (simp_all add: t_def handle_started_def Let_def coord_simps hm_get_insert delivered_def)
  then obtain t1 where "take_record i t = Some (PendingRecord ?q, t1)"
    using na by (simp add: take_record_def)
  from finish_child_log [OF this]
  have "should_surface (cp_disposition (last (st_completions (finish_child R cfg k i out t)))) = False"
    by (simp add: disposition_of_def Let_def split: prod.split)
  with t show ?thesis
    unfolding Let_def s1_def [symmetric] s2_def [symmetric] t_def [symmetric] by blast
qed

theorem cancelled_child_not_promoted_witness:
  "st_active (handle_started [1] ex_started 6 (handle_cancel None (SubagentId [1]) 5 ex_pending)) = []"
proof -
  have "hm_get (st_pending ex_pending) [1] = Some (new_pending default_config ex_clock ex_request 1)"
    by (simp add: ex_pending_eq)
  from cancelled_child_not_promoted [OF ex_reach(1) this, of None 5 "{}" "{}" ex_started 6]
  have "st_active (handle_started [1] ex_started 6 (handle_cancel None (SubagentId [1]) 5 ex_pending)) =
    st_active ex_pending"
    by (simp add: Let_def belongs_to_session_def)
  then show ?thesis by (simp add: ex_pending_eq new_coordinator_def)
qed

section \<open>Buffered completions\<close>

text \<open>
  Draining a session's completions returns that session's buffered summaries in the order they
  finished, without the suppressed ids, removes every one of them, and keeps all other sessions'
  entries in order; a second drain returns nothing.
\<close>

theorem completions_drained_once:
  "(let t = handle_completions (Some sess) supp ch s;
        u = handle_completions (Some sess) supp' ch' t in
    st_sent t = st_sent s @ delivered s [(ch, RCompletions
      (map bc_summary [b \<leftarrow> st_pending_completions s.
         bc_parent_session_id b = sess \<and> cs_subagent_id (bc_summary b) \<notin> set supp]))] \<and>
    st_pending_completions t = [b \<leftarrow> st_pending_completions s. bc_parent_session_id b \<noteq> sess] \<and>
    st_sent u = st_sent t @ delivered s [(ch', RCompletions [])] \<and>
    st_pending_completions u = st_pending_completions t)"
  by (simp add: handle_completions_def Let_def coord_simps delivered_def filter_map comp_def conj_commute)

section \<open>Deadlines\<close>

lemma process_waiters_fields:
  "st_pending (process_waiters R k i s) = st_pending s"
  "st_active (process_waiters R k i s) = st_active s"
  "hm_get (st_waiters (process_waiters R k i s)) j =
     (if j = i then (let l = filter (\<lambda>w. \<not> bw_deadline w \<le> mono k) (waiters_of i s)
                     in if l = [] then None else Some l)
      else hm_get (st_waiters s) j)"
proof -
  let ?l = "filter (\<lambda>w. \<not> bw_deadline w \<le> mono k) (waiters_of i s)"
  let ?rest = "hm_remove i (st_waiters s)"
  have "core (process_waiters R k i s) =
      core (s\<lparr>st_waiters := (if ?l = [] then ?rest else hm_insert i ?l ?rest)\<rparr>)"
    by (simp add: process_waiters_def Let_def waiters_of_def)
  from core_fields(1,2,5) [OF this]
  show "st_pending (process_waiters R k i s) = st_pending s"
    "st_active (process_waiters R k i s) = st_active s"
    "hm_get (st_waiters (process_waiters R k i s)) j =
     (if j = i then (let l = ?l in if l = [] then None else Some l) else hm_get (st_waiters s) j)"
    by (simp_all add: Let_def hm_lookup)
qed

lemma fold_process_waiters:
  "st_pending (fold (process_waiters R k) is s) = st_pending s \<and>
   st_active (fold (process_waiters R k) is s) = st_active s \<and>
   (\<forall>j ws. hm_get (st_waiters (fold (process_waiters R k) is s)) j = Some ws \<longrightarrow>
      (\<forall>w \<in> set ws. mono k < bw_deadline w) \<or> (j \<notin> set is \<and> hm_get (st_waiters s) j = Some ws))"
proof (induction "is" arbitrary: s)
  case (Cons i "is")
  have "\<forall>w \<in> set ws. mono k < bw_deadline w"
    if "hm_get (st_waiters (process_waiters R k i s)) i = Some ws" for ws
    using that by (auto simp: process_waiters_fields Let_def split: if_splits)
  with Cons.IH [of "process_waiters R k i s"] show ?case
    by (simp add: process_waiters_fields(1,2)) (metis process_waiters_fields(3))
qed simp

lemma fc_deadline_ops [simp]:
  "fc_deadline pending_ops = pc_foreground_deadline" "fc_deadline active_ops = ac_foreground_deadline"
  by (simp_all add: pending_ops_def active_ops_def)

lemma background_due_children:
  "c \<in> set (hm_values (st_pending (background_due now s))) \<Longrightarrow>
   pc_foreground_deadline c = Some d \<Longrightarrow> now < d"
  "a \<in> set (hm_values (st_active (background_due now s))) \<Longrightarrow>
   ac_foreground_deadline a = Some d \<Longrightarrow> now < d"
  using pf.deadline_not_due [of now _ d] af.deadline_not_due [of now _ d]
  by (auto simp: background_due_simps hm_map_values_def)

lemma option_min_in: "option_min xs = Some d \<Longrightarrow> d \<in> set xs"
  by (auto simp: option_min_def split: if_splits)

lemma next_deadline_cases:
  "next_deadline s = Some d \<Longrightarrow>
   (\<exists>c \<in> set (hm_values (st_pending s)). pc_foreground_deadline c = Some d) \<or>
   (\<exists>a \<in> set (hm_values (st_active s)). ac_foreground_deadline a = Some d) \<or>
   (\<exists>ws \<in> set (hm_values (st_waiters s)). \<exists>w \<in> set ws. bw_deadline w = d)"
  unfolding next_deadline_def by (drule option_min_in) (auto simp: set_map_filter)

text \<open>
  The timer makes progress: after the deadlines were processed in a reachable state, the next
  deadline, if there is one, lies strictly in the future, so the loop never spins on a due timer.
\<close>

theorem deadline_in_future:
  assumes "coord_reach R cfg s" and "next_deadline (process_deadlines R k s) = Some d"
  shows "mono k < d"
proof -
  define s1 where "s1 = background_due (mono k) (reap_abandoned_callers s)"
  define t where "t = process_deadlines R k s"
  have "base_inv s"
    using coord.reach_inv [OF assms(1)] by (simp add: coord_inv_def base_inv_def)
  then have "hm_wf (st_waiters t)"
    using process_deadlines_inv(1) [of s R k] by (simp add: t_def base_inv_def waiting_inv_def)
  moreover have t: "t = fold (process_waiters R k) (map fst (st_waiters s1)) s1"
    by (simp add: t_def s1_def process_deadlines_def Let_def)
  note fw = fold_process_waiters [of R k "map fst (st_waiters s1)" s1, folded t]
  have "mono k < bw_deadline w" if wsm: "ws \<in> set (hm_values (st_waiters t))" and w: "w \<in> set ws" for ws w
  proof -
    obtain j where "hm_get (st_waiters t) j = Some ws"
      using wsm \<open>hm_wf (st_waiters t)\<close> by (force simp: hm_wf_def)
    moreover have "\<not> (j \<notin> set (map fst (st_waiters s1)) \<and> hm_get (st_waiters s1) j = Some ws)"
      by (metis image_set map_of_eq_None_iff option.distinct(1))
    ultimately show ?thesis using fw w by blast
  qed
  then show ?thesis
    using next_deadline_cases [OF assms(2) [folded t_def]] fw
      background_due_children [of _ "mono k" "reap_abandoned_callers s" d, folded s1_def]
    by metis
qed

theorem deadline_in_future_witness:
  "next_deadline (process_deadlines ex_runner \<lparr>mono = 50100, wall = 0\<rparr>
     (push_waiter [1] \<lparr>bw_deadline = 60000, bw_respond_to = 9\<rparr> ex_active)) = Some 60000 \<and>
   (50100::nat) < 60000"
proof -
  let ?q = "Query [1] None True (Some 59900) 9"
  let ?w = "\<lparr>bw_deadline = 60000, bw_respond_to = 9\<rparr>"
  let ?s = "push_waiter [1] ?w ex_active"
  let ?k = "\<lparr>mono = 50100, wall = 0\<rparr>"
  have en: "enabled ex_clock (WCommand ?q) ex_active"
    by (simp add: enabled_def loop_done_def ex_active_eq new_coordinator_def)
  have "reap_abandoned_callers ex_active = ex_active"
    by (simp add: ex_active_eq reap_simps new_coordinator_def hm_map_values_def
        background_if_caller_gone_def active_ops_def promote_def new_pending_def ex_defs)
  then have "iteration ex_runner default_config ex_clock (WCommand ?q) ex_active = ?s"
    unfolding iteration_def
    by (simp add: handle_query_def ex_active_eq new_coordinator_def opt_filter_def
        belongs_to_session_def promote_def new_pending_def ex_defs query_waiter_def push_waiter_def
        evict_small MAX_COMPLETED_ENTRIES_def)
  with coord_reach_iteration [OF ex_reach(2) en]
  have r: "coord_reach ex_runner default_config ?s" by simp
  have d: "next_deadline (process_deadlines ex_runner ?k ?s) = Some 60000"
    by (simp add: push_waiter_def ex_active_eq new_coordinator_def process_deadlines_def Let_def
        reap_simps background_due_simps hm_map_values_def background_if_caller_gone_def
        background_at_deadline_def active_ops_def promote_def new_pending_def ex_defs
        process_waiters_def hm_remove_def next_deadline_def option_min_def List.map_filter_def)
  from deadline_in_future [OF r d] d show ?thesis by simp
qed

lemma reap_keeps:
  assumes "hm_get (st_active s) i = Some c" "\<not> fc_caller_gone active_ops (st_closed s) c"
  shows "hm_get (st_active (reap_abandoned_callers s)) i = Some c"
  using assms by (simp add: reap_simps hm_get_map_values background_if_caller_gone_def)

lemma sent_prefix_process_waiters:
  "x \<in> set (st_sent s) \<Longrightarrow> x \<in> set (st_sent (process_waiters R k i s))"
proof -
  have "x \<in> set (st_sent s) \<Longrightarrow> x \<in> set (st_sent (answer_due_waiter R k j w s))" for j w and s :: "'a coordinator"
    by (auto simp: answer_due_waiter_def coord_simps queue_active_progress_def inactive_reply_def
        finish_list_slot_def Let_def split: option.split progress_target.split)
  then have "x \<in> set (st_sent s) \<Longrightarrow> x \<in> set (st_sent (fold (answer_due_waiter R k j) ws s))"
    for j ws and s :: "'a coordinator"
    by (induction ws arbitrary: s) auto
  then show "x \<in> set (st_sent s) \<Longrightarrow> ?thesis"
    by (simp add: process_waiters_def Let_def)
qed

lemma sent_prefix_fold:
  "x \<in> set (st_sent s) \<Longrightarrow> x \<in> set (st_sent (fold (process_waiters R k) is s))"
  by (induction "is" arbitrary: s) (auto simp: sent_prefix_process_waiters)

text \<open>
  A foreground child whose await budget has run out is handed over, not stopped: its caller
  gets an interim reply that says \<open>backgrounded\<close> and not success, and the child stays active with
  the same request, without deadline and reply channel.
\<close>

theorem budget_backgrounds_child:
  assumes "hm_get (st_active s) i = Some c" and "ac_foreground_deadline c = Some d"
    and "d \<le> mono k" and "ac_spawn_reply c = Some ch" and "ch \<notin> st_closed s"
  shows "(let t = process_deadlines R k s; res = handoff_result active_ops c in
    hm_get (st_active t) i = Some (c\<lparr>ac_spawn_reply := None, ac_handle_only := True,
      ac_foreground_deadline := None\<rparr>) \<and>
    (ch, RResult res) \<in> set (st_sent t) \<and> rs_backgrounded res \<and> \<not> rs_success res)"
proof -
  define s0 where "s0 = reap_abandoned_callers s"
  define s1 where "s1 = background_due (mono k) s0"
  let ?c = "c\<lparr>ac_spawn_reply := None, ac_handle_only := True, ac_foreground_deadline := None\<rparr>"
  let ?res = "handoff_result active_ops c"
  have g0: "hm_get (st_active s0) i = Some c"
    unfolding s0_def using assms by (intro reap_keeps) (simp_all add: active_ops_def)
  have bg: "background_at_deadline active_ops (mono k) c = (?c, Some (ch, RResult ?res))"
    using assms(2-4) by (simp add: background_at_deadline_def active_ops_def handoff_result_def)
  have "hm_get (st_active s1) i = Some ?c"
    by (simp add: s1_def background_due_simps hm_get_map_values g0 bg)
  moreover have "(ch, RResult ?res) \<in> set (st_sent s1)"
  proof -
    have "c \<in> set (hm_values (st_active s0))"
      using g0 by (force dest: map_of_SomeD)
    moreover have "ch \<notin> st_closed s0"
      using assms(5) by (simp add: s0_def reap_simps)
    ultimately show ?thesis
      using bg by (force simp: s1_def background_due_simps set_map_filter)
  qed
  ultimately have "hm_get (st_active (process_deadlines R k s)) i = Some ?c"
    "(ch, RResult ?res) \<in> set (st_sent (process_deadlines R k s))"
    using fold_process_waiters [of R k "map fst (st_waiters s1)" s1]
    by (simp_all add: process_deadlines_def Let_def s1_def s0_def sent_prefix_fold)
  then show ?thesis
    by (simp add: Let_def handoff_result_def default_result_def)
qed

theorem budget_backgrounds_child_witness:
  "rs_backgrounded (handoff_result active_ops (promote (new_pending default_config ex_clock ex_request 1) ex_started)) \<and>
   (1, RResult (handoff_result active_ops (promote (new_pending default_config ex_clock ex_request 1) ex_started)))
     \<in> set (st_sent (process_deadlines ex_runner \<lparr>mono = 50100, wall = 0\<rparr> ex_active))"
proof -
  let ?c = "promote (new_pending default_config ex_clock ex_request 1) ex_started"
  have "hm_get (st_active ex_active) [1] = Some ?c" "ac_foreground_deadline ?c = Some 45100"
    "(45100::nat) \<le> mono \<lparr>mono = 50100, wall = 0\<rparr>" "ac_spawn_reply ?c = Some 1" "1 \<notin> st_closed ex_active"
    by (simp_all add: ex_active_eq new_coordinator_def promote_def new_pending_def ex_defs)
  from budget_backgrounds_child [OF this, of ex_runner] show ?thesis
    by (simp only: Let_def simp_thms)
qed

end
