(* ===== verification/Coordinator_Queries.thy ===== *)
theory Coordinator_Queries
  imports Coordinator_Props
begin

text \<open>
  What the coordinator's queries answer: the turn-blocking set, a finished child's output, and the
  slots of a pending list request.
\<close>

section \<open>Outstanding children\<close>

text \<open>The reply blocks a turn: a task of the prompt in the foreground whose caller still listens.\<close>

definition blocks_turn :: "'d coordinator \<Rightarrow> str \<Rightarrow> str \<Rightarrow> subagent_request \<Rightarrow> bool \<Rightarrow> chan option \<Rightarrow> bool" where
  "blocks_turn s sess prompt req handle reply \<longleftrightarrow>
     req_parent_session_id req = sess \<and> req_parent_prompt_id req = Some prompt \<and>
     req_owner req = Task \<and> \<not> handle \<and> (\<forall>ch. reply = Some ch \<longrightarrow> ch \<notin> st_closed s)"

lemma not_is_workflow [simp]: "\<not> is_workflow w \<longleftrightarrow> w = Task"
  by (cases w) auto

lemma reap_pending_get:
  "hm_get (st_pending (reap_abandoned_callers s)) i =
     map_option (\<lambda>c. fst (background_if_caller_gone pending_ops (st_closed s) c)) (hm_get (st_pending s) i)"
  "hm_get (st_active (reap_abandoned_callers s)) i =
     map_option (\<lambda>c. fst (background_if_caller_gone active_ops (st_closed s) c)) (hm_get (st_active s) i)"
  by (simp_all add: reap_simps hm_get_map_values)

lemma reaped_blocks:
  "(req_parent_session_id (pc_request c) = sess \<and> req_parent_prompt_id (pc_request c) = Some prompt \<and>
    \<not> is_workflow (req_owner (pc_request c)) \<and>
    \<not> pc_handle_only (fst (background_if_caller_gone pending_ops (st_closed s) c))) \<longleftrightarrow>
   blocks_turn s sess prompt (pc_request c) (pc_handle_only c) (pc_spawn_reply c)"
  "(req_parent_session_id (ac_request a) = sess \<and> req_parent_prompt_id (ac_request a) = Some prompt \<and>
    \<not> is_workflow (req_owner (ac_request a)) \<and>
    \<not> ac_handle_only (fst (background_if_caller_gone active_ops (st_closed s) a))) \<longleftrightarrow>
   blocks_turn s sess prompt (ac_request a) (ac_handle_only a) (ac_spawn_reply a)"
  by (auto simp: blocks_turn_def background_if_caller_gone_def pending_ops_def active_ops_def
      split: option.splits)

lemma reaped_definition_background [simp]:
  "ac_definition_background (fst (background_if_caller_gone active_ops cl a)) = ac_definition_background a"
  by (simp add: background_if_caller_gone_def active_ops_def Let_def)

lemma hm_values_get:
  "hm_wf m \<Longrightarrow> v \<in> set (hm_values m) \<longleftrightarrow> (\<exists>k. hm_get m k = Some v)"
  by (force simp: hm_wf_def)

lemma ids_of_filter:
  assumes "hm_wf m" "\<And>i c. hm_get m i = Some c \<Longrightarrow> rid c = i"
  shows "distinct (map rid (filter P (hm_values m)))"
    and "set (map rid (filter P (hm_values m))) = {i. \<exists>c. hm_get m i = Some c \<and> P c}"
proof -
  have "map rid (hm_values m) = map fst m"
    using assms by (auto simp: hm_wf_def)
  then show "distinct (map rid (filter P (hm_values m)))"
    using assms(1) by (metis distinct_map_filter hm_wf_def)
  show "set (map rid (filter P (hm_values m))) = {i. \<exists>c. hm_get m i = Some c \<and> P c}"
    using hm_values_get [OF assms(1)] assms(2) by (auto simp: image_iff simp del: set_map) fastforce+
qed

text \<open>
  The reply to an \<open>Outstanding\<close> poll lists, sorted and without repetition, exactly the live
  task children of that session and prompt that still block the turn: not handed to the
  background, not declared as background by their definition, and with a caller that listens.
\<close>

theorem outstanding_exact:
  assumes "coord_reach R cfg s"
  shows "\<exists>r. st_sent (handle_command R cfg k (Outstanding sess prompt ch) s) =
      st_sent s @ delivered s [(ch, ROutstanding r)] \<and>
    sorted (live_ids r) \<and> distinct (live_ids r) \<and>
    (\<forall>i. i \<in> set (live_ids r) \<longleftrightarrow>
       (\<exists>p. hm_get (st_pending s) i = Some p \<and>
          blocks_turn s sess prompt (pc_request p) (pc_handle_only p) (pc_spawn_reply p)) \<or>
       (\<exists>a. hm_get (st_active s) i = Some a \<and> \<not> ac_definition_background a \<and>
          blocks_turn s sess prompt (ac_request a) (ac_handle_only a) (ac_spawn_reply a)))"
proof -
  define t where "t = reap_abandoned_callers s"
  have "base_inv s"
    using coord.reach_inv [OF assms] by (simp add: coord_inv_def base_inv_def)
  from reap_inv [OF this] have st: "store_inv t"
    by (simp add: t_def base_inv_def)
  then have wf: "hm_wf (st_pending t)" "hm_wf (st_active t)"
    and disj: "hm_keys (st_pending t) \<inter> hm_keys (st_active t) = {}"
    and ids: "\<And>i req. live_requests t i = Some req \<Longrightarrow> req_id req = i"
    by (simp_all add: store_inv_def)
  have ida: "hm_get (st_active t) i = Some a \<Longrightarrow> req_id (ac_request a) = i" for i a
    using ids [of i] by (simp add: live_requests_def)
  have idp: "hm_get (st_pending t) i = Some p \<Longrightarrow> req_id (pc_request p) = i" for i p
  proof -
    assume g: "hm_get (st_pending t) i = Some p"
    then have "hm_get (st_active t) i = None"
      using disj unfolding hm_keys_dom by blast
    with g show ?thesis using ids [of i "pc_request p"] by (simp add: live_requests_def)
  qed
  define r where "r = outstanding_reply_of sess prompt t"
  let ?P = "\<lambda>c. (prompt_request sess prompt (pc_request c) \<and> \<not> is_workflow (req_owner (pc_request c))) \<and> \<not> pc_handle_only c"
  let ?A = "\<lambda>c. (prompt_request sess prompt (ac_request c) \<and> \<not> is_workflow (req_owner (ac_request c))) \<and>
    \<not> ac_handle_only c \<and> \<not> ac_definition_background c"
  note fp = ids_of_filter [OF wf(1), of "\<lambda>c. req_id (pc_request c)" ?P, OF idp]
  note fa = ids_of_filter [OF wf(2), of "\<lambda>c. req_id (ac_request c)" ?A, OF ida]
  have lr: "live_ids r = sort (map (\<lambda>c. req_id (pc_request c)) (filter ?P (hm_values (st_pending t))) @
      map (\<lambda>c. req_id (ac_request c)) (filter ?A (hm_values (st_active t))))"
    by (simp add: r_def outstanding_reply_of_def Let_def)
  have "sorted (live_ids r)"
    unfolding lr by (rule sorted_sort)
  moreover have "distinct (live_ids r)"
  proof -
    have "{i. \<exists>p. hm_get (st_pending t) i = Some p \<and> ?P p} \<inter> {i. \<exists>a. hm_get (st_active t) i = Some a \<and> ?A a} = {}"
      using disj unfolding hm_keys_dom by blast
    then show ?thesis
      unfolding lr distinct_sort distinct_append by (simp only: fp fa simp_thms)
  qed
  moreover have "set (live_ids r) = {i. \<exists>p. hm_get (st_pending t) i = Some p \<and> ?P p} \<union>
      {i. \<exists>a. hm_get (st_active t) i = Some a \<and> ?A a}"
    unfolding lr set_sort set_append by (simp only: fp fa)
  moreover have "st_sent (handle_command R cfg k (Outstanding sess prompt ch) s) =
      st_sent s @ delivered s [(ch, ROutstanding r)]"
    by (simp add: r_def t_def coord_simps Let_def delivered_def) (simp add: reap_simps)
  ultimately show ?thesis
    unfolding t_def reap_pending_get
    by (intro exI [of _ r])
      (auto simp: prompt_request_def reaped_blocks [symmetric] simp del: not_is_workflow)
qed

theorem outstanding_exact_witness:
  "\<exists>r. st_sent (handle_command ex_runner default_config ex_clock (Outstanding [7] [8] 5) ex_active) =
      [(2, RBool True)] @ delivered ex_active [(5, ROutstanding r)] \<and> [1] \<in> set (live_ids r)"
proof -
  obtain r where r: "st_sent (handle_command ex_runner default_config ex_clock (Outstanding [7] [8] 5) ex_active) =
      st_sent ex_active @ delivered ex_active [(5, ROutstanding r)]"
    "\<And>i. i \<in> set (live_ids r) \<longleftrightarrow>
       (\<exists>p. hm_get (st_pending ex_active) i = Some p \<and>
          blocks_turn ex_active [7] [8] (pc_request p) (pc_handle_only p) (pc_spawn_reply p)) \<or>
       (\<exists>a. hm_get (st_active ex_active) i = Some a \<and> \<not> ac_definition_background a \<and>
          blocks_turn ex_active [7] [8] (ac_request a) (ac_handle_only a) (ac_spawn_reply a))"
    using outstanding_exact [OF ex_reach(2), of ex_clock "[7]" "[8]" 5] by metis
  then have "[1] \<in> set (live_ids r)"
    by (simp add: ex_active_eq new_coordinator_def blocks_turn_def promote_def new_pending_def ex_defs)
  with r(1) show ?thesis
    by (auto simp: ex_active_eq new_coordinator_def)
qed

section \<open>A finished child's output\<close>

text \<open>
  A query after a successful child finished, from its session and before eviction, is answered at
  once, blocking or not, with a completed snapshot whose text is the child's output: the one in
  memory, or, when the host persisted it and memory was freed, what the host loads, or the
  placeholder if the host can no longer load it.
\<close>

theorem finished_output_queryable:
  assumes "take_record i s = Some (rec, s1)" and "req_owner (record_request rec) = Task"
    and "belongs_to_session (record_request rec) sess"
    and "rs_success (ro_result out)" and "\<not> rs_cancelled (ro_result out)"
  shows "(let t = finish_child R cfg k i out s; u = handle_query R k' i sess b timeout ch t in
    \<exists>snap. st_sent u = st_sent t @ delivered t [(ch, RSnapshot (Some snap))] \<and>
      st_waiters u = st_waiters t \<and> sn_subagent_id snap = req_id (record_request rec) \<and>
      sn_status snap = Completed
        (case persisted_output_ref R (ro_completion_data out) of
           None \<Rightarrow> rs_output (ro_result out)
         | Some ref \<Rightarrow> (case load_persisted_output R ref of
             Some text \<Rightarrow> text | None \<Rightarrow> OUTPUT_UNAVAILABLE_PLACEHOLDER))
        (rs_tool_calls (ro_result out)) (rs_turns (ro_result out)) (rs_worktree_path (ro_result out)))"
proof -
  define t where "t = finish_child R cfg k i out s"
  define c0 where "c0 = completed_of R rec out"
  define c where "c = (if cc_persisted_output_ref c0 \<noteq> None
    then c0\<lparr>cc_result := (cc_result c0)\<lparr>rs_output := []\<rparr>\<rparr> else c0)"
  have c0: "cc_result c0 = ro_result out" "cc_request c0 = record_request rec"
    "cc_persisted_output_ref c0 = persisted_output_ref R (ro_completion_data out)"
    by (cases rec; simp add: c0_def)+
  have g: "hm_get (st_completed t) i = Some c"
    using finish_child_completed [OF assms(1), of R cfg k out] by (simp add: t_def c_def c0_def Let_def)
  have cr: "cc_request c = record_request rec" by (simp add: c_def c0)
  have "handle_query R k' i sess b timeout ch t =
      send ch (RSnapshot (Some (completed_snapshot_for_query R k' c))) t"
    using assms(2,3) by (simp add: handle_query_def g opt_filter_def cr)
  moreover have "sn_subagent_id (completed_snapshot_for_query R k' c) = req_id (record_request rec)"
    by (simp add: completed_snapshot_for_query_def completed_snapshot_def cr)
  moreover have "sn_status (completed_snapshot_for_query R k' c) = Completed
        (case persisted_output_ref R (ro_completion_data out) of
           None \<Rightarrow> rs_output (ro_result out)
         | Some ref \<Rightarrow> (case load_persisted_output R ref of
             Some text \<Rightarrow> text | None \<Rightarrow> OUTPUT_UNAVAILABLE_PLACEHOLDER))
        (rs_tool_calls (ro_result out)) (rs_turns (ro_result out)) (rs_worktree_path (ro_result out))"
    using assms(4,5)
    by (simp add: completed_snapshot_for_query_def completed_snapshot_def completed_status_def c_def c0
        persisted_output_def split: option.split)
  ultimately show ?thesis
    unfolding t_def [symmetric] Let_def by (auto simp: coord_simps delivered_def)
qed

theorem finished_output_queryable_witness:
  "\<exists>snap. sn_status snap = Completed [65] 0 0 None \<and> (9, RSnapshot (Some snap)) \<in>
     set (st_sent (handle_query ex_runner ex_clock [1] (Some [7]) True None 9
       (finish_child ex_runner default_config ex_clock [1] ex_output ex_active)))"
proof -
  let ?rec = "ActiveRecord (promote (new_pending default_config ex_clock ex_request 1) ex_started)"
  obtain s1 where tr: "take_record [1] ex_active = Some (?rec, s1)"
    by (simp add: take_record_def ex_active_eq)
  have cl: "st_closed (finish_child ex_runner default_config ex_clock [1] ex_output ex_active) = {}"
    by (simp add: finish_child_simps ex_active_eq take_record_def new_coordinator_def promote_def
        new_pending_def ex_defs split: option.split)
  have pre: "req_owner (record_request ?rec) = Task" "belongs_to_session (record_request ?rec) (Some [7])"
    "rs_success (ro_result ex_output)" "\<not> rs_cancelled (ro_result ex_output)"
    by (simp_all add: promote_def new_pending_def belongs_to_session_def ex_defs default_result_def)
  have st: "(case persisted_output_ref ex_runner (ro_completion_data ex_output) of
      None \<Rightarrow> rs_output (ro_result ex_output)
    | Some ref \<Rightarrow> (case load_persisted_output ex_runner ref of
        Some text \<Rightarrow> text | None \<Rightarrow> OUTPUT_UNAVAILABLE_PLACEHOLDER)) = [65]"
    "rs_tool_calls (ro_result ex_output) = 0" "rs_turns (ro_result ex_output) = 0"
    "rs_worktree_path (ro_result ex_output) = None"
    by (simp_all add: ex_defs default_result_def)
  obtain snap where "sn_status snap = Completed [65] 0 0 None"
    "st_sent (handle_query ex_runner ex_clock [1] (Some [7]) True None 9
       (finish_child ex_runner default_config ex_clock [1] ex_output ex_active)) =
     st_sent (finish_child ex_runner default_config ex_clock [1] ex_output ex_active) @
     delivered (finish_child ex_runner default_config ex_clock [1] ex_output ex_active)
       [(9, RSnapshot (Some snap))]"
    using finished_output_queryable [OF tr pre, of ex_runner default_config ex_clock ex_clock True None 9]
    unfolding st Let_def by blast
  then show ?thesis
    using cl by (intro exI [of _ snap]) (simp add: delivered_def)
qed

section \<open>Capped outputs\<close>

lemma boundary_prefix: "is_char_boundary (p @ t) (str_len p)"
  by (simp add: is_char_boundary_def take_bytes_append)

lemma len_utf8_le: "len_utf8 c \<le> 4"
  by (simp add: len_utf8_def)

text \<open>
  Capping an output never splits a character and wastes at most three bytes: an output within
  the cap is unchanged; a longer one becomes a prefix of itself of at most \<open>cap\<close> and more than
  \<open>cap - 4\<close> bytes, followed by a footer with both lengths.
\<close>

theorem cap_completion_output_bounds:
  "(str_len output \<le> cap \<and> cap_completion_output output cap = output) \<or>
   (cap < str_len output \<and> (\<exists>p t. output = p @ t \<and> str_len p \<le> cap \<and> cap < str_len p + 4 \<and>
      cap_completion_output output cap = p @ [10] @ lit ''[output truncated: '' @ show_nat (str_len p) @
        lit '' of '' @ show_nat (str_len output) @ lit '' bytes shown]''))"
proof (cases "str_len output \<le> cap")
  case False
  let ?e = "boundary_below output cap"
  obtain p where p: "take_bytes output ?e = Some p"
    using boundary_below_boundary by (auto simp: is_char_boundary_def)
  from take_bytes_prefix [OF p] obtain t where t: "output = p @ t" and len: "str_len p = ?e" by blast
  have le: "str_len p \<le> cap" using len boundary_below_le by simp
  with False t obtain c rest where c: "t = c # rest" by (cases t) auto
  have "is_char_boundary output (str_len (p @ [c]))"
    using boundary_prefix [of "p @ [c]" rest] by (simp add: t c)
  then have "\<not> str_len (p @ [c]) \<le> cap"
    using boundary_below_greatest [of "output" "str_len (p @ [c])" cap] len len_utf8_pos [of c]
    by (metis add_le_same_cancel1 not_less str_len_simps(1,2,3) add.right_neutral)
  then have "cap < str_len p + 4"
    using len_utf8_le [of c] by simp
  moreover have "cap_completion_output output cap = p @ [10] @ lit ''[output truncated: '' @
      show_nat (str_len p) @ lit '' of '' @ show_nat (str_len output) @ lit '' bytes shown]''"
    using False by (simp add: cap_completion_output_def Let_def p len)
  ultimately show ?thesis
    using False le t by auto
qed (simp add: cap_completion_output_def)

end
