(* ===== verification/Coordinator_Lists.thy ===== *)
theory Coordinator_Lists
  imports Coordinator_Props
begin

text \<open>
  The two-phase \<open>ListRunning\<close> query: every active child of a session is asked for its progress, each
  answer fills one slot, and the reply goes out when no slot is left.  The index into the slots is
  never out of range, as long as the wrapping 64-bit request counter does not come back to a
  request that is still open.
\<close>

definition slot_of :: "64 word \<Rightarrow> running_seed \<times> progress_target \<Rightarrow> nat option" where
  "slot_of rid p = (case snd p of TargetList r j \<Rightarrow> if r = rid then Some j else None | _ \<Rightarrow> None)"

text \<open>The open slots of a list request: the indices its outstanding progress futures will fill.\<close>

definition open_slots :: "64 word \<Rightarrow> 'd coordinator \<Rightarrow> nat list" where
  "open_slots rid s = List.map_filter (slot_of rid) (st_progress s)"

definition request_ok :: "list_request \<Rightarrow> nat list \<Rightarrow> bool" where
  "request_ok r js \<longleftrightarrow> js \<noteq> [] \<and> distinct js \<and> (\<forall>j \<in> set js. j < length (lr_slots r)) \<and>
     lr_remaining r = length js"

fun entry_ok :: "list_request option \<Rightarrow> nat list \<Rightarrow> bool" where
  "entry_ok None js \<longleftrightarrow> js = []"
| "entry_ok (Some r) js \<longleftrightarrow> request_ok r js"

definition list_inv :: "'d coordinator \<Rightarrow> bool" where
  "list_inv s \<longleftrightarrow> \<not> st_panicked s \<and>
     (\<forall>rid. entry_ok (hm_get (st_list_requests s) rid) (open_slots rid s))"

definition list_view where
  "list_view s = (st_progress s, st_list_requests s, st_panicked s)"

lemma list_inv_view: "list_view s = list_view t \<Longrightarrow> list_inv s = list_inv t"
  by (simp add: list_inv_def list_view_def open_slots_def)

lemma list_view_effects [simp]:
  "list_view (send ch r s) = list_view s" "list_view (send_all chs r s) = list_view s"
  "list_view (send_handoffs rs s) = list_view s" "list_view (cancel_tokens ts s) = list_view s"
  "list_view (cancel_controls cs s) = list_view s" "list_view (running_count_changed s) = list_view s"
  "list_view (cancel_matching P s) = list_view s" "list_view (reap_abandoned_callers s) = list_view s"
  "list_view (background_due now s) = list_view s" "list_view (evict s) = list_view s"
  "list_view (push_waiter i w s) = list_view s"
  "list_view (buffer_completion cfg req res s) = list_view s"
  "list_view (commit_completed i c s) = list_view s"
  by (simp_all add: list_view_def coord_simps cancel_tokens_def cancel_controls_def
      running_count_changed_def cancel_matching_def reap_simps background_due_simps evict_frame
      push_waiter_def buffer_completion_def commit_completed_def)

lemma list_view_updates [simp]:
  "list_view (s\<lparr>st_pending := a\<rparr>) = list_view s" "list_view (s\<lparr>st_active := b\<rparr>) = list_view s"
  "list_view (s\<lparr>st_waiters := c\<rparr>) = list_view s"
  "list_view (s\<lparr>st_workflow_cancel_waiters := d\<rparr>) = list_view s"
  "list_view (s\<lparr>st_pending_completions := e\<rparr>) = list_view s"
  "list_view (s\<lparr>st_runs := f\<rparr>) = list_view s" "list_view (s\<lparr>st_completions := g\<rparr>) = list_view s"
  "list_view (s\<lparr>st_usage_not_applied := h\<rparr>) = list_view s"
  "list_view (s\<lparr>st_validations := j\<rparr>) = list_view s"
  "list_view (s\<lparr>st_descriptions := j\<rparr>) = list_view s"
  "list_view (s\<lparr>st_commands_open := k\<rparr>) = list_view s"
  "list_view (s\<lparr>st_closed := l\<rparr>) = list_view s" "list_view (s\<lparr>st_cancelled := l\<rparr>) = list_view s"
  by (simp_all add: list_view_def)

lemma list_view_resolve [simp]: "list_view (resolve_workflow_cancel_waiters run s) = list_view s"
  by (simp add: resolve_workflow_cancel_waiters_def)

lemma list_view_take_record: "take_record i s = Some (rec, s1) \<Longrightarrow> list_view s1 = list_view s"
  by (auto simp: take_record_def split: option.splits)

lemma list_view_finish_child [simp]: "list_view (finish_child R cfg k i out s) = list_view s"
proof (cases "take_record i s")
  case (Some p)
  obtain rec s1 where p: "p = (rec, s1)" by force
  from list_view_take_record [OF Some [unfolded p]] show ?thesis
    by (simp add: finish_child_def Some p Let_def split: option.split)
qed (simp add: finish_child_def)

lemma list_view_finish_panicked [simp]: "list_view (finish_panicked_child R cfg k i s) = list_view s"
  by (simp add: finish_panicked_eq split: option.split)

lemma list_view_spawn [simp]: "list_view (handle_spawn cfg k req ch s) = list_view s"
  by (simp add: handle_spawn_def Let_def)

lemma list_view_started [simp]: "list_view (handle_started i c ch s) = list_view s"
  by (simp add: handle_started_def Let_def split: option.split)

lemma list_view_cancel [simp]: "list_view (handle_cancel sess target ch s) = list_view s"
  by (simp add: handle_cancel_def cancel_one_def cancel_parent_prompt_def
      cancel_workflow_children_def Let_def split: cancel_target.split option.split)

lemma list_view_completions [simp]: "list_view (handle_completions sess supp ch s) = list_view s"
  by (simp add: handle_completions_def Let_def)

section \<open>Progress requests of a single child\<close>

fun plain :: "progress_target \<Rightarrow> bool" where
  "plain (TargetList rid j) = False"
| "plain (TargetQuery ch) = True"
| "plain (TargetInspect ch) = True"

lemma slot_of_plain [simp]: "plain target \<Longrightarrow> slot_of rid (sd, target) = None"
  by (cases target) (auto simp: slot_of_def)

lemma slot_of_list [simp]: "slot_of rid (sd, TargetList r j) = (if r = rid then Some j else None)"
  by (simp add: slot_of_def)

lemma list_inv_add_plain:
  "plain target \<Longrightarrow> list_inv (s\<lparr>st_progress := st_progress s @ [(sd, target)]\<rparr>) = list_inv s"
  by (simp add: list_inv_def open_slots_def map_filter_append map_filter_simps)

lemma list_inv_inactive_plain:
  "plain target \<Longrightarrow> list_inv (inactive_reply R k i target s) = list_inv s"
  by (rule list_inv_view) (cases target; simp add: inactive_reply_def)

lemma list_inv_queue_plain:
  "plain target \<Longrightarrow> list_inv (queue_active_progress R k i target s) = list_inv s"
  by (simp add: queue_active_progress_def list_inv_add_plain list_inv_inactive_plain split: option.split)

lemma list_inv_query: "list_inv (handle_query R k i sess b tm ch s) = list_inv s"
  by (simp add: handle_query_def list_inv_queue_plain list_inv_view [OF list_view_effects(1)]
      list_inv_view [OF list_view_effects(11)] split: option.split)

lemma list_inv_inspect: "list_inv (handle_inspect R k i sess ch s) = list_inv s"
  by (simp add: handle_inspect_def list_inv_queue_plain list_inv_view [OF list_view_effects(1)]
      split: option.split)

lemma list_inv_answer: "list_inv (answer_due_waiter R k i w s) = list_inv s"
  by (simp add: answer_due_waiter_def list_inv_queue_plain list_inv_view [OF list_view_effects(1)])

lemma list_inv_process_waiters: "list_inv (process_waiters R k i s) = list_inv s"
proof -
  have "list_inv (fold (answer_due_waiter R k i) ws s) = list_inv s" for ws and s :: "'a coordinator"
    by (induction ws arbitrary: s) (simp_all add: list_inv_answer)
  then show ?thesis
    by (simp add: process_waiters_def Let_def list_inv_view [OF list_view_updates(3)])
qed

lemma list_inv_deadlines: "list_inv (process_deadlines R k s) = list_inv s"
proof -
  have "list_inv (fold (process_waiters R k) is s) = list_inv s" for "is" and s :: "'a coordinator"
    by (induction "is" arbitrary: s) (simp_all add: list_inv_process_waiters)
  then show ?thesis
    by (simp add: process_deadlines_def Let_def list_inv_view [of "background_due _ (reap_abandoned_callers s)" s])
qed

section \<open>Filling a slot\<close>

text \<open>Removing one progress future of a list request removes its slot from the open ones.\<close>

lemma open_slots_remove1:
  assumes "(sd, TargetList rid j) \<in> set (st_progress s)"
  shows "\<exists>A B. open_slots rid s = A @ j # B \<and>
    open_slots rid (s\<lparr>st_progress := remove1 (sd, TargetList rid j) (st_progress s)\<rparr>) = A @ B"
    and "rid' \<noteq> rid \<Longrightarrow>
      open_slots rid' (s\<lparr>st_progress := remove1 (sd, TargetList rid j) (st_progress s)\<rparr>) = open_slots rid' s"
proof -
  let ?x = "(sd, TargetList rid j)"
  obtain ys zs where xs: "st_progress s = ys @ ?x # zs" "?x \<notin> set ys"
    using split_list_first [OF assms] by blast
  then have rm: "remove1 ?x (st_progress s) = ys @ zs"
    by (simp add: remove1_append)
  show "\<exists>A B. open_slots rid s = A @ j # B \<and>
    open_slots rid (s\<lparr>st_progress := remove1 ?x (st_progress s)\<rparr>) = A @ B"
    unfolding open_slots_def using rm xs(1)
    by (auto simp: map_filter_append map_filter_simps slot_of_def)
  show "rid' \<noteq> rid \<Longrightarrow>
      open_slots rid' (s\<lparr>st_progress := remove1 ?x (st_progress s)\<rparr>) = open_slots rid' s"
    unfolding open_slots_def using rm xs(1)
    by (auto simp: map_filter_append map_filter_simps slot_of_def)
qed

lemma finish_slot_inv:
  assumes inv: "list_inv s" and mem: "(sd, TargetList rid j) \<in> set (st_progress s)"
  shows "list_inv (finish_list_slot rid j x
    (s\<lparr>st_progress := remove1 (sd, TargetList rid j) (st_progress s)\<rparr>))"
proof -
  define s1 where "s1 = s\<lparr>st_progress := remove1 (sd, TargetList rid j) (st_progress s)\<rparr>"
  obtain A B where AB: "open_slots rid s = A @ j # B" "open_slots rid s1 = A @ B"
    using open_slots_remove1(1) [OF mem] by (auto simp: s1_def)
  have other: "rid' \<noteq> rid \<Longrightarrow> open_slots rid' s1 = open_slots rid' s" for rid'
    using open_slots_remove1(2) [OF mem] by (simp add: s1_def)
  from inv AB(1) obtain r where r: "hm_get (st_list_requests s) rid = Some r"
    and ok: "request_ok r (A @ j # B)"
    unfolding list_inv_def by (metis Nil_is_append_conv entry_ok.simps list.distinct(1) option.exhaust)
  have rest: "entry_ok (hm_get (st_list_requests s) rid') (open_slots rid' s1)" if "rid' \<noteq> rid" for rid'
    using inv other [OF that] by (simp add: list_inv_def)
  have same: "st_list_requests s1 = st_list_requests s" "\<not> st_panicked s1"
    using inv by (simp_all add: s1_def list_inv_def)
  let ?r = "r\<lparr>lr_slots := (lr_slots r)[j := x], lr_remaining := lr_remaining r - 1\<rparr>"
  have j: "\<not> length (lr_slots r) \<le> j" using ok by (simp add: request_ok_def)
  have op: "open_slots rid' (s1\<lparr>st_list_requests := m\<rparr>) = open_slots rid' s1"
    "open_slots rid' (s1\<lparr>st_list_requests := m, st_sent := q\<rparr>) = open_slots rid' s1" for rid' m q
    by (simp_all add: open_slots_def)
  show ?thesis
  proof (cases "lr_remaining r - 1 = 0")
    case True
    then have "A @ B = []" using ok by (simp add: request_ok_def)
    then show ?thesis
      unfolding s1_def [symmetric] using True j same rest AB(2)
      by (auto simp: finish_list_slot_def r Let_def send_eq list_inv_def op hm_get_remove)
  next
    case False
    have "request_ok ?r (A @ B)"
      using ok False by (auto simp: request_ok_def)
    then show ?thesis
      unfolding s1_def [symmetric] using False j same rest AB(2)
      by (auto simp: finish_list_slot_def r Let_def list_inv_def op hm_get_insert)
  qed
qed

lemma remove_plain_inv:
  assumes "plain target"
  shows "list_inv (s\<lparr>st_progress := remove1 (sd, target) (st_progress s)\<rparr>) = list_inv s"
proof (cases "(sd, target) \<in> set (st_progress s)")
  case True
  then obtain ys zs where "st_progress s = ys @ (sd, target) # zs" "(sd, target) \<notin> set ys"
    using split_list_first by metis
  then show ?thesis
    using assms by (simp add: list_inv_def open_slots_def map_filter_append map_filter_simps remove1_append)
qed (simp add: remove1_idem)

lemma finish_progress_inv:
  assumes "list_inv s" "(sd, target) \<in> set (st_progress s)"
  shows "list_inv (finish_progress R k sd target p
    (s\<lparr>st_progress := remove1 (sd, target) (st_progress s)\<rparr>))"
proof (cases target)
  case (TargetList rid j)
  then show ?thesis
    using finish_slot_inv [OF assms(1), of sd rid j] assms(2)
    by (simp add: finish_progress_def inactive_reply_def Let_def)
qed (use assms in \<open>simp_all add: finish_progress_def Let_def list_inv_inactive_plain
      list_inv_view [OF list_view_effects(1)] remove_plain_inv\<close>)

section \<open>Opening a list request\<close>

lemma queue_list_slots:
  assumes "\<forall>i \<in> set ids. hm_get (st_active s) i \<noteq> None"
  shows "\<exists>ps. queue_list R k rid n ids s = s\<lparr>st_progress := st_progress s @ ps\<rparr> \<and>
    List.map_filter (slot_of rid) ps = [n ..< n + length ids] \<and>
    (\<forall>rid'. rid' \<noteq> rid \<longrightarrow> List.map_filter (slot_of rid') ps = [])"
  using assms
proof (induction ids arbitrary: n s)
  case (Cons i ids)
  then obtain c where c: "hm_get (st_active s) i = Some c" by auto
  let ?p = "(running_seed_of k c, TargetList rid n)"
  let ?s = "s\<lparr>st_progress := st_progress s @ [?p]\<rparr>"
  have "\<forall>i \<in> set ids. hm_get (st_active ?s) i \<noteq> None" using Cons.prems by simp
  from Cons.IH [OF this, of "Suc n"] obtain ps where
    "queue_list R k rid (Suc n) ids ?s = ?s\<lparr>st_progress := st_progress ?s @ ps\<rparr>"
    "List.map_filter (slot_of rid) ps = [Suc n ..< Suc n + length ids]"
    "\<forall>rid'. rid' \<noteq> rid \<longrightarrow> List.map_filter (slot_of rid') ps = []" by blast
  then show ?case
    by (intro exI [of _ "?p # ps"])
      (simp add: queue_active_progress_def c map_filter_simps upt_conv_Cons del: upt_Suc)
qed (intro exI [of _ "[]"], simp add: map_filter_simps)

lemma handle_list_running_inv:
  assumes inv: "list_inv s" and store: "store_inv s"
    and fresh: "st_next_list_request_id s \<notin> hm_keys (st_list_requests s)"
  shows "list_inv (handle_list_running R k sess ch s)"
proof (cases "filter (session_task sess) (hm_values (st_active s)) = []")
  case True
  then show ?thesis
    using inv by (simp add: handle_list_running_def Let_def list_inv_view [OF list_view_effects(1)])
next
  case False
  define ids where "ids = map (\<lambda>c. req_id (ac_request c)) (filter (session_task sess) (hm_values (st_active s)))"
  define rid where "rid = st_next_list_request_id s"
  let ?r = "\<lparr>lr_slots = replicate (length ids) None, lr_remaining = length ids, lr_respond_to = ch\<rparr>"
  define s1 where "s1 = s\<lparr>st_next_list_request_id := rid + 1,
    st_list_requests := hm_insert rid ?r (st_list_requests s)\<rparr>"
  have idk: "hm_get (st_active s) i = Some c \<Longrightarrow> req_id (ac_request c) = i" for i c
    using store by (auto simp: store_inv_def live_requests_def)
  have wf: "hm_wf (st_active s)" using store by (simp add: store_inv_def)
  have "\<forall>i \<in> set ids. hm_get (st_active s1) i \<noteq> None"
    using idk wf by (force simp: ids_def s1_def hm_wf_def)
  from queue_list_slots [OF this, of R k rid 0] obtain ps where
    q: "queue_list R k rid 0 ids s1 = s1\<lparr>st_progress := st_progress s1 @ ps\<rparr>"
    and slots: "List.map_filter (slot_of rid) ps = [0 ..< length ids]"
    and others: "\<And>rid'. rid' \<noteq> rid \<Longrightarrow> List.map_filter (slot_of rid') ps = []" by auto
  have hl: "handle_list_running R k sess ch s = s1\<lparr>st_progress := st_progress s1 @ ps\<rparr>"
    using False q by (simp add: handle_list_running_def ids_def rid_def s1_def Let_def)
  have none: "hm_get (st_list_requests s) rid = None"
    using fresh by (simp add: rid_def map_of_eq_None_iff)
  then have "open_slots rid s = []"
    using inv unfolding list_inv_def by (metis entry_ok.simps(1))
  moreover have "ids \<noteq> []" using False by (simp add: ids_def)
  ultimately have "request_ok ?r (open_slots rid s @ [0 ..< length ids])"
    by (simp add: request_ok_def)
  moreover have "open_slots rid' (handle_list_running R k sess ch s) =
      open_slots rid' s @ List.map_filter (slot_of rid') ps" for rid'
    by (simp add: hl open_slots_def map_filter_append s1_def)
  moreover have "st_list_requests (handle_list_running R k sess ch s) =
      hm_insert rid ?r (st_list_requests s)" "\<not> st_panicked (handle_list_running R k sess ch s)"
    using inv by (simp_all add: hl s1_def list_inv_def)
  ultimately show ?thesis
    using inv slots others by (auto simp: list_inv_def hm_get_insert)
qed

section \<open>The loop\<close>

lemma handle_command_list_inv:
  assumes "list_inv s" "base_inv s" "st_next_list_request_id s \<notin> hm_keys (st_list_requests s)"
  shows "list_inv (handle_command R cfg k c s)"
proof (cases c)
  case (ListRunning sess ch)
  then show ?thesis
    using handle_list_running_inv [OF assms(1) _ assms(3)] assms(2) by (simp add: base_inv_def)
next
  case (Outstanding sess prompt ch)
  then show ?thesis
    using assms(1) list_inv_view [of "handle_command R cfg k c s" s] by (simp add: Let_def)
qed (use assms(1) list_inv_view [of "handle_command R cfg k c s" s] in
    \<open>simp_all add: list_inv_query list_inv_inspect\<close>)

lemma dispatch_list_inv:
  assumes "list_inv s" "base_inv s" "st_next_list_request_id s \<notin> hm_keys (st_list_requests s)"
    and "enabled k w s"
  shows "list_inv (dispatch R cfg k w s)"
proof (cases w)
  case (WInternal e)
  then show ?thesis
    using assms(1) list_inv_view [of "dispatch R cfg k w s" s] by (cases e) simp_all
next
  case (WRun i out)
  then show ?thesis
    using assms(1) list_inv_view [of "dispatch R cfg k w s" s] by (cases out) (simp_all add: Let_def)
next
  case (WProgress sd target p)
  then show ?thesis
    using finish_progress_inv [OF assms(1), of sd target] assms(4) by (simp add: enabled_def)
next
  case (WCommand c)
  let ?r = "reap_abandoned_callers s"
  have "list_inv ?r"
    using assms(1) by (simp add: list_inv_view [OF list_view_effects(8)])
  moreover have "st_next_list_request_id ?r \<notin> hm_keys (st_list_requests ?r)"
    using assms(3) by (simp add: reap_simps)
  ultimately show ?thesis
    using handle_command_list_inv [OF _ reap_inv [OF assms(2)]] by (simp add: WCommand)
qed (use assms(1) list_inv_view [of "dispatch R cfg k w s" s] in \<open>simp_all add: list_inv_deadlines\<close>)

text \<open>
  The steps of a coordinator whose request counter does not return to an open list request; the
  counter has 64 bits, so it takes that many later list requests for one to do so.
\<close>

definition fresh_step ::
  "'d runner \<Rightarrow> coordinator_config \<Rightarrow> 'd coordinator \<Rightarrow> 'd coordinator \<Rightarrow> bool" where
  "fresh_step R cfg s t \<longleftrightarrow>
     coord_step R cfg s t \<and> st_next_list_request_id s \<notin> hm_keys (st_list_requests s)"

lemma fresh_step_inv:
  assumes "coord_inv s \<and> list_inv s" "fresh_step R cfg s t"
  shows "coord_inv t \<and> list_inv t"
proof -
  have step: "coord_step R cfg s t" and fresh: "st_next_list_request_id s \<notin> hm_keys (st_list_requests s)"
    using assms(2) by (simp_all add: fresh_step_def)
  have "base_inv s" using assms(1) by (simp add: coord_inv_def base_inv_def)
  note d = dispatch_list_inv [OF _ this fresh]
  have "list_inv t"
    using step
  proof cases
    case (step_iteration k w)
    then show ?thesis
      using d [of k w R cfg] assms(1) by (simp add: iteration_def list_inv_view [OF list_view_effects(10)])
  qed (use assms(1) list_inv_view [of t s] in simp_all)
  with coord_step_inv [of s R cfg t] assms(1) step show ?thesis by blast
qed

lemma new_list_inv: "list_inv new_coordinator"
  by (simp add: list_inv_def open_slots_def map_filter_simps new_coordinator_def)

interpretation lists: inductive_invariant "\<lambda>s. s = new_coordinator" "fresh_step R cfg"
  "\<lambda>s. coord_inv s \<and> list_inv s"
proof unfold_locales
  show "s = new_coordinator \<Longrightarrow> coord_inv s \<and> list_inv s" for s :: "'a coordinator"
    by (simp add: new_coordinator_inv new_list_inv)
qed (rule fresh_step_inv)

text \<open>
  As long as the 64-bit request counter does not return to an open list request, the
  coordinator never panics on a slot index, and every open list request waits for exactly as
  many answers as it has open slots, at least one, each for a slot of its own; so it is
  answered when the last of its progress futures completes.
\<close>

theorem list_requests_safe:
  assumes "reach (\<lambda>s. s = new_coordinator) (fresh_step R cfg) s"
  shows "\<not> st_panicked s \<and> (\<forall>rid r. hm_get (st_list_requests s) rid = Some r \<longrightarrow>
    (let js = List.map_filter (slot_of rid) (st_progress s) in
     js \<noteq> [] \<and> distinct js \<and> (\<forall>j \<in> set js. j < length (lr_slots r)) \<and> lr_remaining r = length js))"
proof -
  have inv: "list_inv s" using lists.reach_inv [OF assms] by blast
  have "request_ok r (open_slots rid s)" if "hm_get (st_list_requests s) rid = Some r" for rid r
    using inv that unfolding list_inv_def by (metis entry_ok.simps(2))
  with inv show ?thesis
    by (simp add: list_inv_def Let_def open_slots_def request_ok_def)
qed

theorem list_requests_safe_witness:
  "\<not> st_panicked (iteration ex_runner default_config ex_clock (WCommand (ListRunning [7] 5)) new_coordinator)"
proof -
  have en: "enabled ex_clock (WCommand (ListRunning [7] 5)) (new_coordinator :: unit coordinator)"
    by (simp add: enabled_def loop_done_def new_coordinator_def)
  have "fresh_step ex_runner default_config new_coordinator
      (iteration ex_runner default_config ex_clock (WCommand (ListRunning [7] 5)) new_coordinator)"
    unfolding fresh_step_def using step_iteration [OF en] by (simp add: new_coordinator_def)
  moreover have "reach (\<lambda>s. s = new_coordinator) (fresh_step ex_runner default_config) new_coordinator"
    by (rule reach_init) (rule refl)
  ultimately have "reach (\<lambda>s. s = new_coordinator) (fresh_step ex_runner default_config)
      (iteration ex_runner default_config ex_clock (WCommand (ListRunning [7] 5)) new_coordinator)"
    by (rule reach_step [rotated])
  from list_requests_safe [OF this] show ?thesis by blast
qed

end
