(* ===== verification/Breaker_Window.thy ===== *)
theory Breaker_Window
  imports Prelude Complex_Main
begin

text \<open>
  The sliding window of the circuit breaker (\<open>xai-circuit-breaker/src/window.rs\<close>): the last outcomes
  with their times, a cached failure count, and the failure rate as an IEEE double.

  An \<open>Instant\<close> is the number of nanoseconds since the earliest instant the platform can represent,
  a \<open>Duration\<close> a number of nanoseconds.  Decrementing a \<open>usize\<close> below zero (a panic, or a
  wrap-around in a release build) is \<open>None\<close>.
\<close>

type_synonym nanos = nat

section \<open>Doubles\<close>

text \<open>A double: a finite value is the rational number it stands for.\<close>

datatype f64 = F64 (f64_val: rat) | F64_inf | F64_neg_inf | F64_nan

fun f64_ge :: "f64 \<Rightarrow> f64 \<Rightarrow> bool" where
  "f64_ge (F64 x) (F64 y) = (y \<le> x)"
| "f64_ge F64_nan y = False"
| "f64_ge x F64_nan = False"
| "f64_ge F64_inf y = True"
| "f64_ge x F64_neg_inf = True"
| "f64_ge F64_neg_inf y = False"
| "f64_ge x F64_inf = False"

text \<open>
  The quotient of two integers that are exact as doubles, with \<open>a \<le> b\<close>: scaled to a 53-bit
  significand and rounded to nearest, ties to even.
\<close>

function f64_exp :: "nat \<Rightarrow> nat \<Rightarrow> nat" where
  "f64_exp a b = (if a = 0 \<or> b \<le> a then 0 else Suc (f64_exp (2 * a) b))"
  by auto
termination by (relation "measure (\<lambda>(a, b). b - a)") auto

declare f64_exp.simps [simp del]

definition round_half_even :: "nat \<Rightarrow> nat \<Rightarrow> nat" where
  "round_half_even n b = (let q = n div b; r = n mod b in
     if 2 * r > b \<or> (2 * r = b \<and> odd q) then q + 1 else q)"

definition f64_ratio :: "nat \<Rightarrow> nat \<Rightarrow> rat" where
  "f64_ratio a b = (if a = 0 then 0
     else let k = f64_exp a b in of_nat (round_half_even (a * 2 ^ (k + 52)) b) / 2 ^ (k + 52))"

lemma f64_exp_ge: "0 < a \<Longrightarrow> b \<le> a * 2 ^ f64_exp a b"
proof (induction a b rule: f64_exp.induct)
  case (1 a b)
  then show ?case
    by (cases "b \<le> a") (simp_all add: f64_exp.simps [of a b] algebra_simps)
qed

lemma f64_exp_lt: "0 < f64_exp a b \<Longrightarrow> a * 2 ^ (f64_exp a b - 1) < b"
proof (induction a b rule: f64_exp.induct)
  case (1 a b)
  then have c: "a \<noteq> 0" "\<not> b \<le> a"
    by (auto simp: f64_exp.simps [of a b] split: if_splits)
  show ?case
  proof (cases "f64_exp (2 * a) b")
    case 0
    then show ?thesis using c by (simp add: f64_exp.simps [of a b])
  next
    case (Suc k)
    then show ?thesis using "1.IH" c by (simp add: f64_exp.simps [of a b] algebra_simps)
  qed
qed

lemma round_half_even_bounds: "n div b \<le> round_half_even n b" "round_half_even n b \<le> n div b + 1"
  by (simp_all add: round_half_even_def Let_def)

text \<open>A rounded failure rate reaches one half exactly when the exact one does.\<close>

lemma f64_ratio_half:
  assumes "0 < b" "a \<le> b" "b \<le> 2 ^ 50"
  shows "1 / 2 \<le> f64_ratio a b \<longleftrightarrow> b \<le> 2 * a"
proof (cases "a = 0")
  case False
  define k where "k = f64_exp a b"
  define m where "m = round_half_even (a * 2 ^ (k + 52)) b"
  have r: "f64_ratio a b = of_nat m / 2 ^ (k + 52)"
    using False by (simp add: f64_ratio_def k_def m_def Let_def)
  have ge: "b \<le> a * 2 ^ k" and lt: "0 < k \<Longrightarrow> a * 2 ^ (k - 1) < b"
    using f64_exp_ge [of a b] f64_exp_lt [of a b] False by (simp_all add: k_def)
  have half: "1 / 2 \<le> f64_ratio a b \<longleftrightarrow> 2 ^ (k + 51) \<le> m"
  proof -
    have "(1::rat) / 2 \<le> of_nat m / 2 ^ (k + 52) \<longleftrightarrow> (2::rat) ^ (k + 51) \<le> of_nat m"
      by (simp add: field_simps power_add)
    also have "\<dots> \<longleftrightarrow> 2 ^ (k + 51) \<le> m"
      by (metis of_nat_le_iff of_nat_numeral of_nat_power)
    finally show ?thesis by (simp add: r)
  qed
  show ?thesis
  proof
    assume le: "b \<le> 2 * a"
    have "k \<le> 1"
    proof (rule ccontr)
      assume "\<not> k \<le> 1"
      then have "(2::nat) ^ 1 \<le> 2 ^ (k - 1)" by (intro power_increasing) auto
      then have "a * 2 \<le> a * 2 ^ (k - 1)" by simp
      moreover have "a * 2 ^ (k - 1) < b" using lt \<open>\<not> k \<le> 1\<close> by simp
      ultimately show False using le by linarith
    qed
    have "2 ^ 52 * b \<le> a * 2 ^ (k + 52)"
      using ge by (simp add: power_add)
    then have "2 ^ 52 \<le> a * 2 ^ (k + 52) div b"
      using assms(1) by (simp add: less_eq_div_iff_mult_less_eq)
    then have "2 ^ 52 \<le> m"
      using round_half_even_bounds(1) [of "a * 2 ^ (k + 52)" b] by (simp add: m_def)
    moreover have "(2::nat) ^ (k + 51) \<le> 2 ^ 52"
      using \<open>k \<le> 1\<close> by (intro power_increasing) auto
    ultimately show "1 / 2 \<le> f64_ratio a b" using half by linarith
  next
    assume "1 / 2 \<le> f64_ratio a b"
    then have m: "2 ^ (k + 51) \<le> m" using half by blast
    show "b \<le> 2 * a"
    proof (rule ccontr)
      assume "\<not> b \<le> 2 * a"
      then have "k \<noteq> 0" "k \<noteq> 1" using ge assms(2) by (auto intro: ccontr)
      then have k: "2 \<le> k" by simp
      then have "a * 2 ^ (k - 1) \<le> b - 1" using lt by simp
      then have "a * 2 ^ (k - 1) * 2 ^ 53 \<le> (b - 1) * 2 ^ 53" by (rule mult_right_mono) simp
      moreover have "a * 2 ^ (k - 1) * 2 ^ 53 = a * 2 ^ (k + 52)"
      proof -
        have "k - 1 + 53 = k + 52" using k by simp
        then show ?thesis by (metis mult.assoc power_add)
      qed
      moreover have "(b - 1) * 2 ^ 53 + 2 ^ 53 = b * 2 ^ 53"
        using assms(1) by (simp add: algebra_simps diff_mult_distrib)
      moreover have "b * 8 \<le> 2 ^ 53" using assms(3) by simp
      ultimately have "a * 2 ^ (k + 52) + b * 8 \<le> b * 2 ^ 53"
        by linarith
      then have "a * 2 ^ (k + 52) \<le> b * (2 ^ 53 - 8)"
        unfolding diff_mult_distrib2 by linarith
      then have "a * 2 ^ (k + 52) div b \<le> 2 ^ 53 - 8"
        using assms(1) by (metis div_le_mono nonzero_mult_div_cancel_left not_gr_zero)
      then have "m < 2 ^ 53"
        using round_half_even_bounds(2) [of "a * 2 ^ (k + 52)" b] by (simp add: m_def)
      moreover have "(2::nat) ^ 53 \<le> 2 ^ (k + 51)"
        using k by (intro power_increasing) auto
      ultimately show False using m by linarith
    qed
  qed
qed (use assms in \<open>simp add: f64_ratio_def\<close>)

section \<open>The window\<close>

definition MAX_WINDOW_ENTRIES :: nat where "MAX_WINDOW_ENTRIES = 10000"

type_synonym sample = "nanos \<times> bool"

record sliding_window =
  entries :: "sample list"
  failures :: nat

definition window_new :: sliding_window where
  "window_new = \<lparr>entries = [], failures = 0\<rparr>"

definition checked_dec :: "nat \<Rightarrow> nat option" where
  "checked_dec n = (if n = 0 then None else Some (n - 1))"

definition pop_oldest :: "sliding_window \<Rightarrow> sliding_window option" where
  "pop_oldest w = (case entries w of
      [] \<Rightarrow> Some w
    | (ts, was_failure) # rest \<Rightarrow>
        if was_failure
        then map_option (\<lambda>f. w\<lparr>entries := rest, failures := f\<rparr>) (checked_dec (failures w))
        else Some (w\<lparr>entries := rest\<rparr>))"

definition window_push :: "bool \<Rightarrow> nanos \<Rightarrow> sliding_window \<Rightarrow> sliding_window option" where
  "window_push is_failure t w =
     map_option (\<lambda>w. w\<lparr>entries := entries w @ [(t, is_failure)],
                       failures := failures w + (if is_failure then 1 else 0)\<rparr>)
       (if length (entries w) \<ge> MAX_WINDOW_ENTRIES then pop_oldest w else Some w)"

fun evict_before :: "nanos \<Rightarrow> sample list \<Rightarrow> nat \<Rightarrow> (sample list \<times> nat) option" where
  "evict_before cutoff [] f = Some ([], f)"
| "evict_before cutoff ((ts, was_failure) # es) f =
     (if ts < cutoff
      then (if was_failure then Option.bind (checked_dec f) (evict_before cutoff es)
            else evict_before cutoff es f)
      else Some ((ts, was_failure) # es, f))"

definition window_evict :: "nanos \<Rightarrow> nanos \<Rightarrow> sliding_window \<Rightarrow> sliding_window option" where
  "window_evict window now w =
     (if now < window then Some w
      else map_option (\<lambda>(es, f). w\<lparr>entries := es, failures := f\<rparr>)
             (evict_before (now - window) (entries w) (failures w)))"

definition window_error_rate :: "sliding_window \<Rightarrow> f64" where
  "window_error_rate w = F64 (if entries w = [] then 0 else f64_ratio (failures w) (length (entries w)))"

definition sample_count :: "sliding_window \<Rightarrow> nat" where
  "sample_count w = length (entries w)"

definition window_clear :: "sliding_window \<Rightarrow> sliding_window" where
  "window_clear w = \<lparr>entries = [], failures = 0\<rparr>"

subsection \<open>The reference: a list of samples whose failures are counted afresh\<close>

definition count_failures :: "sample list \<Rightarrow> nat" where
  "count_failures es = length (filter snd es)"

definition window_ok :: "sliding_window \<Rightarrow> bool" where
  "window_ok w \<longleftrightarrow> failures w = count_failures (entries w) \<and> length (entries w) \<le> MAX_WINDOW_ENTRIES"

definition keep_last :: "nat \<Rightarrow> 'a list \<Rightarrow> 'a list" where
  "keep_last n xs = drop (length xs - n) xs"

definition in_window :: "nanos \<Rightarrow> nanos \<Rightarrow> sample list \<Rightarrow> sample list" where
  "in_window window now es = dropWhile (\<lambda>(ts, _). ts + window < now) es"

lemma window_push_ok:
  assumes "window_ok w"
  shows "\<exists>w'. window_push b t w = Some w' \<and> window_ok w' \<and>
    entries w' = keep_last MAX_WINDOW_ENTRIES (entries w @ [(t, b)])"
proof (cases "length (entries w) \<ge> MAX_WINDOW_ENTRIES")
  case False
  with assms show ?thesis
    by (simp add: window_push_def window_ok_def count_failures_def keep_last_def)
next
  case True
  with assms have len: "length (entries w) = MAX_WINDOW_ENTRIES" by (simp add: window_ok_def)
  then obtain ts f rest where e: "entries w = (ts, f) # rest"
    by (cases "entries w") (auto simp: MAX_WINDOW_ENTRIES_def)
  show ?thesis
    using assms len
    by (auto simp: window_push_def pop_oldest_def e window_ok_def count_failures_def keep_last_def
        checked_dec_def MAX_WINDOW_ENTRIES_def)
qed

lemma evict_before_ok:
  "f = count_failures es \<Longrightarrow>
   evict_before c es f = Some (dropWhile (\<lambda>(ts, _). ts < c) es,
     count_failures (dropWhile (\<lambda>(ts, _). ts < c) es))"
  by (induction c es f rule: evict_before.induct)
    (auto simp: count_failures_def checked_dec_def split: option.splits)

lemma window_evict_ok:
  assumes "window_ok w"
  shows "\<exists>w'. window_evict d now w = Some w' \<and> window_ok w' \<and> entries w' = in_window d now (entries w)"
proof (cases "now < d")
  case True
  then have "in_window d now (entries w) = entries w"
    by (auto simp: in_window_def dropWhile_eq_self_iff)
  with True assms show ?thesis by (simp add: window_evict_def)
next
  case False
  then have P: "(\<lambda>(ts, x :: bool). ts < now - d) = (\<lambda>(ts, x). ts + d < now)"
    by (auto simp: fun_eq_iff)
  have "failures w = count_failures (entries w)" using assms by (simp add: window_ok_def)
  from evict_before_ok [OF this, of "now - d"] assms False show ?thesis
    by (auto simp: window_evict_def in_window_def window_ok_def P
        intro: le_trans [OF length_dropWhile_le])
qed

section \<open>The window as an interface\<close>

locale outcome_window =
  fixes push :: "bool \<Rightarrow> nanos \<Rightarrow> 'w \<Rightarrow> 'w option"
    and evict :: "nanos \<Rightarrow> nanos \<Rightarrow> 'w \<Rightarrow> 'w option"
    and clear :: "'w \<Rightarrow> 'w"
    and fails :: "'w \<Rightarrow> nat"
    and samples :: "'w \<Rightarrow> sample list"
    and ok :: "'w \<Rightarrow> bool"
    and cap :: nat
  assumes push_law: "ok w \<Longrightarrow> \<exists>w'. push b t w = Some w' \<and> ok w' \<and>
      samples w' = keep_last cap (samples w @ [(t, b)])"
    and evict_law: "ok w \<Longrightarrow> \<exists>w'. evict d now w = Some w' \<and> ok w' \<and>
      samples w' = in_window d now (samples w)"
    and clear_law: "ok (clear w) \<and> samples (clear w) = []"
    and fails_law: "ok w \<Longrightarrow> fails w = count_failures (samples w)"
begin

text \<open>Recording a sample never underflows the cached count, whatever the clock shows.\<close>

lemma push_evict:
  assumes "ok w"
  shows "\<exists>w'. Option.bind (push b t w) (evict d now) = Some w' \<and> ok w' \<and>
    samples w' = in_window d now (keep_last cap (samples w @ [(t, b)])) \<and>
    fails w' = count_failures (in_window d now (keep_last cap (samples w @ [(t, b)])))"
proof -
  obtain w1 where w1: "push b t w = Some w1" "ok w1" "samples w1 = keep_last cap (samples w @ [(t, b)])"
    using push_law [OF assms] by blast
  obtain w2 where "evict d now w1 = Some w2" "ok w2" "samples w2 = in_window d now (samples w1)"
    using evict_law [OF w1(2)] by blast
  with w1 show ?thesis using fails_law [of w2] by simp
qed

end

interpretation win: outcome_window window_push window_evict window_clear failures entries window_ok
  MAX_WINDOW_ENTRIES
  by unfold_locales
    (use window_push_ok window_evict_ok in
      \<open>simp_all add: window_clear_def window_ok_def count_failures_def\<close>)

text \<open>
  C34. The cached failure count of the sliding window is exact and never underflows: pushing a sample
  and evicting the old ones, from any window whose count is right, gives the last 10000 samples
  within the window's duration, with the number of failures among them; and that failure rate,
  computed and rounded as a double, is at least one half exactly when at least half of
  the samples are failures.
\<close>

theorem window_record_exact:
  assumes "failures w = count_failures (entries w)" and "length (entries w) \<le> 10000"
  shows "\<exists>w'. Option.bind (window_push b t w) (window_evict d now) = Some w' \<and>
    entries w' = in_window d now (keep_last 10000 (entries w @ [(t, b)])) \<and>
    failures w' = count_failures (entries w') \<and> length (entries w') \<le> 10000 \<and>
    (f64_ge (window_error_rate w') (F64 (1 / 2)) \<longleftrightarrow>
       entries w' \<noteq> [] \<and> length (entries w') \<le> 2 * count_failures (entries w'))"
proof -
  have ok: "window_ok w" using assms by (simp add: window_ok_def MAX_WINDOW_ENTRIES_def)
  obtain w' where w': "Option.bind (window_push b t w) (window_evict d now) = Some w'" "window_ok w'"
    "entries w' = in_window d now (keep_last 10000 (entries w @ [(t, b)]))"
    using win.push_evict [OF ok, of b t d now] by (auto simp: MAX_WINDOW_ENTRIES_def)
  have "failures w' \<le> length (entries w')"
    using w'(2) by (simp add: window_ok_def count_failures_def)
  with w' f64_ratio_half [of "length (entries w')" "failures w'"] show ?thesis
    by (auto simp: window_error_rate_def window_ok_def MAX_WINDOW_ENTRIES_def)
qed

theorem window_record_exact_witness:
  "\<exists>w'. Option.bind (window_push True 5 window_new) (window_evict 10 5) = Some w' \<and> failures w' = 1"
proof -
  have "failures window_new = count_failures (entries window_new)" "length (entries window_new) \<le> 10000"
    by (simp_all add: window_new_def count_failures_def)
  from window_record_exact [OF this, of True 5 10 5] obtain w' where
    "Option.bind (window_push True 5 window_new) (window_evict 10 5) = Some w'"
    "entries w' = in_window 10 5 (keep_last 10000 (entries window_new @ [(5, True)]))"
    "failures w' = count_failures (entries w')" by blast
  then show ?thesis
    by (intro exI [of _ w']) (simp add: in_window_def keep_last_def window_new_def count_failures_def)
qed

end
