(* ===== verification/Breaker.thy ===== *)
theory Breaker
  imports Breaker_Window "HOL-Library.Word"
begin

text \<open>
  The circuit breaker (\<open>xai-circuit-breaker/src\<close>: \<open>config.rs\<close>, \<open>retry_policy.rs\<close>, \<open>state.rs\<close>,
  \<open>breaker.rs\<close>, \<open>registry.rs\<close>).  One call of an operation reads the clock once here; the theory
  \<open>Breaker_Threads\<close> splits the operations into their atomic accesses.

  The counter of probe slots is a 64-bit word, the other atomics are what they hold.  The calls of
  the observer are logged in \<open>b_events\<close>.  \<open>None\<close> is a panic.
\<close>

section \<open>Configuration\<close>

record breaker_config =
  window_duration :: nanos
  min_samples :: nat
  error_rate_threshold :: f64
  open_duration :: nanos
  half_open_max_probes :: nat
  failure_codes :: "nat set"
  cb_enabled :: bool

definition secs :: "nat \<Rightarrow> nanos" where "secs n = n * 1000000000"

definition default_failure_codes :: "nat set" where
  "default_failure_codes = {429, 500, 502, 503, 504}"

definition server_config :: breaker_config where
  "server_config =
     \<lparr>window_duration = secs 60, min_samples = 10, error_rate_threshold = F64 (1 / 2),
      open_duration = secs 10, half_open_max_probes = 1, failure_codes = default_failure_codes,
      cb_enabled = True\<rparr>"

definition client_config :: breaker_config where
  "client_config =
     \<lparr>window_duration = secs 60, min_samples = 5, error_rate_threshold = F64 (1 / 2),
      open_duration = secs 60, half_open_max_probes = 1, failure_codes = {401},
      cb_enabled = True\<rparr>"

definition is_failure_status :: "breaker_config \<Rightarrow> nat \<Rightarrow> bool" where
  "is_failure_status c status \<longleftrightarrow> status \<in> failure_codes c"

text \<open>\<open>FromStr\<close> of \<open>bool\<close>.\<close>

definition parse_bool :: "str \<Rightarrow> bool option" where
  "parse_bool s =
     (if s = lit ''true'' then Some True else if s = lit ''false'' then Some False else None)"

definition parse_failure_codes :: "str \<Rightarrow> nat set" where
  "parse_failure_codes s = set (List.map_filter (\<lambda>c. parse_uint 16 (trim c)) (split_char 44 s))"

definition lookup_or :: "(str \<Rightarrow> 'a option) \<Rightarrow> (str \<Rightarrow> str option) \<Rightarrow> str \<Rightarrow> 'a \<Rightarrow> 'a" where
  "lookup_or parse get key dflt =
     (case get key of Some v \<Rightarrow> (case parse v of Some x \<Rightarrow> x | None \<Rightarrow> dflt) | None \<Rightarrow> dflt)"

text \<open>The parser of doubles, \<open>parse_f64\<close>, is an argument.\<close>

definition from_lookup_with_prefix ::
  "(str \<Rightarrow> f64 option) \<Rightarrow> str \<Rightarrow> (str \<Rightarrow> str option) \<Rightarrow> breaker_config" where
  "from_lookup_with_prefix parse_f64 prefix get =
     (let key = (\<lambda>k. prefix @ lit k) in
      \<lparr>window_duration = secs (lookup_or (parse_uint 64) get (key ''WINDOW_SECS'') 60),
       min_samples = lookup_or (parse_uint 64) get (key ''MIN_SAMPLES'') 10,
       error_rate_threshold = lookup_or parse_f64 get (key ''ERROR_RATE_THRESHOLD'') (F64 (1 / 2)),
       open_duration = secs (lookup_or (parse_uint 64) get (key ''OPEN_DURATION_SECS'') 10),
       half_open_max_probes = max (lookup_or (parse_uint 64) get (key ''HALF_OPEN_MAX_PROBES'') 1) 1,
       failure_codes = (case get (key ''FAILURE_CODES'') of
           Some raw \<Rightarrow> (let codes = parse_failure_codes raw
                        in if codes = {} then default_failure_codes else codes)
         | None \<Rightarrow> default_failure_codes),
       cb_enabled = lookup_or parse_bool get (key ''ENABLED'') True\<rparr>)"

section \<open>Retry policy\<close>

datatype retry_disposition = Retryable | AuthRefresh | Terminal

record retry_policy =
  rp_retryable :: "nat list"
  rp_auth_refresh :: "nat list"
  rp_terminal :: "nat list"
  rp_default :: retry_disposition

definition classify :: "retry_policy \<Rightarrow> nat \<Rightarrow> retry_disposition option" where
  "classify p status =
     (if 200 \<le> status \<and> status < 300 then None
      else if status \<in> set (rp_auth_refresh p) then Some AuthRefresh
      else if status \<in> set (rp_terminal p) then Some Terminal
      else if status \<in> set (rp_retryable p) \<or> (500 \<le> status \<and> status < 600) then Some Retryable
      else Some (rp_default p))"

definition should_retry :: "retry_policy \<Rightarrow> nat \<Rightarrow> bool" where
  "should_retry p status \<longleftrightarrow> classify p status = Some Retryable"

definition server_policy :: retry_policy where
  "server_policy =
     \<lparr>rp_retryable = [429], rp_auth_refresh = [], rp_terminal = [], rp_default = Terminal\<rparr>"

definition client_storage_policy :: retry_policy where
  "client_storage_policy =
     \<lparr>rp_retryable = [], rp_auth_refresh = [401], rp_terminal = [400, 403, 404],
      rp_default = Retryable\<rparr>"

section \<open>The breaker\<close>

datatype breaker_state = Closed | Open | HalfOpen
datatype outcome = Success | Failure
datatype check_result = CheckOk | BreakerOpen (retry_after: nanos)

datatype observed =
    StateChange breaker_state breaker_state string
  | ProbeAdmission bool
  | OutcomeSeen outcome breaker_state

record breaker =
  b_config :: breaker_config
  b_state :: breaker_state
  b_baseline :: nanos
  b_opened_at :: nat
  b_probes :: "64 word"
  b_claimed_at :: nat
  b_is_open_fast :: bool
  b_window :: sliding_window
  b_events :: "observed list"

definition breaker_new :: "breaker_config \<Rightarrow> nanos \<Rightarrow> breaker" where
  "breaker_new c now =
     \<lparr>b_config = c\<lparr>half_open_max_probes := max (half_open_max_probes c) 1\<rparr>, b_state = Closed,
      b_baseline = now, b_opened_at = 0, b_probes = 0, b_claimed_at = 0, b_is_open_fast = False,
      b_window = window_new, b_events = []\<rparr>"

definition observe :: "observed \<Rightarrow> breaker \<Rightarrow> breaker" where
  "observe e b = b\<lparr>b_events := b_events b @ [e]\<rparr>"

definition state_changed :: "breaker_state \<Rightarrow> breaker_state \<Rightarrow> string \<Rightarrow> breaker \<Rightarrow> breaker" where
  "state_changed prev new reason b = (if prev \<noteq> new then observe (StateChange prev new reason) b else b)"

definition millis :: "nat \<Rightarrow> nanos" where "millis n = n * 1000000"

text \<open>\<open>Duration::as_millis() as u64\<close>\<close>

definition as_millis :: "nanos \<Rightarrow> nat" where "as_millis d = (d div 1000000) mod 2 ^ 64"

definition elapsed_millis :: "nanos \<Rightarrow> breaker \<Rightarrow> nat" where
  "elapsed_millis now b = as_millis (now - b_baseline b)"

definition HALF_OPEN_PROBE_BACKOFF :: nanos where "HALF_OPEN_PROBE_BACKOFF = millis 50"

definition max_probes :: "breaker \<Rightarrow> nat" where "max_probes b = half_open_max_probes (b_config b)"

definition try_half_open_probe :: "nanos \<Rightarrow> breaker \<Rightarrow> check_result \<times> breaker" where
  "try_half_open_probe now b =
     (let ms = elapsed_millis now b; prev = b_probes b; b1 = b\<lparr>b_probes := prev + 1\<rparr> in
      if unat prev < max_probes b
      then (CheckOk, observe (ProbeAdmission True) (b1\<lparr>b_claimed_at := ms\<rparr>))
      else let b2 = b1\<lparr>b_probes := b_probes b1 - 1\<rparr>; claimed = b_claimed_at b2 in
        if ms - claimed \<ge> as_millis (open_duration (b_config b))
        then (CheckOk, observe (ProbeAdmission True) (b2\<lparr>b_claimed_at := ms\<rparr>))
        else (BreakerOpen (min HALF_OPEN_PROBE_BACKOFF (open_duration (b_config b))),
              observe (ProbeAdmission False) b2))"

definition check_open :: "nanos \<Rightarrow> breaker \<Rightarrow> check_result \<times> breaker" where
  "check_open now b =
     (let elapsed = millis (elapsed_millis now b - b_opened_at b) in
      if elapsed \<ge> open_duration (b_config b)
      then try_half_open_probe now
             (state_changed Open HalfOpen ''open_elapsed''
                (b\<lparr>b_state := HalfOpen, b_is_open_fast := False\<rparr>))
      else (BreakerOpen (open_duration (b_config b) - elapsed), b))"

definition check :: "nanos \<Rightarrow> breaker \<Rightarrow> check_result \<times> breaker" where
  "check now b =
     (if \<not> cb_enabled (b_config b) then (CheckOk, b)
      else case b_state b of
        Closed \<Rightarrow> (CheckOk, b)
      | Open \<Rightarrow> check_open now b
      | HalfOpen \<Rightarrow> try_half_open_probe now b)"

definition trip :: "nanos \<Rightarrow> breaker_state \<Rightarrow> string \<Rightarrow> breaker \<Rightarrow> breaker" where
  "trip now prev reason b =
     state_changed prev Open reason
       (b\<lparr>b_state := Open, b_opened_at := elapsed_millis now b, b_probes := 0, b_is_open_fast := True\<rparr>)"

definition close :: "breaker_state \<Rightarrow> string \<Rightarrow> breaker \<Rightarrow> breaker" where
  "close prev reason b =
     state_changed prev Closed reason
       (b\<lparr>b_state := Closed, b_window := window_clear (b_window b), b_probes := 0,
          b_is_open_fast := False\<rparr>)"

definition record_sample :: "bool \<Rightarrow> nanos \<Rightarrow> breaker \<Rightarrow> breaker option" where
  "record_sample is_failure now b =
     map_option (\<lambda>w. b\<lparr>b_window := w\<rparr>)
       (Option.bind (window_push is_failure now (b_window b))
          (window_evict (window_duration (b_config b)) now))"

definition should_trip :: "breaker \<Rightarrow> bool" where
  "should_trip b \<longleftrightarrow> sample_count (b_window b) \<ge> min_samples (b_config b) \<and>
     f64_ge (window_error_rate (b_window b)) (error_rate_threshold (b_config b))"

definition record_transition :: "outcome \<Rightarrow> nanos \<Rightarrow> breaker \<Rightarrow> breaker option" where
  "record_transition out now b =
     (case b_state b of
        Closed \<Rightarrow> map_option (\<lambda>b1. if should_trip b1 then trip now Closed ''trip'' b1 else b1)
          (record_sample (out = Failure) now b)
      | HalfOpen \<Rightarrow> Some (if out = Failure then trip now HalfOpen ''probe_failure'' b
                          else close HalfOpen ''probe_success'' b)
      | Open \<Rightarrow> record_sample (out = Failure) now b)"

definition record_outcome :: "outcome \<Rightarrow> nanos \<Rightarrow> breaker \<Rightarrow> breaker option" where
  "record_outcome out now b =
     (if \<not> cb_enabled (b_config b) then Some b
      else map_option (\<lambda>b1. observe (OutcomeSeen out (b_state b1)) b1) (record_transition out now b))"

definition error_rate :: "nanos \<Rightarrow> breaker \<Rightarrow> (f64 \<times> breaker) option" where
  "error_rate now b =
     map_option (\<lambda>w. (window_error_rate w, b\<lparr>b_window := w\<rparr>))
       (window_evict (window_duration (b_config b)) now (b_window b))"

section \<open>Registry\<close>

text \<open>An \<open>Arc\<close> is the index of the breaker in the order of creation.\<close>

record breaker_registry =
  reg_config :: breaker_config
  reg_breakers :: "(str, nat) hmap"
  reg_heap :: "breaker list"

definition registry_new :: "breaker_config \<Rightarrow> breaker_registry" where
  "registry_new c = \<lparr>reg_config = c, reg_breakers = [], reg_heap = []\<rparr>"

definition registry_get :: "nanos \<Rightarrow> str \<Rightarrow> breaker_registry \<Rightarrow> nat option \<times> breaker_registry" where
  "registry_get now key r =
     (if \<not> cb_enabled (reg_config r) then (None, r)
      else case hm_get (reg_breakers r) key of
        Some a \<Rightarrow> (Some a, r)
      | None \<Rightarrow> (let a = length (reg_heap r) in
          (Some a, r\<lparr>reg_heap := reg_heap r @ [breaker_new (reg_config r) now],
                     reg_breakers := hm_insert key a (reg_breakers r)\<rparr>)))"

section \<open>The invariant of a breaker used by one thread at a time\<close>

definition breaker_inv :: "breaker \<Rightarrow> bool" where
  "breaker_inv b \<longleftrightarrow> window_ok (b_window b) \<and> 1 \<le> max_probes b \<and> max_probes b < 2 ^ 64 \<and>
     unat (b_probes b) \<le> max_probes b \<and>
     (b_state b \<noteq> HalfOpen \<longrightarrow> b_probes b = 0) \<and> (b_is_open_fast b \<longleftrightarrow> b_state b = Open)"

lemmas breaker_simps = observe_def state_changed_def max_probes_def

lemma unat_inc: "unat (p :: 64 word) < n \<Longrightarrow> n < 2 ^ 64 \<Longrightarrow> unat (p + 1) = unat p + 1"
  by (subst unat_add_lem [THEN iffD1]) simp_all

lemma try_half_open_probe_inv:
  assumes "breaker_inv b" "b_state b = HalfOpen"
  shows "breaker_inv (snd (try_half_open_probe now b))"
  using assms unat_inc [of "b_probes b" "max_probes b"]
  by (auto simp: try_half_open_probe_def Let_def breaker_inv_def breaker_simps)

lemma check_inv: "breaker_inv b \<Longrightarrow> breaker_inv (snd (check now b))"
proof -
  assume inv: "breaker_inv b"
  then have "breaker_inv (state_changed Open HalfOpen r (b\<lparr>b_state := HalfOpen, b_is_open_fast := False\<rparr>))" for r
    by (simp add: breaker_inv_def breaker_simps)
  then show ?thesis
    using inv try_half_open_probe_inv
    by (auto simp: check_def check_open_def Let_def state_changed_def observe_def split: breaker_state.split)
qed

lemma record_sample_ok:
  assumes "window_ok (b_window b)"
  shows "\<exists>w. record_sample f now b = Some (b\<lparr>b_window := w\<rparr>) \<and> window_ok w \<and>
    entries w = in_window (window_duration (b_config b)) now
      (keep_last MAX_WINDOW_ENTRIES (entries (b_window b) @ [(now, f)]))"
  using win.push_evict [OF assms, of f now "window_duration (b_config b)" now]
  by (auto simp: record_sample_def)

lemma trip_inv: "breaker_inv b \<Longrightarrow> breaker_inv (trip now prev r b)"
  by (simp add: trip_def breaker_inv_def breaker_simps)

lemma close_inv: "breaker_inv b \<Longrightarrow> breaker_inv (close prev r b)"
  using win.clear_law by (simp add: close_def breaker_inv_def breaker_simps)

lemma record_outcome_inv:
  assumes "breaker_inv b"
  shows "\<exists>b'. record_outcome out now b = Some b' \<and> breaker_inv b'"
proof (cases "cb_enabled (b_config b)")
  case True
  obtain w where w: "record_sample (out = Failure) now b = Some (b\<lparr>b_window := w\<rparr>)" "window_ok w"
    using record_sample_ok [of b] assms by (auto simp: breaker_inv_def)
  then have bw: "breaker_inv (b\<lparr>b_window := w\<rparr>)"
    using assms by (simp add: breaker_inv_def max_probes_def)
  have "\<exists>b1. record_transition out now b = Some b1 \<and> breaker_inv b1"
    using assms bw w(1) trip_inv close_inv by (cases "b_state b") (simp_all add: record_transition_def)
  then show ?thesis
    by (auto simp: record_outcome_def True observe_def breaker_inv_def max_probes_def)
qed (simp add: record_outcome_def assms)

text \<open>One thread using a breaker: any sequence of calls at any clock readings.\<close>

inductive breaker_step :: "breaker \<Rightarrow> breaker \<Rightarrow> bool" where
  step_check: "check now b = (r, b') \<Longrightarrow> breaker_step b b'"
| step_record: "record_outcome out now b = Some b' \<Longrightarrow> breaker_step b b'"
| step_error_rate: "error_rate now b = Some (r, b') \<Longrightarrow> breaker_step b b'"

inductive_cases breaker_stepE: "breaker_step b b'"

definition breaker_init :: "breaker_config \<Rightarrow> breaker \<Rightarrow> bool" where
  "breaker_init c b \<longleftrightarrow> half_open_max_probes c < 2 ^ 64 \<and> (\<exists>now. b = breaker_new c now)"

lemma breaker_step_inv: "breaker_inv b \<Longrightarrow> breaker_step b b' \<Longrightarrow> breaker_inv b'"
proof (erule breaker_stepE)
  fix now r assume "breaker_inv b" "check now b = (r, b')"
  then show "breaker_inv b'" using check_inv [of b now] by simp
next
  fix out now assume "breaker_inv b" "record_outcome out now b = Some b'"
  then show "breaker_inv b'" using record_outcome_inv [of b out now] by auto
next
  fix now r assume "breaker_inv b" "error_rate now b = Some (r, b')"
  then show "breaker_inv b'"
    using win.evict_law [of "b_window b" "window_duration (b_config b)" now]
    by (auto simp: error_rate_def breaker_inv_def max_probes_def)
qed

lemma breaker_init_inv: "breaker_init c b \<Longrightarrow> breaker_inv b"
  by (auto simp: breaker_init_def breaker_new_def breaker_inv_def max_probes_def window_new_def
      window_ok_def count_failures_def)

interpretation brk: inductive_invariant "breaker_init c" breaker_step breaker_inv
  by unfold_locales (rule breaker_init_inv, assumption, rule breaker_step_inv)

abbreviation breaker_reach :: "breaker_config \<Rightarrow> breaker \<Rightarrow> bool" where
  "breaker_reach c \<equiv> reach (breaker_init c) breaker_step"

lemma new_reach: "half_open_max_probes c < 2 ^ 64 \<Longrightarrow> breaker_reach c (breaker_new c now)"
  by (intro reach_init) (auto simp: breaker_init_def)

text \<open>
  C31. For a breaker used by one thread at a time, from construction on: no call panics, the
  lock-free mirror \<open>is_open\<close> agrees with the state, at most \<open>half_open_max_probes\<close> probe slots are
  taken and none outside the half-open state, and the window's cached failure count is exact.
\<close>

theorem breaker_invariant:
  assumes "breaker_reach c b"
  shows "(b_is_open_fast b \<longleftrightarrow> b_state b = Open) \<and>
    unat (b_probes b) \<le> half_open_max_probes (b_config b) \<and>
    (b_state b = HalfOpen \<or> b_probes b = 0) \<and>
    failures (b_window b) = count_failures (entries (b_window b)) \<and>
    length (entries (b_window b)) \<le> 10000 \<and>
    (\<exists>b'. record_outcome out now b = Some b') \<and> (\<exists>r. error_rate now b = Some r)"
proof -
  have inv: "breaker_inv b" by (rule brk.reach_inv [OF assms])
  then have "window_ok (b_window b)" by (simp add: breaker_inv_def)
  from win.evict_law [OF this, of "window_duration (b_config b)" now]
  have "\<exists>r. error_rate now b = Some r" by (auto simp: error_rate_def)
  moreover have "\<exists>b'. record_outcome out now b = Some b'"
    using record_outcome_inv [OF inv] by blast
  ultimately show ?thesis
    using inv by (auto simp: breaker_inv_def window_ok_def max_probes_def MAX_WINDOW_ENTRIES_def)
qed

lemma server_reach: "breaker_reach server_config (breaker_new server_config 0)"
  by (rule new_reach) (simp add: server_config_def)

theorem breaker_invariant_witness:
  "\<exists>b'. record_outcome Failure 7 (breaker_new server_config 0) = Some b'"
  using breaker_invariant [OF server_reach, of Failure 7] by blast

text \<open>
  With the presets' threshold of one half, an enabled closed breaker opens on an outcome exactly
  when, among the last 10000 outcomes that are not older than the window, this one included, there
  are at least \<open>min_samples\<close> and at least half are failures; otherwise it stays closed.
\<close>

theorem closed_trips_iff:
  assumes "breaker_reach c b" and "cb_enabled (b_config b)" and "b_state b = Closed"
    and "error_rate_threshold (b_config b) = F64 (1 / 2)"
  shows "\<exists>b'. record_outcome out now b = Some b' \<and>
    (let es = in_window (window_duration (b_config b)) now
                (keep_last 10000 (entries (b_window b) @ [(now, out = Failure)]))
     in b_state b' = (if min_samples (b_config b) \<le> length es \<and> es \<noteq> [] \<and>
                         length es \<le> 2 * length (filter snd es) then Open else Closed))"
proof -
  have inv: "breaker_inv b" by (rule brk.reach_inv [OF assms(1)])
  let ?es = "in_window (window_duration (b_config b)) now
    (keep_last MAX_WINDOW_ENTRIES (entries (b_window b) @ [(now, out = Failure)]))"
  obtain w where w: "record_sample (out = Failure) now b = Some (b\<lparr>b_window := w\<rparr>)" "window_ok w"
    "entries w = ?es"
    using record_sample_ok [of b] inv by (auto simp: breaker_inv_def)
  have "failures w = length (filter snd ?es)" "failures w \<le> length ?es" "length ?es \<le> 10000"
    using w(2,3) by (simp_all add: window_ok_def count_failures_def MAX_WINDOW_ENTRIES_def)
  then have "should_trip (b\<lparr>b_window := w\<rparr>) \<longleftrightarrow> min_samples (b_config b) \<le> length ?es \<and> ?es \<noteq> [] \<and>
      length ?es \<le> 2 * length (filter snd ?es)"
    using f64_ratio_half [of "length ?es" "failures w"]
    by (auto simp: should_trip_def sample_count_def window_error_rate_def w(3) assms(4))
  then show ?thesis
    using assms(2,3) w(1)
    by (simp add: record_outcome_def record_transition_def trip_def breaker_simps
        MAX_WINDOW_ENTRIES_def)
qed

theorem closed_trips_iff_witness:
  "\<exists>b'. record_outcome Failure 7 (breaker_new (server_config\<lparr>min_samples := 1\<rparr>) 0) = Some b' \<and> b_state b' = Open"
proof -
  let ?c = "server_config\<lparr>min_samples := 1\<rparr>"
  have "breaker_reach ?c (breaker_new ?c 0)"
    by (rule new_reach) (simp add: server_config_def)
  from closed_trips_iff [OF this, of Failure 7] show ?thesis
    by (simp add: breaker_new_def server_config_def window_new_def in_window_def keep_last_def secs_def)
qed

text \<open>
  C32. The breaker never sheds traffic for ever: whatever was recorded or lost before, an enabled
  breaker admits a call once the cool-down has passed, in whole milliseconds, since it last opened
  and since the last probe was claimed.
\<close>

theorem breaker_recovers:
  assumes "breaker_reach c b"
    and "open_duration (b_config b) \<le> millis (elapsed_millis now b - max (b_opened_at b) (b_claimed_at b))"
  shows "fst (check now b) = CheckOk"
proof -
  have inv: "breaker_inv b" by (rule brk.reach_inv [OF assms(1)])
  let ?ms = "elapsed_millis now b"
  have op: "open_duration (b_config b) \<le> millis (?ms - b_opened_at b)"
    using assms(2) by (auto simp: millis_def elim: order_trans)
  have "as_millis (open_duration (b_config b)) \<le> open_duration (b_config b) div 1000000"
    by (simp add: as_millis_def)
  also have "\<dots> \<le> ?ms - max (b_opened_at b) (b_claimed_at b)"
    using div_le_mono [OF assms(2), of 1000000] by (simp add: millis_def)
  also have "\<dots> \<le> ?ms - b_claimed_at b" by (rule diff_le_mono2) simp
  finally have cl: "as_millis (open_duration (b_config b)) \<le> ?ms - b_claimed_at b" .
  show ?thesis
    using inv op cl
    by (auto simp: check_def check_open_def try_half_open_probe_def Let_def breaker_inv_def
        breaker_simps elapsed_millis_def split: breaker_state.split)
qed

theorem breaker_recovers_witness:
  "fst (check (secs 20) (breaker_new server_config 0)) = CheckOk"
proof -
  have "open_duration (b_config (breaker_new server_config 0)) \<le>
      millis (elapsed_millis (secs 20) (breaker_new server_config 0) -
        max (b_opened_at (breaker_new server_config 0)) (b_claimed_at (breaker_new server_config 0)))"
    by (simp add: breaker_new_def server_config_def elapsed_millis_def as_millis_def secs_def millis_def)
  from breaker_recovers [OF server_reach this] show ?thesis .
qed

text \<open>
  A refusal is honest: the advertised wait is at most the cool-down, and when an open breaker
  with a cool-down of whole milliseconds refuses a call, on a clock that has not run backwards since
  it opened, a call after exactly that wait is admitted.
\<close>

theorem retry_after_honest:
  assumes "breaker_reach c b" and "b_state b = Open" and "check now b = (BreakerOpen d, b')"
    and "1000000 dvd open_duration (b_config b)" and "b_baseline b \<le> now"
    and "b_opened_at b \<le> elapsed_millis now b"
    and "now + d - b_baseline b < 2 ^ 64 * 1000000"
  shows "d \<le> open_duration (b_config b) \<and> b' = b \<and> fst (check (now + d) b) = CheckOk"
proof -
  have inv: "breaker_inv b" by (rule brk.reach_inv [OF assms(1)])
  let ?D = "open_duration (b_config b)" and ?ms = "elapsed_millis now b"
  have en: "cb_enabled (b_config b)" using assms(3) by (auto simp: check_def split: if_splits)
  have adm: "fst (try_half_open_probe n (state_changed Open HalfOpen r
      (b\<lparr>b_state := HalfOpen, b_is_open_fast := False\<rparr>))) = CheckOk" for n r
    using inv assms(2) by (auto simp: try_half_open_probe_def Let_def breaker_inv_def breaker_simps)
  have nlt: "\<not> ?D \<le> millis (?ms - b_opened_at b)"
    using assms(2,3) en adm [of now "''open_elapsed''"] by (auto simp: check_def check_open_def Let_def)
  then have d: "d = ?D - millis (?ms - b_opened_at b)" and b': "b' = b"
    using assms(2,3) en by (auto simp: check_def check_open_def Let_def)
  obtain q where q: "?D = q * 1000000" using assms(4) by (metis dvd_def mult.commute)
  have ms: "?ms = (now - b_baseline b) div 1000000"
    using assms(5,7) by (simp add: elapsed_millis_def as_millis_def less_mult_imp_div_less)
  have "d = (q - (?ms - b_opened_at b)) * 1000000"
    using d q by (simp add: millis_def diff_mult_distrib)
  then have "(now + d - b_baseline b) div 1000000 = (now - b_baseline b) div 1000000 + (q - (?ms - b_opened_at b))"
    using div_mult_self1 [of 1000000 "now - b_baseline b" "q - (?ms - b_opened_at b)"] assms(5)
    by (simp add: mult.commute)
  then have "elapsed_millis (now + d) b = ?ms + (q - (?ms - b_opened_at b))"
    using less_mult_imp_div_less [OF assms(7)] ms
    unfolding elapsed_millis_def as_millis_def by (metis mod_less)
  then have "?D \<le> millis (elapsed_millis (now + d) b - b_opened_at b)"
    using q assms(6) by (simp add: millis_def)
  then have "fst (check (now + d) b) = CheckOk"
    using en assms(2) adm by (simp add: check_def check_open_def Let_def)
  then show ?thesis using d b' by simp
qed

text \<open>A breaker that tripped on its first outcome.\<close>

definition ex_config :: breaker_config where "ex_config = server_config\<lparr>min_samples := 1\<rparr>"

definition ex_tripped :: breaker where
  "ex_tripped = the (record_outcome Failure 0 (breaker_new ex_config 0))"

lemma ex_tripped_some: "record_outcome Failure 0 (breaker_new ex_config 0) = Some ex_tripped"
  and ex_tripped_facts: "b_state ex_tripped = Open" "b_opened_at ex_tripped = 0" "b_baseline ex_tripped = 0"
    "b_config ex_tripped = ex_config"
  by (simp_all add: ex_tripped_def record_outcome_def breaker_new_def ex_config_def server_config_def
      record_transition_def record_sample_def window_push_def window_evict_def window_new_def
      MAX_WINDOW_ENTRIES_def secs_def should_trip_def sample_count_def window_error_rate_def
      f64_ratio_def f64_exp.simps round_half_even_def Let_def trip_def breaker_simps elapsed_millis_def
      as_millis_def)

lemma ex_tripped_reach: "breaker_reach ex_config ex_tripped"
proof (rule reach_step)
  show "breaker_reach ex_config (breaker_new ex_config 0)"
    by (rule new_reach) (simp add: ex_config_def server_config_def)
  show "breaker_step (breaker_new ex_config 0) ex_tripped"
    by (rule step_record [OF ex_tripped_some])
qed

theorem retry_after_honest_witness:
  "check (secs 1) ex_tripped = (BreakerOpen (secs 9), ex_tripped) \<and>
   fst (check (secs 1 + secs 9) ex_tripped) = CheckOk"
proof -
  have c: "check (secs 1) ex_tripped = (BreakerOpen (secs 9), ex_tripped)"
    by (simp add: check_def check_open_def ex_tripped_facts ex_config_def server_config_def Let_def
        elapsed_millis_def as_millis_def millis_def secs_def)
  have "1000000 dvd open_duration (b_config ex_tripped)"
    by (simp add: ex_tripped_facts ex_config_def server_config_def secs_def)
  moreover have "b_baseline ex_tripped \<le> secs 1" "b_opened_at ex_tripped \<le> elapsed_millis (secs 1) ex_tripped"
    "secs 1 + secs 9 - b_baseline ex_tripped < 2 ^ 64 * 1000000"
    by (simp_all add: ex_tripped_facts secs_def)
  ultimately show ?thesis
    using retry_after_honest [OF ex_tripped_reach ex_tripped_facts(1) c] c by blast
qed

section \<open>Policies, configuration and registry\<close>

text \<open>
  The two retry policies: a server response is retried exactly for 429 and the 5xx codes; a
  storage client drops 400, 403 and 404, refreshes credentials on 401 and retries every other
  code that is not a success; a 2xx code is never an error under any policy.
\<close>

theorem retry_policies:
  "(should_retry server_policy status \<longleftrightarrow> status = 429 \<or> (500 \<le> status \<and> status < 600)) \<and>
   (should_retry client_storage_policy status \<longleftrightarrow>
      \<not> (200 \<le> status \<and> status < 300) \<and> status \<notin> {400, 401, 403, 404}) \<and>
   (classify client_storage_policy status = Some AuthRefresh \<longleftrightarrow> status = 401) \<and>
   (classify client_storage_policy status = Some Terminal \<longleftrightarrow> status \<in> {400, 403, 404}) \<and>
   (classify p status = None \<longleftrightarrow> 200 \<le> status \<and> status < 300)"
  by (auto simp: should_retry_def classify_def server_policy_def client_storage_policy_def)

definition registry_ok :: "breaker_registry \<Rightarrow> bool" where
  "registry_ok r \<longleftrightarrow> inj_on (hm_get (reg_breakers r)) (hm_keys (reg_breakers r)) \<and>
     (\<forall>k a. hm_get (reg_breakers r) k = Some a \<longrightarrow> a < length (reg_heap r))"

text \<open>A sequence of lookups.\<close>

fun registry_gets :: "(nanos \<times> str) list \<Rightarrow> breaker_registry \<Rightarrow> breaker_registry" where
  "registry_gets [] r = r"
| "registry_gets ((now, k) # ks) r = registry_gets ks (snd (registry_get now k r))"

lemma registry_get_ok: "registry_ok r \<Longrightarrow> registry_ok (snd (registry_get now k r))"
  by (fastforce simp: registry_get_def registry_ok_def Let_def hm_get_insert hm_keys_insert inj_on_def
      hm_keys_dom split: option.split if_splits)

lemma registry_get_keeps:
  "hm_get (reg_breakers r) k = Some a \<Longrightarrow> hm_get (reg_breakers (snd (registry_get now k' r))) k = Some a"
  "reg_config (snd (registry_get now k' r)) = reg_config r"
  by (auto simp: registry_get_def Let_def hm_get_insert split: option.split)

lemma registry_gets_props:
  "reg_config (registry_gets ks r) = reg_config r"
  "registry_ok r \<Longrightarrow> registry_ok (registry_gets ks r)"
  "hm_get (reg_breakers r) k = Some a \<Longrightarrow> hm_get (reg_breakers (registry_gets ks r)) k = Some a"
  by (induction ks r rule: registry_gets.induct) (simp_all add: registry_get_ok registry_get_keeps)

lemma registry_get_Some:
  assumes "cb_enabled (reg_config r)"
  obtains a where "fst (registry_get now k r) = Some a"
    "hm_get (reg_breakers (snd (registry_get now k r))) k = Some a"
  using assms by (cases "hm_get (reg_breakers r) k") (simp_all add: registry_get_def Let_def hm_get_insert)

text \<open>
  The registry hands out one breaker per key: a second lookup of a key, after any sequence of
  other lookups, returns the same breaker, and a lookup of another key returns another one; a
  disabled registry hands out none and stays as it is.
\<close>

theorem registry_one_breaker_per_key:
  "(let r = registry_gets ks (registry_new c); (a, r1) = registry_get now k r; r2 = registry_gets ks' r1 in
    if cb_enabled c
    then a \<noteq> None \<and> (fst (registry_get now' k' r2) = a \<longleftrightarrow> k' = k)
    else a = None \<and> r1 = r)"
proof -
  define r where "r = registry_gets ks (registry_new c)"
  define r1 where "r1 = snd (registry_get now k r)"
  define r2 where "r2 = registry_gets ks' r1"
  have cfg: "reg_config r = c" "reg_config r2 = c"
    by (simp_all add: r_def r2_def r1_def registry_gets_props registry_get_keeps registry_new_def)
  have ok: "registry_ok r2"
    unfolding r2_def r1_def r_def
    by (intro registry_gets_props registry_get_ok) (simp add: registry_ok_def registry_new_def)
  show ?thesis
  proof (cases "cb_enabled c")
    case True
    obtain a where a: "fst (registry_get now k r) = Some a" "hm_get (reg_breakers r1) k = Some a"
      using registry_get_Some [of r now k] True cfg by (auto simp: r1_def)
    then have a2: "hm_get (reg_breakers r2) k = Some a"
      by (simp add: r2_def registry_gets_props)
    have "fst (registry_get now' k' r2) \<noteq> Some a" if "k' \<noteq> k"
      using ok a2 that True cfg
      by (auto simp: registry_get_def registry_ok_def Let_def inj_on_def hm_keys_dom split: option.splits)
         (metis domI)+
    moreover have "fst (registry_get now' k r2) = Some a"
      using a2 True cfg by (simp add: registry_get_def)
    moreover have "registry_get now k r = (Some a, r1)"
      using a(1) by (simp add: r1_def prod_eq_iff)
    ultimately show ?thesis
      unfolding r_def [symmetric] Let_def using True by (auto simp: r2_def [symmetric])
  qed (use cfg in \<open>simp add: Let_def r_def [symmetric] registry_get_def\<close>)
qed

text \<open>
  Environment configuration is total and safe: whatever the variables hold, at least one probe
  slot exists, the failure codes are never empty and are 16-bit numbers, and without any variable
  the result is the server preset.
\<close>

theorem from_lookup_safe:
  "(let cfg = from_lookup_with_prefix parse_f64 prefix get in
    1 \<le> half_open_max_probes cfg \<and> failure_codes cfg \<noteq> {} \<and> failure_codes cfg \<subseteq> {..<2 ^ 16}) \<and>
   from_lookup_with_prefix parse_f64 prefix (\<lambda>_. None) = server_config"
proof -
  have "parse_failure_codes raw \<subseteq> {..<2 ^ 16}" for raw
    using parse_uint_bound [of 16] by (auto simp: parse_failure_codes_def set_map_filter)
  then show ?thesis
    by (auto simp: from_lookup_with_prefix_def Let_def default_failure_codes_def server_config_def
        lookup_or_def split: option.split)
qed

end
