(* ===== verification/Breaker_Threads.thy ===== *)
theory Breaker_Threads
  imports Breaker
begin

text \<open>
  The circuit breaker shared by threads (\<open>breaker.rs\<close>): every operation as the sequence of its atomic
  accesses.  A program counter names the next access with the local values the thread holds;
  \<open>thread_step\<close> performs it at a clock reading.  The window's mutex makes its critical section one
  step.  The orderings of the atomics are taken as sequentially consistent.
\<close>

section \<open>Program counters\<close>

datatype pc =
    Idle
  | CheckState
  | OpenLoad | OpenNow nat | OpenCas | OpenMirror | OpenLost | OpenReload | OpenRenow nat
  | ProbeNow | ProbeAdd nat | ProbeStore nat | ProbeSub nat | ProbeLoad nat | ProbeCas nat nat
  | RecordNow outcome | RecordState outcome nanos | RecordWindow outcome nanos bool
  | TripState breaker_state string outcome | TripNow breaker_state string outcome
  | TripTime breaker_state string outcome nat | TripProbes breaker_state string outcome
  | TripMirror breaker_state string outcome
  | CloseState breaker_state string outcome | CloseWindow breaker_state string outcome
  | CloseProbes breaker_state string outcome | CloseMirror breaker_state string outcome
  | RecordDone outcome
  | Checked check_result | Recorded | Panicked

definition probe_rejected :: "breaker \<Rightarrow> check_result" where
  "probe_rejected b = BreakerOpen (min HALF_OPEN_PROBE_BACKOFF (open_duration (b_config b)))"

fun thread_step :: "nanos \<Rightarrow> pc \<times> breaker \<Rightarrow> pc \<times> breaker" where
  "thread_step now (CheckState, b) =
     ((case b_state b of Closed \<Rightarrow> Checked CheckOk | Open \<Rightarrow> OpenLoad | HalfOpen \<Rightarrow> ProbeNow), b)"
| "thread_step now (OpenLoad, b) = (OpenNow (b_opened_at b), b)"
| "thread_step now (OpenNow opened, b) =
     (let elapsed = millis (elapsed_millis now b - opened) in
      (if elapsed \<ge> open_duration (b_config b) then OpenCas
       else Checked (BreakerOpen (open_duration (b_config b) - elapsed)), b))"
| "thread_step now (OpenCas, b) =
     (if b_state b = Open then (OpenMirror, b\<lparr>b_state := HalfOpen\<rparr>) else (OpenLost, b))"
| "thread_step now (OpenMirror, b) =
     (ProbeNow, state_changed Open HalfOpen ''open_elapsed'' (b\<lparr>b_is_open_fast := False\<rparr>))"
| "thread_step now (OpenLost, b) =
     ((case b_state b of Closed \<Rightarrow> Checked CheckOk | HalfOpen \<Rightarrow> ProbeNow | Open \<Rightarrow> OpenReload), b)"
| "thread_step now (OpenReload, b) = (OpenRenow (b_opened_at b), b)"
| "thread_step now (OpenRenow opened, b) =
     (Checked (BreakerOpen (open_duration (b_config b) - millis (elapsed_millis now b - opened))), b)"
| "thread_step now (ProbeNow, b) = (ProbeAdd (elapsed_millis now b), b)"
| "thread_step now (ProbeAdd ms, b) =
     (if unat (b_probes b) < max_probes b then ProbeStore ms else ProbeSub ms,
      b\<lparr>b_probes := b_probes b + 1\<rparr>)"
| "thread_step now (ProbeStore ms, b) =
     (Checked CheckOk, observe (ProbeAdmission True) (b\<lparr>b_claimed_at := ms\<rparr>))"
| "thread_step now (ProbeSub ms, b) = (ProbeLoad ms, b\<lparr>b_probes := b_probes b - 1\<rparr>)"
| "thread_step now (ProbeLoad ms, b) =
     (if ms - b_claimed_at b \<ge> as_millis (open_duration (b_config b))
      then (ProbeCas ms (b_claimed_at b), b)
      else (Checked (probe_rejected b), observe (ProbeAdmission False) b))"
| "thread_step now (ProbeCas ms claimed, b) =
     (if b_claimed_at b = claimed
      then (Checked CheckOk, observe (ProbeAdmission True) (b\<lparr>b_claimed_at := ms\<rparr>))
      else (Checked (probe_rejected b), observe (ProbeAdmission False) b))"
| "thread_step now (RecordNow out, b) = (RecordState out now, b)"
| "thread_step now (RecordState out t, b) =
     ((case b_state b of
         Closed \<Rightarrow> RecordWindow out t True
       | Open \<Rightarrow> RecordWindow out t False
       | HalfOpen \<Rightarrow> if out = Failure then TripState HalfOpen ''probe_failure'' out
                     else CloseState HalfOpen ''probe_success'' out), b)"
| "thread_step now (RecordWindow out t was_closed, b) =
     (case record_sample (out = Failure) t b of
        None \<Rightarrow> (Panicked, b)
      | Some b1 \<Rightarrow> (if was_closed \<and> should_trip b1 then TripState Closed ''trip'' out else RecordDone out, b1))"
| "thread_step now (TripState prev r out, b) = (TripNow prev r out, b\<lparr>b_state := Open\<rparr>)"
| "thread_step now (TripNow prev r out, b) = (TripTime prev r out (elapsed_millis now b), b)"
| "thread_step now (TripTime prev r out ms, b) = (TripProbes prev r out, b\<lparr>b_opened_at := ms\<rparr>)"
| "thread_step now (TripProbes prev r out, b) = (TripMirror prev r out, b\<lparr>b_probes := 0\<rparr>)"
| "thread_step now (TripMirror prev r out, b) =
     (RecordDone out, state_changed prev Open r (b\<lparr>b_is_open_fast := True\<rparr>))"
| "thread_step now (CloseState prev r out, b) = (CloseWindow prev r out, b\<lparr>b_state := Closed\<rparr>)"
| "thread_step now (CloseWindow prev r out, b) =
     (CloseProbes prev r out, b\<lparr>b_window := window_clear (b_window b)\<rparr>)"
| "thread_step now (CloseProbes prev r out, b) = (CloseMirror prev r out, b\<lparr>b_probes := 0\<rparr>)"
| "thread_step now (CloseMirror prev r out, b) =
     (RecordDone out, state_changed prev Closed r (b\<lparr>b_is_open_fast := False\<rparr>))"
| "thread_step now (RecordDone out, b) = (Recorded, observe (OutcomeSeen out (b_state b)) b)"
| "thread_step now (Idle, b) = (Idle, b)"
| "thread_step now (Checked r, b) = (Checked r, b)"
| "thread_step now (Recorded, b) = (Recorded, b)"
| "thread_step now (Panicked, b) = (Panicked, b)"

fun at_rest :: "pc \<Rightarrow> bool" where
  "at_rest Idle = True"
| "at_rest (Checked r) = True"
| "at_rest Recorded = True"
| "at_rest pc = False"

section \<open>Threads\<close>

record system =
  sys_threads :: "pc list"
  sys_breaker :: breaker
  sys_clock :: nanos

datatype call = CallCheck | CallRecord outcome

fun entry :: "call \<Rightarrow> pc" where
  "entry CallCheck = CheckState"
| "entry (CallRecord out) = RecordNow out"

definition run_thread :: "nat \<Rightarrow> system \<Rightarrow> system" where
  "run_thread i s =
     (let (p, b) = thread_step (sys_clock s) (sys_threads s ! i, sys_breaker s)
      in s\<lparr>sys_threads := (sys_threads s)[i := p], sys_breaker := b\<rparr>)"

definition start_call :: "nat \<Rightarrow> call \<Rightarrow> system \<Rightarrow> system" where
  "start_call i c s = s\<lparr>sys_threads := (sys_threads s)[i := entry c]\<rparr>"

definition set_clock :: "nanos \<Rightarrow> system \<Rightarrow> system" where
  "set_clock t s = s\<lparr>sys_clock := t\<rparr>"

text \<open>The threads use an enabled breaker (a disabled one returns before any access).\<close>

inductive sys_step :: "system \<Rightarrow> system \<Rightarrow> bool" where
  sys_run: "i < length (sys_threads s) \<Longrightarrow> \<not> at_rest (sys_threads s ! i) \<Longrightarrow>
    sys_step s (run_thread i s)"
| sys_call: "i < length (sys_threads s) \<Longrightarrow> at_rest (sys_threads s ! i) \<Longrightarrow>
    cb_enabled (b_config (sys_breaker s)) \<Longrightarrow> sys_step s (start_call i c s)"
| sys_tick: "sys_clock s \<le> t \<Longrightarrow> sys_step s (set_clock t s)"

definition system_new :: "nat \<Rightarrow> breaker_config \<Rightarrow> nanos \<Rightarrow> system" where
  "system_new n c now =
     \<lparr>sys_threads = replicate n Idle, sys_breaker = breaker_new c now, sys_clock = now\<rparr>"

section \<open>Alone, the accesses of an operation add up to it\<close>

lemma probe_alone:
  "\<exists>n. (thread_step now ^^ n) (ProbeNow, b) =
     (Checked (fst (try_half_open_probe now b)), snd (try_half_open_probe now b))"
proof (cases "unat (b_probes b) < max_probes b")
  case True
  then show ?thesis
    by (intro exI [of _ 3])
      (simp add: eval_nat_numeral try_half_open_probe_def Let_def max_probes_def)
next
  case full: False
  show ?thesis
  proof (cases "as_millis (open_duration (b_config b)) \<le> elapsed_millis now b - b_claimed_at b")
    case True
    with full show ?thesis
      by (intro exI [of _ 5])
        (simp add: eval_nat_numeral try_half_open_probe_def Let_def max_probes_def)
  next
    case False
    with full show ?thesis
      by (intro exI [of _ 4])
        (simp add: eval_nat_numeral try_half_open_probe_def Let_def max_probes_def probe_rejected_def
          observe_def)
  qed
qed

lemma steps_add:
  "(thread_step now ^^ m) p = q \<Longrightarrow> \<exists>n. (thread_step now ^^ n) q = r \<Longrightarrow>
   \<exists>n. (thread_step now ^^ n) p = r"
  by (metis comp_apply funpow_add add.commute)

lemma check_alone:
  assumes "cb_enabled (b_config b)"
  shows "\<exists>n. (thread_step now ^^ n) (CheckState, b) = (Checked (fst (check now b)), snd (check now b))"
proof (cases "b_state b")
  case Closed
  then show ?thesis
    using assms by (intro exI [of _ 1]) (simp add: check_def)
next
  case HalfOpen
  then have "(thread_step now ^^ 1) (CheckState, b) = (ProbeNow, b)" by simp
  from steps_add [OF this probe_alone] HalfOpen assms show ?thesis by (simp add: check_def)
next
  case Open
  let ?h = "state_changed Open HalfOpen ''open_elapsed'' (b\<lparr>b_state := HalfOpen, b_is_open_fast := False\<rparr>)"
  show ?thesis
  proof (cases "open_duration (b_config b) \<le> millis (elapsed_millis now b - b_opened_at b)")
    case True
    with Open have "(thread_step now ^^ 5) (CheckState, b) = (ProbeNow, ?h)"
      by (simp add: eval_nat_numeral Let_def)
    from steps_add [OF this probe_alone] Open assms True show ?thesis
      by (simp add: check_def check_open_def Let_def)
  next
    case False
    with Open assms show ?thesis
      by (intro exI [of _ 3]) (simp add: eval_nat_numeral check_def check_open_def Let_def)
  qed
qed

lemma trip_alone:
  "\<exists>n. (thread_step now ^^ n) (TripState prev r out, b) =
     (Recorded, observe (OutcomeSeen out (b_state (trip now prev r b))) (trip now prev r b))"
  by (intro exI [of _ 6]) (simp add: eval_nat_numeral trip_def state_changed_def observe_def elapsed_millis_def)

lemma close_alone:
  "\<exists>n. (thread_step now ^^ n) (CloseState prev r out, b) =
     (Recorded, observe (OutcomeSeen out (b_state (close prev r b))) (close prev r b))"
  by (intro exI [of _ 5]) (simp add: eval_nat_numeral close_def state_changed_def observe_def)

lemma record_alone:
  assumes "cb_enabled (b_config b)" "record_outcome out now b = Some b'"
  shows "\<exists>n. (thread_step now ^^ n) (RecordNow out, b) = (Recorded, b')"
proof -
  obtain b1 where t: "record_transition out now b = Some b1"
    and b': "b' = observe (OutcomeSeen out (b_state b1)) b1"
    using assms by (auto simp: record_outcome_def)
  show ?thesis
  proof (cases "b_state b")
    case Closed
    then obtain b2 where b2: "record_sample (out = Failure) now b = Some b2"
      "b1 = (if should_trip b2 then trip now Closed ''trip'' b2 else b2)"
      using t by (auto simp: record_transition_def)
    show ?thesis
    proof (cases "should_trip b2")
      case True
      have "(thread_step now ^^ 3) (RecordNow out, b) = (TripState Closed ''trip'' out, b2)"
        using Closed b2(1) True by (simp add: eval_nat_numeral)
      from steps_add [OF this trip_alone] b2(2) b' True show ?thesis by simp
    next
      case False
      then show ?thesis
        using Closed b2 b' by (intro exI [of _ 4]) (simp add: eval_nat_numeral)
    qed
  next
    case Open
    then show ?thesis
      using t b' by (intro exI [of _ 4]) (simp add: eval_nat_numeral record_transition_def)
  next
    case HalfOpen
    show ?thesis
    proof (cases out)
      case Failure
      have "(thread_step now ^^ 2) (RecordNow out, b) = (TripState HalfOpen ''probe_failure'' out, b)"
        using HalfOpen Failure by (simp add: eval_nat_numeral)
      from steps_add [OF this trip_alone] t b' HalfOpen Failure show ?thesis
        by (simp add: record_transition_def)
    next
      case Success
      have "(thread_step now ^^ 2) (RecordNow out, b) = (CloseState HalfOpen ''probe_success'' out, b)"
        using HalfOpen Success by (simp add: eval_nat_numeral)
      from steps_add [OF this close_alone] t b' HalfOpen Success show ?thesis
        by (simp add: record_transition_def)
    qed
  qed
qed

text \<open>
  Without interference the atomic accesses of \<open>check\<close> and of \<open>record\<close> add up to the operations:
  a thread that runs alone on an enabled breaker, at one clock reading, ends each call with exactly
  the result and the breaker the whole operation gives.
\<close>

theorem operations_alone:
  assumes "breaker_reach c b" and "cb_enabled (b_config b)"
  shows "(\<exists>n. (thread_step now ^^ n) (entry CallCheck, b) =
      (Checked (fst (check now b)), snd (check now b))) \<and>
    (\<exists>n b'. record_outcome out now b = Some b' \<and>
      (thread_step now ^^ n) (entry (CallRecord out), b) = (Recorded, b'))"
proof -
  obtain b' where "record_outcome out now b = Some b'"
    using record_outcome_inv [OF brk.reach_inv [OF assms(1)]] by blast
  with check_alone [OF assms(2), of now] record_alone [OF assms(2), of out now b'] show ?thesis
    by auto
qed

theorem operations_alone_witness:
  "\<exists>n. (thread_step (secs 20) ^^ n) (CheckState, ex_tripped) =
     (Checked (fst (check (secs 20) ex_tripped)), snd (check (secs 20) ex_tripped))"
proof -
  have "cb_enabled (b_config ex_tripped)"
    by (simp add: ex_tripped_facts ex_config_def server_config_def)
  from operations_alone [OF ex_tripped_reach this] show ?thesis by simp
qed

section \<open>Schedules\<close>

datatype action = Run nat | Call nat call | Tick nanos

fun act :: "action \<Rightarrow> system \<Rightarrow> system option" where
  "act (Run i) s = (if i < length (sys_threads s) \<and> \<not> at_rest (sys_threads s ! i)
     then Some (run_thread i s) else None)"
| "act (Call i c) s = (if i < length (sys_threads s) \<and> at_rest (sys_threads s ! i) \<and>
       cb_enabled (b_config (sys_breaker s)) then Some (start_call i c s) else None)"
| "act (Tick t) s = (if sys_clock s \<le> t then Some (set_clock t s) else None)"

fun run_schedule :: "action list \<Rightarrow> system \<Rightarrow> system option" where
  "run_schedule [] s = Some s"
| "run_schedule (a # as) s = Option.bind (act a s) (run_schedule as)"

lemma act_step: "act a s = Some t \<Longrightarrow> sys_step s t"
  by (cases a) (auto split: if_splits intro: sys_step.intros)

lemma run_schedule_steps: "run_schedule as s = Some t \<Longrightarrow> sys_step\<^sup>*\<^sup>* s t"
proof (induction as arbitrary: s)
  case (Cons a as)
  then obtain u where "act a s = Some u" "run_schedule as u = Some t"
    by (auto simp: bind_eq_Some_conv)
  with Cons.IH act_step show ?case by (meson converse_rtranclp_into_rtranclp)
qed simp

lemma run_schedule_append:
  "run_schedule (as @ bs) s = Option.bind (run_schedule as s) (run_schedule bs)"
proof (induction as arbitrary: s)
  case (Cons a as)
  then show ?case by (cases "act a s") simp_all
qed simp

text \<open>Two threads and a breaker that opens on the first failure; the clock then passes the cool-down.\<close>

definition trip_schedule :: "action list" where
  "trip_schedule = [Call 0 (CallRecord Failure), Run 0, Run 0, Run 0, Run 0, Run 0, Run 0, Run 0, Run 0, Run 0, Tick (secs 20)]"

text \<open>The second thread checks while the first, admitted, has not yet stored its claim.\<close>

definition two_probes_schedule :: "action list" where
  "two_probes_schedule = [Call 0 CallCheck, Run 0, Run 0, Run 0, Run 0, Run 0, Run 0, Run 0,
     Call 1 CallCheck, Run 1, Run 1, Run 1, Run 1, Run 1, Run 1, Run 0]"

text \<open>The second thread gives back its slot after the first one's failed probe reset the counter.\<close>

definition underflow_schedule :: "action list" where
  "underflow_schedule = [Call 0 CallCheck, Run 0, Run 0, Run 0, Run 0, Run 0, Run 0, Run 0, Run 0,
     Call 1 CallCheck, Run 1, Run 1, Run 1,
     Call 0 (CallRecord Failure), Run 0, Run 0, Run 0, Run 0, Run 0, Run 0, Run 0, Run 0, Run 1]"

definition tripped_breaker :: breaker where
  "tripped_breaker = (breaker_new ex_config 0)
     \<lparr>b_state := Open, b_is_open_fast := True, b_window := \<lparr>entries = [(0, True)], failures = Suc 0\<rparr>,
      b_events := [StateChange Closed Open ''trip'', OutcomeSeen Failure Open]\<rparr>"

lemmas run_simps = run_thread_def start_call_def set_clock_def Let_def state_changed_def observe_def
  elapsed_millis_def as_millis_def millis_def secs_def max_probes_def

lemma record_first_failure:
  "record_sample True 0 (breaker_new ex_config 0) =
     Some ((breaker_new ex_config 0)\<lparr>b_window := \<lparr>entries = [(0, True)], failures = Suc 0\<rparr>\<rparr>)"
  "should_trip ((breaker_new ex_config 0)\<lparr>b_window := \<lparr>entries = [(0, True)], failures = Suc 0\<rparr>\<rparr>)"
  by (simp_all add: record_sample_def breaker_new_def ex_config_def server_config_def window_push_def
      window_evict_def window_new_def MAX_WINDOW_ENTRIES_def secs_def should_trip_def sample_count_def
      window_error_rate_def f64_ratio_def f64_exp.simps round_half_even_def Let_def)

lemma run_trip:
  "run_schedule trip_schedule (system_new 2 ex_config 0) =
     Some \<lparr>sys_threads = [Recorded, Idle], sys_breaker = tripped_breaker, sys_clock = 20000000000\<rparr>"
proof -
  have two: "replicate 2 Idle = [Idle, Idle]" by (simp add: numeral_2_eq_2)
  have st: "b_state (breaker_new ex_config 0) = Closed" "b_baseline (breaker_new ex_config 0) = 0"
    "cb_enabled (b_config (breaker_new ex_config 0))"
    by (simp_all add: breaker_new_def ex_config_def server_config_def)
  show ?thesis
    unfolding trip_schedule_def system_new_def two
    by (simp add: run_simps record_first_failure st)
      (simp add: tripped_breaker_def breaker_new_def)
qed

lemma tripped_facts:
  "b_state tripped_breaker = Open" "b_baseline tripped_breaker = 0" "b_opened_at tripped_breaker = 0"
  "b_probes tripped_breaker = 0" "b_claimed_at tripped_breaker = 0"
  "open_duration (b_config tripped_breaker) = 10000000000"
  "half_open_max_probes (b_config tripped_breaker) = 1" "cb_enabled (b_config tripped_breaker)"
  "b_events tripped_breaker = [StateChange Closed Open ''trip'', OutcomeSeen Failure Open]"
  by (simp_all add: tripped_breaker_def breaker_new_def ex_config_def server_config_def secs_def)

text \<open>
  With a single probe slot, two concurrent callers can both be admitted as probes when the
  cool-down ends: between a caller's claim of the slot and its store of the claim time, a second
  caller finds the slot taken but the recorded claim older than the cool-down, takes it for
  abandoned and is admitted too.  No outcome is recorded in between.
\<close>

theorem two_probes_admitted:
  "\<exists>s. sys_step\<^sup>*\<^sup>* (system_new 2 ex_config 0) s \<and> half_open_max_probes (b_config (sys_breaker s)) = 1 \<and>
     sys_threads s = [Checked CheckOk, Checked CheckOk] \<and> b_state (sys_breaker s) = HalfOpen \<and>
     b_events (sys_breaker s) = [StateChange Closed Open ''trip'', OutcomeSeen Failure Open,
       StateChange Open HalfOpen ''open_elapsed'', ProbeAdmission True, ProbeAdmission True]"
proof -
  have "\<exists>s. run_schedule two_probes_schedule
      \<lparr>sys_threads = [Recorded, Idle], sys_breaker = tripped_breaker, sys_clock = 20000000000\<rparr> = Some s \<and>
     half_open_max_probes (b_config (sys_breaker s)) = 1 \<and>
     sys_threads s = [Checked CheckOk, Checked CheckOk] \<and> b_state (sys_breaker s) = HalfOpen \<and>
     b_events (sys_breaker s) = [StateChange Closed Open ''trip'', OutcomeSeen Failure Open,
       StateChange Open HalfOpen ''open_elapsed'', ProbeAdmission True, ProbeAdmission True]"
    unfolding two_probes_schedule_def by (simp add: run_simps tripped_facts)
  then obtain s where "run_schedule (trip_schedule @ two_probes_schedule) (system_new 2 ex_config 0) = Some s"
    and "half_open_max_probes (b_config (sys_breaker s)) = 1 \<and>
     sys_threads s = [Checked CheckOk, Checked CheckOk] \<and> b_state (sys_breaker s) = HalfOpen \<and>
     b_events (sys_breaker s) = [StateChange Closed Open ''trip'', OutcomeSeen Failure Open,
       StateChange Open HalfOpen ''open_elapsed'', ProbeAdmission True, ProbeAdmission True]"
    by (auto simp: run_schedule_append run_trip)
  with run_schedule_steps show ?thesis by blast
qed

text \<open>
  The probe counter can underflow: a caller that was refused a slot gives back its increment
  after a failed probe has reset the counter, which leaves \<open>2 ^ 64 - 1\<close> in the open state, where the
  code expects zero.
\<close>

theorem probe_counter_underflows:
  "\<exists>s. sys_step\<^sup>*\<^sup>* (system_new 2 ex_config 0) s \<and> b_state (sys_breaker s) = Open \<and>
     unat (b_probes (sys_breaker s)) = 2 ^ 64 - 1"
proof -
  have "\<exists>s. run_schedule underflow_schedule
      \<lparr>sys_threads = [Recorded, Idle], sys_breaker = tripped_breaker, sys_clock = 20000000000\<rparr> = Some s \<and>
     b_state (sys_breaker s) = Open \<and> b_probes (sys_breaker s) = - 1"
    unfolding underflow_schedule_def by (simp add: run_simps tripped_facts)
  then obtain s where "run_schedule (trip_schedule @ underflow_schedule) (system_new 2 ex_config 0) = Some s"
    and "b_state (sys_breaker s) = Open" "b_probes (sys_breaker s) = - 1"
    by (auto simp: run_schedule_append run_trip)
  moreover have "unat (- 1 :: 64 word) = 2 ^ 64 - 1"
    by (simp add: unsigned_minus_1_eq_mask mask_eq_exp_minus_1)
  ultimately show ?thesis
    using run_schedule_steps by metis
qed

section \<open>Concurrent probes within a lease\<close>

text \<open>Threads that do nothing but ask for a probe slot.\<close>

fun probing :: "pc \<Rightarrow> bool" where
  "probing ProbeNow = True"
| "probing (ProbeAdd ms) = True"
| "probing (ProbeStore ms) = True"
| "probing (ProbeSub ms) = True"
| "probing (ProbeLoad ms) = True"
| "probing (ProbeCas ms c) = True"
| "probing _ = False"

fun holds_slot :: "pc \<Rightarrow> bool" where
  "holds_slot (ProbeStore ms) = True"
| "holds_slot (Checked CheckOk) = True"
| "holds_slot _ = False"

fun gives_back :: "pc \<Rightarrow> bool" where
  "gives_back (ProbeSub ms) = True"
| "gives_back _ = False"

text \<open>The clock reading a probing thread holds.\<close>

fun reading :: "pc \<Rightarrow> nat option" where
  "reading (ProbeAdd ms) = Some ms"
| "reading (ProbeStore ms) = Some ms"
| "reading (ProbeSub ms) = Some ms"
| "reading (ProbeLoad ms) = Some ms"
| "reading _ = None"

inductive probe_step :: "nanos \<Rightarrow> system \<Rightarrow> system \<Rightarrow> bool" for limit :: nanos where
  probe_run: "i < length (sys_threads s) \<Longrightarrow> probing (sys_threads s ! i) \<Longrightarrow>
    probe_step limit s (run_thread i s)"
| probe_tick: "sys_clock s \<le> t \<Longrightarrow> t \<le> limit \<Longrightarrow> probe_step limit s (set_clock t s)"

definition count :: "('a \<Rightarrow> bool) \<Rightarrow> 'a list \<Rightarrow> nat" where
  "count P xs = length (filter P xs)"

lemma count_update:
  "i < length xs \<Longrightarrow>
   count P (xs[i := y]) + (if P (xs ! i) then 1 else 0) = count P xs + (if P y then 1 else 0)"
proof (induction xs arbitrary: i)
  case (Cons x xs)
  then show ?case by (cases i) (auto simp: count_def)
qed (simp add: count_def)

lemma count_le: "count P xs \<le> length xs"
  by (simp add: count_def)

lemma count_disjoint:
  "(\<And>x. \<not> (P x \<and> Q x)) \<Longrightarrow> count P xs + count Q xs \<le> length xs"
  by (induction xs) (auto simp: count_def)

text \<open>
  The slots in use are the \<open>p0\<close> taken before, those of the admitted threads and those about to be
  given back.  No reading is a whole lease later than the claim \<open>c0\<close>.
\<close>

record probe_setup =
  ps_cfg :: breaker_config
  ps_base :: nanos
  ps_limit :: nanos
  ps_c0 :: nat
  ps_p0 :: nat
  ps_n :: nat

definition setup_ok :: "probe_setup \<Rightarrow> bool" where
  "setup_ok u \<longleftrightarrow> ps_limit u - ps_base u < 2 ^ 64 * 1000000 \<and>
     (ps_limit u - ps_base u) div 1000000 < ps_c0 u + as_millis (open_duration (ps_cfg u)) \<and>
     ps_p0 u + ps_n u + 1 < 2 ^ 64"

definition thread_ok :: "probe_setup \<Rightarrow> pc \<Rightarrow> bool" where
  "thread_ok u p \<longleftrightarrow> (probing p \<or> at_rest p) \<and> (\<forall>m c. p \<noteq> ProbeCas m c) \<and>
     (\<forall>ms. reading p = Some ms \<longrightarrow>
        ps_c0 u \<le> ms \<and> ms - ps_c0 u < as_millis (open_duration (ps_cfg u)))"

definition probe_inv :: "probe_setup \<Rightarrow> system \<Rightarrow> bool" where
  "probe_inv u s \<longleftrightarrow>
     b_config (sys_breaker s) = ps_cfg u \<and> b_baseline (sys_breaker s) = ps_base u \<and>
     length (sys_threads s) = ps_n u \<and> ps_c0 u \<le> b_claimed_at (sys_breaker s) \<and>
     sys_clock s \<le> ps_limit u \<and> ps_c0 u \<le> (sys_clock s - ps_base u) div 1000000 \<and>
     unat (b_probes (sys_breaker s)) =
       ps_p0 u + count holds_slot (sys_threads s) + count gives_back (sys_threads s) \<and>
     ps_p0 u + count holds_slot (sys_threads s) \<le> half_open_max_probes (ps_cfg u) \<and>
     list_all (thread_ok u) (sys_threads s)"

lemma unat_dec: "p \<noteq> 0 \<Longrightarrow> unat (p - 1) + 1 = unat p" for p :: "64 word"
  by (simp add: unat_minus_one unat_gt_0)

lemma slot_kinds_disjoint: "\<not> (holds_slot p \<and> gives_back p)"
  by (cases p rule: holds_slot.cases) auto

lemma reading_ok:
  assumes "setup_ok u" "probe_inv u s"
  shows "ps_c0 u \<le> elapsed_millis (sys_clock s) (sys_breaker s)"
    "elapsed_millis (sys_clock s) (sys_breaker s) - ps_c0 u < as_millis (open_duration (ps_cfg u))"
proof -
  let ?t = "sys_clock s - ps_base u"
  have le: "?t \<le> ps_limit u - ps_base u"
    using assms(2) by (auto simp: probe_inv_def intro: diff_le_mono)
  then have "?t div 1000000 < 2 ^ 64"
    using assms(1) by (intro less_mult_imp_div_less) (simp add: setup_ok_def)
  then have e: "elapsed_millis (sys_clock s) (sys_breaker s) = ?t div 1000000"
    using assms(2) by (simp add: elapsed_millis_def as_millis_def probe_inv_def)
  show "ps_c0 u \<le> elapsed_millis (sys_clock s) (sys_breaker s)"
    using assms(2) by (simp add: e probe_inv_def)
  then show "elapsed_millis (sys_clock s) (sys_breaker s) - ps_c0 u < as_millis (open_duration (ps_cfg u))"
    using div_le_mono [OF le, of 1000000] assms(1) unfolding e setup_ok_def by linarith
qed

text \<open>One access of a probing thread changes the shared counter by what its own counter says.\<close>

lemma probe_access:
  assumes u: "setup_ok u" and inv: "probe_inv u s" and i: "i < length (sys_threads s)"
    and pr: "probing (sys_threads s ! i)"
    and step: "thread_step (sys_clock s) (sys_threads s ! i, sys_breaker s) = (p', b')"
  shows "thread_ok u p'" "b_config b' = b_config (sys_breaker s)" "b_baseline b' = b_baseline (sys_breaker s)"
    "ps_c0 u \<le> b_claimed_at b'"
    "unat (b_probes b') + (if holds_slot (sys_threads s ! i) then 1 else 0) +
       (if gives_back (sys_threads s ! i) then 1 else 0) =
     unat (b_probes (sys_breaker s)) + (if holds_slot p' then 1 else 0) + (if gives_back p' then 1 else 0)"
    "holds_slot p' \<and> \<not> holds_slot (sys_threads s ! i) \<Longrightarrow>
       unat (b_probes (sys_breaker s)) < half_open_max_probes (ps_cfg u)"
    "holds_slot (sys_threads s ! i) \<Longrightarrow> holds_slot p'"
proof (atomize (full), goal_cases)
  case 1
  let ?p = "sys_threads s ! i" and ?b = "sys_breaker s"
  have ok: "thread_ok u ?p"
    using inv i by (simp add: probe_inv_def list_all_length)
  have cnt: "unat (b_probes ?b) = ps_p0 u + count holds_slot (sys_threads s) + count gives_back (sys_threads s)"
    using inv by (simp add: probe_inv_def)
  have small: "unat (b_probes ?b) < 2 ^ 64 - 1"
    using u count_disjoint [of holds_slot gives_back "sys_threads s"] slot_kinds_disjoint inv
    by (simp add: cnt setup_ok_def probe_inv_def)
  have cfg: "b_config ?b = ps_cfg u" "ps_c0 u \<le> b_claimed_at ?b" using inv by (simp_all add: probe_inv_def)
  show ?case
  proof (cases ?p)
    case ProbeNow
    then show ?thesis
      using step reading_ok [OF u inv] cfg by (auto simp: thread_ok_def)
  next
    case (ProbeAdd ms)
    have "unat (b_probes ?b + 1) = unat (b_probes ?b) + 1"
      using small by (intro unat_inc [of _ "2 ^ 64 - 1"]) auto
    then show ?thesis
      using ProbeAdd step ok cfg by (auto simp: thread_ok_def max_probes_def split: if_splits)
  next
    case (ProbeStore ms)
    then show ?thesis
      using step ok cfg by (auto simp: thread_ok_def observe_def)
  next
    case (ProbeSub ms)
    have "0 < count gives_back (sys_threads s)"
      using ProbeSub nth_mem [OF i] by (auto simp: count_def filter_empty_conv intro!: bexI [of _ ?p])
    then have "b_probes ?b \<noteq> 0" using cnt by auto
    then have "unat (b_probes ?b - 1) + 1 = unat (b_probes ?b)"
      by (rule unat_dec)
    then show ?thesis
      using ProbeSub step ok cfg by (auto simp: thread_ok_def)
  next
    case (ProbeLoad ms)
    then have "ms - b_claimed_at ?b < as_millis (open_duration (b_config ?b))"
      using ok cfg by (auto simp: thread_ok_def)
    then show ?thesis
      using ProbeLoad step ok cfg by (auto simp: thread_ok_def observe_def probe_rejected_def)
  qed (use pr ok in \<open>auto simp: thread_ok_def\<close>)
qed

lemma probe_step_inv:
  assumes "setup_ok u" "probe_inv u s" "probe_step (ps_limit u) s t"
  shows "probe_inv u t"
  using assms(3)
proof cases
  case (probe_run i)
  obtain p' b' where step: "thread_step (sys_clock s) (sys_threads s ! i, sys_breaker s) = (p', b')"
    by force
  note acc = probe_access [OF assms(1,2) probe_run(2,3) step]
  let ?xs = "sys_threads s"
  have t: "t = s\<lparr>sys_threads := ?xs[i := p'], sys_breaker := b'\<rparr>"
    by (simp add: probe_run(1) run_thread_def step)
  note h = count_update [OF probe_run(2), of holds_slot p'] and g = count_update [OF probe_run(2), of gives_back p']
  have inv: "unat (b_probes (sys_breaker s)) = ps_p0 u + count holds_slot ?xs + count gives_back ?xs"
    "ps_p0 u + count holds_slot ?xs \<le> half_open_max_probes (ps_cfg u)"
    using assms(2) by (simp_all add: probe_inv_def)
  have "unat (b_probes b') = ps_p0 u + count holds_slot (?xs[i := p']) + count gives_back (?xs[i := p'])"
    using acc(5) h g inv(1) slot_kinds_disjoint [of p'] slot_kinds_disjoint [of "?xs ! i"]
    by (auto split: if_splits)
  moreover have "ps_p0 u + count holds_slot (?xs[i := p']) \<le> half_open_max_probes (ps_cfg u)"
    using acc(6,7) h inv by (auto split: if_splits)
  moreover have "list_all (thread_ok u) (?xs[i := p'])"
    using assms(2) acc(1) set_update_subset_insert [of ?xs i p']
    by (auto simp: probe_inv_def list_all_iff)
  ultimately show ?thesis
    using assms(2) acc(2-4) by (simp add: t probe_inv_def)
next
  case (probe_tick k)
  then show ?thesis
    using assms(2) div_le_mono [of "sys_clock s - ps_base u" "k - ps_base u" 1000000]
    by (auto simp: probe_inv_def set_clock_def intro: order_trans diff_le_mono)
qed

text \<open>
  C33. Once a claim is recorded, concurrent callers share the remaining slots exactly: if \<open>p0\<close> probe
  slots of a breaker are taken and the claim is younger than the cool-down throughout, then however
  the accesses of any number of threads interleave, at most \<open>half_open_max_probes - p0\<close> of them are
  admitted.
\<close>

theorem concurrent_probes_bounded:
  assumes "\<forall>p \<in> set (sys_threads s). p = ProbeNow"
    and "unat (b_probes (sys_breaker s)) \<le> half_open_max_probes (b_config (sys_breaker s))"
    and "unat (b_probes (sys_breaker s)) + length (sys_threads s) + 1 < 2 ^ 64"
    and "b_claimed_at (sys_breaker s) \<le> (sys_clock s - b_baseline (sys_breaker s)) div 1000000"
    and "sys_clock s \<le> limit" and "limit - b_baseline (sys_breaker s) < 2 ^ 64 * 1000000"
    and "(limit - b_baseline (sys_breaker s)) div 1000000 <
      b_claimed_at (sys_breaker s) + as_millis (open_duration (b_config (sys_breaker s)))"
    and "(probe_step limit)\<^sup>*\<^sup>* s t"
  shows "length (filter (\<lambda>p. p = Checked CheckOk) (sys_threads t)) \<le>
    half_open_max_probes (b_config (sys_breaker s)) - unat (b_probes (sys_breaker s))"
proof -
  let ?b = "sys_breaker s"
  define u where "u = \<lparr>ps_cfg = b_config ?b, ps_base = b_baseline ?b, ps_limit = limit,
    ps_c0 = b_claimed_at ?b, ps_p0 = unat (b_probes ?b), ps_n = length (sys_threads s)\<rparr>"
  have u: "setup_ok u" using assms(3,6,7) by (simp add: setup_ok_def u_def)
  have "filter holds_slot (sys_threads s) = []" "filter gives_back (sys_threads s) = []"
    using assms(1) by (auto simp: filter_empty_conv)
  then have init: "probe_inv u s"
    using assms(1,2,4,5) by (auto simp: probe_inv_def u_def count_def list_all_iff thread_ok_def)
  have "probe_inv u t"
    using assms(8) init
    by (induction rule: rtranclp_induct)
      (use probe_step_inv [OF u] in \<open>auto simp: u_def\<close>)
  moreover have "length (filter (\<lambda>p. p = Checked CheckOk) xs) \<le> count holds_slot xs" for xs
    by (induction xs) (auto simp: count_def)
  from this [of "sys_threads t"] have "length (filter (\<lambda>p. p = Checked CheckOk) (sys_threads t)) \<le>
      count holds_slot (sys_threads t)" .
  moreover have "ps_p0 u + count holds_slot (sys_threads t) \<le> half_open_max_probes (ps_cfg u)"
    using \<open>probe_inv u t\<close> by (simp add: probe_inv_def)
  ultimately show ?thesis by (simp add: u_def)
qed

definition ex_probing :: system where
  "ex_probing = \<lparr>sys_threads = [ProbeNow, ProbeNow],
     sys_breaker = (breaker_new server_config 0)\<lparr>b_state := HalfOpen, b_probes := 1\<rparr>, sys_clock = 0\<rparr>"

theorem concurrent_probes_bounded_witness:
  "length (filter (\<lambda>p. p = Checked CheckOk) (sys_threads (run_thread 1 (run_thread 0 ex_probing)))) \<le> 0"
proof -
  let ?t = "run_thread 1 (run_thread 0 ex_probing)"
  have "probe_step 5 ex_probing (run_thread 0 ex_probing)"
    by (rule probe_run) (simp_all add: ex_probing_def)
  moreover have "probe_step 5 (run_thread 0 ex_probing) ?t"
    by (rule probe_run) (simp_all add: ex_probing_def run_thread_def)
  ultimately have "(probe_step 5)\<^sup>*\<^sup>* ex_probing ?t"
    by (meson r_into_rtranclp rtranclp_trans)
  from concurrent_probes_bounded [OF _ _ _ _ _ _ _ this] show ?thesis
    by (simp add: ex_probing_def breaker_new_def server_config_def secs_def as_millis_def)
qed

end
