(* ===== verification/Shell_Words.thy ===== *)
theory Shell_Words
  imports Prelude "HOL-Library.Sublist"
begin

text \<open>
  Argument vectors of shell commands, as the permission gates read them
  (\<open>xai-grok-workspace/src/permission/bash_command_splitting.rs\<close> and the inline-script
  classifier of \<open>policy.rs\<close>): the option scanner of \<open>env\<close>, the peeling of wrapper
  commands (\<open>timeout\<close>, \<open>nice\<close>, \<open>env\<close>, ...) and of transparent prefixes (\<open>exec\<close>,
  \<open>command\<close>, \<open>builtin\<close>), their bounded alternation, and the recognition of \<open>sh -c\<close> scripts.

  A slice \<open>&cmd[i..]\<close> is the list of the remaining words.  Slices of one vector are its
  suffixes, so the pointer comparison of \<open>normalize_command_words\<close> is the comparison of lengths.
\<close>

section \<open>The option scanner of env\<close>

type_synonym argv = "str list"

text \<open>\<open>w.rsplit(['/', '\\']).next()\<close>\<close>

definition basename :: "str \<Rightarrow> str" where
  "basename w = rev (takeWhile (\<lambda>c. c \<noteq> 47 \<and> c \<noteq> 92) (rev w))"

definition is_ascii_alphabetic :: "uchar \<Rightarrow> bool" where
  "is_ascii_alphabetic c \<longleftrightarrow> (65 \<le> c \<and> c \<le> 90) \<or> (97 \<le> c \<and> c \<le> 122)"

definition is_ascii_alphanumeric :: "uchar \<Rightarrow> bool" where
  "is_ascii_alphanumeric c \<longleftrightarrow> is_ascii_alphabetic c \<or> (48 \<le> c \<and> c \<le> 57)"

definition is_env_assignment :: "str \<Rightarrow> bool" where
  "is_env_assignment tok \<longleftrightarrow>
     (if 61 \<notin> set tok then False
      else let name = takeWhile (\<lambda>c. c \<noteq> 61) tok in
        name \<noteq> [] \<and> (is_ascii_alphabetic (hd name) \<or> hd name = 95) \<and>
        (\<forall>c \<in> set name. is_ascii_alphanumeric c \<or> c = 95))"

text \<open>The open quote and the text produced so far are the loop variables.\<close>

fun decode_literal_loop :: "uchar option \<Rightarrow> str \<Rightarrow> str \<Rightarrow> str option" where
  "decode_literal_loop quote res [] = (if quote = None then Some res else None)"
| "decode_literal_loop None res (ch # cs) =
     (if ch = 39 \<or> ch = 34 then decode_literal_loop (Some ch) res cs
      else if ch = 92 then (case cs of [] \<Rightarrow> None | n # cs' \<Rightarrow> decode_literal_loop None (res @ [n]) cs')
      else decode_literal_loop None (res @ [ch]) cs)"
| "decode_literal_loop (Some q) res (ch # cs) =
     (if ch = q then decode_literal_loop None res cs
      else if q = 34 \<and> ch = 92 then
        (case cs of
           [] \<Rightarrow> None
         | n # cs' \<Rightarrow>
             if n \<in> {36, 96, 34, 92, 10} then decode_literal_loop (Some q) (res @ [n]) cs'
             else decode_literal_loop (Some q) (res @ [92, n]) cs')
      else decode_literal_loop (Some q) (res @ [ch]) cs)"

definition decode_shell_literal_spelling :: "str \<Rightarrow> str option" where
  "decode_shell_literal_spelling raw = decode_literal_loop None [] raw"

definition decode_env_option_token :: "str \<Rightarrow> str" where
  "decode_env_option_token raw =
     (if 39 \<notin> set raw \<and> 34 \<notin> set raw then raw
      else case decode_shell_literal_spelling raw of Some decoded \<Rightarrow> decoded | None \<Rightarrow> raw)"

definition is_high_confidence_env_s_payload :: "str \<Rightarrow> bool" where
  "is_high_confidence_env_s_payload s \<longleftrightarrow>
     s \<noteq> [] \<and> 0 \<notin> set s \<and> \<not> (\<exists>c \<in> set s. c \<in> {39, 34, 92, 35, 96, 36, 10, 13})"

definition take_high_confidence_payload :: "str \<Rightarrow> str option" where
  "take_high_confidence_payload raw =
     (if is_high_confidence_env_s_payload raw then Some raw else None)"

datatype env_short =
    SplitStringNext
  | SplitStringGlued str
  | SplitStringDetect
  | NoArg
  | ArgNeedNext uchar
  | ArgGlued uchar
  | Uncertain

fun classify_env_cluster :: "str \<Rightarrow> env_short" where
  "classify_env_cluster [] = NoArg"
| "classify_env_cluster (c # cs) =
     (if c \<in> set (lit ''iv0'') then classify_env_cluster cs
      else if c = 83 then SplitStringDetect
      else if c \<in> set (lit ''uCPa'') then (if cs \<noteq> [] then ArgGlued c else ArgNeedNext c)
      else Uncertain)"

definition classify_env_short :: "str \<Rightarrow> env_short" where
  "classify_env_short tok =
     (if \<not> starts_with (lit ''-'') tok \<or> starts_with (lit ''--'') tok \<or> tok = lit ''-'' then Uncertain
      else let body = tl tok in
        if body = [] then Uncertain
        else case strip_prefix (lit ''S'') body of
            Some rest \<Rightarrow> (if rest = [] then SplitStringNext else SplitStringGlued rest)
          | None \<Rightarrow> classify_env_cluster body)"

record env_scan_result =
  es_chdir :: "str option"
  es_has_split_string :: bool
  es_options_uncertain :: bool
  es_split_string_script :: "str option"
  es_command_start :: nat

definition scan_done :: "nat \<Rightarrow> str option \<Rightarrow> env_scan_result" where
  "scan_done i chdir = \<lparr>es_chdir = chdir, es_has_split_string = False, es_options_uncertain = False,
     es_split_string_script = None, es_command_start = i\<rparr>"

definition scan_uncertain :: "nat \<Rightarrow> str option \<Rightarrow> env_scan_result" where
  "scan_uncertain i chdir = \<lparr>es_chdir = chdir, es_has_split_string = False, es_options_uncertain = True,
     es_split_string_script = None, es_command_start = i\<rparr>"

definition scan_split :: "nat \<Rightarrow> str option \<Rightarrow> str option \<Rightarrow> env_scan_result" where
  "scan_split i chdir script = \<lparr>es_chdir = chdir, es_has_split_string = True,
     es_options_uncertain = False, es_split_string_script = script, es_command_start = i\<rparr>"

text \<open>The payload of a split-string option that takes the next word.\<close>

definition next_payload :: "argv \<Rightarrow> str option" where
  "next_payload rest = (case rest of [] \<Rightarrow> None | raw # _ \<Rightarrow> take_high_confidence_payload raw)"

text \<open>
  What one word makes the scanner do: end the options (consuming the word or not), go on after the
  word (perhaps with a new directory), go on after the word and its operand (the operand being the
  new directory or not), or break with a split string or an unmodelled option.
\<close>

datatype env_step =
    StepEnd
  | StepStop
  | StepSkip
  | StepChdir str
  | StepOperand bool
  | StepSplit "str option"
  | StepSplitNext
  | StepUncertain

definition env_long_option :: "str \<Rightarrow> env_step" where
  "env_long_option tok_raw =
     (if tok_raw = lit ''--chdir'' then StepOperand True
      else case strip_prefix (lit ''--chdir='') tok_raw of
        Some dir \<Rightarrow> StepChdir dir
      | None \<Rightarrow>
          if tok_raw \<in> {lit ''--unset'', lit ''--path'', lit ''--argv0''} then StepOperand False
          else if starts_with (lit ''--unset='') tok_raw \<or> starts_with (lit ''--path='') tok_raw \<or>
              starts_with (lit ''--argv0='') tok_raw then StepSkip
          else if tok_raw \<in> {lit ''--ignore-environment'', lit ''--null'', lit ''--debug'',
              lit ''--version'', lit ''--help''} then StepSkip
          else if tok_raw = lit ''--split-string'' then StepSplitNext
          else case strip_prefix (lit ''--split-string='') tok_raw of
              Some payload \<Rightarrow>
                StepSplit (take_high_confidence_payload
                  (case strip_prefix (lit ''--split-string='') (decode_env_option_token tok_raw) of
                     Some p \<Rightarrow> p | None \<Rightarrow> payload))
            | None \<Rightarrow> StepUncertain)"

definition env_short_option :: "str \<Rightarrow> env_step" where
  "env_short_option tok_raw =
     (case classify_env_short (decode_env_option_token tok_raw) of
        SplitStringNext \<Rightarrow> StepSplitNext
      | SplitStringGlued payload \<Rightarrow> StepSplit (take_high_confidence_payload payload)
      | SplitStringDetect \<Rightarrow> StepSplit None
      | NoArg \<Rightarrow> StepSkip
      | ArgNeedNext kind \<Rightarrow> StepOperand (kind = 67)
      | ArgGlued kind \<Rightarrow>
          (if kind = 67
           then StepChdir (case strip_prefix (lit ''-C'') tok_raw of Some d \<Rightarrow> d | None \<Rightarrow> [])
           else StepSkip)
      | Uncertain \<Rightarrow> StepUncertain)"

definition env_step_of :: "str \<Rightarrow> env_step" where
  "env_step_of tok_raw =
     (if tok_raw = lit ''--'' then StepEnd
      else if tok_raw = lit ''-'' then StepSkip
      else if \<not> starts_with (lit ''-'') tok_raw then
        (if is_env_assignment tok_raw then StepSkip else StepStop)
      else if starts_with (lit ''--'') tok_raw then env_long_option tok_raw
      else env_short_option tok_raw)"

text \<open>
  The scanning loop over the words from index \<open>i\<close> on.  The flags are set only where the loop
  breaks, so the directory is its only other variable.
\<close>

fun env_scan_loop :: "argv \<Rightarrow> nat \<Rightarrow> str option \<Rightarrow> env_scan_result" where
  "env_scan_loop [] i chdir = scan_done i chdir"
| "env_scan_loop (tok_raw # rest) i chdir =
     (case env_step_of tok_raw of
        StepEnd \<Rightarrow> scan_done (i + 1) chdir
      | StepStop \<Rightarrow> scan_done i chdir
      | StepSkip \<Rightarrow> env_scan_loop rest (i + 1) chdir
      | StepChdir dir \<Rightarrow> env_scan_loop rest (i + 1) (Some dir)
      | StepOperand is_dir \<Rightarrow>
          (case rest of
             v # rest' \<Rightarrow> env_scan_loop rest' (i + 2) (if is_dir then Some v else chdir)
           | [] \<Rightarrow> scan_uncertain i chdir)
      | StepSplit script \<Rightarrow> scan_split i chdir script
      | StepSplitNext \<Rightarrow> scan_split i chdir (next_payload rest)
      | StepUncertain \<Rightarrow> scan_uncertain i chdir)"

definition env_scan :: "argv \<Rightarrow> env_scan_result" where
  "env_scan cmd = env_scan_loop (drop 1 cmd) 1 None"

definition env_split_string_script :: "argv \<Rightarrow> str option" where
  "env_split_string_script words =
     (case words of
        [] \<Rightarrow> None
      | w # _ \<Rightarrow>
          if basename w \<noteq> lit ''env'' then None
          else let scan = env_scan words in
            if \<not> es_has_split_string scan then None else es_split_string_script scan)"

section \<open>Wrapper commands\<close>

text \<open>
  The option loops of the wrappers: skip words that start with a dash, the ones in \<open>two\<close>
  together with their operand; the index may run past the end.
\<close>

fun skip_options :: "argv \<Rightarrow> argv \<Rightarrow> nat \<Rightarrow> nat" where
  "skip_options two [] i = i"
| "skip_options two (tok # rest) i =
     (if starts_with (lit ''-'') tok then
        (if tok \<in> set two then skip_options two (drop 1 rest) (i + 2)
         else skip_options two rest (i + 1))
      else i)"

text \<open>\<open>cmd.get(i..)?\<close>, and no empty command.\<close>

definition inner_from :: "argv \<Rightarrow> nat \<Rightarrow> argv option" where
  "inner_from cmd i = (if i < length cmd then Some (drop i cmd) else None)"

definition strip_wrapper_command :: "argv \<Rightarrow> argv option" where
  "strip_wrapper_command cmd =
     (case cmd of
        [] \<Rightarrow> None
      | w # args \<Rightarrow>
          let hd0 = basename w in
          if hd0 = lit ''timeout'' then
            (let i = skip_options [lit ''-k'', lit ''-s'', lit ''--kill-after'', lit ''--signal''] args 1 in
             if i \<ge> length cmd then None else inner_from cmd (i + 1))
          else if hd0 = lit ''nice'' then
            inner_from cmd (skip_options [lit ''-n'', lit ''--adjustment''] args 1)
          else if hd0 = lit ''ionice'' then
            inner_from cmd (skip_options [lit ''-c'', lit ''-n'', lit ''-p'', lit ''-P'', lit ''-u'',
              lit ''--class'', lit ''--classdata'', lit ''--pid'', lit ''--pgid'', lit ''--uid''] args 1)
          else if hd0 = lit ''chrt'' then
            (let i = skip_options [] args 1 in
             if i \<ge> length cmd then None else inner_from cmd (i + 1))
          else if hd0 = lit ''stdbuf'' then
            inner_from cmd (skip_options [lit ''-i'', lit ''-o'', lit ''-e''] args 1)
          else if hd0 = lit ''env'' then
            (let scan = env_scan cmd in
             if es_has_split_string scan \<or> es_options_uncertain scan then None
             else inner_from cmd (es_command_start scan))
          else None)"

definition is_wrapper_command :: "argv \<Rightarrow> bool" where
  "is_wrapper_command words =
     (case words of
        [] \<Rightarrow> False
      | w # _ \<Rightarrow> basename w \<in> {lit ''timeout'', lit ''nice'', lit ''ionice'', lit ''chrt'', lit ''stdbuf'',
          lit ''env''})"

definition MAX_WRAPPER_DEPTH :: nat where "MAX_WRAPPER_DEPTH = 8"
definition MAX_INLINE_SHELL_DEPTH :: nat where "MAX_INLINE_SHELL_DEPTH = 8"
definition MAX_TRANSPARENT_PREFIX_DEPTH :: nat where "MAX_TRANSPARENT_PREFIX_DEPTH = 8"
definition MAX_NORMALIZE_ROUNDS :: nat where
  "MAX_NORMALIZE_ROUNDS = MAX_WRAPPER_DEPTH + MAX_TRANSPARENT_PREFIX_DEPTH"

record checked_wrapper_peel =
  cw_words :: argv
  cw_has_chdir :: bool
  cw_has_split_string :: bool
  cw_env_options_uncertain :: bool
  cw_exhausted :: bool

definition heads_env :: "argv \<Rightarrow> bool" where
  "heads_env ws \<longleftrightarrow> ws \<noteq> [] \<and> basename (hd ws) = lit ''env''"

fun unwrap_wrappers_loop :: "nat \<Rightarrow> argv \<Rightarrow> bool \<Rightarrow> bool \<Rightarrow> bool \<Rightarrow> checked_wrapper_peel" where
  "unwrap_wrappers_loop 0 current chd spl unc =
     \<lparr>cw_words = current, cw_has_chdir = chd, cw_has_split_string = spl, cw_env_options_uncertain = unc,
      cw_exhausted = (is_wrapper_command current \<and> strip_wrapper_command current \<noteq> None)\<rparr>"
| "unwrap_wrappers_loop (Suc n) current chd spl unc =
     (let scan = env_scan current;
          chd' = (chd \<or> heads_env current \<and> es_chdir scan \<noteq> None);
          spl' = (spl \<or> heads_env current \<and> es_has_split_string scan);
          unc' = (unc \<or> heads_env current \<and> es_options_uncertain scan)
      in case strip_wrapper_command current of
           Some inner \<Rightarrow> unwrap_wrappers_loop n inner chd' spl' unc'
         | None \<Rightarrow> \<lparr>cw_words = current, cw_has_chdir = chd', cw_has_split_string = spl',
             cw_env_options_uncertain = unc', cw_exhausted = False\<rparr>)"

definition unwrap_wrappers_checked :: "argv \<Rightarrow> checked_wrapper_peel" where
  "unwrap_wrappers_checked words = unwrap_wrappers_loop MAX_WRAPPER_DEPTH words False False False"

definition unwrap_wrappers :: "argv \<Rightarrow> argv" where
  "unwrap_wrappers words = cw_words (unwrap_wrappers_checked words)"

section \<open>Transparent prefixes\<close>

datatype transparent_strip = NotPrefix | Peeled argv | Ambiguous

definition peeled_or_not :: "argv \<Rightarrow> transparent_strip" where
  "peeled_or_not inner = (if inner \<noteq> [] then Peeled inner else NotPrefix)"

text \<open>What one option word of \<open>exec\<close> or \<open>command\<close> makes the loop do.\<close>

datatype prefix_step = PrefixEnd | PrefixStop | PrefixSkip | PrefixOperand | PrefixDisplay | PrefixUnknown

definition exec_step_of :: "str \<Rightarrow> prefix_step" where
  "exec_step_of tok =
     (if tok = lit ''--'' then PrefixEnd
      else if tok = lit ''-'' \<or> \<not> starts_with (lit ''-'') tok then PrefixStop
      else if tok \<in> {lit ''-c'', lit ''-l'', lit ''-cl'', lit ''-lc''} then PrefixSkip
      else if tok = lit ''-a'' then PrefixOperand
      else if starts_with (lit ''-a'') tok then
        (if strip_prefix (lit ''-a'') tok = Some [0] then PrefixUnknown else PrefixSkip)
      else if \<not> starts_with (lit ''--'') tok \<and> set (tl tok) \<subseteq> set (lit ''cl'') then PrefixSkip
      else PrefixUnknown)"

definition command_step_of :: "str \<Rightarrow> prefix_step" where
  "command_step_of tok =
     (if tok = lit ''--'' then PrefixEnd
      else if tok = lit ''-'' \<or> \<not> starts_with (lit ''-'') tok then PrefixStop
      else if tok \<in> {lit ''-v'', lit ''-V'', lit ''--help'', lit ''--version''} \<or>
          \<not> starts_with (lit ''--'') tok \<and> (\<exists>c \<in> set (tl tok). c \<in> set (lit ''vV'')) then PrefixDisplay
      else if tok = lit ''-p'' \<or> \<not> starts_with (lit ''--'') tok \<and> set (tl tok) \<subseteq> set (lit ''p'')
        then PrefixSkip
      else PrefixUnknown)"

text \<open>The loop both share; its argument is the rest of the words, \<open>cmd[i..]\<close>.\<close>

fun strip_prefix_loop :: "(str \<Rightarrow> prefix_step) \<Rightarrow> argv \<Rightarrow> transparent_strip" where
  "strip_prefix_loop step_of [] = NotPrefix"
| "strip_prefix_loop step_of (tok # rest) =
     (case step_of tok of
        PrefixEnd \<Rightarrow> peeled_or_not rest
      | PrefixStop \<Rightarrow> Peeled (tok # rest)
      | PrefixSkip \<Rightarrow> strip_prefix_loop step_of rest
      | PrefixOperand \<Rightarrow>
          (case rest of
             v # rest' \<Rightarrow> if v \<noteq> [0] \<and> v \<noteq> [] then strip_prefix_loop step_of rest' else Ambiguous
           | [] \<Rightarrow> Ambiguous)
      | PrefixDisplay \<Rightarrow> NotPrefix
      | PrefixUnknown \<Rightarrow> Ambiguous)"

definition strip_exec_prefix :: "argv \<Rightarrow> transparent_strip" where
  "strip_exec_prefix args = strip_prefix_loop exec_step_of args"

definition strip_command_prefix :: "argv \<Rightarrow> transparent_strip" where
  "strip_command_prefix args = strip_prefix_loop command_step_of args"

definition strip_builtin_prefix :: "argv \<Rightarrow> transparent_strip" where
  "strip_builtin_prefix rest =
     (case rest of
        [] \<Rightarrow> NotPrefix
      | tok # _ \<Rightarrow> if starts_with (lit ''-'') tok \<and> tok \<noteq> lit ''-'' then Ambiguous else Peeled rest)"

definition strip_transparent_prefix :: "argv \<Rightarrow> transparent_strip" where
  "strip_transparent_prefix cmd =
     (case cmd of
        [] \<Rightarrow> NotPrefix
      | h # args \<Rightarrow>
          if h = [] \<or> h = [0] then NotPrefix
          else if basename h = lit ''exec'' then strip_exec_prefix args
          else if basename h = lit ''command'' then strip_command_prefix args
          else if basename h = lit ''builtin'' then strip_builtin_prefix args
          else NotPrefix)"

datatype transparent_prefix_peel = Ready argv | PeelAmbiguous

fun peel_transparent_loop :: "nat \<Rightarrow> argv \<Rightarrow> transparent_prefix_peel" where
  "peel_transparent_loop 0 current =
     (case strip_transparent_prefix current of NotPrefix \<Rightarrow> Ready current | _ \<Rightarrow> PeelAmbiguous)"
| "peel_transparent_loop (Suc n) current =
     (case strip_transparent_prefix current of
        NotPrefix \<Rightarrow> Ready current
      | Peeled inner \<Rightarrow> peel_transparent_loop n inner
      | Ambiguous \<Rightarrow> PeelAmbiguous)"

definition peel_transparent_prefixes :: "argv \<Rightarrow> transparent_prefix_peel" where
  "peel_transparent_prefixes words = peel_transparent_loop MAX_TRANSPARENT_PREFIX_DEPTH words"

section \<open>Normalisation\<close>

record normalized_command_peel =
  nc_words :: argv
  nc_has_chdir :: bool
  nc_has_split_string :: bool
  nc_env_options_uncertain :: bool
  nc_exhausted :: bool
  nc_ambiguous :: bool

text \<open>One round updates every field; the flag of the result says whether the loop goes on.\<close>

definition normalize_round :: "normalized_command_peel \<Rightarrow> normalized_command_peel \<times> bool" where
  "normalize_round s =
     (let wrapped = unwrap_wrappers_checked (nc_words s);
          s1 = \<lparr>nc_words = cw_words wrapped,
                nc_has_chdir = (nc_has_chdir s \<or> cw_has_chdir wrapped),
                nc_has_split_string = (nc_has_split_string s \<or> cw_has_split_string wrapped),
                nc_env_options_uncertain = (nc_env_options_uncertain s \<or> cw_env_options_uncertain wrapped),
                nc_exhausted = (nc_exhausted s \<or> cw_exhausted wrapped),
                nc_ambiguous = nc_ambiguous s\<rparr>
      in if nc_has_split_string s1 \<or> nc_env_options_uncertain s1 then (s1, False)
         else case peel_transparent_prefixes (nc_words s1) of
             PeelAmbiguous \<Rightarrow> (s1\<lparr>nc_ambiguous := True\<rparr>, False)
           | Ready inner \<Rightarrow> (s1\<lparr>nc_words := inner\<rparr>, length inner \<noteq> length (nc_words s)))"

fun normalize_loop :: "nat \<Rightarrow> normalized_command_peel \<Rightarrow> normalized_command_peel" where
  "normalize_loop 0 s = s"
| "normalize_loop (Suc n) s =
     (let (s', continue) = normalize_round s in if continue then normalize_loop n s' else s')"

definition normalize_command_words :: "argv \<Rightarrow> normalized_command_peel" where
  "normalize_command_words words =
     (let s = normalize_loop MAX_NORMALIZE_ROUNDS
        \<lparr>nc_words = words, nc_has_chdir = False, nc_has_split_string = False,
         nc_env_options_uncertain = False, nc_exhausted = False, nc_ambiguous = False\<rparr>
      in if \<not> nc_ambiguous s \<and> \<not> nc_has_split_string s \<and> \<not> nc_env_options_uncertain s \<and>
           (is_wrapper_command (nc_words s) \<and> strip_wrapper_command (nc_words s) \<noteq> None \<or>
            strip_transparent_prefix (nc_words s) \<noteq> NotPrefix)
         then s\<lparr>nc_exhausted := True\<rparr> else s)"

end
