(* ===== verification/Shell_Normalize.thy ===== *)
theory Shell_Normalize
  imports Shell_Words
begin

text \<open>
  What \<open>normalize_command_words\<close> computes.  \<open>peel\<close> removes one wrapper or one transparent
  prefix; it is deterministic and shortens the vector, so every command has one innermost form.
  The bounded loops find it, with the right flags, for chains of up to eight layers, and never
  report an unfinished peeling as clean.  A packed \<open>env -S\<close> that only surfaces after the sixteen
  rounds are used up is not flagged.
\<close>

section \<open>Peeling one layer\<close>

inductive peel :: "argv \<Rightarrow> argv \<Rightarrow> bool" where
  peel_wrapper: "strip_wrapper_command ws = Some inner \<Longrightarrow> peel ws inner"
| peel_transparent: "strip_transparent_prefix ws = Peeled inner \<Longrightarrow> peel ws inner"

inductive_simps peel_iff: "peel ws inner"

definition innermost :: "argv \<Rightarrow> bool" where
  "innermost ws \<longleftrightarrow> strip_wrapper_command ws = None \<and> (\<forall>inner. strip_transparent_prefix ws \<noteq> Peeled inner)"

definition packed :: "argv \<Rightarrow> bool" where
  "packed ws \<longleftrightarrow> heads_env ws \<and> es_has_split_string (env_scan ws)"

definition env_uncertain :: "argv \<Rightarrow> bool" where
  "env_uncertain ws \<longleftrightarrow> heads_env ws \<and> es_options_uncertain (env_scan ws)"

lemma innermost_iff: "innermost ws \<longleftrightarrow> (\<nexists>inner. peel ws inner)"
  by (auto simp: innermost_def peel_iff) (metis option.exhaust)

lemma scan_start_ge: "i \<le> es_command_start (env_scan_loop ws i c)"
  by (induction ws i c rule: env_scan_loop.induct)
     (auto simp: scan_done_def scan_uncertain_def scan_split_def split: env_step.split list.split,
      (metis Suc_leD)+)

lemma skip_options_ge: "i \<le> skip_options two ws i"
  by (induction two ws i rule: skip_options.induct) (auto intro: Suc_leD add_leD1)

lemma inner_from_Some:
  "inner_from ws i = Some inner \<Longrightarrow> 0 < i \<Longrightarrow> strict_suffix inner ws \<and> inner \<noteq> []"
  by (auto simp: inner_from_def strict_suffix_def suffix_drop split: if_splits)
     (metis diff_less length_drop less_not_refl length_greater_0_conv list.size(3) not_less0)

lemma strip_wrapper_Some:
  assumes "strip_wrapper_command ws = Some inner"
  shows "strict_suffix inner ws \<and> inner \<noteq> []" and "is_wrapper_command ws"
    and "strip_transparent_prefix ws = NotPrefix" and "\<not> packed ws \<and> \<not> env_uncertain ws"
proof -
  obtain w args where ws: "ws = w # args"
    using assms by (cases ws) (simp_all add: strip_wrapper_command_def)
  have skip: "0 < skip_options two args 1" "0 < es_command_start (env_scan ws)" for two
    using skip_options_ge [of 1 two args] scan_start_ge [of 1 "drop 1 ws" None] by (simp_all add: env_scan_def)
  show "strict_suffix inner ws \<and> inner \<noteq> []"
    using assms inner_from_Some [of ws _ inner] skip
    by (simp add: strip_wrapper_command_def ws Let_def split: if_splits)
  show "is_wrapper_command ws"
    using assms by (simp add: strip_wrapper_command_def is_wrapper_command_def ws Let_def split: if_splits)
  show "strip_transparent_prefix ws = NotPrefix"
    using assms
    by (simp add: strip_wrapper_command_def strip_transparent_prefix_def ws Let_def split: if_splits)
  show "\<not> packed ws \<and> \<not> env_uncertain ws"
    using assms
    by (simp add: strip_wrapper_command_def packed_def env_uncertain_def heads_env_def ws Let_def
        split: if_splits)
qed

lemma strip_prefix_loop_Peeled: "strip_prefix_loop f ws = Peeled inner \<Longrightarrow> suffix inner ws \<and> inner \<noteq> []"
  by (induction f ws rule: strip_prefix_loop.induct)
     (auto simp: peeled_or_not_def suffix_ConsI split: prefix_step.splits list.splits if_splits)

lemma strip_transparent_Peeled:
  assumes "strip_transparent_prefix ws = Peeled inner"
  shows "strict_suffix inner ws \<and> inner \<noteq> []"
proof -
  obtain h args where ws: "ws = h # args"
    using assms by (cases ws) (simp_all add: strip_transparent_prefix_def)
  with assms have "suffix inner args \<and> inner \<noteq> []"
    using strip_prefix_loop_Peeled [of _ args inner]
    by (auto simp: strip_transparent_prefix_def strip_exec_prefix_def strip_command_prefix_def
        strip_builtin_prefix_def split: if_splits list.splits)
  with ws show ?thesis
    by (auto simp: strict_suffix_def suffix_ConsI dest: suffix_length_le)
qed

lemma peel_suffix: "peel ws inner \<Longrightarrow> strict_suffix inner ws \<and> inner \<noteq> []"
  using strip_wrapper_Some(1) strip_transparent_Peeled by (auto simp: peel_iff)

lemma peel_deterministic: "peel ws a \<Longrightarrow> peel ws b \<Longrightarrow> a = b"
  using strip_wrapper_Some(3) by (fastforce simp: peel_iff)

lemma peels_suffix: "peel\<^sup>*\<^sup>* ws w \<Longrightarrow> suffix w ws"
  by (induction rule: rtranclp_induct) (auto dest!: peel_suffix simp: strict_suffix_def)

lemma packed_innermost: "packed ws \<or> env_uncertain ws \<Longrightarrow> innermost ws"
proof -
  assume pk: "packed ws \<or> env_uncertain ws"
  then obtain w args where "ws = w # args" "basename w = lit ''env''"
    by (cases ws) (auto simp: packed_def env_uncertain_def heads_env_def)
  with pk show ?thesis
    using strip_wrapper_Some(4) [of ws]
    by (cases "strip_wrapper_command ws") (simp_all add: innermost_def strip_transparent_prefix_def)
qed

lemma env_not_ambiguous: "heads_env ws \<Longrightarrow> strip_transparent_prefix ws = NotPrefix"
  by (cases ws) (simp_all add: heads_env_def strip_transparent_prefix_def)

lemma peels_from_innermost: "(peel ^^ k) ws w \<Longrightarrow> innermost ws \<Longrightarrow> k = 0 \<and> w = ws"
  by (cases k) (auto simp: innermost_iff simp del: relpowp.simps(2) dest: relpowp_Suc_D2)

lemma peels_first:
  assumes "(peel ^^ k) ws w" "innermost w" "peel ws inner"
  obtains k' where "k = Suc k'" "(peel ^^ k') inner w"
proof (cases k)
  case 0
  with assms show ?thesis by (auto simp: innermost_iff)
next
  case (Suc k')
  with assms show ?thesis by (metis relpowp_Suc_D2 peel_deterministic that)
qed

lemma relpowp_peel_suffix: "(peel ^^ k) ws w \<Longrightarrow> suffix w ws"
  by (meson peels_suffix relpowp_imp_rtranclp)

section \<open>The bounded loops\<close>

lemma unwrap_wrappers_loop_peels: "peel\<^sup>*\<^sup>* ws (cw_words (unwrap_wrappers_loop n ws chd spl unc))"
  by (induction n ws chd spl unc rule: unwrap_wrappers_loop.induct)
     (auto simp: Let_def split: option.split intro: converse_rtranclp_into_rtranclp peel_wrapper)

text \<open>
  With enough budget the wrapper loop stops at a word list that is no wrapper; the flags it adds are
  those of that list, unless it ran to the end of its budget and did not look at it.
\<close>

lemma unwrap_wrappers_loop_exact:
  assumes "(peel ^^ k) cur w" "innermost w" "k \<le> n" "r = unwrap_wrappers_loop n cur chd spl unc"
  shows "\<exists>a j b. k = a + j \<and> (peel ^^ a) cur (cw_words r) \<and> (peel ^^ j) (cw_words r) w \<and>
     strip_wrapper_command (cw_words r) = None \<and> \<not> cw_exhausted r \<and>
     cw_has_split_string r = (spl \<or> b \<and> packed (cw_words r)) \<and>
     cw_env_options_uncertain r = (unc \<or> b \<and> env_uncertain (cw_words r)) \<and>
     (a = 0 \<and> 0 < n \<longrightarrow> b)"
  using assms
proof (induction n arbitrary: k cur chd spl unc r)
  case 0
  then show ?case
    by (intro exI [of _ 0] exI [of _ False]) (auto simp: innermost_def)
next
  case (Suc n)
  show ?case
  proof (cases "strip_wrapper_command cur")
    case None
    with Suc.prems show ?thesis
      by (intro exI [of _ 0] exI [of _ k] exI [of _ True]) (auto simp: packed_def env_uncertain_def Let_def)
  next
    case (Some inner)
    then have step: "peel cur inner" and pk: "\<not> packed cur" "\<not> env_uncertain cur"
      using strip_wrapper_Some(4) by (auto intro: peel_wrapper)
    obtain k' where k: "k = Suc k'" "(peel ^^ k') inner w"
      using peels_first [OF Suc.prems(1,2) step] .
    define chd' where "chd' = (chd \<or> heads_env cur \<and> es_chdir (env_scan cur) \<noteq> None)"
    have r: "r = unwrap_wrappers_loop n inner chd' spl unc"
      using Suc.prems(4) Some pk
      by (cases "heads_env cur") (simp_all add: packed_def env_uncertain_def Let_def chd'_def)
    from Suc.IH [OF k(2) Suc.prems(2) _ r] k(1) Suc.prems(3)
    obtain a j b where *: "k' = a + j" "(peel ^^ a) inner (cw_words r)" "(peel ^^ j) (cw_words r) w"
      "strip_wrapper_command (cw_words r) = None" "\<not> cw_exhausted r"
      "cw_has_split_string r = (spl \<or> b \<and> packed (cw_words r))"
      "cw_env_options_uncertain r = (unc \<or> b \<and> env_uncertain (cw_words r))"
      by auto
    from step *(2) have "(peel ^^ Suc a) cur (cw_words r)"
      by (rule relpowp_Suc_I2)
    with * k(1) show ?thesis
      by (intro exI [of _ "Suc a"] exI [of _ j] exI [of _ b]) simp
  qed
qed

lemma peel_transparent_loop_peels: "peel_transparent_loop n ws = Ready v \<Longrightarrow> peel\<^sup>*\<^sup>* ws v"
  by (induction n ws rule: peel_transparent_loop.induct)
     (auto split: transparent_strip.splits intro: converse_rtranclp_into_rtranclp peel_transparent)

lemma peel_transparent_loop_exact:
  assumes "(peel ^^ k) cur w" "innermost w" "k \<le> n"
  shows "(case peel_transparent_loop n cur of
      PeelAmbiguous \<Rightarrow> strip_transparent_prefix w = Ambiguous
    | Ready v \<Rightarrow> strip_transparent_prefix v = NotPrefix \<and>
        (\<exists>a j. k = a + j \<and> (peel ^^ a) cur v \<and> (peel ^^ j) v w))"
  using assms
proof (induction n arbitrary: k cur)
  case 0
  then show ?case
    by (auto simp: innermost_def split: transparent_strip.split)
next
  case (Suc n)
  show ?case
  proof (cases "strip_transparent_prefix cur")
    case NotPrefix
    with Suc.prems(1) have "\<exists>a j. k = a + j \<and> (peel ^^ a) cur cur \<and> (peel ^^ j) cur w"
      by (intro exI [of _ 0] exI [of _ k]) simp
    with NotPrefix show ?thesis
      by simp
  next
    case Ambiguous
    then have "innermost cur"
      using strip_wrapper_Some(3) [of cur] by (cases "strip_wrapper_command cur") (auto simp: innermost_def)
    with Suc.prems Ambiguous show ?thesis
      by (auto dest: peels_from_innermost)
  next
    case (Peeled inner)
    then have step: "peel cur inner"
      by (rule peel_transparent)
    obtain k' where k: "k = Suc k'" "(peel ^^ k') inner w"
      using peels_first [OF Suc.prems(1,2) step] .
    show ?thesis
    proof (cases "peel_transparent_loop n inner")
      case (Ready v)
      with Suc.IH [OF k(2) Suc.prems(2)] k(1) Suc.prems(3)
      obtain a j where "strip_transparent_prefix v = NotPrefix" "k' = a + j" "(peel ^^ a) inner v" "(peel ^^ j) v w"
        by auto
      moreover from step this(3) have "(peel ^^ Suc a) cur v"
        by (rule relpowp_Suc_I2)
      ultimately have "\<exists>a j. k = a + j \<and> (peel ^^ a) cur v \<and> (peel ^^ j) v w"
        using k(1) by (intro exI [of _ "Suc a"] exI [of _ j]) simp
      with Peeled Ready \<open>strip_transparent_prefix v = NotPrefix\<close> show ?thesis
        by simp
    qed (use Suc.IH [OF k(2) Suc.prems(2)] k(1) Suc.prems(3) Peeled in auto)
  qed
qed

lemma normalize_round_peels: "peel\<^sup>*\<^sup>* (nc_words s) (nc_words (fst (normalize_round s)))"
  using unwrap_wrappers_loop_peels [of "nc_words s" MAX_WRAPPER_DEPTH False False False]
  by (auto simp: normalize_round_def Let_def unwrap_wrappers_checked_def peel_transparent_prefixes_def
      split: transparent_prefix_peel.split dest!: peel_transparent_loop_peels)

lemma normalize_loop_peels: "peel\<^sup>*\<^sup>* (nc_words s) (nc_words (normalize_loop n s))"
proof (induction n arbitrary: s)
  case (Suc n)
  then show ?case
    using normalize_round_peels [of s] by (auto simp: split_beta intro: rtranclp_trans)
qed simp

definition unflagged :: "normalized_command_peel \<Rightarrow> bool" where
  "unflagged s \<longleftrightarrow> \<not> nc_has_split_string s \<and> \<not> nc_env_options_uncertain s \<and> \<not> nc_exhausted s \<and> \<not> nc_ambiguous s"

text \<open>What an exact result for the innermost form \<open>w\<close> is.\<close>

definition normalized_to :: "argv \<Rightarrow> normalized_command_peel \<Rightarrow> bool" where
  "normalized_to w s \<longleftrightarrow>
     nc_has_split_string s = packed w \<and> nc_env_options_uncertain s = env_uncertain w \<and>
     nc_ambiguous s = (strip_transparent_prefix w = Ambiguous) \<and> \<not> nc_exhausted s \<and>
     (\<not> nc_ambiguous s \<longrightarrow> nc_words s = w)"

lemma normalize_loop_exact:
  assumes "(peel ^^ k) (nc_words s) w" "innermost w" "k \<le> 8" "k < n" "unflagged s"
  shows "normalized_to w (normalize_loop n s)"
  using assms
proof (induction n arbitrary: k s)
  case (Suc n)
  define u where "u = unwrap_wrappers_loop 8 (nc_words s) False False False"
  have flags: "\<not> nc_has_split_string s" "\<not> nc_env_options_uncertain s" "\<not> nc_exhausted s" "\<not> nc_ambiguous s"
    using Suc.prems(5) by (simp_all add: unflagged_def)
  obtain a j b where u: "k = a + j" "(peel ^^ a) (nc_words s) (cw_words u)" "(peel ^^ j) (cw_words u) w"
    "strip_wrapper_command (cw_words u) = None" "\<not> cw_exhausted u"
    "cw_has_split_string u = (b \<and> packed (cw_words u))"
    "cw_env_options_uncertain u = (b \<and> env_uncertain (cw_words u))" "a = 0 \<longrightarrow> b"
    using unwrap_wrappers_loop_exact [OF Suc.prems(1,2,3) u_def] by auto
  show ?case
  proof (cases "cw_has_split_string u \<or> cw_env_options_uncertain u")
    case True
    then have "packed (cw_words u) \<or> env_uncertain (cw_words u)" "b"
      using u by auto
    moreover from this have w: "w = cw_words u"
      using packed_innermost peels_from_innermost [OF u(3)] by blast
    moreover have "strip_transparent_prefix (cw_words u) = NotPrefix"
      using calculation(1) env_not_ambiguous by (auto simp: packed_def env_uncertain_def)
    ultimately show ?thesis
      using True flags u
      by (auto simp: normalize_round_def Let_def unwrap_wrappers_checked_def MAX_WRAPPER_DEPTH_def u_def [symmetric]
          normalized_to_def)
  next
    case False
    then have round: "normalize_round s =
        (let s1 = \<lparr>nc_words = cw_words u, nc_has_chdir = (nc_has_chdir s \<or> cw_has_chdir u), nc_has_split_string = False,
           nc_env_options_uncertain = False, nc_exhausted = False, nc_ambiguous = False\<rparr> in
         case peel_transparent_loop 8 (cw_words u) of
             PeelAmbiguous \<Rightarrow> (s1\<lparr>nc_ambiguous := True\<rparr>, False)
           | Ready inner \<Rightarrow> (s1\<lparr>nc_words := inner\<rparr>, length inner \<noteq> length (nc_words s)))"
      using flags u(5)
      by (simp add: normalize_round_def Let_def unwrap_wrappers_checked_def peel_transparent_prefixes_def
          MAX_WRAPPER_DEPTH_def MAX_TRANSPARENT_PREFIX_DEPTH_def u_def [symmetric]
          split: transparent_prefix_peel.split)
    have j8: "j \<le> 8"
      using u(1) Suc.prems(3) by simp
    note tr = peel_transparent_loop_exact [OF u(3) Suc.prems(2) j8]
    show ?thesis
    proof (cases "peel_transparent_loop 8 (cw_words u)")
      case PeelAmbiguous
      with tr have amb: "strip_transparent_prefix w = Ambiguous" by simp
      then have "\<not> packed w" "\<not> env_uncertain w"
        using env_not_ambiguous [of w] by (auto simp: packed_def env_uncertain_def)
      with amb PeelAmbiguous show ?thesis
        by (simp add: round normalized_to_def)
    next
      case (Ready v)
      with tr obtain a' j' where v: "strip_transparent_prefix v = NotPrefix" "j = a' + j'"
        "(peel ^^ a') (cw_words u) v" "(peel ^^ j') v w"
        by auto
      show ?thesis
      proof (cases "length v = length (nc_words s)")
        case True
        have "suffix v (cw_words u)" "suffix (cw_words u) (nc_words s)"
          using relpowp_peel_suffix v(3) u(2) by blast+
        with True have same: "v = cw_words u" "cw_words u = nc_words s"
          by (auto simp: suffix_def)
        then have "innermost v"
          using u(4) v(1) by (simp add: innermost_def)
        with v(4) have "w = v" "a + a' + j' = k"
          using peels_from_innermost u(1) v(2) by auto
        moreover have "a = 0"
          using peels_from_innermost [OF u(2)] same \<open>innermost v\<close> by simp
        ultimately show ?thesis
          using True False Ready u same v(1) by (simp add: round normalized_to_def)
      next
        case changed: False
        have "a + a' \<noteq> 0"
          using changed u(2) v(3) by (cases a; cases a') auto
        with u(1) v(2) Suc.prems have "j' \<le> 8" "j' < n"
          by auto
        from Suc.IH [OF _ Suc.prems(2) this] v(4) show ?thesis
          using Ready changed by (simp add: round unflagged_def)
      qed
    qed
  qed
qed simp

section \<open>Normalisation\<close>

lemma normalize_budget: "MAX_NORMALIZE_ROUNDS = 16"
  by (simp add: MAX_NORMALIZE_ROUNDS_def MAX_WRAPPER_DEPTH_def MAX_TRANSPARENT_PREFIX_DEPTH_def)

lemma normalize_unflagged_innermost:
  "unflagged (normalize_command_words ws) \<Longrightarrow>
   innermost (nc_words (normalize_command_words ws)) \<and>
   strip_transparent_prefix (nc_words (normalize_command_words ws)) = NotPrefix"
  using strip_wrapper_Some(2)
  by (fastforce simp: normalize_command_words_def Let_def unflagged_def innermost_def split: if_splits)

lemma normalize_peels: "peel\<^sup>*\<^sup>* ws (nc_words (normalize_command_words ws))"
  using normalize_loop_peels [of "\<lparr>nc_words = ws, nc_has_chdir = False, nc_has_split_string = False,
         nc_env_options_uncertain = False, nc_exhausted = False, nc_ambiguous = False\<rparr>"]
  by (simp add: normalize_command_words_def Let_def)

lemma normalize_suffix: "suffix (nc_words (normalize_command_words ws)) ws"
  by (rule peels_suffix [OF normalize_peels])

lemma normalize_exact:
  assumes "(peel ^^ k) ws w" "innermost w" "k \<le> 8"
  shows "normalized_to w (normalize_command_words ws)"
proof -
  let ?s = "normalize_loop MAX_NORMALIZE_ROUNDS
        \<lparr>nc_words = ws, nc_has_chdir = False, nc_has_split_string = False,
         nc_env_options_uncertain = False, nc_exhausted = False, nc_ambiguous = False\<rparr>"
  have *: "normalized_to w ?s"
    using assms by (intro normalize_loop_exact [of k]) (simp_all add: normalize_budget unflagged_def)
  then have "normalize_command_words ws = ?s"
    using assms(2)
    by (cases "strip_transparent_prefix w")
       (auto simp: normalize_command_words_def Let_def normalized_to_def innermost_def)
  with * show ?thesis by simp
qed

text \<open>
  C18. Normalisation of a command removes only whole wrapper and prefix layers; a result without any
  flag has no layer left to remove; and for a command of at most eight layers it ends at the
  innermost form and its flags say exactly whether that form is a packed \<open>env -S\<close>, an \<open>env\<close>
  with unmodelled options, or an ambiguous prefix.
\<close>

theorem normalize_command_words_correct:
  "(let n = normalize_command_words ws in
     peel\<^sup>*\<^sup>* ws (nc_words n) \<and>
     (unflagged n \<longrightarrow> innermost (nc_words n)) \<and>
     (\<forall>k w. (peel ^^ k) ws w \<and> innermost w \<and> k \<le> 8 \<longrightarrow> normalized_to w n))"
  using normalize_peels normalize_unflagged_innermost normalize_exact by (auto simp: Let_def)

definition ex_wrapped :: argv where
  "ex_wrapped = [lit ''command'', lit ''timeout'', lit ''-k'', lit ''1'', lit ''5'', lit ''rm'', lit ''-rf'']"

lemma ex_wrapped_peels: "(peel ^^ 2) ex_wrapped [lit ''rm'', lit ''-rf'']"
proof -
  have "peel ex_wrapped (tl ex_wrapped)"
    by (rule peel_transparent) code_simp
  moreover have "peel (tl ex_wrapped) [lit ''rm'', lit ''-rf'']"
    by (rule peel_wrapper) code_simp
  ultimately show ?thesis
    by (auto simp: numeral_2_eq_2)
qed

lemma ex_rm_innermost: "innermost [lit ''rm'', lit ''-rf'']"
proof -
  have "strip_wrapper_command [lit ''rm'', lit ''-rf''] = None"
    "strip_transparent_prefix [lit ''rm'', lit ''-rf''] = NotPrefix"
    by code_simp+
  then show ?thesis by (simp add: innermost_def)
qed

theorem normalize_command_words_correct_witness:
  "nc_words (normalize_command_words ex_wrapped) = [lit ''rm'', lit ''-rf''] \<and>
   unflagged (normalize_command_words ex_wrapped) \<and> innermost (nc_words (normalize_command_words ex_wrapped))"
proof -
  have n: "normalized_to [lit ''rm'', lit ''-rf''] (normalize_command_words ex_wrapped)"
    using normalize_command_words_correct [of ex_wrapped] ex_wrapped_peels ex_rm_innermost
    unfolding Let_def by (elim conjE allE [of _ 2] allE [of _ "[lit ''rm'', lit ''-rf'']"]) simp
  have "\<not> packed [lit ''rm'', lit ''-rf'']" "\<not> env_uncertain [lit ''rm'', lit ''-rf'']"
    "strip_transparent_prefix [lit ''rm'', lit ''-rf''] = NotPrefix"
    by code_simp+
  with n show ?thesis
    using ex_rm_innermost by (simp add: normalized_to_def unflagged_def)
qed

text \<open>Sixteen alternating layers around a packed \<open>env -S\<close> with an escape in the pack.\<close>

definition ex_late_pack :: argv where
  "ex_late_pack = lit ''command'' # concat (replicate 15 [lit ''nice'', lit ''command'']) @
     [lit ''env'', lit ''-S'', lit ''rm'' @ [92] @ lit ''t-rf'']"

text \<open>
  One round of the loop on \<open>nice command ...\<close> removes both words and goes on, so sixteen of
  them use up the budget.
\<close>

abbreviation clean_peel :: "argv \<Rightarrow> normalized_command_peel" where
  "clean_peel ws \<equiv> \<lparr>nc_words = ws, nc_has_chdir = False, nc_has_split_string = False,
     nc_env_options_uncertain = False, nc_exhausted = False, nc_ambiguous = False\<rparr>"

lemma heads_of_words:
  "basename (lit ''command'') = lit ''command''" "basename (lit ''nice'') = lit ''nice''"
  "basename (lit ''env'') = lit ''env''"
  by code_simp+

lemma command_peels_once:
  assumes "h \<in> {lit ''nice'', lit ''env''}"
  shows "strip_transparent_prefix (lit ''command'' # h # rest) = Peeled (h # rest)"
    and "peel_transparent_loop 8 (lit ''command'' # h # rest) = Ready (h # rest)"
    and "unwrap_wrappers_loop 8 (lit ''command'' # h # rest) False False False =
      \<lparr>cw_words = lit ''command'' # h # rest, cw_has_chdir = False, cw_has_split_string = False,
       cw_env_options_uncertain = False, cw_exhausted = False\<rparr>"
proof -
  have step: "command_step_of h = PrefixStop"
    using assms by (elim insertE) (simp_all, code_simp+)
  show one: "strip_transparent_prefix (lit ''command'' # h # rest) = Peeled (h # rest)"
    using step heads_of_words by (simp add: strip_transparent_prefix_def strip_command_prefix_def)
  have two: "strip_transparent_prefix (h # rest) = NotPrefix"
    using assms heads_of_words by (auto simp: strip_transparent_prefix_def)
  show "peel_transparent_loop 8 (lit ''command'' # h # rest) = Ready (h # rest)"
    using one two by (simp add: numeral_eq_Suc)
  show "unwrap_wrappers_loop 8 (lit ''command'' # h # rest) False False False =
      \<lparr>cw_words = lit ''command'' # h # rest, cw_has_chdir = False, cw_has_split_string = False,
       cw_env_options_uncertain = False, cw_exhausted = False\<rparr>"
    using heads_of_words
    by (simp add: eval_nat_numeral strip_wrapper_command_def heads_env_def Let_def)
qed

lemma nice_peels_once:
  "unwrap_wrappers_loop 8 (lit ''nice'' # lit ''command'' # rest) False False False =
      \<lparr>cw_words = lit ''command'' # rest, cw_has_chdir = False, cw_has_split_string = False,
       cw_env_options_uncertain = False, cw_exhausted = False\<rparr>"
proof -
  have "\<not> starts_with (lit ''-'') (lit ''command'')"
    by code_simp
  then have "strip_wrapper_command (lit ''nice'' # lit ''command'' # rest) = Some (lit ''command'' # rest)"
    "strip_wrapper_command (lit ''command'' # rest) = None"
    using heads_of_words by (simp_all add: strip_wrapper_command_def inner_from_def)
  then show ?thesis
    using heads_of_words by (simp add: numeral_eq_Suc heads_env_def Let_def)
qed

lemma late_rounds:
  assumes "h \<in> {lit ''nice'', lit ''env''}"
  shows "normalize_round (clean_peel (lit ''command'' # h # rest)) = (clean_peel (h # rest), True)"
    and "normalize_round (clean_peel (lit ''nice'' # lit ''command'' # h # rest)) = (clean_peel (h # rest), True)"
  using command_peels_once [OF assms, of rest] nice_peels_once [of "h # rest"]
  by (simp_all add: normalize_round_def unwrap_wrappers_checked_def peel_transparent_prefixes_def
      MAX_WRAPPER_DEPTH_def MAX_TRANSPARENT_PREFIX_DEPTH_def del: lit_simps)

lemma late_loop:
  "normalize_loop k (clean_peel (concat (replicate k [lit ''nice'', lit ''command'']) @ lit ''env'' # rest)) =
   clean_peel (lit ''env'' # rest)"
proof (induction k)
  case (Suc k)
  let ?ws = "concat (replicate k [lit ''nice'', lit ''command'']) @ lit ''env'' # rest"
  obtain h t where "?ws = h # t" "h \<in> {lit ''nice'', lit ''env''}"
    by (cases k) (auto simp del: lit_simps)
  then show ?case
    using late_rounds(2) [of h t] Suc.IH by (simp del: lit_simps)
qed simp

text \<open>
  The sixteen rounds can be used up right before a packed \<open>env -S\<close>: the command
  \<open>command nice command nice ... env -S PACK\<close> normalises to the \<open>env -S\<close> invocation
  without any flag, so the floor that makes the gates ask for every packed command is missing.
\<close>

theorem late_pack_unflagged:
  "unflagged (normalize_command_words ex_late_pack) \<and>
   packed (nc_words (normalize_command_words ex_late_pack)) \<and>
   nc_words (normalize_command_words ex_late_pack) = [lit ''env'', lit ''-S'', lit ''rm'' @ [92] @ lit ''t-rf'']"
proof -
  let ?env = "[lit ''env'', lit ''-S'', lit ''rm'' @ [92] @ lit ''t-rf'']"
  let ?tail = "concat (replicate 15 [lit ''nice'', lit ''command'']) @ ?env"
  have first: "normalize_round (clean_peel (lit ''command'' # ?tail)) = (clean_peel ?tail, True)"
    using late_rounds(1) [of "lit ''nice''"] by (simp add: numeral_eq_Suc del: lit_simps)
  have "normalize_loop (Suc 15) (clean_peel (lit ''command'' # ?tail)) = clean_peel ?env"
    unfolding normalize_loop.simps first Let_def prod.case if_True by (rule late_loop)
  moreover have "packed ?env" "strip_wrapper_command ?env = None" "strip_transparent_prefix ?env = NotPrefix"
    by code_simp+
  ultimately show ?thesis
    by (simp add: normalize_command_words_def normalize_budget ex_late_pack_def unflagged_def del: lit_simps
        normalize_loop.simps)
qed

end
