(* ===== verification/Shell_Inline.thy ===== *)
theory Shell_Inline
  imports Shell_Words
begin

text \<open>
  The classifier of inline scripts, \<open>shell_dash_c_script\<close> of \<open>permission/policy.rs\<close>: whether an
  argument vector is a shell run with \<open>-c\<close>, and which word is the script.
\<close>

datatype shell_word = WLiteral str | WUntrusted

datatype inline_shell_script = NotInline | InlineLiteral nat | InlineUntrusted | InlineUnrecognized

definition is_potential_inline :: "inline_shell_script \<Rightarrow> bool" where
  "is_potential_inline s = (case s of InlineLiteral _ \<Rightarrow> True | InlineUntrusted \<Rightarrow> True | _ \<Rightarrow> False)"

definition shell_programs :: "str set" where
  "shell_programs = {lit ''bash'', lit ''sh'', lit ''dash'', lit ''zsh'', lit ''ksh''}"

text \<open>What one literal word makes the option loop do, in the order of its tests.\<close>

datatype shell_step =
    ShEnd          \<comment> \<open>\<open>--\<close> or \<open>-\<close>\<close>
  | ShOperand      \<comment> \<open>a word that is no option\<close>
  | ShFile         \<comment> \<open>an option with a file operand\<close>
  | ShSkip
  | ShLong         \<comment> \<open>an unmodelled long option\<close>
  | ShSetOption    \<comment> \<open>\<open>-o\<close> and its relatives, with an operand\<close>
  | ShAmbiguous
  | ShFlags bool   \<comment> \<open>short flags, and whether they hold a \<open>c\<close>\<close>

definition shell_step_of :: "str \<Rightarrow> shell_step" where
  "shell_step_of word =
     (if word = lit ''--'' \<or> word = lit ''-'' then ShEnd
      else if \<not> starts_with (lit ''-'') word \<and> \<not> starts_with (lit ''+'') word then ShOperand
      else if word = lit ''--init-file'' \<or> word = lit ''--rcfile'' then ShFile
      else if starts_with (lit ''--'') word then
        (if word \<in> {lit ''--noprofile'', lit ''--norc'', lit ''--posix''} then ShSkip else ShLong)
      else if word \<in> {lit ''-o'', lit ''+o'', lit ''-O'', lit ''+O''} then ShSetOption
      else if starts_with (lit ''-O'') word \<and> str_len word > 2 then ShSkip
      else if (starts_with (lit ''+O'') word \<or> starts_with (lit ''+o'') word) \<and> str_len word > 2 then ShSkip
      else if starts_with (lit ''-o'') word \<and> str_len word > 2 then ShAmbiguous
      else if starts_with (lit ''+'') word then ShSkip
      else let flags = tl word in
        if 111 \<in> set flags \<or> 79 \<in> set flags then ShAmbiguous else ShFlags (99 \<in> set flags))"

definition ambiguous_result :: "bool \<Rightarrow> inline_shell_script" where
  "ambiguous_result saw_c = (if saw_c then InlineUntrusted else InlineUnrecognized)"

definition finish_literal :: "bool \<Rightarrow> nat \<Rightarrow> inline_shell_script" where
  "finish_literal dynamic_head index = (if dynamic_head then InlineUntrusted else InlineLiteral index)"

definition not_inline :: "bool \<Rightarrow> inline_shell_script" where
  "not_inline unrecognized = (if unrecognized then InlineUnrecognized else NotInline)"

text \<open>The option loop over the words from index \<open>i\<close> on.\<close>

fun dash_c_loop :: "bool \<Rightarrow> shell_word list \<Rightarrow> nat \<Rightarrow> bool \<Rightarrow> bool \<Rightarrow> inline_shell_script" where
  "dash_c_loop dyn [] i saw_c unrec = (if saw_c then InlineUntrusted else not_inline unrec)"
| "dash_c_loop dyn (WUntrusted # rest) i saw_c unrec = ambiguous_result saw_c"
| "dash_c_loop dyn (WLiteral word # rest) i saw_c unrec =
     (case shell_step_of word of
        ShEnd \<Rightarrow>
          (if \<not> saw_c then not_inline unrec
           else case rest of WLiteral _ # _ \<Rightarrow> finish_literal dyn (i + 1) | _ \<Rightarrow> InlineUntrusted)
      | ShOperand \<Rightarrow> (if saw_c then finish_literal dyn i else not_inline unrec)
      | ShFile \<Rightarrow>
          (case rest of
             WLiteral _ # rest' \<Rightarrow> dash_c_loop dyn rest' (i + 2) saw_c unrec
           | _ \<Rightarrow> ambiguous_result saw_c)
      | ShSkip \<Rightarrow> dash_c_loop dyn rest (i + 1) saw_c unrec
      | ShLong \<Rightarrow> (if saw_c then InlineUntrusted else dash_c_loop dyn rest (i + 1) saw_c True)
      | ShSetOption \<Rightarrow>
          (case rest of
             WLiteral value # rest' \<Rightarrow>
               if \<not> starts_with (lit ''-'') value then dash_c_loop dyn rest' (i + 2) saw_c unrec
               else ambiguous_result saw_c
           | _ \<Rightarrow> ambiguous_result saw_c)
      | ShAmbiguous \<Rightarrow> ambiguous_result saw_c
      | ShFlags c \<Rightarrow> dash_c_loop dyn rest (i + 1) (saw_c \<or> c) unrec)"

definition shell_dash_c_script :: "shell_word list \<Rightarrow> inline_shell_script" where
  "shell_dash_c_script words =
     (case words of
        [] \<Rightarrow> NotInline
      | WLiteral program # rest \<Rightarrow>
          if basename program \<notin> shell_programs then NotInline
          else dash_c_loop False rest 1 False False
      | WUntrusted # rest \<Rightarrow> dash_c_loop True rest 1 False False)"

text \<open>The classifier on an argument vector of literal words.\<close>

definition inline_script :: "argv \<Rightarrow> inline_shell_script" where
  "inline_script words = shell_dash_c_script (map WLiteral words)"

section \<open>Correctness\<close>

text \<open>An index the loop returns lies in the vector and names a literal word.\<close>

lemma dash_c_loop_index:
  "dash_c_loop dyn ws i saw_c unrec = InlineLiteral k \<Longrightarrow>
   \<not> dyn \<and> i \<le> k \<and> k < i + length ws \<and> (\<exists>s. ws ! (k - i) = WLiteral s)"
proof (induction dyn ws i saw_c unrec rule: dash_c_loop.induct)
  case (3 dyn word rest i saw_c unrec)
  then show ?case
    by (auto simp: finish_literal_def ambiguous_result_def not_inline_def nth_Cons'
        split: shell_step.splits if_splits list.splits shell_word.splits
        dest!: 3(2))
qed (auto simp: ambiguous_result_def not_inline_def split: if_splits)

lemma inline_script_index:
  "inline_script ws = InlineLiteral k \<Longrightarrow> 0 < k \<and> k < length ws"
  using dash_c_loop_index [of False "map WLiteral (tl ws)" 1 False False k]
  by (cases ws) (auto simp: inline_script_def shell_dash_c_script_def split: if_splits)

lemma shell_step_flags:
  "f \<noteq> [] \<Longrightarrow> hd f \<noteq> 45 \<Longrightarrow> 111 \<notin> set f \<Longrightarrow> 79 \<notin> set f \<Longrightarrow> shell_step_of (45 # f) = ShFlags (99 \<in> set f)"
  by (cases f) (auto simp: shell_step_of_def starts_with_def)

lemma dash_c_loop_flags:
  assumes "\<forall>f \<in> set fs. f \<noteq> [] \<and> hd f \<noteq> 45 \<and> 111 \<notin> set f \<and> 79 \<notin> set f"
  shows "dash_c_loop dyn (map (\<lambda>f. WLiteral (45 # f)) fs @ rest) i saw_c unrec =
    dash_c_loop dyn rest (i + length fs) (saw_c \<or> (\<exists>f \<in> set fs. 99 \<in> set f)) unrec"
  using assms by (induction fs arbitrary: i saw_c) (simp_all add: shell_step_flags disj_assoc)

text \<open>
  For a shell started with short flags other than \<open>o\<close> and \<open>O\<close>, the classifier returns the
  index of the first word that is no option exactly when one of the flags is \<open>c\<close>, and says that
  there is no inline script otherwise.
\<close>

theorem inline_script_exact:
  assumes "basename sh \<in> shell_programs"
    and "\<forall>f \<in> set fs. f \<noteq> [] \<and> hd f \<noteq> 45 \<and> 111 \<notin> set f \<and> 79 \<notin> set f"
    and "\<not> starts_with (lit ''-'') script" "\<not> starts_with (lit ''+'') script"
  shows "inline_script (sh # map (Cons 45) fs @ script # args) =
    (if \<exists>f \<in> set fs. 99 \<in> set f then InlineLiteral (length fs + 1) else NotInline)"
proof -
  have "shell_step_of script = ShOperand"
    using assms(3,4) by (auto simp: shell_step_of_def starts_with_def)
  then show ?thesis
    using assms(1) dash_c_loop_flags [OF assms(2), of False "map WLiteral (script # args)" 1 False False]
    by (simp add: inline_script_def shell_dash_c_script_def finish_literal_def not_inline_def comp_def)
qed

theorem inline_script_exact_witness:
  "inline_script [lit ''/bin/bash'', lit ''-e'', lit ''-lc'', lit ''rm x'', lit ''y''] = InlineLiteral 3"
proof -
  have "basename (lit ''/bin/bash'') \<in> shell_programs" "\<not> starts_with (lit ''-'') (lit ''rm x'')"
    "\<not> starts_with (lit ''+'') (lit ''rm x'')"
    by code_simp+
  then show ?thesis
    using inline_script_exact [of "lit ''/bin/bash''" "[lit ''e'', lit ''lc'']" "lit ''rm x''" "[lit ''y'']"]
    by simp
qed

end
