(* ===== verification/Shell_Tree.thy ===== *)
theory Shell_Tree
  imports Prelude "HOL-Library.Multiset"
begin

text \<open>
  Decomposition of a script into plain commands
  (\<open>permission/bash_command_splitting.rs\<close>, \<open>try_parse_word_only_commands_sequence\<close> and
  \<open>parse_plain_command_from_node\<close>).  The tree-sitter parser is a parameter; a tree is the data the
  code reads of it: kinds, named or anonymous nodes, the field of its parent a node fills,
  byte spans, children in source order, and
  whether the root reports an error.  The spans of a tree lie within its source.
\<close>

datatype node =
  Node (kind: str) (is_named: bool) (field_name: "str option") (start_byte: nat) (end_byte: nat) (children: "node list")

record tree =
  root_node :: node
  has_error :: bool

record plain_command =
  pc_words :: "str list"
  pc_span_start :: nat
  pc_span_end :: nat

definition ALLOWED_KINDS :: "str list" where
  "ALLOWED_KINDS = map lit [''program'', ''list'', ''pipeline'', ''command'', ''command_name'', ''word'', ''string'',
     ''string_content'', ''raw_string'', ''number'', ''concatenation'', ''variable_assignment'', ''variable_name'',
     ''redirected_statement'', ''file_redirect'', ''file_descriptor'', ''comment'', ''heredoc_redirect'',
     ''heredoc_start'', ''heredoc_body'', ''heredoc_content'', ''heredoc_end'']"

definition ALLOWED_PUNCT_TOKENS :: "str list" where
  "ALLOWED_PUNCT_TOKENS = map lit [''&&'', ''||'', '';'', ''|'', [CHR 0x22], [CHR 0x27], ''='', ''>'', ''>>'', ''<'',
     ''<<'', ''>&'', ''&>'', ''&>>'']"

text \<open>The test of one node; both rejections of an anonymous token are kept.\<close>

definition node_allowed :: "node \<Rightarrow> bool" where
  "node_allowed n \<longleftrightarrow>
     (if is_named n then kind n \<in> set ALLOWED_KINDS
      else \<not> ((\<exists>c \<in> set (kind n). c \<in> set (lit ''&;|'')) \<and> kind n \<notin> set ALLOWED_PUNCT_TOKENS) \<and>
           (kind n \<in> set ALLOWED_PUNCT_TOKENS \<or> trim (kind n) = []))"

definition is_command_node :: "node \<Rightarrow> bool" where
  "is_command_node n \<longleftrightarrow> is_named n \<and> kind n = lit ''command''"

text \<open>
  The walk with its stack (the top of the stack is the head of the list); children are pushed in
  source order, so the last one is visited first.
\<close>

lemma sum_size_children: "sum_list (map size (children n)) < size n"
  by (cases n) (simp add: size_list_conv_sum_list)

function (sequential) walk :: "node list \<Rightarrow> node list \<Rightarrow> node list option" where
  "walk [] command_nodes = Some command_nodes"
| "walk (n # stack) command_nodes =
     (if \<not> node_allowed n then None
      else walk (rev (children n) @ stack) (if is_command_node n then command_nodes @ [n] else command_nodes))"
  by pat_completeness auto
termination
  by (relation "measure (\<lambda>(stack, _). sum_list (map size stack))")
     (simp_all add: rev_map [symmetric] sum_size_children)

text \<open>\<open>node.utf8_text(src)\<close>: the bytes of the span, if they are a string.\<close>

definition utf8_text :: "str \<Rightarrow> node \<Rightarrow> str option" where
  "utf8_text src n =
     (case take_bytes src (end_byte n) of
        None \<Rightarrow> None
      | Some pre \<Rightarrow>
          (case take_bytes pre (start_byte n) of
             None \<Rightarrow> None
           | Some before \<Rightarrow> Some (drop (length before) pre)))"

abbreviation named_children :: "node \<Rightarrow> node list" where
  "named_children n \<equiv> filter is_named (children n)"

text \<open>The word one named child of a command contributes, with its span; \<open>Some None\<close> for an assignment.\<close>

definition child_word :: "str \<Rightarrow> node \<Rightarrow> (str \<times> nat \<times> nat) option option" where
  "child_word src child =
     (if kind child = lit ''variable_assignment'' then Some None
      else if kind child = lit ''command_name'' then
        (case named_children child of
           [] \<Rightarrow> None
         | word_node # _ \<Rightarrow>
             if kind word_node \<noteq> lit ''word'' then None
             else map_option (\<lambda>t. Some (t, start_byte word_node, end_byte word_node)) (utf8_text src word_node))
      else if kind child = lit ''word'' \<or> kind child = lit ''number'' then
        map_option (\<lambda>t. Some (t, start_byte child, end_byte child)) (utf8_text src child)
      else if kind child = lit ''string'' then
        (case children child of
           [a, content_node, b] \<Rightarrow>
             if kind a = lit [CHR 0x22] \<and> kind content_node = lit ''string_content'' \<and> kind b = lit [CHR 0x22]
             then map_option (\<lambda>t. Some (t, start_byte child, end_byte child)) (utf8_text src content_node)
             else None
         | _ \<Rightarrow> None)
      else if kind child = lit ''raw_string'' then
        (case utf8_text src child of
           None \<Rightarrow> None
         | Some raw \<Rightarrow>
             (case strip_prefix [39] raw of
                None \<Rightarrow> None
              | Some s \<Rightarrow>
                  if s \<noteq> [] \<and> last s = 39 then Some (Some (butlast s, start_byte child, end_byte child)) else None))
      else if kind child = lit ''concatenation'' then
        map_option (\<lambda>t. Some (t, start_byte child, end_byte child)) (utf8_text src child)
      else None)"

fun collect_words :: "str \<Rightarrow> node list \<Rightarrow> str list \<Rightarrow> nat option \<Rightarrow> nat option \<Rightarrow>
    (str list \<times> nat option \<times> nat option) option" where
  "collect_words src [] words s e = Some (words, s, e)"
| "collect_words src (child # rest) words s e =
     (case child_word src child of
        None \<Rightarrow> None
      | Some None \<Rightarrow> collect_words src rest words s e
      | Some (Some (t, a, b)) \<Rightarrow>
          collect_words src rest (words @ [t]) (if s = None then Some a else s) (Some b))"

definition parse_plain_command_from_node :: "node \<Rightarrow> str \<Rightarrow> plain_command option" where
  "parse_plain_command_from_node cmd src =
     (if kind cmd \<noteq> lit ''command'' then None
      else case collect_words src (named_children cmd) [] None None of
          None \<Rightarrow> None
        | Some (words, s, e) \<Rightarrow>
            Some \<lparr>pc_words = words,
              pc_span_start = (case s of Some a \<Rightarrow> a | None \<Rightarrow> start_byte cmd),
              pc_span_end = (case e of Some b \<Rightarrow> b | None \<Rightarrow> end_byte cmd)\<rparr>)"

text \<open>The loop that turns the command nodes into commands and stops at the first failure.\<close>

fun plain_commands :: "str \<Rightarrow> node list \<Rightarrow> plain_command list option" where
  "plain_commands src [] = Some []"
| "plain_commands src (n # ns) =
     (case parse_plain_command_from_node n src of
        None \<Rightarrow> None
      | Some cmd \<Rightarrow> map_option (Cons cmd) (plain_commands src ns))"

definition try_parse_word_only_commands_sequence :: "tree \<Rightarrow> str \<Rightarrow> plain_command list option" where
  "try_parse_word_only_commands_sequence t src =
     (if has_error t then None
      else case walk [root_node t] [] of
          None \<Rightarrow> None
        | Some command_nodes \<Rightarrow> plain_commands src (sort_key start_byte command_nodes))"

definition all_commands_from_script :: "(str \<Rightarrow> tree option) \<Rightarrow> str \<Rightarrow> plain_command list option" where
  "all_commands_from_script try_parse_shell script =
     (case try_parse_shell script of
        None \<Rightarrow> None
      | Some t \<Rightarrow> try_parse_word_only_commands_sequence t script)"

definition is_setup_command :: "str list \<Rightarrow> bool" where
  "is_setup_command cmd \<longleftrightarrow>
     (case cmd of
        [] \<Rightarrow> True
      | h # _ \<Rightarrow> h \<in> {lit ''cd'', lit ''pushd'', lit ''popd'', lit ''export'', lit ''unset'', lit ''set'',
          lit ''sleep'', lit ''timeout''})"

section \<open>The decomposition covers the tree\<close>

text \<open>The nodes of a tree in source order, a definition without a stack.\<close>

primrec subnodes :: "node \<Rightarrow> node list" where
  "subnodes (Node k nm f s e cs) = Node k nm f s e cs # concat (map subnodes cs)"

lemma subnodes_unfold: "subnodes n = n # concat (map subnodes (children n))"
  by (cases n) simp

lemma walk_None_iff:
  "walk stack acc = None \<longleftrightarrow> (\<exists>n \<in> set (concat (map subnodes stack)). \<not> node_allowed n)"
proof (induction stack acc rule: walk.induct)
  case (2 n stack acc)
  then show ?case
    by (auto simp: subnodes_unfold [of n])
qed simp

lemma walk_Some_mset:
  "walk stack acc = Some ns \<Longrightarrow> mset ns = mset acc + mset (filter is_command_node (concat (map subnodes stack)))"
proof (induction stack acc rule: walk.induct)
  case (2 n stack acc)
  have "mset (concat (rev xs)) = mset (concat xs)" for xs :: "node list list"
    by (induction xs) auto
  with 2 show ?case
    by (auto simp: subnodes_unfold [of n] rev_map [symmetric] split: if_splits)
qed simp

lemma plain_commands_Some_iff:
  "plain_commands src ns = Some cmds \<longleftrightarrow> list_all2 (\<lambda>n c. parse_plain_command_from_node n src = Some c) ns cmds"
  by (induction ns arbitrary: cmds) (auto simp: list_all2_Cons1 split: option.splits)

lemma plain_commands_None_iff:
  "plain_commands src ns = None \<longleftrightarrow> (\<exists>n \<in> set ns. parse_plain_command_from_node n src = None)"
  by (induction ns) (auto split: option.splits)

text \<open>
  C19. A script decomposes exactly when its tree has no error, every node of the tree is of an
  allowed kind, and every command node is plain; the result then lists, in source order, the plain
  form of each command node of the tree, so no command of the script is left out.  Command nodes
  start at different bytes.
\<close>

theorem decomposition_exact:
  assumes "distinct (map start_byte (filter is_command_node (subnodes (root_node t))))"
  shows "try_parse_word_only_commands_sequence t src = Some cmds \<longleftrightarrow>
    \<not> has_error t \<and> (\<forall>n \<in> set (subnodes (root_node t)). node_allowed n) \<and>
    list_all2 (\<lambda>n c. parse_plain_command_from_node n src = Some c)
      (sort_key start_byte (filter is_command_node (subnodes (root_node t)))) cmds"
proof (cases "walk [root_node t] []")
  case None
  then show ?thesis
    using walk_None_iff [of "[root_node t]" "[]"] by (auto simp: try_parse_word_only_commands_sequence_def)
next
  case (Some ns)
  let ?cs = "filter is_command_node (subnodes (root_node t))"
  have "mset ns = mset ?cs"
    using walk_Some_mset [OF Some] by simp
  then have "sort_key start_byte ?cs = sort_key start_byte ns"
    using assms by (intro sort_key_inj_key_eq) (auto simp: distinct_map)
  moreover have "\<forall>n \<in> set (subnodes (root_node t)). node_allowed n"
    using walk_None_iff [of "[root_node t]" "[]"] Some by auto
  ultimately show ?thesis
    using Some by (simp add: try_parse_word_only_commands_sequence_def plain_commands_Some_iff)
qed

text \<open>The tree of the script \<open>ls && rm x\<close>.\<close>

definition ex_word :: "nat \<Rightarrow> nat \<Rightarrow> node" where
  "ex_word a b = Node (lit ''word'') True None a b []"

definition ex_name :: "nat \<Rightarrow> nat \<Rightarrow> node" where
  "ex_name a b = Node (lit ''command_name'') True (Some (lit ''name'')) a b [ex_word a b]"

definition ex_script :: str where
  "ex_script = lit ''ls && rm x''"

definition ex_tree :: tree where
  "ex_tree = \<lparr>root_node = Node (lit ''program'') True None 0 10
     [Node (lit ''list'') True None 0 10
       [Node (lit ''command'') True None 0 2 [ex_name 0 2],
        Node (lit ''&&'') False None 3 5 [],
        Node (lit ''command'') True None 6 10 [ex_name 6 8, ex_word 9 10]]],
     has_error = False\<rparr>"

theorem decomposition_exact_witness:
  "try_parse_word_only_commands_sequence ex_tree ex_script =
   Some [\<lparr>pc_words = [lit ''ls''], pc_span_start = 0, pc_span_end = 2\<rparr>,
         \<lparr>pc_words = [lit ''rm'', lit ''x''], pc_span_start = 6, pc_span_end = 10\<rparr>]"
proof -
  have nodes: "filter is_command_node (subnodes (root_node ex_tree)) =
      [Node (lit ''command'') True None 0 2 [ex_name 0 2], Node (lit ''command'') True None 6 10 [ex_name 6 8, ex_word 9 10]]"
    by code_simp
  have "parse_plain_command_from_node (Node (lit ''command'') True None 0 2 [ex_name 0 2]) ex_script =
      Some \<lparr>pc_words = [lit ''ls''], pc_span_start = 0, pc_span_end = 2\<rparr>"
    "parse_plain_command_from_node (Node (lit ''command'') True None 6 10 [ex_name 6 8, ex_word 9 10]) ex_script =
      Some \<lparr>pc_words = [lit ''rm'', lit ''x''], pc_span_start = 6, pc_span_end = 10\<rparr>"
    "\<forall>n \<in> set (subnodes (root_node ex_tree)). node_allowed n" "\<not> has_error ex_tree"
    by code_simp+
  then show ?thesis
    using decomposition_exact [of ex_tree] unfolding nodes by simp
qed

end
