(* ===== verification/Policy_Props.thy ===== *)
theory Policy_Props
  imports Policy
begin

text \<open>
  What the permission policy guarantees: the direct evaluation is deny over ask over allow and does
  not depend on the order of the rules; the bash gate reports exactly the strongest rule that any
  command of the script hits, in its raw or its innermost form and through nested \<open>sh -c\<close> and
  \<open>env -S\<close> scripts, and asks when some part could not be analysed; a script the preflight allows
  launches only commands that an allow rule covers and no deny or ask rule hits.
\<close>

section \<open>Rule hits\<close>

definition rule_hit :: "'g policy_env \<Rightarrow> 'g compiled_policy \<Rightarrow> rule_action \<Rightarrow> access_kind \<Rightarrow> bool" where
  "rule_hit env pol act access \<longleftrightarrow>
     (\<exists>(rule, matcher) \<in> set (compiled_rules pol). pr_action rule = act \<and>
        tool_filter_matches access (pr_tool rule) \<and> pattern_matches env access rule matcher)"

lemma evaluate_rules_Inl:
  "evaluate_rules env access rs ask allw = Inl reason \<Longrightarrow>
   \<exists>(rule, matcher) \<in> set rs. pr_action rule = DenyRule \<and> tool_filter_matches access (pr_tool rule) \<and>
     pattern_matches env access rule matcher \<and> reason = deny_reason rule"
  by (induction env access rs ask allw rule: evaluate_rules.induct)
     (auto split: if_splits rule_action.splits)

lemma evaluate_rules_Inr:
  "evaluate_rules env access rs ask allw = Inr (ask', allw') \<Longrightarrow>
   (\<forall>(rule, matcher) \<in> set rs. \<not> (pr_action rule = DenyRule \<and> tool_filter_matches access (pr_tool rule) \<and>
     pattern_matches env access rule matcher)) \<and>
   (ask' \<longleftrightarrow> ask \<or> (\<exists>(rule, matcher) \<in> set rs. pr_action rule = AskRule \<and> tool_filter_matches access (pr_tool rule) \<and>
     pattern_matches env access rule matcher)) \<and>
   (allw' \<longleftrightarrow> allw \<or> (\<exists>(rule, matcher) \<in> set rs. pr_action rule = AllowRule \<and>
     tool_filter_matches access (pr_tool rule) \<and> pattern_matches env access rule matcher))"
  by (induction env access rs ask allw rule: evaluate_rules.induct)
     (auto split: if_splits rule_action.splits)

text \<open>The outcome of the rule loop in terms of hits.\<close>

lemma evaluate_rules_cases:
  "(case evaluate_rules env access (compiled_rules pol) False False of
      Inl reason \<Rightarrow> rule_hit env pol DenyRule access \<and>
        (\<exists>rule \<in> set (pcfg_rules (cp_config pol)). pr_action rule = DenyRule \<and> reason = deny_reason rule)
    | Inr (ask, allw) \<Rightarrow> \<not> rule_hit env pol DenyRule access \<and> ask = rule_hit env pol AskRule access \<and>
        allw = rule_hit env pol AllowRule access)"
proof (cases "evaluate_rules env access (compiled_rules pol) False False")
  case (Inl reason)
  then show ?thesis
    using evaluate_rules_Inl [OF Inl] by (fastforce simp: rule_hit_def dest: set_zip_leftD)
next
  case (Inr r)
  then show ?thesis
    using evaluate_rules_Inr [of env access "compiled_rules pol" False False "fst r" "snd r"]
    by (cases r) (simp add: rule_hit_def split_beta)
qed

definition chain_allows :: "'g policy_env \<Rightarrow> 'g compiled_policy \<Rightarrow> access_kind \<Rightarrow> bool" where
  "chain_allows env pol access =
     (case access of
        BashAccess cmd \<Rightarrow> cp_has_bash_allow_rules pol \<and> bash_chain_fully_allowed env pol MAX_INLINE_SHELL_DEPTH cmd
      | _ \<Rightarrow> rule_hit env pol AllowRule access)"

lemma evaluate_cases:
  "evaluate env pol access =
     (if rule_hit env pol DenyRule access
      then Some (Reject (projl (evaluate_rules env access (compiled_rules pol) False False)))
      else if rule_hit env pol AskRule access then Some Ask
      else if chain_allows env pol access then Some Allow else None)"
  using evaluate_rules_cases [of env pol access]
  by (auto simp: evaluate_def chain_allows_def split: sum.splits access_kind.splits)

lemma escalate_cases:
  "escalate env pol t =
     (if rule_hit env pol DenyRule (BashAccess t)
      then Some (GateReject (projl (evaluate_rules env (BashAccess t) (compiled_rules pol) False False)))
      else if rule_hit env pol AskRule (BashAccess t) then Some AskRuleMatch else None)"
  by (simp add: escalate_def evaluate_cases)

section \<open>Severity\<close>

text \<open>The rank of an optional decision.\<close>

definition opt_rank :: "('d \<Rightarrow> nat) \<Rightarrow> 'd option \<Rightarrow> nat" where
  "opt_rank rank g = (case g of None \<Rightarrow> 0 | Some d \<Rightarrow> rank d)"

text \<open>
  Both combinations of decisions keep the one of higher rank, the left one on a tie, and a missing
  decision yields to a present one.
\<close>

locale ranked_combination =
  fixes rank :: "'d \<Rightarrow> nat"
    and combine :: "'d option \<Rightarrow> 'd option \<Rightarrow> 'd option"
  assumes combine_none: "combine None b = b" "combine a None = a"
    and combine_some: "combine (Some x) (Some y) = Some (if rank x \<ge> rank y then x else y)"
begin

lemma rank_combine: "opt_rank rank (combine a b) = max (opt_rank rank a) (opt_rank rank b)"
  by (cases a; cases b) (auto simp: opt_rank_def combine_none combine_some)

lemma combine_selects: "combine a b = a \<or> combine a b = b"
  by (cases a; cases b) (auto simp: combine_none combine_some)

lemma combine_assoc: "combine (combine a b) c = combine a (combine b c)"
  by (cases a; cases b; cases c) (auto simp: combine_none combine_some)

lemma rank_fold:
  "n \<le> opt_rank rank (fold (\<lambda>x d. combine d (f x)) xs d0) \<longleftrightarrow>
   n \<le> opt_rank rank d0 \<or> (\<exists>x \<in> set xs. n \<le> opt_rank rank (f x))"
  by (induction xs arbitrary: d0) (auto simp: rank_combine)

end

interpretation gate: ranked_combination gate_rank combine_gate_decisions
proof
  show "combine_gate_decisions a None = a" for a
    by (cases a) simp_all
qed simp_all

interpretation managed: ranked_combination decision_rank combine_decisions
proof
  show "combine_decisions a None = a" for a
    by (cases a) simp_all
qed simp_all

abbreviation sev :: "gate_decision option \<Rightarrow> nat" where
  "sev \<equiv> opt_rank gate_rank"

lemmas sev_def = opt_rank_def
lemmas sev_combine = gate.rank_combine
lemmas sev_fold = gate.rank_fold

lemma sev_escalate:
  "3 \<le> sev (escalate env pol t) \<longleftrightarrow> rule_hit env pol DenyRule (BashAccess t)"
  "2 \<le> sev (escalate env pol t) \<longleftrightarrow>
     rule_hit env pol DenyRule (BashAccess t) \<or> rule_hit env pol AskRule (BashAccess t)"
  "1 \<le> sev (escalate env pol t) \<longleftrightarrow>
     rule_hit env pol DenyRule (BashAccess t) \<or> rule_hit env pol AskRule (BashAccess t)"
  by (simp_all add: escalate_cases sev_def)

lemma opt_rank_simps [simp]: "opt_rank f None = 0" "opt_rank f (Some d) = f d"
  by (simp_all add: opt_rank_def)

lemma sev_then_some [simp]: "sev (then_some b AskFailClosed) = (if b then 1 else 0)"
  by (simp add: then_some_def)

section \<open>What the gate looks at\<close>

abbreviation script_commands :: "'g policy_env \<Rightarrow> str \<Rightarrow> plain_command list option" where
  "script_commands env \<equiv> all_commands_from_script (pe_parse_shell env)"

abbreviation inner_form :: "plain_command \<Rightarrow> argv" where
  "inner_form c \<equiv> nc_words (normalize_command_words (pc_words c))"

abbreviation command_text :: "argv \<Rightarrow> access_kind" where
  "command_text ws \<equiv> BashAccess (join (lit '' '') ws)"

text \<open>
  The argument vectors a script presents to the rules with \<open>d\<close> levels of nesting: each command as
  written and peeled, and those of the scripts it runs through a shell or a packed \<open>env -S\<close>.
\<close>

inductive presents :: "'g policy_env \<Rightarrow> nat \<Rightarrow> str \<Rightarrow> argv \<Rightarrow> bool" for env where
  presents_raw: "script_commands env script = Some cs \<Longrightarrow> c \<in> set cs \<Longrightarrow> presents env d script (pc_words c)"
| presents_inner: "script_commands env script = Some cs \<Longrightarrow> c \<in> set cs \<Longrightarrow> presents env d script (inner_form c)"
| presents_shell: "script_commands env script = Some cs \<Longrightarrow> c \<in> set cs \<Longrightarrow>
    inline_script (inner_form c) = InlineLiteral k \<Longrightarrow> presents env d (inner_form c ! k) ws \<Longrightarrow>
    presents env (Suc d) script ws"
| presents_pack: "script_commands env script = Some cs \<Longrightarrow> c \<in> set cs \<Longrightarrow>
    env_split_string_script (inner_form c) = Some s \<Longrightarrow> presents env d s ws \<Longrightarrow> presents env (Suc d) script ws"

text \<open>A script some part of which the gate cannot analyse.\<close>

inductive unclear :: "'g policy_env \<Rightarrow> nat \<Rightarrow> str \<Rightarrow> bool" for env where
  unclear_parse: "script_commands env script = None \<Longrightarrow> unclear env d script"
| unclear_flagged: "script_commands env script = Some cs \<Longrightarrow> c \<in> set cs \<Longrightarrow>
    \<not> unflagged (normalize_command_words (pc_words c)) \<Longrightarrow> unclear env d script"
| unclear_shell: "script_commands env script = Some cs \<Longrightarrow> c \<in> set cs \<Longrightarrow>
    inline_script (inner_form c) \<in> {InlineUntrusted, InlineUnrecognized} \<Longrightarrow> unclear env d script"
| unclear_depth_shell: "script_commands env script = Some cs \<Longrightarrow> c \<in> set cs \<Longrightarrow>
    inline_script (inner_form c) = InlineLiteral k \<Longrightarrow> unclear env 0 script"
| unclear_depth_pack: "script_commands env script = Some cs \<Longrightarrow> c \<in> set cs \<Longrightarrow>
    env_split_string_script (inner_form c) = Some s \<Longrightarrow> unclear env 0 script"
| unclear_in_shell: "script_commands env script = Some cs \<Longrightarrow> c \<in> set cs \<Longrightarrow>
    inline_script (inner_form c) = InlineLiteral k \<Longrightarrow> unclear env d (inner_form c ! k) \<Longrightarrow> unclear env (Suc d) script"
| unclear_in_pack: "script_commands env script = Some cs \<Longrightarrow> c \<in> set cs \<Longrightarrow>
    env_split_string_script (inner_form c) = Some s \<Longrightarrow> unclear env d s \<Longrightarrow> unclear env (Suc d) script"

inductive_simps presents_0: "presents env 0 script ws"
inductive_simps presents_Suc: "presents env (Suc d) script ws"
inductive_simps unclear_0: "unclear env 0 script"
inductive_simps unclear_Suc: "unclear env (Suc d) script"

text \<open>The severity of one command, with the two escalated forms named.\<close>

lemma inner_form_same: "length (inner_form c) = length (pc_words c) \<Longrightarrow> inner_form c = pc_words c"
  using normalize_suffix [of "pc_words c"]
  by (metis add_cancel_left_left append_Nil length_0_conv length_append suffixE)

definition nested_sev :: "(str \<Rightarrow> gate_decision option) option \<Rightarrow> str \<Rightarrow> nat" where
  "nested_sev nested s = (case nested of Some rec \<Rightarrow> sev (rec s) | None \<Rightarrow> 1)"

lemma sev_command:
  assumes "0 < n"
  shows "n \<le> sev (evaluate_command_words env pol nested (pc_words c)) \<longleftrightarrow>
    n = 1 \<and> \<not> unflagged (normalize_command_words (pc_words c)) \<or>
    n \<le> sev (escalate env pol (join (lit '' '') (pc_words c))) \<or>
    n \<le> sev (escalate env pol (join (lit '' '') (inner_form c))) \<or>
    n = 1 \<and> inline_script (inner_form c) \<in> {InlineUntrusted, InlineUnrecognized} \<or>
    (\<exists>k. inline_script (inner_form c) = InlineLiteral k \<and> n \<le> nested_sev nested (inner_form c ! k)) \<or>
    (\<exists>s. env_split_string_script (inner_form c) = Some s \<and> n \<le> nested_sev nested s)"
proof -
  have n1: "n \<le> 1 \<longleftrightarrow> n = 1" "\<not> n \<le> 0"
    using assms by auto
  have forms: "n \<le> sev (escalate env pol (join (lit '' '') (inner_form c))) \<longleftrightarrow>
      n \<le> sev (escalate env pol (join (lit '' '') (pc_words c)))"
    if "length (inner_form c) = length (pc_words c)"
    using inner_form_same [OF that] by simp
  have inl: "n \<le> sev (case inline_script (inner_form c) of
        NotInline \<Rightarrow> None
      | InlineLiteral index \<Rightarrow> (case nested of Some rec \<Rightarrow> rec (inner_form c ! index) | None \<Rightarrow> Some AskFailClosed)
      | _ \<Rightarrow> Some AskFailClosed) \<longleftrightarrow>
    n = 1 \<and> inline_script (inner_form c) \<in> {InlineUntrusted, InlineUnrecognized} \<or>
    (\<exists>k. inline_script (inner_form c) = InlineLiteral k \<and> n \<le> nested_sev nested (inner_form c ! k))"
    using n1 by (auto simp: nested_sev_def split: inline_shell_script.split option.split)
  have pck: "n \<le> sev (case env_split_string_script (inner_form c) of
              None \<Rightarrow> None
            | Some script \<Rightarrow> (case nested of Some rec \<Rightarrow> rec script | None \<Rightarrow> Some AskFailClosed)) \<longleftrightarrow>
    (\<exists>s. env_split_string_script (inner_form c) = Some s \<and> n \<le> nested_sev nested s)"
    using n1 by (auto simp: nested_sev_def split: option.split)
  show ?thesis
    unfolding evaluate_command_words_def Let_def sev_combine le_max_iff_disj sev_fold inl pck
    using n1 forms by (auto simp: unflagged_def)
qed

lemma sev_segments:
  assumes "0 < n"
  shows "n \<le> sev (bash_segments_step env pol nested script) \<longleftrightarrow>
    n = 1 \<and> script_commands env script = None \<or>
    (\<exists>cs c. script_commands env script = Some cs \<and> c \<in> set cs \<and>
      n \<le> sev (evaluate_command_words env pol nested (pc_words c)))"
  using assms by (auto simp: bash_segments_step_def sev_fold split: option.split)

text \<open>The gate reaches a level exactly when some vector the script presents does.\<close>

lemma segments_escalated:
  assumes "n \<in> {2, 3}"
  shows "n \<le> sev (evaluate_bash_command_segments env pol d script) \<longleftrightarrow>
    (\<exists>ws. presents env d script ws \<and> n \<le> sev (escalate env pol (join (lit '' '') ws)))"
proof -
  have n: "0 < n" "n \<noteq> 1" "\<not> n \<le> 1"
    using assms by auto
  show ?thesis
  proof (induction d arbitrary: script)
    case 0
    show ?case
      using n by (simp add: sev_segments sev_command nested_sev_def presents_0) blast
  next
    case (Suc d)
    show ?case
      using n by (cases "script_commands env script")
        (simp_all add: sev_segments sev_command nested_sev_def presents_Suc Suc, blast)
  qed
qed

lemma segments_asked:
  "1 \<le> sev (evaluate_bash_command_segments env pol d script) \<longleftrightarrow>
    unclear env d script \<or> (\<exists>ws. presents env d script ws \<and> 1 \<le> sev (escalate env pol (join (lit '' '') ws)))"
proof (induction d arbitrary: script)
  case 0
  show ?case
    by (cases "script_commands env script")
       (simp_all add: sev_segments sev_command nested_sev_def presents_0 unclear_0 del: One_nat_def, blast)
next
  case (Suc d)
  show ?case
    by (cases "script_commands env script")
       (simp_all add: sev_segments sev_command nested_sev_def presents_Suc unclear_Suc Suc del: One_nat_def, blast)
qed

section \<open>What an allowed script launches\<close>

text \<open>
  The innermost commands a script runs, itself or through any depth of shells with an inline
  script.
\<close>

inductive launches :: "'g policy_env \<Rightarrow> str \<Rightarrow> argv \<Rightarrow> bool" for env where
  launches_command: "script_commands env script = Some cs \<Longrightarrow> c \<in> set cs \<Longrightarrow> launches env script (inner_form c)"
| launches_shell: "script_commands env script = Some cs \<Longrightarrow> c \<in> set cs \<Longrightarrow>
    inline_script (inner_form c) = InlineLiteral k \<Longrightarrow> launches env (inner_form c ! k) ws \<Longrightarrow>
    launches env script ws"

lemma chain_allowed_commands:
  assumes "bash_chain_fully_allowed env pol d script"
  obtains cs where "script_commands env script = Some cs" "cs \<noteq> []"
    "\<And>c. c \<in> set cs \<Longrightarrow> unflagged (normalize_command_words (pc_words c)) \<and> bash_words_allowed env pol (inner_form c)"
    "\<And>c k. c \<in> set cs \<Longrightarrow> inline_script (inner_form c) = InlineLiteral k \<Longrightarrow>
       \<exists>d'. d = Suc d' \<and> bash_chain_fully_allowed env pol d' (inner_form c ! k)"
  using assms
  by (cases d; cases "script_commands env script")
     (auto simp: bash_chain_step_def bash_segment_allowed_def list_all_iff Let_def unflagged_def
       split: if_splits inline_shell_script.splits)

lemma chain_allowed_launches:
  "launches env script ws \<Longrightarrow> bash_chain_fully_allowed env pol d script \<Longrightarrow>
   bash_words_allowed env pol ws \<and> presents env d script ws"
proof (induction arbitrary: d rule: launches.induct)
  case (launches_command script cs c)
  show ?case
    using chain_allowed_commands [OF launches_command(3)] launches_command(1,2)
    by (metis option.inject presents_inner)
next
  case (launches_shell script cs c k ws)
  obtain d' where "d = Suc d'" "bash_chain_fully_allowed env pol d' (inner_form c ! k)"
    using chain_allowed_commands [OF launches_shell(6)] launches_shell(1,2,3) by (metis option.inject)
  then show ?case
    using launches_shell presents_shell by blast
qed

lemma gate_rank_iff: "gate_rank d \<noteq> 0" "3 \<le> gate_rank d \<longleftrightarrow> (\<exists>r. d = GateReject r)"
  "2 \<le> gate_rank d \<longleftrightarrow> d \<noteq> AskFailClosed"
  by (cases d; simp)+

lemma sev_cases: "sev g = 0 \<longleftrightarrow> g = None" "3 \<le> sev g \<longleftrightarrow> (\<exists>r. g = Some (GateReject r))"
  by (cases g; simp add: sev_def gate_rank_iff)+

lemma no_restriction_no_hit:
  "\<not> cp_has_bash_command_restrictions (policy_new env cfg) \<Longrightarrow> act \<in> {DenyRule, AskRule} \<Longrightarrow>
   \<not> rule_hit env (policy_new env cfg) act (BashAccess t)"
  by (auto simp: rule_hit_def policy_new_def list_ex_iff restricts_def for_bash_def tool_filter_matches_def
      dest!: set_zip_leftD split: tool_filter.splits)

lemma gate_clear_iff:
  "evaluate_bash_command_gate env (policy_new env cfg) cmd = None \<Longrightarrow> presents env MAX_INLINE_SHELL_DEPTH cmd ws \<Longrightarrow>
   \<not> rule_hit env (policy_new env cfg) DenyRule (command_text ws) \<and>
   \<not> rule_hit env (policy_new env cfg) AskRule (command_text ws)"
  using no_restriction_no_hit [of env cfg]
    segments_asked [of env "policy_new env cfg" MAX_INLINE_SHELL_DEPTH cmd] sev_escalate(3)
  by (auto simp: evaluate_bash_command_gate_def split: if_splits)

lemma policy_decision_Allow:
  assumes "policy_decision gp = Some Allow"
  shows "gp_direct gp = Some Allow \<and> gp_bash_command gp = None \<and> gp_shell_file gp = None"
  using assms
  by (cases "gp_direct gp"; cases "gp_bash_command gp"; cases "gp_shell_file gp")
     (auto simp: policy_decision_def into_decision_def split: gate_decision.splits if_splits)

section \<open>Order of the rules\<close>

definition same_outcome :: "decision \<Rightarrow> decision \<Rightarrow> bool" where
  "same_outcome d d' \<longleftrightarrow> d = d' \<or> (\<exists>r r'. d = Reject r \<and> d' = Reject r')"

lemma compiled_rules_new:
  "set (compiled_rules (policy_new env cfg)) = (\<lambda>r. (r, compile_matcher env r)) ` set (pcfg_rules cfg)"
  by (auto simp: policy_new_def zip_map2 zip_same_conv_map image_iff)

lemma chain_allowed_cong:
  assumes "bash_words_allowed env pol = bash_words_allowed env pol'"
  shows "bash_chain_fully_allowed env pol d = bash_chain_fully_allowed env pol' d"
proof -
  have "bash_segment_allowed env pol = bash_segment_allowed env pol'"
    by (simp add: fun_eq_iff bash_segment_allowed_def assms)
  then have "bash_chain_step env pol = bash_chain_step env pol'"
    by (intro ext) (simp add: bash_chain_step_def split: option.split)
  then show ?thesis
    by (induction d) simp_all
qed

lemma same_rules_same_hits:
  assumes "set (pcfg_rules c) = set (pcfg_rules c')"
  shows "rule_hit env (policy_new env c) = rule_hit env (policy_new env c')"
    and "chain_allows env (policy_new env c) = chain_allows env (policy_new env c')"
proof -
  have rules: "set (compiled_rules (policy_new env c)) = set (compiled_rules (policy_new env c'))"
    using assms by (simp add: compiled_rules_new)
  then show hits: "rule_hit env (policy_new env c) = rule_hit env (policy_new env c')"
    by (simp add: fun_eq_iff rule_hit_def)
  have "bash_words_allowed env (policy_new env c) = bash_words_allowed env (policy_new env c')"
    using rules by (simp add: fun_eq_iff bash_words_allowed_def Let_def list_ex_iff)
  moreover have "cp_has_bash_allow_rules (policy_new env c) = cp_has_bash_allow_rules (policy_new env c')"
    using assms by (simp add: policy_new_def list_ex_iff)
  ultimately show "chain_allows env (policy_new env c) = chain_allows env (policy_new env c')"
    using hits chain_allowed_cong [of env "policy_new env c" "policy_new env c'"]
    by (simp add: fun_eq_iff chain_allows_def split: access_kind.split)
qed

text \<open>
  The direct evaluation of an access follows deny, then ask, then allow (for bash: every
  segment of the chain allowed), and two configurations with the same rules in any order, with any
  repetitions, give the same outcome.
\<close>

theorem evaluate_order_independent:
  assumes "set (pcfg_rules c) = set (pcfg_rules c')"
  shows "rel_option same_outcome (evaluate env (policy_new env c) access) (evaluate env (policy_new env c') access) \<and>
    (case evaluate env (policy_new env c) access of
       Some (Reject _) \<Rightarrow> rule_hit env (policy_new env c) DenyRule access
     | Some Ask \<Rightarrow> \<not> rule_hit env (policy_new env c) DenyRule access \<and> rule_hit env (policy_new env c) AskRule access
     | Some Allow \<Rightarrow> \<not> rule_hit env (policy_new env c) DenyRule access \<and>
         \<not> rule_hit env (policy_new env c) AskRule access \<and> chain_allows env (policy_new env c) access
     | None \<Rightarrow> \<not> rule_hit env (policy_new env c) DenyRule access \<and>
         \<not> rule_hit env (policy_new env c) AskRule access \<and> \<not> chain_allows env (policy_new env c) access
     | _ \<Rightarrow> False)"
  by (simp add: evaluate_cases same_rules_same_hits [OF assms] same_outcome_def)

section \<open>The gate and the preflight\<close>

text \<open>
  C8. The bash gate is exact: it rejects if some command the script presents (as written or peeled,
  at any nesting within the budget) hits a deny rule, asks on a rule if one hits an ask rule and
  none a deny rule, asks because analysis failed exactly when there are rules, none is hit and part
  of the script cannot be analysed, and is silent otherwise.
\<close>

theorem bash_gate_exact:
  "(let pol = policy_new env cfg;
        hit = (\<lambda>act. \<exists>ws. presents env MAX_INLINE_SHELL_DEPTH cmd ws \<and> rule_hit env pol act (command_text ws)) in
    case evaluate_bash_command_gate env pol cmd of
      Some (GateReject _) \<Rightarrow> hit DenyRule
    | Some AskRuleMatch \<Rightarrow> \<not> hit DenyRule \<and> hit AskRule
    | Some AskFailClosed \<Rightarrow> \<not> hit DenyRule \<and> \<not> hit AskRule \<and> unclear env MAX_INLINE_SHELL_DEPTH cmd
    | None \<Rightarrow> \<not> hit DenyRule \<and> \<not> hit AskRule \<and>
        \<not> (unclear env MAX_INLINE_SHELL_DEPTH cmd \<and> cp_has_bash_command_restrictions pol))"
proof (cases "cp_has_bash_command_restrictions (policy_new env cfg)")
  case False
  then show ?thesis
    using no_restriction_no_hit [OF False] by (simp add: evaluate_bash_command_gate_def)
next
  case True
  let ?g = "evaluate_bash_command_segments env (policy_new env cfg) MAX_INLINE_SHELL_DEPTH cmd"
  have "2 \<in> {2, 3::nat}" "3 \<in> {2, 3::nat}" by simp_all
  note esc = this [THEN segments_escalated, of env "policy_new env cfg" MAX_INLINE_SHELL_DEPTH cmd, unfolded sev_escalate]
    segments_asked [of env "policy_new env cfg" MAX_INLINE_SHELL_DEPTH cmd, unfolded sev_escalate]
  show ?thesis
    unfolding Let_def
    using esc True
    by (cases ?g; cases "the ?g")
       (auto simp: evaluate_bash_command_gate_def opt_rank_def simp del: lit_simps)
qed

text \<open>
  Deny is absolute: if any command a bash script presents, as written or peeled, at any nesting
  within the budget, hits a deny rule, the managed decision is a rejection, whatever the other
  rules, the shell-file gate and the mode are.
\<close>

theorem preflight_deny_absolute:
  assumes "presents env MAX_INLINE_SHELL_DEPTH cmd ws" "rule_hit env (policy_new env cfg) DenyRule (command_text ws)"
  shows "\<exists>reason. policy_decision
    (preflight_evaluate env file_gate (Some (policy_new env cfg)) (BashAccess cmd) auto_mode) = Some (Reject reason)"
proof -
  let ?gp = "preflight_evaluate env file_gate (Some (policy_new env cfg)) (BashAccess cmd) auto_mode"
  have "cp_has_bash_command_restrictions (policy_new env cfg)"
    using no_restriction_no_hit assms(2) by blast
  moreover have "3 \<le> sev (evaluate_bash_command_segments env (policy_new env cfg) MAX_INLINE_SHELL_DEPTH cmd)"
    using segments_escalated [of 3] sev_escalate(1) assms by blast
  ultimately obtain r where "gp_bash_command ?gp = Some (GateReject r)"
    by (auto simp: preflight_evaluate_def evaluate_bash_command_gate_def sev_cases Let_def)
  then have "3 \<le> opt_rank decision_rank (policy_decision ?gp)"
    by (simp add: policy_decision_def managed.rank_combine into_decision_def)
  moreover have "policy_decision ?gp \<noteq> Some (PolicyDeny m)" for m
  proof -
    have "gp_direct ?gp \<noteq> Some (PolicyDeny m)"
      by (simp add: preflight_evaluate_def Let_def evaluate_cases)
    moreover have "map_option into_decision g \<noteq> Some (PolicyDeny m)" for g
      by (cases g) (auto simp: into_decision_def split: gate_decision.splits)
    ultimately show ?thesis
      by (metis policy_decision_def managed.combine_selects)
  qed
  ultimately show ?thesis
    by (cases "policy_decision ?gp"; cases "the (policy_decision ?gp)") simp_all
qed

text \<open>
  C7. An allowed script is safe: when the managed decision for a bash script is to allow it, every
  command it launches, itself or through any depth of shells with inline scripts, is matched by an
  allow rule in its innermost form and hits no deny and no ask rule.
\<close>

theorem preflight_allow_sound:
  assumes "policy_decision
      (preflight_evaluate env file_gate (Some (policy_new env cfg)) (BashAccess cmd) auto_mode) = Some Allow"
    and "launches env cmd ws"
  shows "bash_words_allowed env (policy_new env cfg) ws \<and>
    \<not> rule_hit env (policy_new env cfg) DenyRule (command_text ws) \<and>
    \<not> rule_hit env (policy_new env cfg) AskRule (command_text ws)"
proof -
  have "evaluate env (policy_new env cfg) (BashAccess cmd) = Some Allow"
    "evaluate_bash_command_gate env (policy_new env cfg) cmd = None"
    using policy_decision_Allow [OF assms(1)] by (simp_all add: preflight_evaluate_def Let_def)
  moreover from this(1) have "bash_chain_fully_allowed env (policy_new env cfg) MAX_INLINE_SHELL_DEPTH cmd"
    by (simp add: evaluate_cases chain_allows_def split: if_splits)
  ultimately show ?thesis
    using chain_allowed_launches [OF assms(2)] gate_clear_iff by blast
qed

section \<open>Instances\<close>

text \<open>
  An environment with globs that match themselves, no URLs, and a parser that knows one script,
  \<open>ls && rm x\<close>.
\<close>

definition ex_env :: "str policy_env" where
  "ex_env = \<lparr>pe_glob_new = Some, pe_glob_matches = (\<lambda>g _ t. g = t), pe_url_host = (\<lambda>_. None),
     pe_to_lowercase = id, pe_parse_shell = (\<lambda>s. if s = ex_script then Some ex_tree else None)\<rparr>"

definition ex_rule :: "rule_action \<Rightarrow> string \<Rightarrow> permission_rule" where
  "ex_rule act p = \<lparr>pr_action = act, pr_tool = BashTool, pr_pattern = Some (lit p), pr_pattern_mode = GlobMode\<rparr>"

definition ex_config :: "permission_rule list \<Rightarrow> permission_config" where
  "ex_config rules = \<lparr>pcfg_rules = rules, pcfg_prompt_policy = PromptAsk\<rparr>"

definition ex_commands :: "plain_command list" where
  "ex_commands = [\<lparr>pc_words = [lit ''ls''], pc_span_start = 0, pc_span_end = 2\<rparr>,
     \<lparr>pc_words = [lit ''rm'', lit ''x''], pc_span_start = 6, pc_span_end = 10\<rparr>]"

lemma ex_commands: "script_commands ex_env ex_script = Some ex_commands"
  by code_simp

lemma ex_rm_form: "ex_commands ! 1 \<in> set ex_commands" "pc_words (ex_commands ! 1) = [lit ''rm'', lit ''x'']"
  "inner_form (ex_commands ! 1) = [lit ''rm'', lit ''x'']"
  by code_simp+

theorem evaluate_order_independent_witness:
  "rel_option same_outcome
     (evaluate ex_env (policy_new ex_env (ex_config [ex_rule AllowRule ''ls'', ex_rule AskRule ''ls''])) (BashAccess ex_script))
     (evaluate ex_env (policy_new ex_env (ex_config [ex_rule AskRule ''ls'', ex_rule AllowRule ''ls''])) (BashAccess ex_script))"
  using evaluate_order_independent [of "ex_config [ex_rule AllowRule ''ls'', ex_rule AskRule ''ls'']"
      "ex_config [ex_rule AskRule ''ls'', ex_rule AllowRule ''ls'']" ex_env "BashAccess ex_script"]
  by (auto simp: ex_config_def)

theorem preflight_deny_absolute_witness:
  "\<exists>reason. policy_decision (preflight_evaluate ex_env (\<lambda>_ _. None)
     (Some (policy_new ex_env (ex_config [ex_rule AllowRule ''*'', ex_rule DenyRule ''rm''])))
     (BashAccess ex_script) True) = Some (Reject reason)"
proof (rule preflight_deny_absolute)
  show "presents ex_env MAX_INLINE_SHELL_DEPTH ex_script [lit ''rm'', lit ''x'']"
    using presents_raw [OF ex_commands ex_rm_form(1)] unfolding ex_rm_form(2) .
  show "rule_hit ex_env (policy_new ex_env (ex_config [ex_rule AllowRule ''*'', ex_rule DenyRule ''rm''])) DenyRule
      (command_text [lit ''rm'', lit ''x''])"
    by code_simp
qed

abbreviation ex_allowing :: "str compiled_policy" where
  "ex_allowing \<equiv> policy_new ex_env (ex_config [ex_rule AllowRule ''ls'', ex_rule AllowRule ''rm'', ex_rule DenyRule ''dd''])"

lemma ex_command_facts:
  assumes "c \<in> set ex_commands"
  shows "unflagged (normalize_command_words (pc_words c)) \<and> length (inner_form c) = length (pc_words c)"
    and "inline_script (inner_form c) = NotInline" and "env_split_string_script (inner_form c) = None"
    and "bash_words_allowed ex_env ex_allowing (inner_form c)"
    and "\<not> rule_hit ex_env ex_allowing DenyRule (command_text (pc_words c)) \<and>
      \<not> rule_hit ex_env ex_allowing AskRule (command_text (pc_words c))"
proof -
  have norm: "normalize_command_words [lit ''ls''] = clean_peel [lit ''ls'']"
    "normalize_command_words [lit ''rm'', lit ''x''] = clean_peel [lit ''rm'', lit ''x'']"
    by code_simp+
  have inl: "inline_script [lit ''ls''] = NotInline" "inline_script [lit ''rm'', lit ''x''] = NotInline"
    "env_split_string_script [lit ''ls''] = None" "env_split_string_script [lit ''rm'', lit ''x''] = None"
    by code_simp+
  have allow: "bash_words_allowed ex_env ex_allowing [lit ''ls'']"
    "bash_words_allowed ex_env ex_allowing [lit ''rm'', lit ''x'']"
    by code_simp+
  have hits: "\<not> rule_hit ex_env ex_allowing DenyRule (command_text [lit ''ls''])"
    "\<not> rule_hit ex_env ex_allowing AskRule (command_text [lit ''ls''])"
    "\<not> rule_hit ex_env ex_allowing DenyRule (command_text [lit ''rm'', lit ''x''])"
    "\<not> rule_hit ex_env ex_allowing AskRule (command_text [lit ''rm'', lit ''x''])"
    by code_simp+
  have c: "pc_words c = [lit ''ls''] \<or> pc_words c = [lit ''rm'', lit ''x'']"
    using assms by (auto simp: ex_commands_def simp del: lit_simps)
  show "unflagged (normalize_command_words (pc_words c)) \<and> length (inner_form c) = length (pc_words c)"
    and "inline_script (inner_form c) = NotInline" and "env_split_string_script (inner_form c) = None"
    and "bash_words_allowed ex_env ex_allowing (inner_form c)"
    and "\<not> rule_hit ex_env ex_allowing DenyRule (command_text (pc_words c)) \<and>
      \<not> rule_hit ex_env ex_allowing AskRule (command_text (pc_words c))"
    using c norm inl allow hits by (auto simp: unflagged_def simp del: lit_simps)
qed

lemma ex_allowed:
  "policy_decision (preflight_evaluate ex_env (\<lambda>_ _. None) (Some ex_allowing) (BashAccess ex_script) False) = Some Allow"
proof -
  have seg: "bash_segment_allowed ex_env ex_allowing nested c" if "c \<in> set ex_commands" for nested c
    using ex_command_facts [OF that] by (simp add: bash_segment_allowed_def Let_def unflagged_def)
  have "ex_commands \<noteq> []"
    by (simp add: ex_commands_def)
  with seg have "bash_chain_fully_allowed ex_env ex_allowing d ex_script" for d
    by (cases d) (simp_all add: bash_chain_step_def ex_commands list_all_iff)
  moreover have "\<not> rule_hit ex_env ex_allowing DenyRule (BashAccess ex_script)"
    "\<not> rule_hit ex_env ex_allowing AskRule (BashAccess ex_script)" "cp_has_bash_allow_rules ex_allowing"
    by code_simp+
  ultimately have direct: "evaluate ex_env ex_allowing (BashAccess ex_script) = Some Allow"
    by (simp add: evaluate_cases chain_allows_def)
  have "\<not> 1 \<le> sev (evaluate_command_words ex_env ex_allowing nested (pc_words c))"
    if "c \<in> set ex_commands" for nested c
    using ex_command_facts [OF that] inner_form_same [of c]
    by (simp add: sev_command sev_escalate del: One_nat_def lit_simps)
  then have "\<not> 1 \<le> sev (evaluate_bash_command_segments ex_env ex_allowing d ex_script)" for d
    by (cases d) (simp_all add: sev_segments ex_commands del: One_nat_def)
  then have "sev (evaluate_bash_command_segments ex_env ex_allowing d ex_script) = 0" for d
    by (metis less_one not_le)
  then have "evaluate_bash_command_gate ex_env ex_allowing ex_script = None"
    using sev_cases(1) by (simp add: evaluate_bash_command_gate_def)
  with direct show ?thesis
    by (simp add: policy_decision_def preflight_evaluate_def Let_def)
qed

theorem preflight_allow_sound_witness:
  "bash_words_allowed ex_env ex_allowing [lit ''rm'', lit ''x''] \<and>
   \<not> rule_hit ex_env ex_allowing DenyRule (command_text [lit ''rm'', lit ''x'']) \<and>
   \<not> rule_hit ex_env ex_allowing AskRule (command_text [lit ''rm'', lit ''x''])"
proof (rule preflight_allow_sound [OF ex_allowed])
  show "launches ex_env ex_script [lit ''rm'', lit ''x'']"
    using launches_command [OF ex_commands ex_rm_form(1)] unfolding ex_rm_form(3) .
qed

end
