(* ===== verification/Shell_Paths.thy ===== *)
theory Shell_Paths
  imports Prelude
begin

text \<open>
  Paths of shell operands (\<open>permission/shell_access.rs\<close>): the textual normalisation, the resolution
  of symbolic links with its depth bound, and the edit targets that always need a confirmation;
  with \<open>normalize_lexically\<close> of \<open>xai-grok-paths\<close>.

  Paths are Unix paths and are text.  The three file-system calls are the record \<open>file_system\<close>;
  \<open>fs_contract\<close> states what they promise of a file system given by its directories and symbolic links.
\<close>

section \<open>Path text\<close>

definition is_abs :: "str \<Rightarrow> bool" where
  "is_abs p \<longleftrightarrow> starts_with (lit ''/'') p"

text \<open>\<open>path.as_bytes().get(1) == Some(b':')\<close>: the first character is then a single byte.\<close>

definition has_drive :: "str \<Rightarrow> bool" where
  "has_drive p = (case p of a # b # _ \<Rightarrow> a < 128 \<and> b = 58 | _ \<Rightarrow> False)"

definition is_absolute_shell_path :: "str \<Rightarrow> bool" where
  "is_absolute_shell_path p \<longleftrightarrow> is_abs p \<or> starts_with (lit ''~/'') p \<or> has_drive p"

definition normalize_shell_path_raw :: "str \<Rightarrow> str" where
  "normalize_shell_path_raw path =
     (let p = map (\<lambda>c. if c = 92 then 47 else c) (trim_matches (\<lambda>c. c = 34 \<or> c = 39) path) in
      case strip_prefix (lit ''/c/'') p of
        Some rest \<Rightarrow> lit ''C:/'' @ rest
      | None \<Rightarrow> p)"

definition dot :: str where "dot = lit ''.''"
definition dotdot :: str where "dotdot = lit ''..''"

text \<open>One segment of the loop of \<open>lexical_normalize\<close>.\<close>

definition lex_step :: "bool \<Rightarrow> str list \<Rightarrow> str \<Rightarrow> str list" where
  "lex_step absolute out segment =
     (if segment = [] \<or> segment = dot then out
      else if segment = dotdot then
        (if out \<noteq> [] \<and> last out \<noteq> dotdot then butlast out
         else if \<not> absolute then out @ [dotdot] else out)
      else out @ [segment])"

text \<open>The six cases of the final match agree with one concatenation.\<close>

definition lexical_normalize :: "str \<Rightarrow> str" where
  "lexical_normalize path =
     (let prefix_len = (if has_drive path then 2 else 0);
          prefix = take prefix_len path;
          rest = drop prefix_len path;
          absolute = is_abs rest;
          body = join (lit ''/'') (foldl (lex_step absolute) [] (split_char 47 rest))
      in prefix @ (if absolute then lit ''/'' else []) @ body)"

definition normalize_shell_path :: "str \<Rightarrow> str" where
  "normalize_shell_path path = lexical_normalize (normalize_shell_path_raw path)"

section \<open>\<open>std::path\<close> on Unix\<close>

datatype path_component = RootDir | CurDir | ParentDir | Normal str

definition path_segments :: "str \<Rightarrow> str list" where
  "path_segments p = filter (\<lambda>s. s \<noteq> [] \<and> s \<noteq> dot) (split_char 47 p)"

definition path_components :: "str \<Rightarrow> path_component list" where
  "path_components p =
     (if is_abs p then [RootDir] else if hd (split_char 47 p) = dot then [CurDir] else []) @
     map (\<lambda>s. if s = dotdot then ParentDir else Normal s) (path_segments p)"

fun component_text :: "path_component \<Rightarrow> str" where
  "component_text RootDir = lit ''/''"
| "component_text CurDir = dot"
| "component_text ParentDir = dotdot"
| "component_text (Normal s) = s"

text \<open>\<open>PathBuf::push\<close>: an absolute path replaces the base.\<close>

definition path_join :: "str \<Rightarrow> str \<Rightarrow> str" where
  "path_join base p =
     (if is_abs p then p
      else base @ (if base \<noteq> [] \<and> last base \<noteq> 47 then lit ''/'' else []) @ p)"

text \<open>
  \<open>parent\<close> and \<open>file_name\<close> of an absolute path: trailing separators and dots are not components, and
  the parent is the text before the last component without its separators.
\<close>

definition trailing :: "str list \<Rightarrow> str list" where
  "trailing rs = dropWhile (\<lambda>s. s = [] \<or> s = dot) rs"

definition path_parent :: "str \<Rightarrow> str option" where
  "path_parent p =
     (case trailing (rev (split_char 47 p)) of
        [] \<Rightarrow> None
      | _ # rs \<Rightarrow> Some (case trailing rs of [] \<Rightarrow> lit ''/'' | rs' \<Rightarrow> join (lit ''/'') (rev rs')))"

definition path_file_name :: "str \<Rightarrow> str option" where
  "path_file_name p =
     (case trailing (rev (split_char 47 p)) of
        [] \<Rightarrow> None
      | s # _ \<Rightarrow> if s = dotdot then None else Some s)"

definition path_starts_with :: "str \<Rightarrow> str \<Rightarrow> bool" where
  "path_starts_with p q \<longleftrightarrow> take (length (path_components q)) (path_components p) = path_components q"

definition lexically_step :: "path_component list \<Rightarrow> path_component \<Rightarrow> path_component list" where
  "lexically_step components component =
     (case component of
        CurDir \<Rightarrow> components
      | ParentDir \<Rightarrow>
          (if components = [] then components @ [component]
           else case last components of
               Normal _ \<Rightarrow> butlast components
             | RootDir \<Rightarrow> components
             | _ \<Rightarrow> components @ [component])
      | _ \<Rightarrow> components @ [component])"

definition normalize_lexically :: "str \<Rightarrow> str" where
  "normalize_lexically p =
     (case foldl lexically_step [] (path_components p) of
        [] \<Rightarrow> dot
      | cs \<Rightarrow> foldl (\<lambda>b c. path_join b (component_text c)) [] cs)"

section \<open>Symbolic links\<close>

datatype metadata_result = MetaOk bool | MetaNotFound | MetaError   \<comment> \<open>\<open>file_type().is_symlink()\<close>\<close>

record file_system =
  fs_canonicalize :: "str \<Rightarrow> str option"
  fs_symlink_metadata :: "str \<Rightarrow> metadata_result"
  fs_read_link :: "str \<Rightarrow> str option"

definition MAX_SYMLINK_DEPTH :: nat where "MAX_SYMLINK_DEPTH = 40"

text \<open>The first argument is \<open>MAX_SYMLINK_DEPTH + 1 - depth\<close>.\<close>

primrec resolve_following_symlinks :: "nat \<Rightarrow> file_system \<Rightarrow> str \<Rightarrow> str option" where
  "resolve_following_symlinks 0 fs path = None"
| "resolve_following_symlinks (Suc n) fs path =
     (case fs_canonicalize fs path of
        Some canonical \<Rightarrow> Some canonical
      | None \<Rightarrow>
          (case path_parent path of
             None \<Rightarrow> None
           | Some parent \<Rightarrow>
               (case path_file_name path of
                  None \<Rightarrow> None
                | Some file_name \<Rightarrow>
                    (case resolve_following_symlinks n fs parent of
                       None \<Rightarrow> None
                     | Some resolved_parent \<Rightarrow>
                         let candidate = path_join resolved_parent file_name in
                         (case fs_symlink_metadata fs candidate of
                            MetaError \<Rightarrow> None
                          | MetaNotFound \<Rightarrow> Some candidate
                          | MetaOk is_symlink \<Rightarrow>
                              if is_symlink then
                                (case fs_read_link fs candidate of
                                   None \<Rightarrow> None
                                 | Some target \<Rightarrow>
                                     resolve_following_symlinks n fs
                                       (if is_abs target then target else path_join resolved_parent target))
                              else Some candidate)))))"

definition resolve_symlinks :: "file_system \<Rightarrow> str \<Rightarrow> str option" where
  "resolve_symlinks = resolve_following_symlinks (Suc MAX_SYMLINK_DEPTH)"

fun symlink_on_path :: "file_system \<Rightarrow> str \<Rightarrow> path_component list \<Rightarrow> bool" where
  "symlink_on_path fs prefix [] = False"
| "symlink_on_path fs prefix (c # cs) =
     (let prefix = path_join prefix (component_text c) in
      if fs_symlink_metadata fs prefix = MetaOk True then True else symlink_on_path fs prefix cs)"

definition path_has_symlink :: "file_system \<Rightarrow> str \<Rightarrow> bool" where
  "path_has_symlink fs absolute \<longleftrightarrow> is_abs absolute \<and> symlink_on_path fs [] (path_components absolute)"

definition resolve_symlink_target :: "file_system \<Rightarrow> str \<Rightarrow> str option" where
  "resolve_symlink_target fs absolute =
     (if \<not> is_abs absolute then None
      else map_option normalize_shell_path (resolve_symlinks fs absolute))"

section \<open>Protected edit targets\<close>

definition STARTUP_FILES :: "str list" where
  "STARTUP_FILES = map lit [''.bashrc'', ''.bash_profile'', ''.bash_login'', ''.bash_logout'', ''.profile'', ''.zshrc'',
     ''.zshenv'', ''.zprofile'', ''.zlogin'', ''.zlogout'', ''.kshrc'', ''.cshrc'', ''.tcshrc'', ''.login'', ''.logout'',
     ''.inputrc'', ''.xprofile'']"

fun has_pair :: "str \<Rightarrow> str \<Rightarrow> str list \<Rightarrow> bool" where
  "has_pair a b (x # y # xs) \<longleftrightarrow> x = a \<and> y = b \<or> has_pair a b (y # xs)"
| "has_pair a b _ \<longleftrightarrow> False"

definition protected_git_hooks_path :: "str list \<Rightarrow> bool" where
  "protected_git_hooks_path components \<longleftrightarrow>
     has_pair (lit ''.git'') (lit ''hooks'') components \<or>
     list_ex (\<lambda>git. components ! git = lit ''.git'' \<and>
         git + 1 < length components \<and> components ! (git + 1) = lit ''modules'' \<and>
         lit ''hooks'' \<in> set (drop 1 (drop (git + 2) components)))
       [0..<length components]"

definition normal_parts :: "str \<Rightarrow> str list" where
  "normal_parts path =
     List.map_filter (\<lambda>c. case c of Normal part \<Rightarrow> Some (to_ascii_lowercase part) | _ \<Rightarrow> None) (path_components path)"

definition protected_edit_path :: "str \<Rightarrow> bool" where
  "protected_edit_path path =
     (let components = normal_parts path;
          file = (if components = [] then [] else last components)
      in file \<in> set STARTUP_FILES \<or>
         protected_git_hooks_path components \<or>
         lit ''.ssh'' \<in> set components \<or>
         (2 \<le> length components \<and>
          drop (length components - 2) components = [lit ''.grok'', lit ''config.toml'']) \<or>
         path_components path = path_components (lit ''/etc'') \<or>
         path_starts_with path (lit ''/etc''))"

definition resolved_path_is_within_root :: "file_system \<Rightarrow> str \<Rightarrow> str \<Rightarrow> bool" where
  "resolved_path_is_within_root fs resolved_path root =
     (case resolve_symlinks fs root of
        Some resolved_root \<Rightarrow> path_starts_with resolved_path resolved_root
      | None \<Rightarrow> True)"

definition edit_target_requires_prompt :: "file_system \<Rightarrow> str \<Rightarrow> bool" where
  "edit_target_requires_prompt fs path =
     (if \<not> is_abs path then True
      else if protected_edit_path (normalize_lexically path) then True
      else case resolve_symlinks fs path of
          None \<Rightarrow> True
        | Some resolved \<Rightarrow>
            protected_edit_path resolved \<or> resolved_path_is_within_root fs resolved (lit ''/etc''))"

end
