(* ===== verification/Shell_Access.thy ===== *)
theory Shell_Access
  imports Policy Shell_Paths "HOL-Library.Extended_Nat"
begin

text \<open>
  The shell-file gate (\<open>permission/shell_access.rs\<close>): which files the commands and redirections of a
  script name, where the working directory is no longer known, and how the file rules apply to them.

  A loop that pops nodes from a stack and pushes their children is the list \<open>node_visits\<close>, in the order
  of the pops, with the ancestors each node's \<open>parent()\<close> and \<open>next_sibling()\<close> are read from.  The end of
  the whole script as a scope, \<open>usize::MAX\<close>, is \<open>\<infinity>\<close>.
\<close>

section \<open>The tree\<close>

type_synonym ancestry = "(node option \<times> node) list"   \<comment> \<open>next sibling and parent, innermost first\<close>

definition child_visits :: "node \<Rightarrow> ancestry \<Rightarrow> (node \<times> ancestry) list" where
  "child_visits n anc =
     map2 (\<lambda>c sibling. (c, (sibling, n) # anc)) (children n) (map Some (tl (children n)) @ [None])"

lemma child_visits_nodes: "map fst (child_visits n anc) = children n"
proof -
  have "fst \<circ> (\<lambda>(c :: node, sibling). (c, (sibling, n) # anc)) = fst"
    by auto
  then show ?thesis
    by (cases "children n") (simp_all add: child_visits_def del: zip_Cons_Cons)
qed

function (sequential) visit :: "(node \<times> ancestry) list \<Rightarrow> (node \<times> ancestry) list" where
  "visit [] = []"
| "visit ((n, anc) # stack) = (n, anc) # visit (rev (child_visits n anc) @ stack)"
  by pat_completeness auto
termination
proof (relation "measure (\<lambda>stack. sum_list (map (size \<circ> fst) stack))")
  fix n :: node and anc :: ancestry and stack :: "(node \<times> ancestry) list"
  have "sum_list (map (size \<circ> fst) (rev (child_visits n anc))) = sum_list (map size (children n))"
    by (simp add: rev_map [symmetric] child_visits_nodes flip: map_map)
  then show "(rev (child_visits n anc) @ stack, (n, anc) # stack) \<in> measure (\<lambda>stack. sum_list (map (size \<circ> fst) stack))"
    using sum_size_children [of n] by simp
qed simp

definition node_visits :: "node \<Rightarrow> (node \<times> ancestry) list" where
  "node_visits root_nd = visit [(root_nd, [])]"

definition child_by_field_name :: "str \<Rightarrow> node \<Rightarrow> node option" where
  "child_by_field_name f n = find (\<lambda>c. field_name c = Some f) (children n)"

record exec_scope =
  sc_start :: nat
  sc_end :: enat

definition scope_contains :: "exec_scope \<Rightarrow> exec_scope \<Rightarrow> bool" where
  "scope_contains a b \<longleftrightarrow> sc_start a \<le> sc_start b \<and> sc_end a \<ge> sc_end b"

definition node_scope :: "node \<Rightarrow> exec_scope" where
  "node_scope n = \<lparr>sc_start = start_byte n, sc_end = enat (end_byte n)\<rparr>"

fun execution_scope :: "node \<Rightarrow> ancestry \<Rightarrow> exec_scope" where
  "execution_scope current [] = \<lparr>sc_start = 0, sc_end = \<infinity>\<rparr>"
| "execution_scope current ((sibling, parent) # anc) =
     (if (case sibling of Some s \<Rightarrow> kind s = lit ''&'' | None \<Rightarrow> False)
      then node_scope (if kind current = lit ''list'' then current else parent)
      else if kind parent \<in> {lit ''subshell'', lit ''command_substitution'', lit ''process_substitution''}
      then node_scope parent
      else if kind parent = lit ''pipeline'' then node_scope current
      else execution_scope parent anc)"

record cwd_poison =
  cw_at :: nat
  cw_scope :: exec_scope

definition changes_cwd :: "str \<Rightarrow> node \<Rightarrow> bool" where
  "changes_cwd src n \<longleftrightarrow>
     kind n = lit ''command'' \<and>
     (case Option.bind (child_by_field_name (lit ''name'') n) (utf8_text src) of
        Some program \<Rightarrow> basename program \<in> {lit ''cd'', lit ''pushd'', lit ''popd''}
      | None \<Rightarrow> False)"

definition cwd_poison_positions :: "node \<Rightarrow> str \<Rightarrow> cwd_poison list" where
  "cwd_poison_positions root_nd src =
     List.map_filter (\<lambda>(n, anc).
         if changes_cwd src n then Some \<lparr>cw_at = start_byte n, cw_scope = execution_scope n anc\<rparr> else None)
       (node_visits root_nd)"

definition cwd_unpinned_before :: "cwd_poison list \<Rightarrow> nat \<Rightarrow> exec_scope \<Rightarrow> bool" where
  "cwd_unpinned_before positions at_byte scope =
     list_ex (\<lambda>p. cw_at p < at_byte \<and> (cw_scope p = scope \<or> scope_contains (cw_scope p) scope)) positions"

section \<open>Words\<close>

datatype invocation_word = IWLiteral str | IWUntrusted

datatype arg_text = ArgLiteral str | ArgAmbiguous

record shell_invocation =
  si_start_byte :: nat
  si_scope :: exec_scope
  si_words :: "invocation_word list"
  si_wrapper_words :: argv

record checked_invocation_peel =
  ci_words :: "invocation_word list"
  ci_has_chdir :: bool
  ci_has_split_string :: bool
  ci_env_options_uncertain :: bool
  ci_exhausted :: bool
  ci_transparent_ambiguous :: bool

definition literal_words :: "invocation_word list \<Rightarrow> argv" where
  "literal_words = List.map_filter (\<lambda>w. case w of IWLiteral s \<Rightarrow> Some s | IWUntrusted \<Rightarrow> None)"

definition shell_words :: "invocation_word list \<Rightarrow> shell_word list" where
  "shell_words = map (\<lambda>w. case w of IWLiteral s \<Rightarrow> WLiteral s | IWUntrusted \<Rightarrow> WUntrusted)"

definition unwrap_invocation_checked :: "shell_invocation \<Rightarrow> checked_invocation_peel" where
  "unwrap_invocation_checked invocation =
     (let norm = normalize_command_words (si_wrapper_words invocation);
          peeled_count = length (si_wrapper_words invocation) - length (nc_words norm)
      in \<lparr>ci_words = drop peeled_count (si_words invocation),
          ci_has_chdir = nc_has_chdir norm,
          ci_has_split_string = nc_has_split_string norm,
          ci_env_options_uncertain = nc_env_options_uncertain norm,
          ci_exhausted = nc_exhausted norm,
          ci_transparent_ambiguous = nc_ambiguous norm\<rparr>)"

definition EXPANSION_KINDS :: "str list" where
  "EXPANSION_KINDS = map lit [''expansion'', ''simple_expansion'', ''command_substitution'', ''arithmetic_expansion'',
     ''process_substitution'']"

definition node_has_expansion :: "node \<Rightarrow> bool" where
  "node_has_expansion n = list_ex (\<lambda>(d, _). kind d \<in> set EXPANSION_KINDS) (tl (node_visits n))"

definition is_windows_path_like :: "str \<Rightarrow> bool" where
  "is_windows_path_like raw \<longleftrightarrow>
     starts_with [92, 92] raw \<or>
     (case raw of a # b # _ \<Rightarrow> is_ascii_alphabetic a \<and> b = 58 | _ \<Rightarrow> False)"

fun unescape :: "str \<Rightarrow> str option" where
  "unescape [] = Some []"
| "unescape [c] = (if c = 92 then None else Some [c])"
| "unescape (c # n # cs) =
     (if c = 92 then map_option ((#) n) (unescape cs) else map_option ((#) c) (unescape (n # cs)))"

definition decode_unquoted_word :: "str \<Rightarrow> str option" where
  "decode_unquoted_word raw =
     (if 92 \<notin> set raw then Some raw else if is_windows_path_like raw then Some raw else unescape raw)"

fun unescape_quoted :: "str \<Rightarrow> str option" where
  "unescape_quoted [] = Some []"
| "unescape_quoted [c] = (if c = 92 then None else Some [c])"
| "unescape_quoted (c # n # cs) =
     (if c \<noteq> 92 then map_option ((#) c) (unescape_quoted (n # cs))
      else if n \<in> {36, 96, 34, 92, 10} then map_option ((#) n) (unescape_quoted cs)
      else map_option (\<lambda>t. 92 # n # t) (unescape_quoted cs))"

definition decode_double_quoted_content :: "str \<Rightarrow> str option" where
  "decode_double_quoted_content content =
     (if 92 \<notin> set content then Some content else unescape_quoted content)"

definition strip_quotes :: "uchar \<Rightarrow> str \<Rightarrow> str" where
  "strip_quotes q raw =
     (case Option.bind (strip_prefix [q] raw) (strip_suffix [q]) of Some s \<Rightarrow> s | None \<Rightarrow> raw)"

definition literal_or_ambiguous :: "str option \<Rightarrow> arg_text" where
  "literal_or_ambiguous t = (case t of Some s \<Rightarrow> ArgLiteral s | None \<Rightarrow> ArgAmbiguous)"

definition shell_node_arg :: "str \<Rightarrow> node \<Rightarrow> arg_text option" where
  "shell_node_arg src n =
     (if kind n = lit ''variable_assignment'' then None
      else if kind n = lit ''word'' \<or> kind n = lit ''number'' then
        Some (literal_or_ambiguous (Option.bind (utf8_text src n) decode_unquoted_word))
      else if kind n = lit ''raw_string'' then
        map_option (\<lambda>raw. ArgLiteral (strip_quotes 39 raw)) (utf8_text src n)
      else if kind n = lit ''string'' then
        (if node_has_expansion n then Some ArgAmbiguous
         else map_option (\<lambda>raw. literal_or_ambiguous (decode_double_quoted_content (strip_quotes 34 raw))) (utf8_text src n))
      else if kind n = lit ''concatenation'' then
        (if node_has_expansion n then Some ArgAmbiguous
         else Some (literal_or_ambiguous (Option.bind (utf8_text src n) decode_shell_literal_spelling)))
      else Some ArgAmbiguous)"

definition invocation_word_of :: "str \<Rightarrow> node \<Rightarrow> invocation_word option" where
  "invocation_word_of src child =
     (let operand =
        (if kind child = lit ''command_name'' then
           (case named_children child of [] \<Rightarrow> None | inner # _ \<Rightarrow> shell_node_arg src inner)
         else shell_node_arg src child)
      in case operand of
           Some (ArgLiteral word) \<Rightarrow> Some (IWLiteral word)
         | Some ArgAmbiguous \<Rightarrow> Some IWUntrusted
         | None \<Rightarrow> None)"

definition wrapper_words_of :: "invocation_word list \<Rightarrow> argv" where
  "wrapper_words_of = map (\<lambda>w. case w of IWLiteral word \<Rightarrow> word | IWUntrusted \<Rightarrow> [0])"

definition invocation_of :: "str \<Rightarrow> node \<times> ancestry \<Rightarrow> shell_invocation option" where
  "invocation_of src = (\<lambda>(n, anc).
     if kind n = lit ''command'' then
       (let words = List.map_filter (invocation_word_of src) (named_children n)
        in Some \<lparr>si_start_byte = start_byte n, si_scope = execution_scope n anc, si_words = words,
             si_wrapper_words = wrapper_words_of words\<rparr>)
     else None)"

definition shell_command_invocations :: "node \<Rightarrow> str \<Rightarrow> shell_invocation list" where
  "shell_command_invocations root_nd src =
     sort_key si_start_byte (List.map_filter (invocation_of src) (node_visits root_nd))"

definition words_are_opaque_shell :: "shell_word list \<Rightarrow> bool" where
  "words_are_opaque_shell words \<longleftrightarrow>
     is_potential_inline (shell_dash_c_script words) \<or>
     (case words of WLiteral program # _ \<Rightarrow> basename program = lit ''eval'' | _ \<Rightarrow> False)"

definition tree_has_opaque_shell :: "node \<Rightarrow> str \<Rightarrow> bool" where
  "tree_has_opaque_shell root_nd src =
     list_ex (\<lambda>invocation. words_are_opaque_shell (shell_words (ci_words (unwrap_invocation_checked invocation))))
       (shell_command_invocations root_nd src)"

section \<open>Redirections\<close>

datatype file_mode = ReadFile | WriteFile

record shell_redirect_target =
  rd_path :: "str option"
  rd_mode :: file_mode
  rd_ambiguous :: bool
  rd_start_byte :: nat
  rd_scope :: exec_scope

definition str_contains :: "str \<Rightarrow> str \<Rightarrow> bool" where
  "str_contains p s = list_ex (\<lambda>k. starts_with p (drop k s)) [0..<Suc (length s)]"

definition shell_arg_is_ambiguous :: "str \<Rightarrow> bool" where
  "shell_arg_is_ambiguous token \<longleftrightarrow> 42 \<in> set token \<or> 63 \<in> set token \<or> 91 \<in> set token"

text \<open>The first child with an angle bracket decides; a here-document is not a file.\<close>

definition shell_redirect_one :: "str \<Rightarrow> node \<Rightarrow> (str option \<times> file_mode \<times> bool) option" where
  "shell_redirect_one src n =
     (case find (\<lambda>k. 62 \<in> set k \<or> 60 \<in> set k) (map kind (children n)) of
        None \<Rightarrow> None
      | Some redirect \<Rightarrow>
          if str_contains (lit ''<<'') redirect then None
          else let mode = (if 62 \<in> set redirect then WriteFile else ReadFile);
                   duplicates_fd = (redirect = lit ''>&'' \<or> redirect = lit ''<&'')
            in case child_by_field_name (lit ''destination'') n of
                 None \<Rightarrow> None
               | Some dest \<Rightarrow>
                   (case shell_node_arg src dest of
                      None \<Rightarrow> None
                    | Some (ArgLiteral s) \<Rightarrow>
                        if s = [] \<or> starts_with (lit ''&'') s \<or>
                           (duplicates_fd \<and> (s = lit ''-'' \<or> (\<forall>c \<in> set s. 48 \<le> c \<and> c \<le> 57)))
                        then None else Some (Some s, mode, shell_arg_is_ambiguous s)
                    | Some ArgAmbiguous \<Rightarrow> Some (None, mode, True)))"

definition redirect_of :: "str \<Rightarrow> node \<times> ancestry \<Rightarrow> shell_redirect_target option" where
  "redirect_of src = (\<lambda>(n, anc).
     if kind n = lit ''file_redirect'' then
       map_option (\<lambda>(path, mode, ambiguous).
           \<lparr>rd_path = path, rd_mode = mode, rd_ambiguous = ambiguous, rd_start_byte = start_byte n,
            rd_scope = execution_scope n anc\<rparr>)
         (shell_redirect_one src n)
     else None)"

definition shell_redirect_targets :: "node \<Rightarrow> str \<Rightarrow> shell_redirect_target list" where
  "shell_redirect_targets root_nd src = List.map_filter (redirect_of src) (node_visits root_nd)"

section \<open>Operands\<close>

definition READER_PROGRAMS :: "str list" where
  "READER_PROGRAMS = map lit [''cat'', ''tac'', ''nl'', ''head'', ''tail'', ''grep'', ''egrep'', ''fgrep'', ''rg'', ''sed'',
     ''awk'', ''less'', ''more'', ''bat'', ''strings'', ''xxd'', ''od'', ''hexdump'', ''base64'', ''base32'', ''cut'', ''sort'',
     ''uniq'', ''wc'', ''type'', ''get-content'', ''gc'', ''diff'', ''comm'', ''rev'', ''jq'', ''yq'', ''select-string'', ''sls'',
     ''ag'', ''ack'', ''zcat'', ''zless'', ''zmore'', ''zgrep'', ''zegrep'', ''zfgrep'', ''bzcat'', ''bzgrep'', ''xzcat'',
     ''xzgrep'', ''zstdcat'', ''lz4cat'']"

definition WRITER_PROGRAMS :: "str list" where
  "WRITER_PROGRAMS = map lit [''tee'', ''set-content'', ''out-file'', ''add-content'', ''tee-object'', ''truncate'']"

definition shell_file_mode :: "str \<Rightarrow> file_mode option" where
  "shell_file_mode program =
     (if program \<in> set READER_PROGRAMS then Some ReadFile
      else if program \<in> set WRITER_PROGRAMS then Some WriteFile else None)"

definition shell_sed_in_place :: "argv \<Rightarrow> bool" where
  "shell_sed_in_place words =
     list_ex (\<lambda>word. word = lit ''--in-place'' \<or> starts_with (lit ''--in-place='') word \<or>
         starts_with (lit ''-'') word \<and> \<not> starts_with (lit ''--'') word \<and> 105 \<in> set word)
       (drop 1 words)"

text \<open>Each word with the word after it.\<close>

definition with_next :: "argv \<Rightarrow> (str \<times> str option) list" where
  "with_next words = zip words (map Some (drop 1 words) @ [None])"

definition nonempty :: "str option \<Rightarrow> str option" where
  "nonempty t = (if t = Some [] then None else t)"

definition or_else :: "'a option \<Rightarrow> 'a option \<Rightarrow> 'a option" where
  "or_else a b = (case a of Some _ \<Rightarrow> a | None \<Rightarrow> b)"

definition shell_output_flag_values :: "argv \<Rightarrow> str list" where
  "shell_output_flag_values words =
     List.map_filter (\<lambda>(token, next_word).
         or_else (strip_prefix (lit ''--output='') token)
           (or_else (nonempty (strip_prefix (lit ''-o'') token))
             (if token = lit ''--output'' \<or> token = lit ''-o'' then next_word else None)))
       (with_next words)"

definition value_flag_values :: "argv \<Rightarrow> str \<Rightarrow> str list" where
  "value_flag_values words flag =
     List.map_filter (\<lambda>(token, next_word).
         case strip_prefix (flag @ lit ''='') token of
           Some v \<Rightarrow> Some v
         | None \<Rightarrow>
             if token = flag then next_word
             else if \<not> starts_with (lit ''--'') flag then nonempty (strip_prefix flag token)
             else None)
       (with_next words)"

fun candidates_loop :: "bool \<Rightarrow> argv \<Rightarrow> str list" where
  "candidates_loop end_of_options [] = []"
| "candidates_loop end_of_options (token # rest) =
     (if \<not> end_of_options \<and> token = lit ''--'' then candidates_loop True rest
      else if end_of_options \<or> token \<noteq> lit ''-'' \<and> \<not> starts_with (lit ''-'') token
      then token # candidates_loop end_of_options rest
      else candidates_loop end_of_options rest)"

definition shell_file_candidates :: "argv \<Rightarrow> str list" where
  "shell_file_candidates words = candidates_loop False (drop 1 words)"

definition special_file_operands :: "str \<Rightarrow> argv \<Rightarrow> (str \<times> file_mode) list" where
  "special_file_operands program words =
     (if program = lit ''dd'' then
        List.map_filter (\<lambda>token.
            or_else (map_option (\<lambda>p. (p, ReadFile)) (strip_prefix (lit ''if='') token))
              (map_option (\<lambda>p. (p, WriteFile)) (strip_prefix (lit ''of='') token)))
          (drop 1 words)
      else if program = lit ''sort'' \<or> program = lit ''go'' \<or> program = lit ''git'' then
        map (\<lambda>p. (p, WriteFile)) (shell_output_flag_values words)
      else if program = lit ''rustc'' then
        map (\<lambda>p. (p, WriteFile)) (shell_output_flag_values words @ value_flag_values words (lit ''--out-dir''))
      else if program = lit ''rustfmt'' then
        map (\<lambda>p. (p, WriteFile)) (shell_file_candidates words)
      else [])"

definition shell_path_command_operands :: "str \<Rightarrow> argv \<Rightarrow> (str \<times> file_mode) list option" where
  "shell_path_command_operands program words =
     (let operands = shell_file_candidates words in
      if program \<in> {lit ''cp'', lit ''mv'', lit ''ln'', lit ''install''} then
        (if operands = [] then None
         else Some (map (\<lambda>s. (s, ReadFile)) (butlast operands) @ [(last operands, WriteFile)]))
      else if program \<in> {lit ''rm'', lit ''rmdir'', lit ''mkdir'', lit ''touch''} then
        Some (map (\<lambda>c. (c, WriteFile)) operands)
      else if program = lit ''uniq'' then
        (case operands of
           input # dest # _ \<Rightarrow> Some [(input, ReadFile), (dest, WriteFile)]
         | _ \<Rightarrow> None)
      else None)"

definition is_directory_operand :: "str \<Rightarrow> bool" where
  "is_directory_operand token \<longleftrightarrow> token = lit ''.'' \<or> token = lit ''..'' \<or> ends_with (lit ''/'') token"

definition shell_reader_can_recurse :: "str \<Rightarrow> argv \<Rightarrow> str list \<Rightarrow> bool" where
  "shell_reader_can_recurse program words candidates =
     (let grep_recursive = (program \<in> {lit ''grep'', lit ''egrep'', lit ''fgrep''} \<and>
            list_ex (\<lambda>word. word = lit ''--recursive'' \<or> word = lit ''--dereference-recursive'' \<or>
              starts_with (lit ''-'') word \<and> \<not> starts_with (lit ''--'') word \<and> (114 \<in> set word \<or> 82 \<in> set word)) words);
          searches_dir = (program \<in> {lit ''rg'', lit ''ag'', lit ''ack''} \<and>
            (length candidates \<le> 1 \<or> list_ex is_directory_operand (drop 1 candidates)))
      in grep_recursive \<or> searches_dir)"

section \<open>Paths a script writes\<close>

definition command_words_write_paths :: "argv \<Rightarrow> str list" where
  "command_words_write_paths words =
     (case unwrap_wrappers words of
        [] \<Rightarrow> []
      | w # ws \<Rightarrow>
          let inner = w # ws; program = to_ascii_lowercase (basename w);
              written = (\<lambda>ops. map fst (filter (\<lambda>(_, mode). mode = WriteFile) ops));
              out = written (special_file_operands program inner)
          in case shell_path_command_operands program inner of
               Some operands \<Rightarrow> out @ written operands
             | None \<Rightarrow>
                 if shell_file_mode program = Some WriteFile \<or> program = lit ''sed'' \<and> shell_sed_in_place inner
                 then out @ shell_file_candidates inner else out)"

definition command_write_paths_in_tree :: "node \<Rightarrow> str \<Rightarrow> str list" where
  "command_write_paths_in_tree root_nd src =
     List.map_filter (\<lambda>r. if rd_mode r = WriteFile then rd_path r else None) (shell_redirect_targets root_nd src) @
     concat (map (\<lambda>i. command_words_write_paths (literal_words (si_words i))) (shell_command_invocations root_nd src))"

definition is_safe_write_sink :: "str \<Rightarrow> bool" where
  "is_safe_write_sink path \<longleftrightarrow> path \<in> {lit ''/dev/null'', lit ''/dev/stdout'', lit ''/dev/stderr''}"

section \<open>The gate\<close>

fun shell_access :: "file_mode \<Rightarrow> str \<Rightarrow> access_kind" where
  "shell_access ReadFile path = ReadAccess (Some path)"
| "shell_access WriteFile path = EditAccess path"

definition escalate_access :: "'g policy_env \<Rightarrow> 'g compiled_policy \<Rightarrow> access_kind \<Rightarrow> gate_decision option" where
  "escalate_access env pol access =
     (case evaluate env pol access of
        Some (Reject reason) \<Rightarrow> Some (GateReject reason)
      | Some Ask \<Rightarrow> Some AskRuleMatch
      | _ \<Rightarrow> None)"

definition evaluate_shell_path :: "'g policy_env \<Rightarrow> file_system \<Rightarrow> 'g compiled_policy \<Rightarrow> str \<Rightarrow> str \<Rightarrow> file_mode \<Rightarrow>
    bool \<Rightarrow> gate_decision option" where
  "evaluate_shell_path env fs pol token cwd mode cwd_unpinned =
     (let path = normalize_shell_path token;
          is_absolute = is_absolute_shell_path path;
          esc = (\<lambda>p. escalate_access env pol (shell_access mode p));
          raw = normalize_shell_path_raw token;
          raw_absolute =
            (if is_absolute_shell_path raw then Some raw
             else if cwd_unpinned then None
             else Some (normalize_shell_path_raw (path_join cwd raw)));
          absolute = (if is_absolute then path else normalize_shell_path (path_join cwd path));
          resolved_decision =
            (case raw_absolute of
               None \<Rightarrow> None
             | Some raw_absolute \<Rightarrow>
                 (case resolve_symlink_target fs raw_absolute of
                    Some resolved \<Rightarrow> if resolved \<noteq> absolute then esc resolved else None
                  | None \<Rightarrow> then_some (path_has_symlink fs raw_absolute) AskFailClosed));
          path_decision = esc path;
          anchored_decision =
            (if cwd_unpinned \<and> \<not> is_absolute then None
             else combine_gate_decisions (esc absolute) resolved_decision);
          decision = combine_gate_decisions path_decision anchored_decision
      in combine_gate_decisions decision (then_some (cwd_unpinned \<and> \<not> is_absolute) AskFailClosed))"

text \<open>
  What one redirection or invocation adds to the two loop variables: whether \<open>forced_ask\<close> is set, and
  the decisions combined into \<open>decision\<close>, in order.
\<close>

type_synonym finding = "bool \<times> gate_decision option list"

definition redirect_finding :: "(str \<Rightarrow> file_mode \<Rightarrow> bool \<Rightarrow> gate_decision option) \<Rightarrow> bool \<Rightarrow> cwd_poison list \<Rightarrow>
    shell_redirect_target \<Rightarrow> finding" where
  "redirect_finding eval cwd_unpinned cwd_changes r =
     (rd_ambiguous r,
      case rd_path r of
        None \<Rightarrow> []
      | Some path \<Rightarrow>
          [eval path (rd_mode r) (cwd_unpinned \<or> cwd_unpinned_before cwd_changes (rd_start_byte r) (rd_scope r))])"

text \<open>The operands of a program that the gate looks at, and whether it may search a directory.\<close>

definition mode_operands :: "str \<Rightarrow> argv \<Rightarrow> (str \<times> file_mode) list" where
  "mode_operands program words =
     (let modes = (case shell_file_mode program of
            None \<Rightarrow> []
          | Some mode \<Rightarrow>
              if program = lit ''sed'' \<and> shell_sed_in_place words then [ReadFile, WriteFile] else [mode])
      in concat (map (\<lambda>token. map (\<lambda>mode. (token, mode)) modes) (shell_file_candidates words)))"

definition gate_operands :: "str \<Rightarrow> argv \<Rightarrow> (str \<times> file_mode) list" where
  "gate_operands program words =
     special_file_operands program words @
     (if program = lit ''dd'' then []
      else case shell_path_command_operands program words of
          Some operands \<Rightarrow> operands
        | None \<Rightarrow> mode_operands program words)"

definition gate_recurses :: "str \<Rightarrow> argv \<Rightarrow> bool" where
  "gate_recurses program words \<longleftrightarrow>
     program \<noteq> lit ''dd'' \<and> shell_path_command_operands program words = None \<and>
     shell_file_mode program \<noteq> None \<and> shell_reader_can_recurse program words (shell_file_candidates words)"

definition operands_finding :: "(str \<Rightarrow> file_mode \<Rightarrow> bool \<Rightarrow> gate_decision option) \<Rightarrow> bool \<Rightarrow> bool \<Rightarrow>
    invocation_word list \<Rightarrow> finding" where
  "operands_finding eval parse_failed unpinned words =
     (case words of
        IWLiteral w # _ \<Rightarrow>
          let program = to_ascii_lowercase (basename w); literals = literal_words words in
          if program \<in> {lit ''cd'', lit ''pushd'', lit ''popd''} then (False, [])
          else let operands = gate_operands program literals;
                   is_known = (program = lit ''dd'' \<or> shell_file_mode program \<noteq> None \<or>
                     shell_path_command_operands program literals \<noteq> None)
            in (is_known \<and> (unpinned \<or> IWUntrusted \<in> set words \<or> parse_failed) \<or>
                list_ex (\<lambda>(path, _). shell_arg_is_ambiguous path) operands \<or> gate_recurses program literals,
                map (\<lambda>(path, mode). eval path mode unpinned) operands)
      | _ \<Rightarrow> (False, []))"

definition inline_finding :: "(str \<Rightarrow> bool \<Rightarrow> gate_decision option) option \<Rightarrow> bool \<Rightarrow> bool \<Rightarrow> shell_word list \<Rightarrow> finding" where
  "inline_finding nested parse_failed unpinned words =
     (let script = shell_dash_c_script words;
          (forced, decisions) =
            (case script of
               NotInline \<Rightarrow> (False, [])
             | InlineLiteral index \<Rightarrow>
                 (case nested of
                    None \<Rightarrow> (True, [])
                  | Some rec \<Rightarrow>
                      (case words ! index of
                         WLiteral inner \<Rightarrow> (False, [rec inner unpinned])
                       | WUntrusted \<Rightarrow> (False, [])))
             | _ \<Rightarrow> (True, []))
      in (parse_failed \<and> script \<noteq> NotInline \<or> forced, decisions))"

definition invocation_finding :: "(str \<Rightarrow> file_mode \<Rightarrow> bool \<Rightarrow> gate_decision option) \<Rightarrow>
    (str \<Rightarrow> bool \<Rightarrow> gate_decision option) option \<Rightarrow> bool \<Rightarrow> bool \<Rightarrow> cwd_poison list \<Rightarrow> shell_invocation \<Rightarrow> finding" where
  "invocation_finding eval nested parse_failed cwd_unpinned cwd_changes invocation =
     (let peeled = unwrap_invocation_checked invocation;
          words = ci_words peeled;
          unpinned = (cwd_unpinned \<or> cwd_unpinned_before cwd_changes (si_start_byte invocation) (si_scope invocation) \<or>
            ci_has_chdir peeled);
          (inline_forced, inline_decisions) = inline_finding nested parse_failed unpinned (shell_words words);
          (operands_forced, operands_decisions) = operands_finding eval parse_failed unpinned words
      in (ci_exhausted peeled \<or> ci_has_split_string peeled \<or> ci_env_options_uncertain peeled \<or>
          ci_transparent_ambiguous peeled \<or> inline_forced \<or> operands_forced,
          inline_decisions @ operands_decisions))"

definition file_access_step :: "'g policy_env \<Rightarrow> file_system \<Rightarrow> 'g compiled_policy \<Rightarrow> str \<Rightarrow>
    (str \<Rightarrow> bool \<Rightarrow> gate_decision option) option \<Rightarrow> bool \<Rightarrow> str \<Rightarrow> bool \<Rightarrow> gate_decision option" where
  "file_access_step env fs pol cwd nested entered_inline cmd cwd_unpinned =
     (case pe_parse_shell env cmd of
        None \<Rightarrow> then_some entered_inline AskFailClosed
      | Some t \<Rightarrow>
          let parse_failed = has_error t;
              eval = (\<lambda>path mode unpinned. evaluate_shell_path env fs pol path cwd mode unpinned);
              cwd_changes = cwd_poison_positions (root_node t) cmd;
              findings =
                map (redirect_finding eval cwd_unpinned cwd_changes) (shell_redirect_targets (root_node t) cmd) @
                map (invocation_finding eval nested parse_failed cwd_unpinned cwd_changes)
                  (shell_command_invocations (root_node t) cmd);
              forced_ask = (entered_inline \<and> parse_failed \<or> list_ex fst findings);
              decision = fold (\<lambda>d acc. combine_gate_decisions acc d) (concat (map snd findings)) None
          in combine_gate_decisions decision (then_some forced_ask AskFailClosed))"

primrec evaluate_shell_file_access_inner :: "'g policy_env \<Rightarrow> file_system \<Rightarrow> 'g compiled_policy \<Rightarrow> str \<Rightarrow> nat \<Rightarrow>
    bool \<Rightarrow> str \<Rightarrow> bool \<Rightarrow> gate_decision option" where
  "evaluate_shell_file_access_inner env fs pol cwd 0 = file_access_step env fs pol cwd None"
| "evaluate_shell_file_access_inner env fs pol cwd (Suc depth) =
     file_access_step env fs pol cwd (Some (evaluate_shell_file_access_inner env fs pol cwd depth True))"

definition evaluate_shell_file_access_gate :: "'g policy_env \<Rightarrow> file_system \<Rightarrow> str \<Rightarrow> 'g compiled_policy \<Rightarrow> str \<Rightarrow>
    gate_decision option" where
  "evaluate_shell_file_access_gate env fs cwd pol cmd =
     (if \<not> cp_has_file_restrictions pol then None
      else evaluate_shell_file_access_inner env fs pol cwd MAX_INLINE_SHELL_DEPTH False cmd False)"

definition evaluate_shell_file_access :: "'g policy_env \<Rightarrow> file_system \<Rightarrow> str \<Rightarrow> 'g compiled_policy \<Rightarrow> str \<Rightarrow>
    decision option" where
  "evaluate_shell_file_access env fs cwd pol cmd =
     map_option into_decision (evaluate_shell_file_access_gate env fs cwd pol cmd)"

text \<open>\<open>GatePreflight::evaluate\<close> with the gate it calls on the paths of a shell command.\<close>

definition preflight_with_files :: "'g policy_env \<Rightarrow> file_system \<Rightarrow> str \<Rightarrow> 'g compiled_policy option \<Rightarrow>
    access_kind \<Rightarrow> bool \<Rightarrow> gate_preflight" where
  "preflight_with_files env fs cwd = preflight_evaluate env (evaluate_shell_file_access_gate env fs cwd)"

end
