(* ===== verification/Env_Risk.thy ===== *)
theory Env_Risk
  imports Shell_Access
begin

text \<open>
  The environment assignments of a script and their risk (\<open>permission/auto_mode.rs\<close>,
  \<open>script_env_risk\<close>, \<open>command_env_risk\<close>, \<open>assignment_key\<close> and the key lists).
\<close>

section \<open>Risks\<close>

datatype env_risk = EnvSafe | EnvUnvetted | EnvInjection

text \<open>\<open>EnvRisk\<close> derives \<open>Ord\<close>: the order of the constructors.\<close>

fun risk_index :: "env_risk \<Rightarrow> nat" where
  "risk_index EnvSafe = 0"
| "risk_index EnvUnvetted = 1"
| "risk_index EnvInjection = 2"

instantiation env_risk :: linorder
begin

definition less_eq_env_risk :: "env_risk \<Rightarrow> env_risk \<Rightarrow> bool" where
  "less_eq_env_risk a b \<longleftrightarrow> risk_index a \<le> risk_index b"

definition less_env_risk :: "env_risk \<Rightarrow> env_risk \<Rightarrow> bool" where
  "less_env_risk a b \<longleftrightarrow> risk_index a < risk_index b"

instance
proof
  fix a b :: env_risk
  show "a \<le> b \<Longrightarrow> b \<le> a \<Longrightarrow> a = b"
    by (cases a; cases b; simp add: less_eq_env_risk_def)
qed (auto simp: less_eq_env_risk_def less_env_risk_def)

end

lemma env_safe_least: "EnvSafe \<le> r" "r \<le> EnvSafe \<longleftrightarrow> r = EnvSafe"
  by (cases r; simp add: less_eq_env_risk_def)+

lemma max_safe_iff: "max a b = EnvSafe \<longleftrightarrow> a = EnvSafe \<and> b = EnvSafe"
  by (metis env_safe_least max.bounded_iff max.idem)

definition SAFE_ENV_KEYS :: "str list" where
  "SAFE_ENV_KEYS = map lit [''CARGO_TERM_COLOR'', ''CARGO_TERM_PROGRESS_WHEN'', ''RUST_LOG'', ''RUST_LOG_STYLE'',
     ''RUST_BACKTRACE'', ''RUST_TEST_THREADS'', ''RUST_MIN_STACK'', ''NO_COLOR'', ''CLICOLOR'', ''CLICOLOR_FORCE'',
     ''FORCE_COLOR'', ''COLORTERM'']"

definition INJECTION_ENV_KEYS :: "str list" where
  "INJECTION_ENV_KEYS = map lit [''LD_PRELOAD'', ''LD_AUDIT'', ''BASH_ENV'', ''ENV'', ''IFS'', ''PATH'', ''GIT_EXTERNAL_DIFF'',
     ''GIT_PROXY_COMMAND'', ''PROMPT_COMMAND'']"

definition INJECTION_ENV_KEY_PREFIXES :: "str list" where
  "INJECTION_ENV_KEY_PREFIXES = map lit [''DYLD_'', ''GIT_CONFIG'']"

definition is_safe_env_key :: "str \<Rightarrow> bool" where
  "is_safe_env_key key \<longleftrightarrow> key \<in> set SAFE_ENV_KEYS"

definition env_key_risk :: "str \<Rightarrow> env_risk" where
  "env_key_risk key =
     (if is_safe_env_key key then EnvSafe
      else if key \<in> set INJECTION_ENV_KEYS \<or> list_ex (\<lambda>p. starts_with p key) INJECTION_ENV_KEY_PREFIXES
      then EnvInjection else EnvUnvetted)"

section \<open>Assignments of a command and of a script\<close>

text \<open>The arguments of one \<open>env\<close>; \<open>None\<close> is the early return on an option.\<close>

fun env_args_risk :: "bool \<Rightarrow> argv \<Rightarrow> env_risk \<Rightarrow> env_risk option" where
  "env_args_risk options_done [] risk = Some risk"
| "env_args_risk options_done (arg # rest) risk =
     (if arg = lit ''--'' then env_args_risk True rest risk
      else if \<not> options_done \<and> starts_with (lit ''-'') arg then None
      else if 61 \<in> set arg
      then env_args_risk options_done rest (max risk (env_key_risk (takeWhile (\<lambda>c. c \<noteq> 61) arg)))
      else Some risk)"

text \<open>The first argument is the number of rounds left.\<close>

primrec command_env_loop :: "nat \<Rightarrow> argv \<Rightarrow> env_risk \<Rightarrow> env_risk" where
  "command_env_loop 0 current risk = risk"
| "command_env_loop (Suc n) current risk =
     (case (if heads_env current then env_args_risk False (tl current) risk else Some risk) of
        None \<Rightarrow> EnvInjection
      | Some risk \<Rightarrow>
          (case strip_wrapper_command current of
             Some inner \<Rightarrow> command_env_loop n inner risk
           | None \<Rightarrow> risk))"

definition command_env_risk :: "argv \<Rightarrow> env_risk" where
  "command_env_risk words = command_env_loop 8 words EnvSafe"

definition assignment_key :: "str \<Rightarrow> node \<Rightarrow> str" where
  "assignment_key src n =
     (case List.map_filter (utf8_text src) (filter (\<lambda>c. kind c = lit ''variable_name'') (children n)) of
        t # _ \<Rightarrow> t
      | [] \<Rightarrow> (case utf8_text src n of Some t \<Rightarrow> takeWhile (\<lambda>c. c \<noteq> 61) t | None \<Rightarrow> []))"

definition script_env_risk :: "node \<Rightarrow> str \<Rightarrow> plain_command list \<Rightarrow> env_risk" where
  "script_env_risk root_nd src cmds =
     (let risk = fold (\<lambda>(n, _) risk.
            if kind n = lit ''variable_assignment'' then max risk (env_key_risk (assignment_key src n)) else risk)
          (node_visits root_nd) EnvSafe
      in fold (\<lambda>c risk. max risk (command_env_risk (pc_words c))) cmds risk)"

section \<open>A safe script\<close>

lemma fold_max_safe:
  "fold (\<lambda>x r. if P x then max r (f x) else r) xs r = EnvSafe \<longleftrightarrow> r = EnvSafe \<and> (\<forall>x \<in> set xs. P x \<longrightarrow> f x = EnvSafe)"
  by (induction xs arbitrary: r) (auto simp: max_safe_iff)

lemma script_env_risk_safe_iff:
  "script_env_risk root_nd src cmds = EnvSafe \<longleftrightarrow>
   (\<forall>(n, _) \<in> set (node_visits root_nd). kind n = lit ''variable_assignment'' \<longrightarrow> is_safe_env_key (assignment_key src n)) \<and>
   (\<forall>c \<in> set cmds. command_env_risk (pc_words c) = EnvSafe)"
proof -
  have key: "env_key_risk k = EnvSafe \<longleftrightarrow> is_safe_env_key k" for k
    by (simp add: env_key_risk_def)
  show ?thesis
    using fold_max_safe [of "\<lambda>_. True" "\<lambda>c. command_env_risk (pc_words c)" cmds]
      fold_max_safe [of "\<lambda>x :: node \<times> ancestry. kind (fst x) = lit ''variable_assignment''" "\<lambda>x. env_key_risk (assignment_key src (fst x))"]
    by (simp add: script_env_risk_def Let_def case_prod_unfold key del: lit_simps)
qed

end
