(* ===== verification/Bash_Grants.thy ===== *)
theory Bash_Grants
  imports Env_Risk
begin

text \<open>
  What the permission manager concludes about a bash request from its built-in lists and the
  session's grants (\<open>permission/manager.rs\<close>: the safe and dangerous lists, \<open>evaluate_bash\<close>,
  \<open>default_always_allow_scope\<close>, \<open>bash_grant_pre_decision\<close>), with the command-line part of
  \<open>exec_risk.rs\<close>.

  A \<open>HashSet\<close> of grants is a list; its order stands for the iteration order.
\<close>

section \<open>Execution risk of one command\<close>

definition normalized_token_basename :: "str \<Rightarrow> str" where
  "normalized_token_basename token =
     (let name = to_ascii_lowercase (basename token) in
      case strip_suffix (lit ''.exe'') name of Some stem \<Rightarrow> stem | None \<Rightarrow> name)"

definition normalized_program_name :: "argv \<Rightarrow> str option" where
  "normalized_program_name words =
     (case words of
        [] \<Rightarrow> None
      | raw # _ \<Rightarrow> if basename raw = [] then None else Some (normalized_token_basename raw))"

definition is_git_program :: "argv \<Rightarrow> bool" where
  "is_git_program words \<longleftrightarrow> normalized_program_name words = Some (lit ''git'')"

definition is_sort_program :: "argv \<Rightarrow> bool" where
  "is_sort_program words \<longleftrightarrow> normalized_program_name words = Some (lit ''sort'')"

definition is_accepted_long_option_prefix :: "str \<Rightarrow> str \<Rightarrow> nat \<Rightarrow> bool" where
  "is_accepted_long_option_prefix flag full min_len \<longleftrightarrow>
     starts_with (lit ''--'') flag \<and> str_len flag \<ge> min_len \<and> starts_with flag full \<and>
     (\<forall>c \<in> set flag. is_ascii_alphanumeric c \<or> c = 45)"

text \<open>\<open>w.split_once('=').map_or(w, |(f, _)| f)\<close>\<close>

definition before_eq :: "str \<Rightarrow> str" where
  "before_eq w = takeWhile (\<lambda>c. c \<noteq> 61) w"

fun sort_scan :: "argv \<Rightarrow> bool" where
  "sort_scan [] = False"
| "sort_scan (w # ws) =
     (if w = lit ''--'' then False
      else if w = lit ''--compress-program'' \<or> starts_with (lit ''--compress-program='') w \<or>
        is_accepted_long_option_prefix (before_eq w) (lit ''--compress-program'') 4 then True
      else sort_scan ws)"

definition sort_has_compress_program_flag :: "argv \<Rightarrow> bool" where
  "sort_has_compress_program_flag words = sort_scan (drop 1 words)"

definition is_git_config_env_flag :: "str \<Rightarrow> bool" where
  "is_git_config_env_flag tok \<longleftrightarrow>
     tok = lit ''--config-env'' \<or> starts_with (lit ''--config-env='') tok \<or>
     is_accepted_long_option_prefix (before_eq tok) (lit ''--config-env'') 4"

definition is_git_repo_retarget_flag :: "str \<Rightarrow> bool" where
  "is_git_repo_retarget_flag tok \<longleftrightarrow>
     tok = lit ''--git-dir'' \<or> starts_with (lit ''--git-dir='') tok \<or>
     tok = lit ''--work-tree'' \<or> starts_with (lit ''--work-tree='') tok \<or>
     is_accepted_long_option_prefix (before_eq tok) (lit ''--git-dir'') 4 \<or>
     is_accepted_long_option_prefix (before_eq tok) (lit ''--work-tree'') 4"

definition is_attached_git_config_c :: "str \<Rightarrow> bool" where
  "is_attached_git_config_c tok \<longleftrightarrow>
     starts_with (lit ''-c'') tok \<and> str_len tok > 2 \<and> \<not> starts_with (lit ''--'') tok"

definition attached_git_c_path :: "str \<Rightarrow> str option" where
  "attached_git_c_path tok =
     (case strip_prefix (lit ''-C'') tok of
        None \<Rightarrow> None
      | Some rest \<Rightarrow> if rest \<noteq> [] \<and> \<not> starts_with (lit ''--'') tok then Some rest else None)"

definition git_global_option_takes_value :: "str \<Rightarrow> bool" where
  "git_global_option_takes_value tok \<longleftrightarrow>
     tok \<in> set (map lit [''-C'', ''-c'', ''--git-dir'', ''--work-tree'', ''--namespace'', ''--super-prefix'', ''--exec-path'',
       ''--list-cmds'', ''--attr-source'', ''--config-env'']) \<or>
     list_ex (\<lambda>(full, n). is_accepted_long_option_prefix tok (lit full) n)
       [(''--config-env'', 4), (''--git-dir'', 4), (''--work-tree'', 4), (''--namespace'', 7), (''--super-prefix'', 8),
        (''--exec-path'', 7), (''--list-cmds'', 7), (''--attr-source'', 8)]"

definition git_risky_global :: "str \<Rightarrow> bool" where
  "git_risky_global tok \<longleftrightarrow>
     tok = lit ''-c'' \<or> is_attached_git_config_c tok \<or> is_git_config_env_flag tok \<or> is_git_repo_retarget_flag tok"

definition git_skips_value :: "str \<Rightarrow> argv \<Rightarrow> bool" where
  "git_skips_value tok rest \<longleftrightarrow>
     61 \<notin> set tok \<and> git_global_option_takes_value tok \<and>
     (case rest of [] \<Rightarrow> False | n # _ \<Rightarrow> \<not> starts_with (lit ''-'') n \<or> n = lit ''-'')"

function (sequential) git_scan :: "argv \<Rightarrow> bool" where
  "git_scan [] = False"
| "git_scan (tok # rest) =
     (if tok = lit ''--'' then False
      else if \<not> starts_with (lit ''-'') tok \<or> tok = lit ''-'' then False
      else if git_risky_global tok then True
      else if attached_git_c_path tok \<noteq> None then git_scan rest
      else if git_skips_value tok rest then git_scan (drop 1 rest)
      else git_scan rest)"
  by pat_completeness auto
termination by (relation "measure length") simp_all

definition git_has_exec_risk_global :: "argv \<Rightarrow> bool" where
  "git_has_exec_risk_global words = git_scan (drop 1 words)"

definition segment_has_exec_risk_flag :: "argv \<Rightarrow> bool" where
  "segment_has_exec_risk_flag words =
     (if is_sort_program words then sort_has_compress_program_flag words
      else if is_git_program words then git_has_exec_risk_global words
      else False)"

text \<open>\<open>None\<close> is \<open>FailClosed\<close>; slices of one vector are equal when their lengths are.\<close>

fun exec_norm_loop :: "nat \<Rightarrow> argv \<Rightarrow> argv option" where
  "exec_norm_loop 0 current = None"
| "exec_norm_loop (Suc n) current =
     (let checked = unwrap_wrappers_checked current in
      if cw_exhausted checked \<or> cw_has_split_string checked \<or> cw_has_chdir checked then None
      else case peel_transparent_prefixes (cw_words checked) of
          PeelAmbiguous \<Rightarrow> None
        | Ready after_trans \<Rightarrow>
            if length after_trans = length current then Some after_trans
            else if length after_trans = length (cw_words checked) then Some after_trans
            else exec_norm_loop n after_trans)"

definition normalize_for_exec_risk :: "argv \<Rightarrow> argv option" where
  "normalize_for_exec_risk words = exec_norm_loop MAX_NORMALIZE_ROUNDS words"

record segment_exec_facts_result =
  sf_exec_risk :: bool
  sf_has_git :: bool

definition segment_exec_facts :: "argv \<Rightarrow> segment_exec_facts_result" where
  "segment_exec_facts words =
     (case normalize_for_exec_risk words of
        None \<Rightarrow> \<lparr>sf_exec_risk = True, sf_has_git = False\<rparr>
      | Some inner \<Rightarrow> \<lparr>sf_exec_risk = segment_has_exec_risk_flag inner, sf_has_git = is_git_program inner\<rparr>)"

definition script_may_invoke_git :: "str \<Rightarrow> bool" where
  "script_may_invoke_git cmd =
     list_ex (\<lambda>token. let trimmed = trim_matches (\<lambda>c. c \<in> {39, 34, 96}) token in
         trimmed \<noteq> [] \<and> normalized_token_basename trimmed = lit ''git'')
       (split_where (\<lambda>c. is_whitespace c \<or> c \<in> {124, 38, 59, 40, 41, 96, 10, 60, 62}) cmd)"

section \<open>Built-in lists\<close>

definition rg_has_pre_flag :: "argv \<Rightarrow> bool" where
  "rg_has_pre_flag words =
     (case words of
        [] \<Rightarrow> False
      | h # _ \<Rightarrow> h = lit ''rg'' \<and> list_ex (\<lambda>w. w = lit ''--pre'' \<or> starts_with (lit ''--pre='') w) words)"

definition KUBECTL_UNSAFE_FLAGS :: "str list" where
  "KUBECTL_UNSAFE_FLAGS = map lit [''--kubeconfig'', ''--context'', ''--cluster'', ''--server'', ''-s'', ''--token'', ''--user'',
     ''--as'', ''--as-group'', ''--as-uid'', ''--as-user-extra'', ''--username'', ''--password'', ''--client-certificate'',
     ''--client-key'', ''--certificate-authority'']"

definition kubectl_has_unsafe_flag :: "argv \<Rightarrow> bool" where
  "kubectl_has_unsafe_flag words =
     (case words of
        [] \<Rightarrow> False
      | h # args \<Rightarrow> h = lit ''kubectl'' \<and> list_ex (\<lambda>w. before_eq w \<in> set KUBECTL_UNSAFE_FLAGS) args)"

definition PS_VALUE_FLAGS :: "str list" where
  "PS_VALUE_FLAGS = map lit [''-o'', ''-O'', ''--format'', ''--sort'', ''-p'', ''-q'', ''-t'', ''-u'', ''-U'', ''-g'', ''-G'', ''-C'',
     ''-s'', ''--pid'', ''--ppid'', ''--sid'', ''--tty'', ''--user'', ''--group'', ''--cols'', ''--columns'', ''--width'', ''o'', ''O'']"

definition ps_word_dumps :: "str \<Rightarrow> bool" where
  "ps_word_dumps s \<longleftrightarrow>
     (let dashless = (\<not> starts_with (lit ''-'') s);
          bsd_selector_cluster = (starts_with (lit ''-'') s \<and> \<not> starts_with (lit ''--'') s \<and> (97 \<in> set s \<or> 120 \<in> set s))
      in 69 \<in> set s \<or> 101 \<in> set s \<and> (dashless \<or> bsd_selector_cluster))"

fun ps_scan :: "bool \<Rightarrow> argv \<Rightarrow> bool" where
  "ps_scan skip_next [] = False"
| "ps_scan skip_next (s # ws) =
     (if skip_next then ps_scan False ws
      else if starts_with (lit ''--format='') s \<or> starts_with (lit ''--sort='') s then ps_scan False ws
      else if s \<in> set PS_VALUE_FLAGS then ps_scan True ws
      else if starts_with (lit ''-o'') s \<or> starts_with (lit ''-O'') s then ps_scan False ws
      else if ps_word_dumps s then True
      else if starts_with (lit ''-'') s \<and> \<not> starts_with (lit ''--'') s \<and> (ends_with (lit ''o'') s \<or> ends_with (lit ''O'') s)
        then ps_scan True ws
      else ps_scan False ws)"

definition ps_dumps_environment :: "argv \<Rightarrow> bool" where
  "ps_dumps_environment words = (case words of [] \<Rightarrow> False | h # args \<Rightarrow> h = lit ''ps'' \<and> ps_scan False args)"

definition SAFE_PREFIXES :: "str list" where
  "SAFE_PREFIXES = map lit [''ls'', ''cat'', ''pwd'', ''date'', ''git status'', ''git branch'', ''git log'', ''git diff'',
     ''git ls-files'', ''git show'', ''git rev-parse'', ''whoami'', ''hostname'', ''uptime'', ''grep'', ''rg'', ''kubectl get'',
     ''kubectl logs'', ''kubectl describe'', ''ps'', ''bin/explorer ls'', ''head'', ''tail'', ''wc'', ''sort'', ''uniq'', ''tr'', ''cut'']"

definition is_safe_command_words_str :: "str \<Rightarrow> bool" where
  "is_safe_command_words_str cmd = list_ex (matches_command_prefix cmd) SAFE_PREFIXES"

definition exposes_secrets :: "argv \<Rightarrow> bool" where
  "exposes_secrets words \<longleftrightarrow> rg_has_pre_flag words \<or> kubectl_has_unsafe_flag words \<or> ps_dumps_environment words"

definition is_safe_command_words :: "argv \<Rightarrow> bool" where
  "is_safe_command_words words =
     (if words = [] then False
      else if exposes_secrets words then False
      else is_safe_command_words_str (join (lit '' '') words))"

definition ALWAYS_SAFE_COMMANDS :: "str list" where
  "ALWAYS_SAFE_COMMANDS = map lit [''ls'', ''cat'', ''pwd'', ''date'', ''whoami'', ''hostname'', ''uptime'', ''ps'', ''git status'',
     ''git branch'', ''git log'', ''git diff'', ''git ls-files'', ''git show'', ''git rev-parse'', ''grep'', ''rg'', ''kubectl get'',
     ''kubectl logs'', ''kubectl describe'', ''bin/explorer ls'']"

definition is_always_safe_command_words :: "argv \<Rightarrow> bool" where
  "is_always_safe_command_words words =
     (if words = [] then False
      else if exposes_secrets words then False
      else list_ex (matches_command_prefix (join (lit '' '') words)) ALWAYS_SAFE_COMMANDS)"

fun scope_flags :: "argv \<Rightarrow> nat" where
  "scope_flags [] = 0"
| "scope_flags (w # ws) = (if starts_with (lit ''-'') w then Suc (scope_flags ws) else 0)"

definition default_always_allow_scope :: "argv \<Rightarrow> nat" where
  "default_always_allow_scope words =
     (let rest = min (length words) 2 + scope_flags (drop 2 words) in
      if words = [] then 0
      else if is_safe_command_words words \<and> is_safe_command_words_str (hd words) then 1
      else if is_safe_command_words words \<and> length words \<ge> 2 \<and>
          is_safe_command_words_str (join (lit '' '') (take 2 words)) then 2
      else rest)"

definition DANGEROUS_PREFIXES :: "str list" where
  "DANGEROUS_PREFIXES = map lit [''rm'', ''chmod'', ''chown'', ''chgrp'', ''chattr'', ''pkill'', ''kill'', ''killall'', ''git push'']"

definition is_dangerous_command_words :: "argv \<Rightarrow> bool" where
  "is_dangerous_command_words words =
     (if words = [] then False else list_ex (matches_command_prefix (join (lit '' '') words)) DANGEROUS_PREFIXES)"

section \<open>Evaluation of a request\<close>

datatype segment_evaluation =
    AutoAllow bool                      \<comment> \<open>\<open>via_session_grant\<close>\<close>
  | SegmentReject str
  | NeedsPrompts "str list" bool        \<comment> \<open>the segments, \<open>any_dangerous\<close>\<close>
  | Unparseable

record bash_evaluation =
  be_segments :: segment_evaluation
  be_writes_real_file :: bool
  be_env_risk :: env_risk
  be_exact_grant :: bool
  be_all_segments_granted :: bool
  be_has_opaque_shell :: bool
  be_exec_risk :: bool
  be_ambient_segments :: "argv list option"

datatype edit_policy = EditAsk | EditAllow | EditReject

record permission_state =
  ps_edit_policy :: edit_policy
  ps_allow_bash_execute :: bool
  ps_allowed_bash_commands :: "str list"
  ps_disallowed_bash_commands :: "str list"
  ps_allowed_web_fetch_domains :: "str list"
  ps_allowed_mcp_tools :: "str list"
  ps_allowed_mcp_servers :: "str list"
  ps_validated_mcp_server_grants_version :: int

text \<open>The loop variables of \<open>evaluate_bash\<close>.\<close>

record segment_state =
  ss_needs_prompt :: "str list"
  ss_any_dangerous :: bool
  ss_via_session_grant :: bool
  ss_all_segments_granted :: bool
  ss_has_opaque_shell :: bool
  ss_exec_risk :: bool
  ss_has_git_command :: bool

definition segment_start :: segment_state where
  "segment_start = \<lparr>ss_needs_prompt = [], ss_any_dangerous = False, ss_via_session_grant = False,
     ss_all_segments_granted = True, ss_has_opaque_shell = False, ss_exec_risk = False, ss_has_git_command = False\<rparr>"

text \<open>The script-level facts one segment adds before it is classified.\<close>

definition segment_facts :: "argv \<Rightarrow> segment_state \<Rightarrow> segment_state" where
  "segment_facts raw_words st =
     (let facts = segment_exec_facts raw_words in
      st\<lparr>ss_has_opaque_shell :=
           (ss_has_opaque_shell st \<or> words_are_opaque_shell (map WLiteral (unwrap_wrappers raw_words))),
         ss_exec_risk := (ss_exec_risk st \<or> sf_exec_risk facts),
         ss_has_git_command := (ss_has_git_command st \<or> sf_has_git facts)\<rparr>)"

text \<open>One segment: \<open>Inl\<close> is the early return with the disallowed prefix.\<close>

definition evaluate_segment ::
    "permission_state \<Rightarrow> bool \<Rightarrow> argv \<Rightarrow> segment_state \<Rightarrow> (str \<times> segment_state) + segment_state" where
  "evaluate_segment state honor_safe_lists raw_words st0 =
     (let words = unwrap_wrappers raw_words; st = segment_facts raw_words st0; s = join (lit '' '') words in
      if is_setup_command words then Inr st
      else case find (\<lambda>d. matches_command_prefix s d) (ps_disallowed_bash_commands state) of
          Some d \<Rightarrow> Inl (d, st)
        | None \<Rightarrow>
            let matched_grant = list_ex (matches_command_prefix s) (ps_allowed_bash_commands state);
                st = st\<lparr>ss_all_segments_granted := (ss_all_segments_granted st \<and> matched_grant)\<rparr>;
                prompted = st\<lparr>ss_needs_prompt := ss_needs_prompt st @ [s]\<rparr>
            in if is_dangerous_command_words words then Inr (prompted\<lparr>ss_any_dangerous := True\<rparr>)
               else if (kubectl_has_unsafe_flag words \<or> rg_has_pre_flag words \<or> ps_dumps_environment words) \<and>
                   s \<notin> set (ps_allowed_bash_commands state) then Inr prompted
               else let matched_safe =
                      (honor_safe_lists \<and> (is_safe_command_words words \<or> is_always_safe_command_words words))
                 in if matched_grant \<or> matched_safe
                    then Inr (if matched_grant then st\<lparr>ss_via_session_grant := True\<rparr> else st)
                    else Inr prompted)"

fun evaluate_segments :: "permission_state \<Rightarrow> bool \<Rightarrow> argv list \<Rightarrow> segment_state \<Rightarrow>
    (str \<times> segment_state) + segment_state" where
  "evaluate_segments state honor [] st = Inr st"
| "evaluate_segments state honor (raw # rest) st =
     (case evaluate_segment state honor raw st of
        Inl r \<Rightarrow> Inl r
      | Inr st' \<Rightarrow> evaluate_segments state honor rest st')"

definition evaluate_bash :: "(str \<Rightarrow> tree option) \<Rightarrow> str \<Rightarrow> permission_state \<Rightarrow> bool \<Rightarrow>
    bash_evaluation" where
  "evaluate_bash try_parse_shell cmd state honor_safe_lists =
     (let exact_grant = (cmd \<in> set (ps_allowed_bash_commands state)) in
      case try_parse_shell cmd of
        None \<Rightarrow>
          \<lparr>be_segments = Unparseable, be_writes_real_file = False, be_env_risk = EnvSafe,
           be_exact_grant = exact_grant, be_all_segments_granted = False, be_has_opaque_shell = False,
           be_exec_risk = script_may_invoke_git cmd, be_ambient_segments = None\<rparr>
      | Some t \<Rightarrow>
          let writes = list_ex (\<lambda>path. \<not> is_safe_write_sink path) (command_write_paths_in_tree (root_node t) cmd);
              segments = try_parse_word_only_commands_sequence t cmd;
              risk = script_env_risk (root_node t) cmd (case segments of Some cs \<Rightarrow> cs | None \<Rightarrow> [])
          in case segments of
               None \<Rightarrow>
                 \<lparr>be_segments = Unparseable, be_writes_real_file = writes, be_env_risk = risk,
                  be_exact_grant = exact_grant, be_all_segments_granted = False,
                  be_has_opaque_shell = tree_has_opaque_shell (root_node t) cmd,
                  be_exec_risk = script_may_invoke_git cmd, be_ambient_segments = None\<rparr>
             | Some cs \<Rightarrow>
                 (case evaluate_segments state honor_safe_lists (map pc_words cs) segment_start of
                    Inl (d, st) \<Rightarrow>
                      \<lparr>be_segments = SegmentReject (lit ''User previously rejected `'' @ d @ lit ''` for this session''),
                       be_writes_real_file = writes, be_env_risk = risk, be_exact_grant = exact_grant,
                       be_all_segments_granted = ss_all_segments_granted st,
                       be_has_opaque_shell = ss_has_opaque_shell st, be_exec_risk = ss_exec_risk st,
                       be_ambient_segments = None\<rparr>
                  | Inr st \<Rightarrow>
                      \<lparr>be_segments =
                         (if ss_needs_prompt st = [] then AutoAllow (ss_via_session_grant st)
                          else NeedsPrompts (ss_needs_prompt st) (ss_any_dangerous st)),
                       be_writes_real_file = writes, be_env_risk = risk, be_exact_grant = exact_grant,
                       be_all_segments_granted = ss_all_segments_granted st,
                       be_has_opaque_shell = ss_has_opaque_shell st, be_exec_risk = ss_exec_risk st,
                       be_ambient_segments =
                         (if ss_has_git_command st \<and> \<not> ss_exec_risk st then Some (map pc_words cs) else None)\<rparr>))"

section \<open>Floors and grants\<close>

definition clamp_yolo :: "bool \<Rightarrow> str option \<Rightarrow> bool" where
  "clamp_yolo requested yolo_pin \<longleftrightarrow> requested \<and> yolo_pin = None"

definition persisted_bash_auto_allows :: "permission_state \<Rightarrow> str \<Rightarrow> str option \<Rightarrow> bool" where
  "persisted_bash_auto_allows state cmd yolo_pin \<longleftrightarrow>
     ps_allow_bash_execute state \<and> yolo_pin = None \<or> cmd \<in> set (ps_allowed_bash_commands state)"

definition bash_request_floor_requires_prompt :: "bash_evaluation \<Rightarrow> bool" where
  "bash_request_floor_requires_prompt e \<longleftrightarrow>
     be_writes_real_file e \<and> \<not> be_exact_grant e \<or>
     be_env_risk e \<noteq> EnvSafe \<and> \<not> be_exact_grant e \<or>
     be_has_opaque_shell e \<and> \<not> be_exact_grant e \<or>
     be_exec_risk e \<and> \<not> be_exact_grant e"

definition bash_request_floor_defers_to_classifier :: "bash_evaluation \<Rightarrow> bool" where
  "bash_request_floor_defers_to_classifier e \<longleftrightarrow>
     \<not> be_writes_real_file e \<and> \<not> be_has_opaque_shell e \<and> \<not> be_exec_risk e \<and> be_env_risk e = EnvUnvetted"

definition sandbox_may_auto_allow_bash :: "bash_evaluation option \<Rightarrow> bool \<Rightarrow> bool" where
  "sandbox_may_auto_allow_bash e sandbox_active \<longleftrightarrow>
     sandbox_active \<and> \<not> (case e of None \<Rightarrow> False | Some e \<Rightarrow> bash_request_floor_requires_prompt e)"

record bash_grant_opts =
  bg_honor_safe_lists :: bool
  bg_allow_blanket :: bool
  bg_conservative_blanket :: bool

definition PRE_CLASSIFIER :: bash_grant_opts where
  "PRE_CLASSIFIER = \<lparr>bg_honor_safe_lists = True, bg_allow_blanket = True, bg_conservative_blanket = True\<rparr>"

definition ASK_FLOOR_REMEMBER :: bash_grant_opts where
  "ASK_FLOOR_REMEMBER = \<lparr>bg_honor_safe_lists = False, bg_allow_blanket = False, bg_conservative_blanket = False\<rparr>"

definition post_classify :: "bool \<Rightarrow> bash_grant_opts" where
  "post_classify auto_forced_prompt =
     \<lparr>bg_honor_safe_lists = True, bg_allow_blanket = (\<not> auto_forced_prompt), bg_conservative_blanket = False\<rparr>"

definition bash_grant_pre_decision :: "str \<Rightarrow> bash_evaluation \<Rightarrow> permission_state \<Rightarrow> str option \<Rightarrow>
    bash_grant_opts \<Rightarrow> (decision \<times> str) option" where
  "bash_grant_pre_decision cmd e state yolo_pin opts =
     (case be_segments e of
        SegmentReject reason \<Rightarrow> Some (Reject reason, lit ''session_deny'')
      | seg \<Rightarrow>
          if bash_request_floor_requires_prompt e then None
          else case seg of
              SegmentReject reason \<Rightarrow> None
            | AutoAllow via_session_grant \<Rightarrow>
                if \<not> bg_honor_safe_lists opts \<and> \<not> be_all_segments_granted e then None
                else Some (Allow, if via_session_grant then lit ''session_grant'' else lit ''safe_command'')
            | NeedsPrompts _ any_dangerous \<Rightarrow>
                if \<not> bg_allow_blanket opts \<or> any_dangerous \<and> bg_conservative_blanket opts then None
                else then_some (persisted_bash_auto_allows state cmd yolo_pin) (Allow, lit ''session_grant'')
            | Unparseable \<Rightarrow>
                if \<not> bg_allow_blanket opts then None
                else then_some
                  (if bg_conservative_blanket opts then be_exact_grant e
                   else persisted_bash_auto_allows state cmd yolo_pin)
                  (Allow, lit ''session_grant''))"

end
