(* ===== verification/Bash_Grants_Props.thy ===== *)
theory Bash_Grants_Props
  imports Bash_Grants
begin

text \<open>
  What the grants of a session can and cannot do: the outcome of \<open>evaluate_bash\<close> is exact with
  respect to a condition on single segments, a grant never outweighs a rejected prefix, a floor or
  the managed pin, and the prefix that "always allow" stores for a safe command covers only safe
  commands.  An \<open>env\<close> with unmodelled options behind a transparent prefix escapes the execution
  floor.
\<close>

section \<open>One segment\<close>

abbreviation segment_text :: "argv \<Rightarrow> str" where
  "segment_text raw \<equiv> join (lit '' '') (unwrap_wrappers raw)"

definition segment_rejected :: "permission_state \<Rightarrow> argv \<Rightarrow> bool" where
  "segment_rejected state raw \<longleftrightarrow> \<not> is_setup_command (unwrap_wrappers raw) \<and>
     (\<exists>d \<in> set (ps_disallowed_bash_commands state). matches_command_prefix (segment_text raw) d)"

definition segment_dangerous :: "argv \<Rightarrow> bool" where
  "segment_dangerous raw \<longleftrightarrow>
     \<not> is_setup_command (unwrap_wrappers raw) \<and> is_dangerous_command_words (unwrap_wrappers raw)"

text \<open>A segment that runs without asking: a set-up command, or one granted or built-in safe that is
  neither dangerous nor (unless granted word by word) one of the forms that expose secrets.\<close>

definition segment_covered :: "permission_state \<Rightarrow> bool \<Rightarrow> argv \<Rightarrow> bool" where
  "segment_covered state honor raw \<longleftrightarrow>
     (let words = unwrap_wrappers raw; s = segment_text raw in
      is_setup_command words \<or>
      \<not> is_dangerous_command_words words \<and>
      \<not> (exposes_secrets words \<and> s \<notin> set (ps_allowed_bash_commands state)) \<and>
      ((\<exists>a \<in> set (ps_allowed_bash_commands state). matches_command_prefix s a) \<or>
       honor \<and> (is_safe_command_words words \<or> is_always_safe_command_words words)))"

lemma segment_facts_keep:
  "ss_needs_prompt (segment_facts raw st) = ss_needs_prompt st"
  "ss_any_dangerous (segment_facts raw st) = ss_any_dangerous st"
  by (simp_all add: segment_facts_def Let_def)

lemma evaluate_segment_cases:
  "(case evaluate_segment state honor raw st of
      Inl (d, _) \<Rightarrow> segment_rejected state raw \<and> d \<in> set (ps_disallowed_bash_commands state) \<and>
        matches_command_prefix (segment_text raw) d
    | Inr st' \<Rightarrow> \<not> segment_rejected state raw \<and>
        ss_needs_prompt st' = ss_needs_prompt st @ (if segment_covered state honor raw then [] else [segment_text raw]) \<and>
        ss_any_dangerous st' = (ss_any_dangerous st \<or> segment_dangerous raw))"
proof (cases "is_setup_command (unwrap_wrappers raw)")
  case True
  then show ?thesis
    by (simp add: evaluate_segment_def Let_def segment_rejected_def segment_covered_def segment_dangerous_def
        segment_facts_keep del: lit_simps)
next
  case False
  show ?thesis
  proof (cases "find (\<lambda>d. matches_command_prefix (segment_text raw) d) (ps_disallowed_bash_commands state)")
    case None
    note clear = None [unfolded find_None_iff]
    show ?thesis
      unfolding evaluate_segment_def Let_def None option.case
      using False clear
      by (auto simp: segment_rejected_def segment_covered_def segment_dangerous_def Let_def
          segment_facts_keep exposes_secrets_def list_ex_iff simp del: lit_simps)
  next
    case (Some d)
    then have "d \<in> set (ps_disallowed_bash_commands state)" "matches_command_prefix (segment_text raw) d"
      by (auto simp: find_Some_iff)
    with False Some show ?thesis
      by (auto simp: evaluate_segment_def Let_def segment_rejected_def simp del: lit_simps)
  qed
qed

lemma evaluate_segments_Inl:
  "evaluate_segments state honor raws st = Inl (d, st') \<Longrightarrow>
   \<exists>raw \<in> set raws. segment_rejected state raw \<and> d \<in> set (ps_disallowed_bash_commands state) \<and>
     matches_command_prefix (segment_text raw) d"
proof (induction state honor raws st rule: evaluate_segments.induct)
  case (2 state honor raw rest st)
  then show ?case
    using evaluate_segment_cases [of state raw st honor] by (auto split: sum.splits simp del: lit_simps)
qed simp

lemma evaluate_segments_Inr:
  "evaluate_segments state honor raws st = Inr st' \<Longrightarrow>
   (\<forall>raw \<in> set raws. \<not> segment_rejected state raw) \<and>
   ss_needs_prompt st' = ss_needs_prompt st @ map segment_text (filter (\<lambda>r. \<not> segment_covered state honor r) raws) \<and>
   (ss_any_dangerous st' \<longleftrightarrow> ss_any_dangerous st \<or> (\<exists>raw \<in> set raws. segment_dangerous raw))"
proof (induction state honor raws st rule: evaluate_segments.induct)
  case (2 state honor raw rest st)
  from 2(2) obtain st1 where st1: "evaluate_segment state honor raw st = Inr st1"
    by (simp split: sum.splits)
  with 2(2) have rest: "evaluate_segments state honor rest st1 = Inr st'"
    by simp
  note IH = 2(1) [OF st1 rest]
  have "\<not> segment_rejected state raw"
    "ss_needs_prompt st1 = ss_needs_prompt st @ (if segment_covered state honor raw then [] else [segment_text raw])"
    "ss_any_dangerous st1 = (ss_any_dangerous st \<or> segment_dangerous raw)"
    using evaluate_segment_cases [of state raw st honor] unfolding st1 sum.case by blast+
  with IH show ?case
    by (simp del: lit_simps)
qed simp

section \<open>The whole request\<close>

abbreviation request_commands :: "(str \<Rightarrow> tree option) \<Rightarrow> str \<Rightarrow> argv list option" where
  "request_commands parse cmd \<equiv> map_option (map pc_words) (all_commands_from_script parse cmd)"

lemma evaluate_bash_segments:
  "be_segments (evaluate_bash parse cmd state honor) =
     (case request_commands parse cmd of
        None \<Rightarrow> Unparseable
      | Some raws \<Rightarrow>
          (case evaluate_segments state honor raws segment_start of
             Inl (d, st) \<Rightarrow> SegmentReject (lit ''User previously rejected `'' @ d @ lit ''` for this session'')
           | Inr st \<Rightarrow> if ss_needs_prompt st = [] then AutoAllow (ss_via_session_grant st)
               else NeedsPrompts (ss_needs_prompt st) (ss_any_dangerous st)))"
  by (auto simp: evaluate_bash_def Let_def all_commands_from_script_def simp del: lit_simps
      split: option.split sum.split)

text \<open>
  C21. The segment outcome of a bash request is exact: a script that does not decompose is
  unparseable; otherwise a segment with a rejected prefix rejects the request, naming the prefix;
  otherwise the request needs prompts for exactly the segments that are not covered, in order, and
  says whether one is dangerous; and it is allowed without asking when every segment is covered.
\<close>

theorem evaluate_bash_exact:
  "(case be_segments (evaluate_bash parse cmd state honor) of
      Unparseable \<Rightarrow> request_commands parse cmd = None
    | SegmentReject reason \<Rightarrow> (\<exists>raws d. request_commands parse cmd = Some raws \<and>
        (\<exists>raw \<in> set raws. segment_rejected state raw \<and> matches_command_prefix (segment_text raw) d) \<and>
        d \<in> set (ps_disallowed_bash_commands state) \<and>
        reason = lit ''User previously rejected `'' @ d @ lit ''` for this session'')
    | NeedsPrompts texts dangerous \<Rightarrow> (\<exists>raws. request_commands parse cmd = Some raws \<and>
        \<not> list_ex (segment_rejected state) raws \<and>
        texts = map segment_text (filter (\<lambda>r. \<not> segment_covered state honor r) raws) \<and> texts \<noteq> [] \<and>
        dangerous = list_ex segment_dangerous raws)
    | AutoAllow _ \<Rightarrow> (\<exists>raws. request_commands parse cmd = Some raws \<and>
        \<not> list_ex (segment_rejected state) raws \<and> list_all (segment_covered state honor) raws))"
proof (cases "request_commands parse cmd")
  case None
  then show ?thesis
    by (simp add: evaluate_bash_segments)
next
  case (Some raws)
  show ?thesis
  proof (cases "evaluate_segments state honor raws segment_start")
    case (Inl r)
    then show ?thesis
      using evaluate_segments_Inl [of state honor raws segment_start "fst r" "snd r"]
      unfolding evaluate_bash_segments Some by (cases r) (auto simp del: lit_simps)
  next
    case (Inr st)
    from evaluate_segments_Inr [OF this]
    have "\<not> list_ex (segment_rejected state) raws" "ss_any_dangerous st = list_ex segment_dangerous raws"
      "ss_needs_prompt st = map segment_text (filter (\<lambda>r. \<not> segment_covered state honor r) raws)"
      by (simp_all add: segment_start_def list_ex_iff del: lit_simps)
    moreover from this(3) have "ss_needs_prompt st = [] \<longleftrightarrow> list_all (segment_covered state honor) raws"
      by (simp add: filter_empty_conv list_all_iff)
    ultimately show ?thesis
      unfolding evaluate_bash_segments Some using Inr by (auto simp del: lit_simps)
  qed
qed

lemma evaluate_bash_exact_grant:
  "be_exact_grant (evaluate_bash parse cmd state honor) \<longleftrightarrow> cmd \<in> set (ps_allowed_bash_commands state)"
  by (simp add: evaluate_bash_def Let_def split: option.split sum.split)

lemma allow_outcome:
  assumes "bash_grant_pre_decision cmd e state pin opts = Some (Allow, reason)"
  shows "\<not> bash_request_floor_requires_prompt e"
    and "(\<exists>v. be_segments e = AutoAllow v) \<or> bg_allow_blanket opts \<and>
      (\<exists>texts dangerous. be_segments e = NeedsPrompts texts dangerous \<and>
         \<not> (dangerous \<and> bg_conservative_blanket opts) \<and> persisted_bash_auto_allows state cmd pin) \<or>
      bg_allow_blanket opts \<and> be_segments e = Unparseable \<and>
        (if bg_conservative_blanket opts then be_exact_grant e else persisted_bash_auto_allows state cmd pin)"
  using assms
  by (auto simp: bash_grant_pre_decision_def then_some_def split: segment_evaluation.splits if_splits)


text \<open>The script \<open>ls\<close> and a session without grants.\<close>

definition ex_ls_tree :: tree where
  "ex_ls_tree = \<lparr>root_node = Node (lit ''program'') True None 0 2 [Node (lit ''command'') True None 0 2 [ex_name 0 2]],
     has_error = False\<rparr>"

definition ex_ls_parse :: "str \<Rightarrow> tree option" where
  "ex_ls_parse s = (if s = lit ''ls'' then Some ex_ls_tree else None)"

definition ex_state :: permission_state where
  "ex_state = \<lparr>ps_edit_policy = EditAsk, ps_allow_bash_execute = False, ps_allowed_bash_commands = [],
     ps_disallowed_bash_commands = [lit ''rm''], ps_allowed_web_fetch_domains = [], ps_allowed_mcp_tools = [],
     ps_allowed_mcp_servers = [], ps_validated_mcp_server_grants_version = 1\<rparr>"


section \<open>The scope of "always allow"\<close>

lemma matches_command_prefix_iff:
  "matches_command_prefix cmd p \<longleftrightarrow> cmd = p \<or> (\<exists>t. cmd = p @ 32 # t)"
proof (cases "strip_prefix p cmd")
  case None
  then show ?thesis
    using strip_prefix_append [of p] by (force simp: matches_command_prefix_def)
next
  case (Some r)
  then show ?thesis
    by (cases r) (auto simp: matches_command_prefix_def strip_prefix_Some_iff)
qed

lemma matches_command_prefix_trans:
  "matches_command_prefix a b \<Longrightarrow> matches_command_prefix b c \<Longrightarrow> matches_command_prefix a c"
  by (auto simp: matches_command_prefix_iff)

lemma join_space_Cons: "join [32] (w # ws) = (if ws = [] then w else w @ 32 # join [32] ws)"
  by (cases ws) simp_all

text \<open>A text with a space after \<open>w\<close> that matches a prefix without spaces matches it within \<open>w\<close>.\<close>

lemma matches_first_word:
  assumes "matches_command_prefix (w @ 32 # r) p" "32 \<notin> set p"
  shows "matches_command_prefix w p"
  using assms by (auto simp: matches_command_prefix_iff append_eq_append_conv2 Cons_eq_append_conv append_eq_Cons_conv)

lemma matches_two_words:
  assumes "matches_command_prefix (join [32] (w # ws)) (a @ 32 # b)" "32 \<notin> set a" "32 \<notin> set b"
  shows "matches_command_prefix w (a @ 32 # b) \<or>
    ws \<noteq> [] \<and> matches_command_prefix (join [32] [w, hd ws]) (a @ 32 # b)"
proof (cases ws)
  case Nil
  with assms(1) show ?thesis by (simp add: join_space_Cons)
next
  case (Cons v vs)
  let ?r = "join [32] ws"
  from assms(1) Cons have m: "matches_command_prefix (w @ 32 # ?r) (a @ 32 # b)"
    by (simp add: join_space_Cons)
  then obtain u where u: "w @ 32 # ?r = a @ 32 # u" "matches_command_prefix u b"
    by (force simp: matches_command_prefix_iff)
  then consider "w = a" "?r = u" | us where "w = a @ 32 # us" "us @ 32 # ?r = u"
    using assms(2) by (auto simp: append_eq_append_conv2 Cons_eq_append_conv append_eq_Cons_conv)
  then show ?thesis
  proof cases
    case 1
    have "matches_command_prefix v b"
      using 1(2) u(2) assms(3) Cons matches_first_word [of v "join [32] vs" b]
      by (auto simp: join_space_Cons split: if_splits)
    then show ?thesis
      using 1(1) Cons by (auto simp: matches_command_prefix_iff)
  next
    case 2
    then have "matches_command_prefix us b"
      using u(2) assms(3) matches_first_word by blast
    with 2(1) show ?thesis
      by (auto simp: matches_command_prefix_iff)
  qed
qed

text \<open>Every safe prefix is one word or two.\<close>

definition short_prefix :: "str \<Rightarrow> bool" where
  "short_prefix p \<longleftrightarrow> 32 \<notin> set p \<or>
     (let a = takeWhile (\<lambda>c. c \<noteq> 32) p; b = tl (dropWhile (\<lambda>c. c \<noteq> 32) p) in p = a @ 32 # b \<and> 32 \<notin> set b)"

lemma safe_prefixes_short: "list_all short_prefix SAFE_PREFIXES"
  by code_simp

lemma short_prefix_scope:
  assumes "short_prefix p" "matches_command_prefix (join [32] (w # ws)) p"
  shows "matches_command_prefix w p \<or> ws \<noteq> [] \<and> matches_command_prefix (join [32] [w, hd ws]) p"
proof (cases "32 \<in> set p")
  case False
  with assms(2) show ?thesis
    using matches_first_word by (auto simp: join_space_Cons split: if_splits)
next
  case True
  with assms(1) obtain a b where "p = a @ 32 # b" "32 \<notin> set a" "32 \<notin> set b"
    by (auto simp: short_prefix_def Let_def dest: set_takeWhileD)
  then show ?thesis
    using matches_two_words assms(2) by blast
qed

lemma safe_scope:
  assumes "is_safe_command_words_str (join [32] (w # ws))"
  shows "is_safe_command_words_str w \<or> ws \<noteq> [] \<and> is_safe_command_words_str (join [32] [w, hd ws])"
  using assms short_prefix_scope safe_prefixes_short
  by (simp add: is_safe_command_words_str_def list_ex_iff list_all_iff) metis

text \<open>
  The prefix that "always allow" stores for a built-in safe command grants nothing beyond the
  built-in list: every command text it matches is itself a safe one.
\<close>

theorem default_scope_grants_nothing_new:
  assumes "is_safe_command_words words"
    and "matches_command_prefix cmd (join (lit '' '') (take (default_always_allow_scope words) words))"
  shows "is_safe_command_words_str cmd"
proof -
  obtain w ws where words: "words = w # ws"
    using assms(1) by (cases words) (simp_all add: is_safe_command_words_def)
  have "is_safe_command_words_str (join [32] words)"
    using assms(1) by (simp add: is_safe_command_words_def split: if_splits)
  then have "is_safe_command_words_str (join [32] (take (default_always_allow_scope words) words))"
    using safe_scope [of w ws] assms(1)
    by (cases ws) (auto simp: default_always_allow_scope_def words)
  then show ?thesis
    using assms(2) matches_command_prefix_trans by (auto simp: is_safe_command_words_str_def list_ex_iff)
qed

theorem default_scope_grants_nothing_new_witness:
  "default_always_allow_scope [lit ''git'', lit ''log'', lit ''-3''] = 2 \<and> is_safe_command_words_str (lit ''git log --all'')"
proof -
  have "default_always_allow_scope [lit ''git'', lit ''log'', lit ''-3''] = 2"
    "is_safe_command_words [lit ''git'', lit ''log'', lit ''-3'']"
    by code_simp+
  moreover have "matches_command_prefix (lit ''git log --all'')
      (join (lit '' '') (take (default_always_allow_scope [lit ''git'', lit ''log'', lit ''-3'']) [lit ''git'', lit ''log'', lit ''-3'']))"
    by code_simp
  ultimately show ?thesis
    using default_scope_grants_nothing_new by blast
qed

section \<open>Execution risk behind a transparent prefix\<close>

text \<open>
  An \<open>env\<close> with an option outside the table hides the command after it from the execution
  floor: the same \<open>git\<close> call is a risk on its own, and is reported as harmless and as no \<open>git\<close>
  command behind \<open>env --default-signal\<close>, also with the prefix \<open>command\<close>, where no test of the
  environment looks.
\<close>

theorem exec_risk_missed_behind_env:
  "sf_exec_risk (segment_exec_facts [lit ''git'', lit ''-c'', lit ''core.fsmonitor=x'', lit ''status'']) \<and>
   segment_exec_facts [lit ''command'', lit ''env'', lit ''--default-signal'', lit ''git'', lit ''-c'', lit ''core.fsmonitor=x'',
     lit ''status''] = \<lparr>sf_exec_risk = False, sf_has_git = False\<rparr>"
  by (rule conjI; code_simp)

end
