(* ===== verification/Shell_Paths_Props.thy ===== *)
theory Shell_Paths_Props
  imports Shell_Paths
begin

text \<open>
  The resolution of shell paths against the file system they name.  \<open>follow\<close> is how an operating
  system follows a path through symbolic links and missing names, \<open>os_walk\<close> how it walks one that can be opened;
  the code's bounded resolution is proved to return the file \<open>follow\<close> reaches, and a path without links
  is proved to name its lexical normal form.
\<close>

section \<open>Segments\<close>

definition segment_ok :: "str \<Rightarrow> bool" where
  "segment_ok s \<longleftrightarrow> s \<noteq> [] \<and> s \<noteq> dot \<and> 47 \<notin> set s"

definition plain_name :: "str \<Rightarrow> bool" where
  "plain_name s \<longleftrightarrow> segment_ok s \<and> s \<noteq> dotdot"

definition abs_text :: "str list \<Rightarrow> str" where
  "abs_text d = 47 # join [47] d"

lemma is_abs_iff: "is_abs p \<longleftrightarrow> (\<exists>q. p = 47 # q)"
  by (auto simp: is_abs_def starts_with_def split: list.splits)

lemma is_abs_text [simp]: "is_abs (abs_text d)"
  by (simp add: is_abs_iff abs_text_def)

lemma split_char_append: "split_char c (xs @ c # ys) = split_char c xs @ split_char c ys"
  by (induction xs) (auto split: list.splits)

lemma path_segments_append: "path_segments (b @ 47 # p) = path_segments b @ path_segments p"
  by (simp add: path_segments_def split_char_append)

lemma path_segments_Nil [simp]: "path_segments [] = []"
  by (simp add: path_segments_def)

lemma path_segments_root [simp]: "path_segments (47 # p) = path_segments p"
  by (simp add: path_segments_def)

lemma path_segments_ok: "s \<in> set (path_segments p) \<Longrightarrow> segment_ok s"
  by (auto simp: path_segments_def segment_ok_def dest: split_char_pieces)

lemma path_segments_all: "\<forall>s \<in> set (path_segments p). segment_ok s"
  by (simp add: path_segments_ok)

lemma path_segments_join:
  "\<forall>s \<in> set d. segment_ok s \<Longrightarrow> path_segments (join [47] d) = d"
  by (cases "d = []") (simp_all add: path_segments_def split_char_join segment_ok_def)

lemma path_segments_abs_text [simp]: "\<forall>s \<in> set d. segment_ok s \<Longrightarrow> path_segments (abs_text d) = d"
  by (simp add: abs_text_def path_segments_join)

lemma path_segments_path_join:
  assumes "\<not> is_abs p"
  shows "path_segments (path_join b p) = path_segments b @ path_segments p"
proof (cases "b = [] \<or> last b \<noteq> 47")
  case True
  then show ?thesis
    using assms by (auto simp: path_join_def path_segments_append)
next
  case False
  then obtain b' where "b = b' @ [47]"
    by (metis append_butlast_last_id)
  then show ?thesis
    using assms path_segments_append [of b' "[]"] by (simp add: path_join_def path_segments_append)
qed

lemma segment_not_abs: "segment_ok x \<Longrightarrow> \<not> is_abs x"
  by (auto simp: segment_ok_def is_abs_iff)

lemma plain_name_ok: "plain_name x \<Longrightarrow> segment_ok x"
  by (simp add: plain_name_def)

lemmas plain_name_not_abs = segment_not_abs [OF plain_name_ok]

lemma last_join: "d \<noteq> [] \<Longrightarrow> last d \<noteq> [] \<Longrightarrow> join sep d \<noteq> [] \<and> last (join sep d) = last (last d)"
  by (induction sep d rule: join.induct) auto

lemma path_join_abs_text:
  assumes "\<forall>s \<in> set d. segment_ok s" "segment_ok x"
  shows "path_join (abs_text d) x = abs_text (d @ [x])"
proof (cases "d = []")
  case False
  then have "segment_ok (last d)"
    using assms by simp
  then have "last (join [47] d) \<noteq> 47" "join [47] d \<noteq> []"
    using last_join [of d "[47]"] False unfolding segment_ok_def by (auto dest: last_in_set)
  then show ?thesis
    using False segment_not_abs [OF assms(2)] by (simp add: path_join_def abs_text_def join_snoc)
qed (use segment_not_abs [OF assms(2)] in \<open>simp add: path_join_def abs_text_def\<close>)

lemma filter_trailing:
  "filter (\<lambda>s. s \<noteq> [] \<and> s \<noteq> dot) (trailing rs) = filter (\<lambda>s. s \<noteq> [] \<and> s \<noteq> dot) rs"
  by (induction rs) (auto simp: trailing_def)

text \<open>An absolute path is its parent followed by its file name.\<close>

lemma parent_and_file_name:
  assumes "is_abs p" "path_parent p = Some q" "path_file_name p = Some x"
  shows "path_segments p = path_segments q @ [x]" "plain_name x" "is_abs q"
proof -
  let ?keep = "\<lambda>s. s \<noteq> [] \<and> s \<noteq> dot"
  let ?ts = "split_char 47 p"
  obtain rs where rs: "trailing (rev ?ts) = x # rs"
      and q: "q = (case trailing rs of [] \<Rightarrow> lit ''/'' | rs' \<Rightarrow> join (lit ''/'') (rev rs'))"
      and x: "x \<noteq> dotdot"
    using assms by (auto simp: path_parent_def path_file_name_def split: list.splits if_splits)
  have keep_x: "?keep x"
    using rs hd_dropWhile [of "\<lambda>s. s = [] \<or> s = dot" "rev ?ts"] by (auto simp: trailing_def)
  have pieces: "47 \<notin> set s" if "s \<in> set (trailing (rev ?ts))" for s
    using that by (auto simp: trailing_def dest!: set_dropWhileD split_char_pieces)
  show "plain_name x"
    using keep_x x pieces [of x] rs by (simp add: plain_name_def segment_ok_def)
  have "rev (path_segments p) = filter ?keep (trailing (rev ?ts))"
    by (simp add: path_segments_def rev_filter filter_trailing)
  also have "\<dots> = x # filter ?keep (trailing rs)"
    using keep_x by (simp add: rs filter_trailing)
  finally have "path_segments p = filter ?keep (rev (trailing rs)) @ [x]"
    by (metis rev.simps(2) rev_filter rev_rev_ident)
  moreover have "path_segments q = filter ?keep (rev (trailing rs))"
  proof (cases "trailing rs = []")
    case False
    have "47 \<notin> set s" if "s \<in> set (rev (trailing rs))" for s
      using that pieces [of s] rs by (auto simp: trailing_def dest: set_dropWhileD)
    then have "split_char 47 (join [47] (rev (trailing rs))) = rev (trailing rs)"
      using False by (intro split_char_join) auto
    then show ?thesis
      using False by (auto simp: q path_segments_def split: list.splits)
  qed (simp add: q)
  ultimately show "path_segments p = path_segments q @ [x]"
    by simp
  show "is_abs q"
  proof (cases "trailing rs")
    case (Cons y ys)
    obtain pre pre' where "rev ?ts = pre @ x # rs" "rs = pre' @ y # ys"
      using rs Cons unfolding trailing_def by (metis takeWhile_dropWhile_id)
    then have ts: "?ts = rev ys @ [y] @ rev pre' @ [x] @ rev pre"
      by (metis append.assoc append_Cons append_Nil rev.simps(2) rev_append rev_rev_ident)
    have "hd ?ts = []"
      using assms(1) by (auto simp: is_abs_iff)
    moreover have "y \<noteq> []"
      using Cons hd_dropWhile [of "\<lambda>s. s = [] \<or> s = dot" rs] by (auto simp: trailing_def)
    ultimately obtain zs where "rev ys = [] # zs"
      unfolding ts by (cases "rev ys") auto
    then show ?thesis
      using Cons by (cases zs) (auto simp: q is_abs_iff)
  qed (simp add: q is_abs_iff)
qed

section \<open>How a path is followed\<close>

text \<open>
  \<open>link d\<close> is the target of the symbolic link at the physical location \<open>d\<close>, if there is one there.
  A location that does not exist is passed as it is: the file may be about to be created.
\<close>

inductive follow :: "(str list \<Rightarrow> str option) \<Rightarrow> str list \<Rightarrow> str list \<Rightarrow> str list \<Rightarrow> bool" for link where
  follow_end: "follow link cur [] cur"
| follow_up: "follow link (butlast cur) xs r \<Longrightarrow> follow link cur (dotdot # xs) r"
| follow_name: "x \<noteq> dotdot \<Longrightarrow> link (cur @ [x]) = None \<Longrightarrow> follow link (cur @ [x]) xs r \<Longrightarrow> follow link cur (x # xs) r"
| follow_link: "x \<noteq> dotdot \<Longrightarrow> link (cur @ [x]) = Some t \<Longrightarrow>
    follow link (if is_abs t then [] else cur) (path_segments t @ xs) r \<Longrightarrow> follow link cur (x # xs) r"

inductive_simps follow_Nil [simp]: "follow link cur [] r"
inductive_simps follow_Cons: "follow link cur (x # xs) r"

lemma follow_append: "follow link a xs b \<Longrightarrow> follow link b ys r \<Longrightarrow> follow link a (xs @ ys) r"
  by (induction rule: follow.induct) (auto intro: follow.intros)

lemma follow_rest: "follow link a xs b \<Longrightarrow> follow link a (xs @ ys) r \<Longrightarrow> follow link b ys r"
  by (induction rule: follow.induct) (auto simp: follow_Cons)

lemma follow_deterministic: "follow link a xs r \<Longrightarrow> follow link a xs r' \<Longrightarrow> r' = r"
  using follow_rest [of link a xs r "[]" r'] by simp

definition physical :: "(str list \<Rightarrow> str option) \<Rightarrow> str list \<Rightarrow> bool" where
  "physical link d \<longleftrightarrow> (\<forall>s \<in> set d. plain_name s) \<and> (\<forall>k < length d. link (take (Suc k) d) = None)"

lemma physical_Nil [simp]: "physical link []"
  by (simp add: physical_def)

lemma physical_snoc:
  "physical link (d @ [x]) \<longleftrightarrow> physical link d \<and> plain_name x \<and> link (d @ [x]) = None"
  by (auto simp: physical_def less_Suc_eq)

lemma physical_butlast: "physical link d \<Longrightarrow> physical link (butlast d)"
  by (cases d rule: rev_cases) (auto simp: physical_snoc)

lemma physical_segments: "physical link d \<Longrightarrow> \<forall>s \<in> set d. segment_ok s"
  by (simp add: physical_def plain_name_def)

lemma follow_physical:
  "follow link cur xs r \<Longrightarrow> physical link cur \<Longrightarrow> \<forall>s \<in> set xs. segment_ok s \<Longrightarrow> physical link r"
  by (induction rule: follow.induct)
     (auto simp: physical_snoc plain_name_def physical_butlast path_segments_all ball_Un split: if_splits)

lemma physical_follow: "physical link d \<Longrightarrow> follow link [] d d"
proof (induction d rule: rev_induct)
  case (snoc x d)
  then have "follow link d [x] (d @ [x])"
    by (auto simp: physical_snoc plain_name_def follow_Cons)
  then show ?case
    using snoc by (auto simp: physical_snoc intro: follow_append)
qed simp

text \<open>
  How the operating system walks a path: every directory on the way has to exist, and only the last
  component may be missing.  \<open>dir d\<close> tells that a directory that may be searched is at the physical location \<open>d\<close>.
\<close>

inductive os_walk :: "(str list \<Rightarrow> bool) \<Rightarrow> (str list \<Rightarrow> str option) \<Rightarrow> str list \<Rightarrow> str list \<Rightarrow> str list \<Rightarrow> bool"
  for dir link where
  os_walk_end: "os_walk dir link cur [] cur"
| os_walk_up: "dir cur \<Longrightarrow> os_walk dir link (butlast cur) xs r \<Longrightarrow> os_walk dir link cur (dotdot # xs) r"
| os_walk_name: "dir cur \<Longrightarrow> x \<noteq> dotdot \<Longrightarrow> link (cur @ [x]) = None \<Longrightarrow> os_walk dir link (cur @ [x]) xs r \<Longrightarrow>
    os_walk dir link cur (x # xs) r"
| os_walk_link: "dir cur \<Longrightarrow> x \<noteq> dotdot \<Longrightarrow> link (cur @ [x]) = Some t \<Longrightarrow>
    os_walk dir link (if is_abs t then [] else cur) (path_segments t @ xs) r \<Longrightarrow> os_walk dir link cur (x # xs) r"

inductive_simps os_walk_Nil [simp]: "os_walk dir link cur [] r"
inductive_simps os_walk_Cons: "os_walk dir link cur (x # xs) r"

lemma os_walk_follow: "os_walk dir link cur xs r \<Longrightarrow> follow link cur xs r"
  by (induction rule: os_walk.induct) (auto intro: follow.intros)

lemma os_walk_append: "os_walk dir link a xs b \<Longrightarrow> os_walk dir link b ys r \<Longrightarrow> os_walk dir link a (xs @ ys) r"
  by (induction rule: os_walk.induct) (auto intro: os_walk.intros)

text \<open>
  What the three calls promise on a disk with these directories and links.  A link lies in a directory, and
  a directory in its parent.  \<open>canonicalize\<close> succeeds only on a path that can be walked and returns where it
  leads; \<open>symlink_metadata\<close> and \<open>read_link\<close> walk to the parent and look at the last component there, and
  a missing entry is reported where the parent can be walked only if there is no link.  Each may fail.
\<close>

definition fs_contract :: "file_system \<Rightarrow> (str list \<Rightarrow> bool) \<Rightarrow> (str list \<Rightarrow> str option) \<Rightarrow> bool" where
  "fs_contract fs dir link \<longleftrightarrow>
     (\<forall>d x. link (d @ [x]) \<noteq> None \<longrightarrow> dir d) \<and> (\<forall>d x. dir (d @ [x]) \<longrightarrow> dir d) \<and>
     (\<forall>p c. is_abs p \<longrightarrow> fs_canonicalize fs p = Some c \<longrightarrow>
        (\<exists>d. c = abs_text d \<and> os_walk dir link [] (path_segments p) d)) \<and>
     (\<forall>q x. is_abs q \<longrightarrow> plain_name x \<longrightarrow>
        (case fs_symlink_metadata fs (path_join q x) of
           MetaOk b \<Rightarrow> \<exists>d. os_walk dir link [] (path_segments q) d \<and> (b \<longleftrightarrow> link (d @ [x]) \<noteq> None)
         | MetaNotFound \<Rightarrow> \<forall>d. os_walk dir link [] (path_segments q) d \<longrightarrow> link (d @ [x]) = None
         | MetaError \<Rightarrow> True) \<and>
        (\<forall>t. fs_read_link fs (path_join q x) = Some t \<longrightarrow>
           (\<exists>d. os_walk dir link [] (path_segments q) d \<and> link (d @ [x]) = Some t)))"

lemma fs_contract_canonical:
  assumes "fs_contract fs dir link" "is_abs p" "fs_canonicalize fs p = Some c"
  shows "\<exists>d. c = abs_text d \<and> follow link [] (path_segments p) d"
  using assms os_walk_follow unfolding fs_contract_def by blast

lemma fs_contract_walk:
  assumes "fs_contract fs dir link" "is_abs q" "plain_name x" "os_walk dir link [] (path_segments q) d"
  shows "fs_symlink_metadata fs (path_join q x) = MetaNotFound \<Longrightarrow> link (d @ [x]) = None"
    and "fs_symlink_metadata fs (path_join q x) = MetaOk b \<Longrightarrow> b \<longleftrightarrow> link (d @ [x]) \<noteq> None"
proof -
  note c = assms(1) [unfolded fs_contract_def, THEN conjunct2, THEN conjunct2, THEN conjunct2, rule_format,
      OF assms(2,3), THEN conjunct1]
  show "fs_symlink_metadata fs (path_join q x) = MetaNotFound \<Longrightarrow> link (d @ [x]) = None"
    using c assms(4) by simp
  show "fs_symlink_metadata fs (path_join q x) = MetaOk b \<Longrightarrow> b \<longleftrightarrow> link (d @ [x]) \<noteq> None"
    using c follow_deterministic [OF os_walk_follow [OF assms(4)] os_walk_follow] by auto
qed

text \<open>On a physical location, whether its parent exists or not, the calls tell the links.\<close>

lemma physical_walk:
  assumes "fs_contract fs dir link"
  shows "physical link d \<Longrightarrow> dir d \<Longrightarrow> os_walk dir link [] d d"
proof (induction d rule: rev_induct)
  case (snoc x d)
  have "dir d"
    using snoc.prems(2) assms unfolding fs_contract_def by blast
  then have "os_walk dir link d [x] (d @ [x])"
    using snoc.prems(1) by (auto simp: physical_snoc plain_name_def os_walk_Cons)
  then show ?case
    using snoc \<open>dir d\<close> by (auto simp: physical_snoc intro: os_walk_append)
qed simp

lemma fs_contract_physical:
  assumes "fs_contract fs dir link" "physical link d" "plain_name x"
  shows "fs_symlink_metadata fs (path_join (abs_text d) x) = MetaNotFound \<Longrightarrow> link (d @ [x]) = None"
    and "fs_symlink_metadata fs (path_join (abs_text d) x) = MetaOk b \<Longrightarrow> b \<longleftrightarrow> link (d @ [x]) \<noteq> None"
    and "fs_read_link fs (path_join (abs_text d) x) = Some t \<Longrightarrow> link (d @ [x]) = Some t"
proof -
  have segs: "path_segments (abs_text d) = d"
    using physical_segments [OF assms(2)] by simp
  have same: "e = d" if "os_walk dir link [] (path_segments (abs_text d)) e" for e
    using that follow_deterministic [OF physical_follow [OF assms(2)]] os_walk_follow unfolding segs by blast
  note c = assms(1) [unfolded fs_contract_def, THEN conjunct2, THEN conjunct2, THEN conjunct2, rule_format,
      OF is_abs_text [of d] assms(3)]
  show "link (d @ [x]) = None" if "fs_symlink_metadata fs (path_join (abs_text d) x) = MetaNotFound"
  proof (cases "dir d")
    case True
    then show ?thesis
      using that c physical_walk [OF assms(1,2)] unfolding segs by simp
  next
    case False
    then show ?thesis
      using assms(1) unfolding fs_contract_def by blast
  qed
  show "b \<longleftrightarrow> link (d @ [x]) \<noteq> None" if "fs_symlink_metadata fs (path_join (abs_text d) x) = MetaOk b"
    using that c same by auto
  show "link (d @ [x]) = Some t" if "fs_read_link fs (path_join (abs_text d) x) = Some t"
    using that c same by auto
qed

lemma resolve_follows:
  assumes "fs_contract fs dir link"
  shows "is_abs p \<Longrightarrow> resolve_following_symlinks n fs p = Some r \<Longrightarrow>
    \<exists>d. r = abs_text d \<and> follow link [] (path_segments p) d \<and> physical link d"
proof (induction n arbitrary: p r)
  case (Suc n)
  have phys: "physical link d" if "follow link [] (path_segments q) d" for q d
    using that follow_physical path_segments_ok by (meson physical_Nil)
  show ?case
  proof (cases "fs_canonicalize fs p")
    case (Some c)
    then show ?thesis
      using Suc.prems fs_contract_canonical [OF assms Suc.prems(1)] phys by auto
  next
    case None
    then obtain q x rp where q: "path_parent p = Some q" and x: "path_file_name p = Some x"
        and rp: "resolve_following_symlinks n fs q = Some rp"
      using Suc.prems by (auto split: option.splits)
    note px = parent_and_file_name [OF Suc.prems(1) q x]
    obtain d where d: "rp = abs_text d" "follow link [] (path_segments q) d" "physical link d"
      using Suc.IH [OF px(3) rp] by blast
    have ok: "\<forall>s \<in> set d. segment_ok s"
      using d(3) by (rule physical_segments)
    have cand: "path_join rp x = abs_text (d @ [x])"
      using path_join_abs_text [OF ok plain_name_ok [OF px(2)]] d(1) by simp
    note md = fs_contract_physical [OF assms d(3) px(2), folded d(1)]
    have whole: "follow link [] (path_segments p) e" if "follow link d [x] e" for e
      using follow_append [OF d(2) that] px(1) by simp
    have leaf: "\<exists>e. abs_text (d @ [x]) = abs_text e \<and> follow link [] (path_segments p) e \<and> physical link e"
      if "link (d @ [x]) = None"
      using that d(3) px(2) whole [of "d @ [x]"] by (intro exI [of _ "d @ [x]"])
        (auto simp: physical_snoc plain_name_def follow_Cons)
    show ?thesis
    proof (cases "fs_symlink_metadata fs (path_join rp x)")
      case (MetaOk b)
      show ?thesis
      proof (cases b)
        case True
        then obtain t where t: "fs_read_link fs (path_join rp x) = Some t"
            and r: "resolve_following_symlinks n fs (if is_abs t then t else path_join rp t) = Some r"
          using Suc.prems None q x rp MetaOk by (auto simp: Let_def split: option.splits)
        have lk: "link (d @ [x]) = Some t"
          using md(3) [OF t] .
        have "is_abs (if is_abs t then t else path_join rp t)"
          by (auto simp: path_join_def d(1) abs_text_def is_abs_iff)
        from Suc.IH [OF this r] obtain e where e: "r = abs_text e" "physical link e"
            "follow link [] (path_segments (if is_abs t then t else path_join rp t)) e"
          by blast
        have "follow link (if is_abs t then [] else d) (path_segments t) e"
          using e(3) follow_rest [OF physical_follow [OF d(3)]] ok
          by (auto simp: path_segments_path_join d(1) split: if_splits)
        then have "follow link d [x] e"
          using lk px(2) by (auto simp: follow_Cons plain_name_def)
        then show ?thesis
          using e whole by blast
      next
        case False
        then show ?thesis
          using Suc.prems None q x rp MetaOk md(2) [OF MetaOk] leaf cand by (auto simp: Let_def)
      qed
    qed (use Suc.prems None q x rp md(1) leaf cand in \<open>auto simp: Let_def\<close>)
  qed
qed simp

section \<open>Lexical normal forms\<close>

lemma foldl_lex_segments:
  "foldl (lex_step a) out (split_char 47 p) = foldl (lex_step a) out (path_segments p)"
proof -
  have "foldl (lex_step a) out xs = foldl (lex_step a) out (filter (\<lambda>s. s \<noteq> [] \<and> s \<noteq> dot) xs)" for xs
    by (induction xs arbitrary: out) (auto simp: lex_step_def)
  then show ?thesis
    by (simp add: path_segments_def)
qed

lemma dotdot_ok [simp]: "segment_ok dotdot"
  by (simp add: segment_ok_def dotdot_def dot_def)

lemma lex_step_name: "segment_ok x \<Longrightarrow> x \<noteq> dotdot \<Longrightarrow> lex_step a out x = out @ [x]"
  by (simp add: lex_step_def segment_ok_def)

lemma lex_step_up:
  "lex_step a out dotdot =
     (if out \<noteq> [] \<and> last out \<noteq> dotdot then butlast out else if a then out else out @ [dotdot])"
  by (simp add: lex_step_def dotdot_def dot_def)

lemma set_lex_step: "set (lex_step a out x) \<subseteq> insert x (set out)"
  by (auto simp: lex_step_def split: if_splits dest: in_set_butlastD)

lemma lexical_normalize_abs:
  assumes "is_abs p" "\<not> has_drive p"
  shows "lexical_normalize p = abs_text (foldl (lex_step True) [] (path_segments p))"
  using assms by (simp add: lexical_normalize_def Let_def foldl_lex_segments abs_text_def)

lemma lexical_normalize_rel:
  assumes "\<not> is_abs p" "\<not> has_drive p"
  shows "lexical_normalize p = join [47] (foldl (lex_step False) [] (path_segments p))"
  using assms by (simp add: lexical_normalize_def Let_def foldl_lex_segments)

lemma lex_fold_ok:
  assumes "\<forall>s \<in> set out. segment_ok s" "\<forall>s \<in> set xs. segment_ok s"
  shows "\<forall>s \<in> set (foldl (lex_step a) out xs). segment_ok s"
  using assms
proof (induction xs arbitrary: out)
  case (Cons x xs)
  have "\<forall>s \<in> set (lex_step a out x). segment_ok s"
    using Cons.prems set_lex_step [of a out x] by auto
  then show ?case
    using Cons.IH [of "lex_step a out x"] Cons.prems by simp
qed simp

lemma lex_fold_names:
  assumes "\<forall>s \<in> set out. plain_name s" "\<forall>s \<in> set xs. segment_ok s"
  shows "\<forall>s \<in> set (foldl (lex_step True) out xs). plain_name s"
  using assms
proof (induction xs arbitrary: out)
  case (Cons x xs)
  have "\<forall>s \<in> set (lex_step True out x). plain_name s"
  proof (cases "x = dotdot")
    case True
    then show ?thesis
      using Cons.prems(1) by (auto simp: lex_step_up dest: in_set_butlastD)
  next
    case False
    then show ?thesis
      using Cons.prems by (auto simp: lex_step_name plain_name_def)
  qed
  then show ?case
    using Cons.IH [of "lex_step True out x"] Cons.prems by simp
qed simp

text \<open>Normalising a relative path first does not change where it leads from a directory.\<close>

lemma lex_fold_normalized:
  assumes "\<forall>s \<in> set xs. segment_ok s"
  shows "foldl (lex_step True) out (foldl (lex_step False) [] xs) = foldl (lex_step True) out xs"
  using assms
proof (induction xs rule: rev_induct)
  case (snoc x xs)
  let ?N = "foldl (lex_step False) [] xs"
  have ok: "\<forall>s \<in> set ?N. segment_ok s"
    using snoc.prems by (intro lex_fold_ok) auto
  show ?case
  proof (cases "x = dotdot \<and> ?N \<noteq> [] \<and> last ?N \<noteq> dotdot")
    case True
    then have N: "?N = butlast ?N @ [last ?N]"
      by simp
    have "segment_ok (last ?N)"
      using ok True by simp
    then have "lex_step True (foldl (lex_step True) out (butlast ?N)) (last ?N) =
        foldl (lex_step True) out (butlast ?N) @ [last ?N]"
      using True by (simp add: lex_step_name)
    then have "foldl (lex_step True) out ?N = foldl (lex_step True) out (butlast ?N) @ [last ?N]"
      by (subst N) simp
    then show ?thesis
      using True snoc.IH snoc.prems by (simp add: lex_step_up)
  next
    case False
    then have "lex_step False ?N x = ?N @ [x]"
      using snoc.prems by (cases "x = dotdot") (auto simp: lex_step_up lex_step_name)
    then show ?thesis
      using snoc.IH snoc.prems by simp
  qed
qed simp

text \<open>
  A path none of whose prefixes is a link leads, if it can be walked, to its lexical normal form.  The
  lookups are those of the prefixes of the path, as \<open>path_has_symlink\<close> makes them.
\<close>

definition lookups_succeed :: "file_system \<Rightarrow> str \<Rightarrow> bool" where
  "lookups_succeed fs p \<longleftrightarrow>
     list_all (\<lambda>k. fs_symlink_metadata fs (abs_text (take k (path_segments p))) \<noteq> MetaError)
       [0..<Suc (length (path_segments p))]"

abbreviation to_components :: "str list \<Rightarrow> path_component list" where
  "to_components \<equiv> map (\<lambda>s. if s = dotdot then ParentDir else Normal s)"

lemma no_link_step:
  assumes fs: "fs_contract fs dir link"
  shows "os_walk dir link [] pre e \<Longrightarrow> os_walk dir link e xs d \<Longrightarrow> \<forall>s \<in> set e. plain_name s \<Longrightarrow> \<forall>s \<in> set (pre @ xs). segment_ok s \<Longrightarrow>
    \<forall>k. fs_symlink_metadata fs (abs_text (take k (pre @ xs))) \<noteq> MetaError \<Longrightarrow>
    \<not> symlink_on_path fs (abs_text pre) (to_components xs) \<Longrightarrow> d = foldl (lex_step True) e xs"
proof (induction xs arbitrary: pre e)
  case (Cons x xs)
  have ok: "\<forall>s \<in> set pre. segment_ok s" "segment_ok x"
    using Cons.prems(4) by simp_all
  have joined: "path_join (abs_text pre) x = abs_text (pre @ [x])"
    by (rule path_join_abs_text [OF ok])
  have meta: "fs_symlink_metadata fs (abs_text (pre @ [x])) \<noteq> MetaError"
    using Cons.prems(5) [rule_format, of "Suc (length pre)"] by simp
  have component: "component_text (if x = dotdot then ParentDir else Normal x) = x"
    by (simp add: dotdot_def)
  have on_path: "fs_symlink_metadata fs (abs_text (pre @ [x])) \<noteq> MetaOk True"
      "\<not> symlink_on_path fs (abs_text (pre @ [x])) (to_components xs)"
    using Cons.prems(6) component joined by (auto simp: Let_def split: if_splits)
  have step: "os_walk dir link e [x] (lex_step True e x) \<and> os_walk dir link (lex_step True e x) xs d"
  proof (cases "x = dotdot")
    case True
    have "lex_step True e x = butlast e"
      using Cons.prems(3) True last_in_set [of e] by (cases "e = []") (auto simp: lex_step_up plain_name_def)
    then show ?thesis
      using True Cons.prems(2) by (auto simp: os_walk_Cons)
  next
    case False
    then have pn: "plain_name x"
      using ok by (simp add: plain_name_def)
    have w: "os_walk dir link [] (path_segments (abs_text pre)) e"
      using Cons.prems(1) ok by simp
    have "link (e @ [x]) = None"
      using on_path(1) meta fs_contract_walk [OF fs is_abs_text pn w] joined
      by (cases "fs_symlink_metadata fs (abs_text (pre @ [x]))") auto
    then show ?thesis
      using False pn Cons.prems(2) ok by (auto simp: os_walk_Cons lex_step_name)
  qed
  have names: "\<forall>s \<in> set (lex_step True e x). plain_name s"
    using lex_fold_names [of e "[x]"] Cons.prems(3) ok by simp
  have "os_walk dir link [] (pre @ [x]) (lex_step True e x)"
    using os_walk_append [OF Cons.prems(1)] step by blast
  from Cons.IH [OF this _ names _ _ on_path(2)] step Cons.prems(4,5) show ?case
    by simp
qed simp

lemma no_link_lexical:
  assumes "fs_contract fs dir link" "is_abs p" "os_walk dir link [] (path_segments p) d" "\<not> path_has_symlink fs p"
    "lookups_succeed fs p"
  shows "d = foldl (lex_step True) [] (path_segments p)"
proof (rule no_link_step [OF assms(1), of "[]" "[]", simplified])
  show "os_walk dir link [] (path_segments p) d"
    by (rule assms)
  show "\<forall>s \<in> set (path_segments p). segment_ok s"
    by (rule path_segments_all)
  show "\<not> symlink_on_path fs (abs_text []) (to_components (path_segments p))"
    using assms(2,4) by (auto simp: path_has_symlink_def path_components_def path_join_def is_abs_iff Let_def abs_text_def
      split: if_splits)
  show "\<forall>k. fs_symlink_metadata fs (abs_text (take k (path_segments p))) \<noteq> MetaError"
  proof
    fix k
    show "fs_symlink_metadata fs (abs_text (take k (path_segments p))) \<noteq> MetaError"
    proof (cases "k \<le> length (path_segments p)")
      case True
      then show ?thesis
        using assms(5) by (simp add: lookups_succeed_def list_all_iff del: upt_Suc)
    next
      case False
      then show ?thesis
        using assms(5) by (simp add: lookups_succeed_def)
    qed
  qed
qed

section \<open>Properties\<close>

text \<open>Names below a directory that exists, none of which exists: the file and directories about to be created.\<close>

definition missing_below :: "file_system \<Rightarrow> str list \<Rightarrow> str list \<Rightarrow> bool" where
  "missing_below fs d names \<longleftrightarrow>
     (\<forall>s \<in> set (d @ names). plain_name s) \<and> fs_canonicalize fs (abs_text d) = Some (abs_text d) \<and>
     (\<forall>k < length names. fs_canonicalize fs (abs_text (d @ take (Suc k) names)) = None \<and>
        fs_symlink_metadata fs (abs_text (d @ take (Suc k) names)) = MetaNotFound)"

lemma split_abs_text: "\<forall>s \<in> set d. segment_ok s \<Longrightarrow> d \<noteq> [] \<Longrightarrow> split_char 47 (abs_text d) = [] # d"
  by (simp add: abs_text_def segment_ok_def split_char_join)

lemma join_root: "d \<noteq> [] \<Longrightarrow> join [47] ([] # d) = 47 # join [47] d"
  by (cases d) simp_all

lemma parent_abs_text:
  assumes "\<forall>s \<in> set d. plain_name s" "plain_name x"
  shows "path_parent (abs_text (d @ [x])) = Some (abs_text d)" "path_file_name (abs_text (d @ [x])) = Some x"
proof -
  have split: "split_char 47 (abs_text (d @ [x])) = [] # d @ [x]"
    using assms by (intro split_abs_text) (auto simp: plain_name_ok)
  have keep: "s \<noteq> []" "s \<noteq> dot" if "s \<in> set (d @ [x])" for s
    using that assms by (auto simp: plain_name_def segment_ok_def)
  have tr: "trailing (rev ([] # d @ [x])) = x # rev d @ [[]]"
    using keep [of x] by (simp add: trailing_def)
  have rest: "trailing (rev d @ [[]]) = (if d = [] then [] else rev d @ [[]])"
    using keep [of "last d"] by (cases d rule: rev_cases) (auto simp: trailing_def)
  have "path_parent (abs_text (d @ [x])) =
      Some (case trailing (rev d @ [[]]) of [] \<Rightarrow> lit ''/'' | rs' \<Rightarrow> join (lit ''/'') (rev rs'))"
    unfolding path_parent_def split tr by simp
  also have "\<dots> = Some (abs_text d)"
  proof (cases "d = []")
    case False
    have "(case rev d @ [[]] of [] \<Rightarrow> lit ''/'' | a # as \<Rightarrow> join (lit ''/'') (rev (a # as))) = join [47] (rev (rev d @ [[]]))"
      by (cases "rev d") simp_all
    then show ?thesis
      using False join_root [OF False] by (simp add: rest abs_text_def)
  qed (simp add: trailing_def abs_text_def)
  finally show "path_parent (abs_text (d @ [x])) = Some (abs_text d)" .
  show "path_file_name (abs_text (d @ [x])) = Some x"
    using tr assms(2) by (simp add: path_file_name_def split plain_name_def)
qed

lemma resolve_missing:
  "missing_below fs d names \<Longrightarrow>
   resolve_following_symlinks n fs (abs_text (d @ names)) = (if length names < n then Some (abs_text (d @ names)) else None)"
proof (induction names arbitrary: n rule: rev_induct)
  case Nil
  then show ?case
    by (cases n) (simp_all add: missing_below_def)
next
  case (snoc x names)
  have below: "missing_below fs d names"
    using snoc.prems unfolding missing_below_def by (auto simp: less_Suc_eq)
  have plain: "\<forall>s \<in> set (d @ names). plain_name s" "plain_name x"
    using snoc.prems by (auto simp: missing_below_def)
  have x: "fs_canonicalize fs (abs_text (d @ names @ [x])) = None"
    "fs_symlink_metadata fs (abs_text (d @ names @ [x])) = MetaNotFound"
    using snoc.prems unfolding missing_below_def by (auto dest!: spec [of _ "length names"])
  have cand: "path_join (abs_text (d @ names)) x = abs_text (d @ names @ [x])"
    using path_join_abs_text [of "d @ names" x] plain by (auto simp: plain_name_ok)
  show ?case
  proof (cases n)
    case (Suc m)
    then show ?thesis
      using x cand snoc.IH [OF below, of m] parent_abs_text [OF plain] by (simp add: Let_def)
  qed simp
qed

text \<open>
  C24. Link resolution.  Where it returns a path, that is the physical file the argument leads to: every symbolic
  link on the way is followed, \<open>..\<close> is applied after the link before it, components that do not exist are
  kept, and no prefix of the result is itself a link.  It does return for a path that exists, with its canonical
  form, and for one that is to be created below a directory that exists, exactly if at most forty names are missing.
\<close>

theorem resolve_symlinks_correct:
  assumes "fs_contract fs dir link"
  shows "(is_abs p \<and> resolve_symlinks fs p = Some r \<longrightarrow>
      (\<exists>d. r = abs_text d \<and> follow link [] (path_segments p) d \<and> physical link d)) \<and>
    (fs_canonicalize fs p \<noteq> None \<longrightarrow> resolve_symlinks fs p = fs_canonicalize fs p) \<and>
    (missing_below fs d names \<longrightarrow> resolve_symlinks fs (abs_text (d @ names)) =
      (if length names \<le> MAX_SYMLINK_DEPTH then Some (abs_text (d @ names)) else None))"
proof -
  have "resolve_symlinks fs p = fs_canonicalize fs p" if "fs_canonicalize fs p \<noteq> None"
    using that by (auto simp: resolve_symlinks_def)
  then show ?thesis
    using resolve_follows [OF assms, of p "Suc MAX_SYMLINK_DEPTH" r] resolve_missing [of fs d names "Suc MAX_SYMLINK_DEPTH"]
    by (simp add: resolve_symlinks_def less_Suc_eq_le del: resolve_following_symlinks.simps)
qed

lemma resolve_symlinks_follow:
  assumes "fs_contract fs dir link" "is_abs p" "follow link [] (path_segments p) d" "resolve_symlinks fs p = Some r"
  shows "r = abs_text d"
  using resolve_follows [OF assms(1,2) assms(4) [unfolded resolve_symlinks_def]]
    follow_deterministic [OF assms(3)] by auto

lemma path_components_abs_text:
  assumes "\<forall>s \<in> set d. plain_name s"
  shows "path_components (abs_text d) = RootDir # map Normal d"
proof -
  have "path_segments (abs_text d) = d"
    using assms by (intro path_segments_abs_text) (simp add: plain_name_def)
  moreover have "map (\<lambda>s. if s = dotdot then ParentDir else Normal s) d = map Normal d"
    using assms by (intro map_cong) (auto simp: plain_name_def)
  ultimately show ?thesis
    by (simp add: path_components_def)
qed

lemma path_starts_with_abs_text:
  assumes "\<forall>s \<in> set d. plain_name s" "\<forall>s \<in> set e. plain_name s"
  shows "path_starts_with (abs_text d) (abs_text e) \<longleftrightarrow> take (length e) d = e"
proof -
  have "inj_on Normal A" for A
    by (auto intro: inj_onI)
  then show ?thesis
    using assms by (auto simp: path_starts_with_def path_components_abs_text take_map inj_on_map_eq_map)
qed

lemma follow_plain: "follow link [] (path_segments p) d \<Longrightarrow> \<forall>s \<in> set d. plain_name s"
  using follow_physical [of link "[]" "path_segments p" d] by (simp add: physical_def path_segments_all)


section \<open>An example file system\<close>

text \<open>
  The directories \<open>/etc\<close> and \<open>/ws\<close>, the file \<open>/etc/passwd\<close>, the link \<open>/ws/x\<close> to \<open>/etc\<close> and the link
  \<open>/ln\<close> to \<open>/ws\<close>.  A path through a missing directory or through a file cannot be walked.
\<close>

definition ex_link :: "str list \<Rightarrow> str option" where
  "ex_link d = (if d = [lit ''ws'', lit ''x''] then Some (lit ''/etc'') else if d = [lit ''ln''] then Some (lit ''/ws'') else None)"

definition ex_dir :: "str list \<Rightarrow> bool" where
  "ex_dir d \<longleftrightarrow> d \<in> set [[], [lit ''etc''], [lit ''ws'']]"

definition ex_present :: "str list \<Rightarrow> bool" where
  "ex_present d \<longleftrightarrow> ex_dir d \<or> d = [lit ''etc'', lit ''passwd'']"

primrec ex_walk :: "str list \<Rightarrow> str list \<Rightarrow> str list option" where
  "ex_walk cur [] = Some cur"
| "ex_walk cur (x # xs) =
     (if \<not> ex_dir cur then None
      else if x = dotdot then ex_walk (butlast cur) xs
      else case ex_link (cur @ [x]) of
          None \<Rightarrow> ex_walk (cur @ [x]) xs
        | Some t \<Rightarrow> ex_walk (path_segments t) xs)"

definition ex_fs :: file_system where
  "ex_fs = \<lparr>
     fs_canonicalize = (\<lambda>p. case ex_walk [] (path_segments p) of
         Some d \<Rightarrow> if ex_present d then Some (abs_text d) else None
       | None \<Rightarrow> None),
     fs_symlink_metadata = (\<lambda>p. let xs = path_segments p in
       if xs = [] then MetaOk False
       else case ex_walk [] (butlast xs) of
           None \<Rightarrow> MetaNotFound
         | Some d \<Rightarrow>
             let e = d @ [last xs] in
             if \<not> ex_dir d then (if ex_present d then MetaError else MetaNotFound)
             else if ex_link e \<noteq> None then MetaOk True
             else if ex_present e then MetaOk False else MetaNotFound),
     fs_read_link = (\<lambda>p. let xs = path_segments p in
       if xs = [] then None
       else Option.bind (ex_walk [] (butlast xs)) (\<lambda>d. ex_link (d @ [last xs])))\<rparr>"

lemma ex_link_target:
  assumes "ex_link d = Some t"
  shows "is_abs t" "ex_dir (path_segments t)" "\<exists>s. path_segments t = [s] \<and> s \<noteq> dotdot \<and> ex_link [s] = None"
proof -
  have "t \<in> {lit ''/etc'', lit ''/ws''}"
    using assms by (auto simp: ex_link_def simp del: lit_simps split: if_splits)
  moreover have "is_abs (lit ''/etc'')" "is_abs (lit ''/ws'')" "path_segments (lit ''/etc'') = [lit ''etc'']"
    "path_segments (lit ''/ws'') = [lit ''ws'']" "ex_dir [lit ''etc'']" "ex_dir [lit ''ws'']"
    "lit ''etc'' \<noteq> dotdot" "lit ''ws'' \<noteq> dotdot" "ex_link [lit ''etc''] = None" "ex_link [lit ''ws''] = None"
    by code_simp+
  ultimately show "is_abs t" "ex_dir (path_segments t)" "\<exists>s. path_segments t = [s] \<and> s \<noteq> dotdot \<and> ex_link [s] = None"
    by (auto simp del: lit_simps)
qed

lemma ex_walk_exact: "os_walk ex_dir ex_link cur xs r \<longleftrightarrow> ex_walk cur xs = Some r"
proof
  show "os_walk ex_dir ex_link cur xs r \<Longrightarrow> ex_walk cur xs = Some r"
  proof (induction rule: os_walk.induct)
    case (os_walk_link cur x t xs r)
    obtain s where "path_segments t = [s]" "s \<noteq> dotdot" "ex_link [s] = None"
      using ex_link_target [OF os_walk_link(3)] by blast
    with os_walk_link show ?case
      using ex_link_target [OF os_walk_link(3)] by (simp split: if_splits)
  qed simp_all
  show "ex_walk cur xs = Some r \<Longrightarrow> os_walk ex_dir ex_link cur xs r"
  proof (induction xs arbitrary: cur)
    case (Cons x xs)
    show ?case
    proof (cases "ex_link (cur @ [x])")
      case None
      then show ?thesis
        using Cons by (auto simp: os_walk_Cons split: if_splits)
    next
      case (Some t)
      obtain s where s: "path_segments t = [s]" "s \<noteq> dotdot" "ex_link [s] = None"
        using ex_link_target [OF Some] by blast
      have "ex_dir []"
        by (simp add: ex_dir_def)
      then show ?thesis
        using Cons.prems Cons.IH [of "[s]"] Cons.IH [of "butlast cur"] Some s ex_link_target(1) [OF Some]
        by (auto simp: os_walk_Cons split: if_splits)
    qed
  qed simp
qed

lemma ex_fs_contract: "fs_contract ex_fs ex_dir ex_link"
proof -
  have segs: "path_segments (path_join q x) = path_segments q @ [x]" if "plain_name x" for q x
    using path_segments_path_join [OF plain_name_not_abs [OF that], of q] path_segments_join [of "[x]"] that
    by (simp add: plain_name_def)
  have linked: "ex_dir d" if "ex_link (d @ [x]) \<noteq> None" for d x
    using that by (cases d rule: rev_cases) (auto simp: ex_link_def ex_dir_def split: if_splits)
  moreover have "ex_dir d" if "ex_dir (d @ [x])" for d x
    using that by (cases d rule: rev_cases) (auto simp: ex_dir_def)
  moreover have "\<exists>d. c = abs_text d \<and> ex_walk [] (path_segments p) = Some d" if "fs_canonicalize ex_fs p = Some c" for p c
    using that by (auto simp: ex_fs_def split: option.splits if_splits)
  moreover have "case fs_symlink_metadata ex_fs (path_join q x) of
      MetaOk b \<Rightarrow> \<exists>d. ex_walk [] (path_segments q) = Some d \<and> (b \<longleftrightarrow> ex_link (d @ [x]) \<noteq> None)
    | MetaNotFound \<Rightarrow> \<forall>d. ex_walk [] (path_segments q) = Some d \<longrightarrow> ex_link (d @ [x]) = None
    | MetaError \<Rightarrow> True" if "plain_name x" for q x
    using linked by (auto simp: ex_fs_def Let_def segs [OF that] split: option.splits if_splits)
  moreover have "\<exists>d. ex_walk [] (path_segments q) = Some d \<and> ex_link (d @ [x]) = Some t"
    if "plain_name x" "fs_read_link ex_fs (path_join q x) = Some t" for q x t
    using that(2) by (auto simp: ex_fs_def Let_def segs [OF that(1)] split: option.splits bind_splits)
  ultimately show ?thesis
    unfolding fs_contract_def ex_walk_exact by blast
qed

theorem resolve_symlinks_correct_witness:
  "resolve_symlinks ex_fs (lit ''/ln/x/passwd'') = Some (lit ''/etc/passwd'') \<and>
   (\<exists>d. lit ''/etc/passwd'' = abs_text d \<and> follow ex_link [] (path_segments (lit ''/ln/x/passwd'')) d \<and> physical ex_link d) \<and>
   resolve_symlinks ex_fs (abs_text [lit ''ws'', lit ''new'', lit ''f'']) = Some (abs_text [lit ''ws'', lit ''new'', lit ''f''])"
proof -
  have r: "resolve_symlinks ex_fs (lit ''/ln/x/passwd'') = Some (lit ''/etc/passwd'')"
    by code_simp
  have "is_abs (lit ''/ln/x/passwd'')"
    by code_simp
  moreover have "missing_below ex_fs [lit ''ws''] [lit ''new'', lit ''f'']"
  proof -
    have "\<forall>s \<in> set [lit ''ws'', lit ''new'', lit ''f'']. plain_name s" "fs_canonicalize ex_fs (abs_text [lit ''ws'']) = Some (abs_text [lit ''ws''])"
      "fs_canonicalize ex_fs (abs_text [lit ''ws'', lit ''new'']) = None"
      "fs_symlink_metadata ex_fs (abs_text [lit ''ws'', lit ''new'']) = MetaNotFound"
      "fs_canonicalize ex_fs (abs_text [lit ''ws'', lit ''new'', lit ''f'']) = None"
      "fs_symlink_metadata ex_fs (abs_text [lit ''ws'', lit ''new'', lit ''f'']) = MetaNotFound"
      by code_simp+
    then show ?thesis
      by (simp add: missing_below_def less_Suc_eq del: lit_simps)
  qed
  moreover have "[lit ''ws''] @ [lit ''new'', lit ''f''] = [lit ''ws'', lit ''new'', lit ''f'']" "length [lit ''new'', lit ''f''] \<le> MAX_SYMLINK_DEPTH"
    by (simp_all add: MAX_SYMLINK_DEPTH_def)
  ultimately show ?thesis
    using resolve_symlinks_correct [OF ex_fs_contract, of "lit ''/ln/x/passwd''" "lit ''/etc/passwd''"
        "[lit ''ws'']" "[lit ''new'', lit ''f'']"] r
    by presburger
qed


end
