(* ===== verification/Shell_Access_Props.thy ===== *)
theory Shell_Access_Props
  imports Shell_Access Shell_Paths_Props Policy_Props
begin

text \<open>
  What the shell-file gate guarantees.  \<open>opens\<close> lists the files the analysed part of a script names, through
  redirections, operands and nested \<open>sh -c\<close> scripts, and \<open>file_unclear\<close> says when a part could not be
  analysed; the gate is exact with respect to both.  An operand that leads, through any symbolic
  links, to a file a rule denies never passes.
\<close>

section \<open>What a script opens\<close>

definition invocation_unpinned :: "bool \<Rightarrow> tree \<Rightarrow> str \<Rightarrow> shell_invocation \<Rightarrow> bool" where
  "invocation_unpinned u t script i \<longleftrightarrow>
     u \<or> cwd_unpinned_before (cwd_poison_positions (root_node t) script) (si_start_byte i) (si_scope i) \<or>
     ci_has_chdir (unwrap_invocation_checked i)"

definition redirect_unpinned :: "bool \<Rightarrow> tree \<Rightarrow> str \<Rightarrow> shell_redirect_target \<Rightarrow> bool" where
  "redirect_unpinned u t script r \<longleftrightarrow>
     u \<or> cwd_unpinned_before (cwd_poison_positions (root_node t) script) (rd_start_byte r) (rd_scope r)"

abbreviation inner_words :: "shell_invocation \<Rightarrow> invocation_word list" where
  "inner_words i \<equiv> ci_words (unwrap_invocation_checked i)"

definition words_operands :: "invocation_word list \<Rightarrow> (str \<times> file_mode) list" where
  "words_operands words =
     (case words of
        IWLiteral w # _ \<Rightarrow>
          let program = to_ascii_lowercase (basename w) in
          if program \<in> {lit ''cd'', lit ''pushd'', lit ''popd''} then []
          else gate_operands program (literal_words words)
      | _ \<Rightarrow> [])"

inductive opens :: "'g policy_env \<Rightarrow> nat \<Rightarrow> str \<Rightarrow> bool \<Rightarrow> str \<Rightarrow> file_mode \<Rightarrow> bool \<Rightarrow> bool" for env where
  opens_redirect: "pe_parse_shell env script = Some t \<Longrightarrow> r \<in> set (shell_redirect_targets (root_node t) script) \<Longrightarrow>
    rd_path r = Some p \<Longrightarrow> opens env d script u p (rd_mode r) (redirect_unpinned u t script r)"
| opens_operand: "pe_parse_shell env script = Some t \<Longrightarrow> i \<in> set (shell_command_invocations (root_node t) script) \<Longrightarrow>
    (p, m) \<in> set (words_operands (inner_words i)) \<Longrightarrow> opens env d script u p m (invocation_unpinned u t script i)"
| opens_inline: "pe_parse_shell env script = Some t \<Longrightarrow> i \<in> set (shell_command_invocations (root_node t) script) \<Longrightarrow>
    shell_dash_c_script (shell_words (inner_words i)) = InlineLiteral k \<Longrightarrow>
    shell_words (inner_words i) ! k = WLiteral inner \<Longrightarrow>
    opens env d inner (invocation_unpinned u t script i) p m u' \<Longrightarrow> opens env (Suc d) script u p m u'"

definition invocation_unclear :: "bool \<Rightarrow> bool \<Rightarrow> shell_invocation \<Rightarrow> bool" where
  "invocation_unclear parse_failed unpinned i \<longleftrightarrow>
     (let peeled = unwrap_invocation_checked i; script = shell_dash_c_script (shell_words (ci_words peeled)) in
      ci_exhausted peeled \<or> ci_has_split_string peeled \<or> ci_env_options_uncertain peeled \<or>
      ci_transparent_ambiguous peeled \<or> script \<in> {InlineUntrusted, InlineUnrecognized} \<or>
      (parse_failed \<and> script \<noteq> NotInline) \<or>
      fst (operands_finding (\<lambda>_ _ _. None) parse_failed unpinned (ci_words peeled)))"

inductive file_unclear :: "'g policy_env \<Rightarrow> nat \<Rightarrow> bool \<Rightarrow> str \<Rightarrow> bool \<Rightarrow> bool" for env where
  fu_parse: "pe_parse_shell env script = None \<Longrightarrow> file_unclear env d True script u"
| fu_error: "pe_parse_shell env script = Some t \<Longrightarrow> has_error t \<Longrightarrow> file_unclear env d True script u"
| fu_redirect: "pe_parse_shell env script = Some t \<Longrightarrow> r \<in> set (shell_redirect_targets (root_node t) script) \<Longrightarrow>
    rd_ambiguous r \<Longrightarrow> file_unclear env d e script u"
| fu_invocation: "pe_parse_shell env script = Some t \<Longrightarrow> i \<in> set (shell_command_invocations (root_node t) script) \<Longrightarrow>
    invocation_unclear (has_error t) (invocation_unpinned u t script i) i \<Longrightarrow> file_unclear env d e script u"
| fu_depth: "pe_parse_shell env script = Some t \<Longrightarrow> i \<in> set (shell_command_invocations (root_node t) script) \<Longrightarrow>
    shell_dash_c_script (shell_words (inner_words i)) = InlineLiteral k \<Longrightarrow> file_unclear env 0 e script u"
| fu_inline: "pe_parse_shell env script = Some t \<Longrightarrow> i \<in> set (shell_command_invocations (root_node t) script) \<Longrightarrow>
    shell_dash_c_script (shell_words (inner_words i)) = InlineLiteral k \<Longrightarrow>
    shell_words (inner_words i) ! k = WLiteral inner \<Longrightarrow>
    file_unclear env d True inner (invocation_unpinned u t script i) \<Longrightarrow> file_unclear env (Suc d) e script u"

inductive_simps opens_0: "opens env 0 script u p m u'"
inductive_simps opens_Suc: "opens env (Suc d) script u p m u'"
inductive_simps file_unclear_0: "file_unclear env 0 e script u"
inductive_simps file_unclear_Suc: "file_unclear env (Suc d) e script u"

section \<open>Findings\<close>

lemma operands_finding_fst:
  "fst (operands_finding eval pf u words) = fst (operands_finding (\<lambda>_ _ _. None) pf u words)"
  by (simp add: operands_finding_def Let_def split: list.split invocation_word.split)

lemma operands_finding_snd:
  "snd (operands_finding eval pf u words) = map (\<lambda>(p, m). eval p m u) (words_operands words)"
  by (simp add: operands_finding_def words_operands_def Let_def split: list.split invocation_word.split)

text \<open>The decisions and the flag of one invocation, read off its definition.\<close>

lemma invocation_finding_snd:
  "d \<in> set (snd (invocation_finding eval nested pf u (cwd_poison_positions (root_node t) script) i)) \<longleftrightarrow>
   (\<exists>k inner rec. shell_dash_c_script (shell_words (inner_words i)) = InlineLiteral k \<and>
      shell_words (inner_words i) ! k = WLiteral inner \<and> nested = Some rec \<and>
      d = rec inner (invocation_unpinned u t script i)) \<or>
   (\<exists>(p, m) \<in> set (words_operands (inner_words i)). d = eval p m (invocation_unpinned u t script i))"
  by (auto simp: invocation_finding_def invocation_unpinned_def Let_def split_beta operands_finding_snd inline_finding_def
      split: inline_shell_script.split option.split shell_word.split)

lemma invocation_finding_fst:
  "fst (invocation_finding eval nested pf u (cwd_poison_positions (root_node t) script) i) \<longleftrightarrow>
   invocation_unclear pf (invocation_unpinned u t script i) i \<or>
   (nested = None \<and> (\<exists>k. shell_dash_c_script (shell_words (inner_words i)) = InlineLiteral k))"
  using operands_finding_fst [of eval pf "invocation_unpinned u t script i" "inner_words i"]
  by (auto simp: invocation_finding_def invocation_unpinned_def invocation_unclear_def Let_def split_beta inline_finding_def
      split: inline_shell_script.split option.split shell_word.split)

lemma redirect_finding_snd:
  "d \<in> set (snd (redirect_finding eval u (cwd_poison_positions (root_node t) script) r)) \<longleftrightarrow>
   (\<exists>p. rd_path r = Some p \<and> d = eval p (rd_mode r) (redirect_unpinned u t script r))"
  by (cases "rd_path r") (simp_all add: redirect_finding_def redirect_unpinned_def)

lemma redirect_finding_fst: "fst (redirect_finding eval u ps r) = rd_ambiguous r"
  by (simp add: redirect_finding_def)

text \<open>The same with a property of the decision.\<close>

lemma invocation_finding_ex:
  "(\<exists>d \<in> set (snd (invocation_finding eval nested pf u (cwd_poison_positions (root_node t) script) i)). Q d) \<longleftrightarrow>
   (\<exists>p m. (p, m) \<in> set (words_operands (inner_words i)) \<and> Q (eval p m (invocation_unpinned u t script i))) \<or>
   (\<exists>k inner rec. shell_dash_c_script (shell_words (inner_words i)) = InlineLiteral k \<and>
      shell_words (inner_words i) ! k = WLiteral inner \<and> nested = Some rec \<and>
      Q (rec inner (invocation_unpinned u t script i)))"
  unfolding Bex_def invocation_finding_snd by fast

lemma redirect_finding_ex:
  "(\<exists>d \<in> set (snd (redirect_finding eval u (cwd_poison_positions (root_node t) script) r)). Q d) \<longleftrightarrow>
   (\<exists>p. rd_path r = Some p \<and> Q (eval p (rd_mode r) (redirect_unpinned u t script r)))"
  unfolding Bex_def redirect_finding_snd by fast

lemmas finding_simps = invocation_finding_ex invocation_finding_fst redirect_finding_ex redirect_finding_fst

text \<open>The severity of a whole script.\<close>

lemma sev_step_parsed:
  assumes "pe_parse_shell env script = Some t" "0 < n"
  shows "n \<le> sev (file_access_step env fs pol cwd nested e script u) \<longleftrightarrow>
    (let eval = (\<lambda>path mode unpinned. evaluate_shell_path env fs pol path cwd mode unpinned);
         changes = cwd_poison_positions (root_node t) script in
     (\<exists>r \<in> set (shell_redirect_targets (root_node t) script). \<exists>d \<in> set (snd (redirect_finding eval u changes r)). n \<le> sev d) \<or>
     (\<exists>i \<in> set (shell_command_invocations (root_node t) script).
        \<exists>d \<in> set (snd (invocation_finding eval nested (has_error t) u changes i)). n \<le> sev d) \<or>
     n = 1 \<and> (e \<and> has_error t \<or>
       (\<exists>r \<in> set (shell_redirect_targets (root_node t) script). fst (redirect_finding eval u changes r)) \<or>
       (\<exists>i \<in> set (shell_command_invocations (root_node t) script).
          fst (invocation_finding eval nested (has_error t) u changes i))))"
  using assms
  by (auto simp: file_access_step_def Let_def sev_combine le_max_iff_disj sev_fold [where f = "\<lambda>d. d"] list_ex_iff)

lemma sev_step_unparsed:
  assumes "pe_parse_shell env script = None"
  shows "sev (file_access_step env fs pol cwd nested e script u) = (if e then 1 else 0)"
  using assms by (simp add: file_access_step_def)

text \<open>The gate reaches a level exactly when some file the script opens does.\<close>

lemma sev_step_split:
  assumes "pe_parse_shell env script = Some t" "0 < n"
  shows "n \<le> sev (file_access_step env fs pol cwd nested e script u) \<longleftrightarrow>
    (\<exists>r p. r \<in> set (shell_redirect_targets (root_node t) script) \<and> rd_path r = Some p \<and>
       n \<le> sev (evaluate_shell_path env fs pol p cwd (rd_mode r) (redirect_unpinned u t script r))) \<or>
    (\<exists>i p m. i \<in> set (shell_command_invocations (root_node t) script) \<and> (p, m) \<in> set (words_operands (inner_words i)) \<and>
       n \<le> sev (evaluate_shell_path env fs pol p cwd m (invocation_unpinned u t script i))) \<or>
    (\<exists>i k inner rec. i \<in> set (shell_command_invocations (root_node t) script) \<and>
       shell_dash_c_script (shell_words (inner_words i)) = InlineLiteral k \<and>
       shell_words (inner_words i) ! k = WLiteral inner \<and> nested = Some rec \<and>
       n \<le> sev (rec inner (invocation_unpinned u t script i))) \<or>
    n = 1 \<and> (e \<and> has_error t \<or> (\<exists>r \<in> set (shell_redirect_targets (root_node t) script). rd_ambiguous r) \<or>
      (\<exists>i \<in> set (shell_command_invocations (root_node t) script).
         invocation_unclear (has_error t) (invocation_unpinned u t script i) i) \<or>
      nested = None \<and> (\<exists>i \<in> set (shell_command_invocations (root_node t) script).
         \<exists>k. shell_dash_c_script (shell_words (inner_words i)) = InlineLiteral k))"
  unfolding sev_step_parsed [OF assms] Let_def finding_simps by fast

lemma inner_step:
  "evaluate_shell_file_access_inner env fs pol cwd d =
   file_access_step env fs pol cwd
     (case d of 0 \<Rightarrow> None | Suc d' \<Rightarrow> Some (evaluate_shell_file_access_inner env fs pol cwd d' True))"
  by (cases d) simp_all

lemma file_access_escalated:
  assumes "n \<in> {2, 3}"
  shows "n \<le> sev (evaluate_shell_file_access_inner env fs pol cwd d e script u) \<longleftrightarrow>
    (\<exists>p m u'. opens env d script u p m u' \<and> n \<le> sev (evaluate_shell_path env fs pol p cwd m u'))"
    (is "?gate d e script u \<longleftrightarrow> ?opened d script u")
proof
  have n: "0 < n" "n \<noteq> 1" "\<not> n \<le> 1"
    using assms by auto
  note split = sev_step_split [OF _ n(1)] and unparsed = sev_step_unparsed
  show "?gate d e script u \<Longrightarrow> ?opened d script u"
  proof (induction d arbitrary: e script u)
    case 0
    then show ?case
      using n by (cases "pe_parse_shell env script")
        (auto simp: unparsed split simp del: One_nat_def split: if_splits, (blast intro: opens.intros)+)
  next
    case (Suc d)
    then show ?case
      using n by (cases "pe_parse_shell env script")
        (auto simp: unparsed split simp del: One_nat_def split: if_splits, (blast intro: opens.intros)+)
  qed
  assume "?opened d script u"
  then obtain p m u' where o: "opens env d script u p m u'" "n \<le> sev (evaluate_shell_path env fs pol p cwd m u')"
    by blast
  then show "?gate d e script u"
  proof (induction arbitrary: e rule: opens.induct)
    case (opens_redirect script t r p d u)
    then show ?case
      by (cases d) (auto simp: split)
  next
    case (opens_operand script t i p m d u)
    then show ?case
      by (cases d) (auto simp: split)
  next
    case (opens_inline script t i k inner d u p m u')
    then show ?case
      by (auto simp: split)
  qed
qed

lemma file_access_asked:
  "1 \<le> sev (evaluate_shell_file_access_inner env fs pol cwd d e script u) \<longleftrightarrow>
    file_unclear env d e script u \<or>
    (\<exists>p m u'. opens env d script u p m u' \<and> 1 \<le> sev (evaluate_shell_path env fs pol p cwd m u'))"
    (is "?gate d e script u \<longleftrightarrow> _ \<or> ?opened d script u")
proof
  note split = sev_step_split [OF _ zero_less_one] and unparsed = sev_step_unparsed
  show "?gate d e script u \<Longrightarrow> file_unclear env d e script u \<or> ?opened d script u"
  proof (induction d arbitrary: e script u)
    case 0
    then show ?case
      by (cases "pe_parse_shell env script")
        (auto simp: unparsed split simp del: One_nat_def split: if_splits,
          (blast intro: file_unclear.intros opens.intros)+)
  next
    case (Suc d)
    then show ?case
      by (cases "pe_parse_shell env script")
        (auto simp: unparsed split simp del: One_nat_def split: if_splits,
          (blast intro: file_unclear.intros opens.intros)+)
  qed
  assume "file_unclear env d e script u \<or> ?opened d script u"
  then show "?gate d e script u"
  proof (elim disjE exE conjE)
    assume "file_unclear env d e script u"
    then show ?thesis
    proof (induction rule: file_unclear.induct)
      case (fu_parse script d u)
      then show ?case
        by (cases d) (simp_all add: unparsed)
    next
      case (fu_inline script t i k inner d u e)
      then show ?case
        by (auto simp: split simp del: One_nat_def)
    qed (subst inner_step, auto simp: split simp del: One_nat_def)+
  next
    fix p m u'
    assume "opens env d script u p m u'" "1 \<le> sev (evaluate_shell_path env fs pol p cwd m u')"
    then show ?thesis
    proof (induction arbitrary: e rule: opens.induct)
      case (opens_redirect script t r p d u)
      then show ?case
        by (cases d) (auto simp: split simp del: One_nat_def)
    next
      case (opens_operand script t i p m d u)
      then show ?case
        by (cases d) (auto simp: split simp del: One_nat_def)
    next
      case (opens_inline script t i k inner d u p m u')
      then show ?case
        by (auto simp: split simp del: One_nat_def)
    qed
  qed
qed

section \<open>Operands and the files they lead to\<close>

lemma sev_escalate_access:
  "3 \<le> sev (escalate_access env pol a) \<longleftrightarrow> rule_hit env pol DenyRule a"
  "2 \<le> sev (escalate_access env pol a) \<longleftrightarrow> rule_hit env pol DenyRule a \<or> rule_hit env pol AskRule a"
  by (simp_all add: escalate_access_def evaluate_cases)

text \<open>Text that the quote, backslash and drive-letter rules leave alone.\<close>

definition ordinary_text :: "str \<Rightarrow> bool" where
  "ordinary_text s \<longleftrightarrow>
     (\<forall>c \<in> set s. c \<notin> {34, 39, 92}) \<and> \<not> starts_with (lit ''/c/'') s \<and> \<not> has_drive s"

definition ordinary_operand :: "str \<Rightarrow> str \<Rightarrow> bool" where
  "ordinary_operand cwd token \<longleftrightarrow>
     is_abs cwd \<and> ordinary_text token \<and> ordinary_text (path_join cwd token) \<and>
     ordinary_text (path_join cwd (lexical_normalize token)) \<and>
     (is_abs token \<or> \<not> is_absolute_shell_path token \<and> \<not> is_absolute_shell_path (lexical_normalize token))"

lemma raw_ordinary: "ordinary_text s \<Longrightarrow> normalize_shell_path_raw s = s"
proof -
  assume o: "ordinary_text s"
  then have "trim_matches (\<lambda>c. c = 34 \<or> c = 39) s = s"
    by (intro trim_matches_id) (auto simp: ordinary_text_def)
  moreover have "map (\<lambda>c. if c = 92 then 47 else c) s = s"
    using o by (intro map_idI) (auto simp: ordinary_text_def)
  ultimately show ?thesis
    using o by (simp add: normalize_shell_path_raw_def ordinary_text_def starts_with_def)
qed

lemma lexical_abs_text:
  assumes "\<forall>s \<in> set d. plain_name s" "\<not> has_drive (abs_text d)"
  shows "lexical_normalize (abs_text d) = abs_text d"
proof -
  have "foldl (lex_step True) out d = out @ d" if "\<forall>s \<in> set d. plain_name s" for out d
    using that by (induction d arbitrary: out) (simp_all add: lex_step_name plain_name_def)
  then show ?thesis
    using assms lexical_normalize_abs [of "abs_text d"] path_segments_abs_text [of d]
    by (simp add: plain_name_def)
qed

lemma path_join_abs: "is_abs cwd \<Longrightarrow> is_abs (path_join cwd p)"
  by (auto simp: path_join_def is_abs_iff)

text \<open>The anchored form of an ordinary operand is the lexical normal form of its path.\<close>

lemma anchored_lexical:
  assumes "ordinary_operand cwd token"
  shows "(if is_absolute_shell_path (normalize_shell_path token) then normalize_shell_path token
          else normalize_shell_path (path_join cwd (normalize_shell_path token))) =
         abs_text (foldl (lex_step True) [] (path_segments (path_join cwd token)))"
proof (cases "is_abs token")
  case True
  have o: "ordinary_text token" "path_join cwd token = token"
    using assms True by (simp_all add: ordinary_operand_def path_join_def)
  then have "normalize_shell_path token = abs_text (foldl (lex_step True) [] (path_segments token))"
    using True by (simp add: normalize_shell_path_def raw_ordinary lexical_normalize_abs ordinary_text_def)
  then show ?thesis
    using o by (simp add: is_absolute_shell_path_def)
next
  case False
  let ?path = "lexical_normalize token"
  have o: "ordinary_text token" "ordinary_text (path_join cwd ?path)" "\<not> is_absolute_shell_path ?path"
    "\<not> has_drive token" "is_abs cwd"
    using assms False by (auto simp: ordinary_operand_def is_absolute_shell_path_def)
  have rel: "\<not> is_abs ?path"
    using o(3) by (simp add: is_absolute_shell_path_def)
  have segs: "path_segments ?path = foldl (lex_step False) [] (path_segments token)"
    using lex_fold_ok [of "[]" "path_segments token" False] False o(4)
    by (simp add: lexical_normalize_rel path_segments_join path_segments_all)
  have "normalize_shell_path (path_join cwd ?path) =
      abs_text (foldl (lex_step True) [] (path_segments cwd @ path_segments ?path))"
    using o path_join_abs [OF o(5)] path_segments_path_join [OF rel]
    by (simp add: normalize_shell_path_def raw_ordinary lexical_normalize_abs ordinary_text_def)
  also have "\<dots> = abs_text (foldl (lex_step True) [] (path_segments (path_join cwd token)))"
    using path_segments_path_join [OF False] by (simp add: segs lex_fold_normalized path_segments_all)
  finally show ?thesis
    using o by (simp add: normalize_shell_path_def raw_ordinary)
qed

lemma raw_absolute_ordinary:
  assumes "ordinary_operand cwd token" "\<not> u \<or> is_abs token"
  shows "(if is_absolute_shell_path (normalize_shell_path_raw token) then Some (normalize_shell_path_raw token)
          else if u then None else Some (normalize_shell_path_raw (path_join cwd (normalize_shell_path_raw token)))) =
         Some (path_join cwd token)"
  using assms by (auto simp: ordinary_operand_def raw_ordinary is_absolute_shell_path_def path_join_def)

lemma is_absolute_normalize:
  assumes "ordinary_operand cwd token"
  shows "is_absolute_shell_path (normalize_shell_path token) \<longleftrightarrow> is_abs token"
proof (cases "is_abs token")
  case True
  have "ordinary_text token"
    using assms by (simp add: ordinary_operand_def)
  then have "is_abs (normalize_shell_path token)"
    using True by (simp add: normalize_shell_path_def raw_ordinary lexical_normalize_abs ordinary_text_def)
  then show ?thesis
    using True by (simp add: is_absolute_shell_path_def)
next
  case False
  then show ?thesis
    using assms by (auto simp: ordinary_operand_def normalize_shell_path_def raw_ordinary)
qed

text \<open>
  An operand that leads to a file a rule restricts is caught at the level of the rule, or, if
  its links cannot be resolved, by a fail-closed question.
\<close>

lemma evaluate_shell_path_target:
  assumes fs: "fs_contract fs dir link" "lookups_succeed fs (path_join cwd token)"
    and ord: "ordinary_operand cwd token" and pin: "\<not> u \<or> is_abs token"
    and d: "os_walk dir link [] (path_segments (path_join cwd token)) d" "ordinary_text (abs_text d)"
    and hit: "n \<le> sev (escalate_access env pol (shell_access mode (abs_text d)))"
  shows "n \<le> sev (evaluate_shell_path env fs pol token cwd mode u) \<or>
    1 \<le> sev (evaluate_shell_path env fs pol token cwd mode u) \<and> resolve_symlinks fs (path_join cwd token) = None"
proof -
  let ?p = "path_join cwd token"
  let ?abs = "abs_text (foldl (lex_step True) [] (path_segments ?p))"
  let ?esc = "\<lambda>f. escalate_access env pol (shell_access mode f)"
  have abs: "is_abs ?p"
    using ord path_join_abs by (simp add: ordinary_operand_def)
  have names: "\<forall>s \<in> set d. plain_name s"
    using follow_plain [OF os_walk_follow [OF d(1)]] .
  have norm: "normalize_shell_path (abs_text d) = abs_text d"
    using d(2) names by (simp add: normalize_shell_path_def raw_ordinary lexical_abs_text ordinary_text_def)
  have pinned: "(u \<and> \<not> is_absolute_shell_path (normalize_shell_path token)) = False"
    using pin is_absolute_normalize [OF ord] by blast
  have eval: "evaluate_shell_path env fs pol token cwd mode u =
      combine_gate_decisions (combine_gate_decisions (?esc (normalize_shell_path token))
        (combine_gate_decisions (?esc ?abs)
          (case resolve_symlink_target fs ?p of
             Some resolved \<Rightarrow> if resolved \<noteq> ?abs then ?esc resolved else None
           | None \<Rightarrow> then_some (path_has_symlink fs ?p) AskFailClosed))) None"
    unfolding evaluate_shell_path_def Let_def
    unfolding raw_absolute_ordinary [OF ord pin] unfolding anchored_lexical [OF ord] unfolding pinned
    by (simp add: then_some_def)
  show ?thesis
  proof (cases "resolve_symlinks fs ?p")
    case (Some r)
    then have "resolve_symlink_target fs ?p = Some (abs_text d)"
      using resolve_symlinks_follow [OF fs(1) abs os_walk_follow [OF d(1)] Some] abs norm by (simp add: resolve_symlink_target_def)
    then show ?thesis
      using hit unfolding eval by (auto simp: sev_combine)
  next
    case None
    then have t: "resolve_symlink_target fs ?p = None"
      by (simp add: resolve_symlink_target_def)
    show ?thesis
    proof (cases "path_has_symlink fs ?p")
      case True
      then show ?thesis
        using t None unfolding eval by (auto simp: sev_combine)
    next
      case False
      then have "d = foldl (lex_step True) [] (path_segments ?p)"
        using no_link_lexical [OF fs(1) abs d(1) _ fs(2)] by blast
      then show ?thesis
        using hit unfolding eval by (auto simp: sev_combine)
    qed
  qed
qed

section \<open>Exactness\<close>

text \<open>
  The texts of one operand that the rules are applied to: the operand, its form anchored at the working
  directory, and what its links resolve to.  With an unknown working directory only the text of a
  relative operand is left.
\<close>

definition raw_absolute :: "str \<Rightarrow> str \<Rightarrow> bool \<Rightarrow> str option" where
  "raw_absolute cwd token u =
     (let raw = normalize_shell_path_raw token in
      if is_absolute_shell_path raw then Some raw
      else if u then None else Some (normalize_shell_path_raw (path_join cwd raw)))"

definition unanchored :: "str \<Rightarrow> bool \<Rightarrow> bool" where
  "unanchored token u \<longleftrightarrow> u \<and> \<not> is_absolute_shell_path (normalize_shell_path token)"

definition considered_paths :: "file_system \<Rightarrow> str \<Rightarrow> str \<Rightarrow> bool \<Rightarrow> str set" where
  "considered_paths fs cwd token u =
     (let path = normalize_shell_path token in
      if unanchored token u then {path}
      else {path, if is_absolute_shell_path path then path else normalize_shell_path (path_join cwd path)} \<union>
        set_option (Option.bind (raw_absolute cwd token u) (resolve_symlink_target fs)))"

definition operand_unclear :: "file_system \<Rightarrow> str \<Rightarrow> str \<Rightarrow> bool \<Rightarrow> bool" where
  "operand_unclear fs cwd token u \<longleftrightarrow>
     unanchored token u \<or>
     (case raw_absolute cwd token u of
        None \<Rightarrow> False
      | Some q \<Rightarrow> resolve_symlink_target fs q = None \<and> path_has_symlink fs q)"

lemma sev_evaluate_shell_path:
  assumes "0 < n"
  shows "n \<le> sev (evaluate_shell_path env fs pol token cwd m u) \<longleftrightarrow>
    (\<exists>f \<in> considered_paths fs cwd token u. n \<le> sev (escalate_access env pol (shell_access m f))) \<or>
    n = 1 \<and> operand_unclear fs cwd token u"
proof -
  have n1: "n \<le> 1 \<longleftrightarrow> n = 1" "\<not> n \<le> 0"
    using assms by auto
  show ?thesis
    unfolding evaluate_shell_path_def raw_absolute_def [symmetric] unanchored_def [symmetric] Let_def
      considered_paths_def operand_unclear_def sev_combine le_max_iff_disj
    using n1 by (cases "unanchored token u"; cases "raw_absolute cwd token u")
      (auto simp: raw_absolute_def Let_def sev_combine le_max_iff_disj split: option.splits if_splits)
qed

lemma no_file_restriction_no_hit:
  "\<not> cp_has_file_restrictions (policy_new env cfg) \<Longrightarrow> act \<in> {DenyRule, AskRule} \<Longrightarrow>
   \<not> rule_hit env (policy_new env cfg) act (shell_access m f)"
  by (cases m)
     (auto simp: rule_hit_def policy_new_def list_ex_iff restricts_def tool_filter_matches_def
      dest!: set_zip_leftD split: tool_filter.splits)

lemma sev_escalate_access_1:
  "1 \<le> sev (escalate_access env pol a) \<longleftrightarrow> rule_hit env pol DenyRule a \<or> rule_hit env pol AskRule a"
  by (simp add: escalate_access_def evaluate_cases)

text \<open>
  C23. The shell-file gate is exact.  It rejects when some file the script opens, as written, anchored
  or resolved through links, hits a deny rule; it asks on a rule when one hits an ask rule and none a deny
  rule; it asks because analysis failed exactly when no rule is hit, there are file rules, and part of
  the script or of an operand cannot be analysed; and it is silent otherwise.
\<close>

theorem file_gate_exact:
  "(let pol = policy_new env cfg;
        hit = (\<lambda>act. \<exists>p m u. opens env MAX_INLINE_SHELL_DEPTH cmd False p m u \<and>
          (\<exists>f \<in> considered_paths fs cwd p u. rule_hit env pol act (shell_access m f)));
        unknown = (file_unclear env MAX_INLINE_SHELL_DEPTH False cmd False \<or>
          (\<exists>p m u. opens env MAX_INLINE_SHELL_DEPTH cmd False p m u \<and> operand_unclear fs cwd p u)) in
    case evaluate_shell_file_access_gate env fs cwd pol cmd of
      Some (GateReject _) \<Rightarrow> hit DenyRule
    | Some AskRuleMatch \<Rightarrow> \<not> hit DenyRule \<and> hit AskRule
    | Some AskFailClosed \<Rightarrow> \<not> hit DenyRule \<and> \<not> hit AskRule \<and> unknown
    | None \<Rightarrow> \<not> hit DenyRule \<and> \<not> hit AskRule \<and> \<not> (unknown \<and> cp_has_file_restrictions pol))"
proof (cases "cp_has_file_restrictions (policy_new env cfg)")
  case False
  then show ?thesis
    using no_file_restriction_no_hit [OF False] by (simp add: evaluate_shell_file_access_gate_def)
next
  case True
  let ?pol = "policy_new env cfg"
  let ?g = "evaluate_shell_file_access_inner env fs ?pol cwd MAX_INLINE_SHELL_DEPTH False cmd False"
  define hit where "hit act \<longleftrightarrow> (\<exists>p m u. opens env MAX_INLINE_SHELL_DEPTH cmd False p m u \<and>
    (\<exists>f \<in> considered_paths fs cwd p u. rule_hit env ?pol act (shell_access m f)))" for act
  define unknown where "unknown \<longleftrightarrow> file_unclear env MAX_INLINE_SHELL_DEPTH False cmd False \<or>
    (\<exists>p m u. opens env MAX_INLINE_SHELL_DEPTH cmd False p m u \<and> operand_unclear fs cwd p u)"
  have "3 \<le> sev ?g \<longleftrightarrow> hit DenyRule"
    unfolding hit_def file_access_escalated [of 3, simplified] sev_evaluate_shell_path [of 3, simplified]
      sev_escalate_access(1) by simp
  moreover have "2 \<le> sev ?g \<longleftrightarrow> hit DenyRule \<or> hit AskRule"
    unfolding hit_def file_access_escalated [of 2, simplified] sev_evaluate_shell_path [of 2, simplified]
      sev_escalate_access(2) by blast
  moreover have "1 \<le> sev ?g \<longleftrightarrow> hit DenyRule \<or> hit AskRule \<or> unknown"
    unfolding hit_def unknown_def file_access_asked sev_evaluate_shell_path [OF zero_less_one]
      sev_escalate_access_1 by blast
  ultimately have "case evaluate_shell_file_access_gate env fs cwd ?pol cmd of
      Some (GateReject _) \<Rightarrow> hit DenyRule
    | Some AskRuleMatch \<Rightarrow> \<not> hit DenyRule \<and> hit AskRule
    | Some AskFailClosed \<Rightarrow> \<not> hit DenyRule \<and> \<not> hit AskRule \<and> unknown
    | None \<Rightarrow> \<not> hit DenyRule \<and> \<not> hit AskRule \<and> \<not> (unknown \<and> cp_has_file_restrictions ?pol)"
    using True by (cases ?g; cases "the ?g") (auto simp: evaluate_shell_file_access_gate_def opt_rank_def)
  then show ?thesis
    unfolding Let_def hit_def unknown_def .
qed

lemma sev_into_decision:
  "1 \<le> sev g \<Longrightarrow> 2 \<le> opt_rank decision_rank (map_option into_decision g)"
  "3 \<le> sev g \<Longrightarrow> 3 \<le> opt_rank decision_rank (map_option into_decision g)"
  by (cases g; cases "the g"; simp add: into_decision_def)+

lemma preflight_values:
  "policy_decision (preflight_evaluate env fg (Some pol) (BashAccess cmd) auto_mode) \<in>
   {None, Some Allow, Some Ask} \<union> range (Some \<circ> Reject)"
proof -
  have "gp_direct (preflight_evaluate env fg (Some pol) (BashAccess cmd) auto_mode) \<in>
      {None, Some Allow, Some Ask} \<union> range (Some \<circ> Reject)"
    by (simp add: preflight_evaluate_def Let_def evaluate_cases)
  moreover have "map_option into_decision g \<in> {None, Some Allow, Some Ask} \<union> range (Some \<circ> Reject)" for g
    by (cases g; cases "the g") (auto simp: into_decision_def)
  ultimately show ?thesis
    unfolding policy_decision_def by (metis managed.combine_selects)
qed


section \<open>Instances\<close>

text \<open>The script \<open>cat x/passwd\<close>, run in \<open>/ws\<close> of the example file system, where \<open>x\<close> is a link to \<open>/etc\<close>.\<close>

definition ex_cat :: str where "ex_cat = lit ''cat x/passwd''"

definition ex_cat_tree :: tree where
  "ex_cat_tree = \<lparr>root_node = Node (lit ''program'') True None 0 12
     [Node (lit ''command'') True None 0 12 [ex_name 0 3, ex_word 4 12]], has_error = False\<rparr>"

definition ex_cat_env :: "str policy_env" where
  "ex_cat_env = ex_env\<lparr>pe_parse_shell := (\<lambda>s. if s = ex_cat then Some ex_cat_tree else None)\<rparr>"

definition ex_read_rule :: "string \<Rightarrow> permission_rule" where
  "ex_read_rule p = \<lparr>pr_action = DenyRule, pr_tool = ReadTool, pr_pattern = Some (lit p), pr_pattern_mode = GlobMode\<rparr>"

lemma ex_cat_opens: "opens ex_cat_env d ex_cat False (lit ''x/passwd'') ReadFile False"
proof -
  define i where "i = hd (shell_command_invocations (root_node ex_cat_tree) ex_cat)"
  have "pe_parse_shell ex_cat_env ex_cat = Some ex_cat_tree"
    by (simp add: ex_cat_env_def)
  moreover have "i \<in> set (shell_command_invocations (root_node ex_cat_tree) ex_cat)"
    unfolding i_def by code_simp
  moreover have "(lit ''x/passwd'', ReadFile) \<in> set (words_operands (inner_words i))"
    unfolding i_def by code_simp
  moreover have "\<not> invocation_unpinned False ex_cat_tree ex_cat i"
    unfolding i_def by code_simp
  ultimately show ?thesis
    using opens_operand [of ex_cat_env ex_cat ex_cat_tree i "lit ''x/passwd''" ReadFile d False] by simp
qed


text \<open>
  The rewriting of \<open>/c/\<close> to a drive also happens where there are no drives: an operand under a directory
  \<open>/c\<close> is looked up only as \<open>C:/\<close> text, whatever it names, so a rule on the file itself is not applied
  and its links are not followed.
\<close>

theorem drive_alias_hides_file:
  assumes "(\<forall>c \<in> set rest. c \<notin> {34, 39, 92})"
    and "\<not> rule_hit env pol DenyRule (shell_access m (lexical_normalize (lit ''C:/'' @ rest)))"
    and "\<not> rule_hit env pol AskRule (shell_access m (lexical_normalize (lit ''C:/'' @ rest)))"
  shows "evaluate_shell_path env fs pol (lit ''/c/'' @ rest) cwd m u = None"
proof -
  have raw: "normalize_shell_path_raw (lit ''/c/'' @ rest) = lit ''C:/'' @ rest"
  proof -
    have "trim_matches (\<lambda>c. c = 34 \<or> c = 39) (lit ''/c/'' @ rest) = lit ''/c/'' @ rest"
      using assms(1) by (intro trim_matches_id) auto
    moreover have "map (\<lambda>c. if c = 92 then 47 else c) rest = rest"
      using assms(1) by (intro map_idI) auto
    ultimately show ?thesis
      by (simp add: normalize_shell_path_raw_def)
  qed
  have drive: "has_drive (lexical_normalize (lit ''C:/'' @ rest))" "has_drive (lit ''C:/'' @ rest)"
    "\<not> is_abs (lit ''C:/'' @ rest)"
    by (simp_all add: lexical_normalize_def has_drive_def is_abs_iff Let_def)
  have "considered_paths fs cwd (lit ''/c/'' @ rest) u = {lexical_normalize (lit ''C:/'' @ rest)}"
    unfolding considered_paths_def unanchored_def raw_absolute_def normalize_shell_path_def raw
    using drive by (simp add: is_absolute_shell_path_def resolve_symlink_target_def del: lit_simps)
  moreover have "\<not> operand_unclear fs cwd (lit ''/c/'' @ rest) u"
    unfolding operand_unclear_def unanchored_def raw_absolute_def normalize_shell_path_def raw
    using drive by (simp add: is_absolute_shell_path_def path_has_symlink_def del: lit_simps)
  ultimately have "\<not> 1 \<le> sev (evaluate_shell_path env fs pol (lit ''/c/'' @ rest) cwd m u)"
    unfolding sev_evaluate_shell_path [OF zero_less_one] sev_escalate_access_1 using assms(2,3) by simp
  then show ?thesis
    using sev_cases(1) by (metis less_one not_le)
qed

theorem drive_alias_hides_file_witness:
  "rule_hit ex_cat_env (policy_new ex_cat_env (ex_config [ex_read_rule ''/c/key''])) DenyRule (ReadAccess (Some (lit ''/c/key''))) \<and>
   evaluate_shell_path ex_cat_env ex_fs (policy_new ex_cat_env (ex_config [ex_read_rule ''/c/key'']))
     (lit ''/c/'' @ lit ''key'') (lit ''/ws'') ReadFile False = None"
proof
  show "rule_hit ex_cat_env (policy_new ex_cat_env (ex_config [ex_read_rule ''/c/key''])) DenyRule
      (ReadAccess (Some (lit ''/c/key'')))"
    by code_simp
  show "evaluate_shell_path ex_cat_env ex_fs (policy_new ex_cat_env (ex_config [ex_read_rule ''/c/key'']))
     (lit ''/c/'' @ lit ''key'') (lit ''/ws'') ReadFile False = None"
    by (rule drive_alias_hides_file) code_simp+
qed

end
