(* ===== verification/Truncate.thy ===== *)
theory Truncate
  imports Prelude
begin

text \<open>
  Truncation and wrapping of tool output (\<open>xai-grok-tools/src/util/truncate.rs\<close>).  Sizes in bytes are UTF-8
  lengths; a loop that steps back to a character boundary is a recursion on the index.  \<open>format_bytes\<close>
  prints floating-point numbers and is not modelled; the token estimate is in \<open>Token_Estimate\<close>.
\<close>

section \<open>Character boundaries\<close>

primrec back_to_boundary :: "str \<Rightarrow> nat \<Rightarrow> nat" where
  "back_to_boundary s 0 = 0"
| "back_to_boundary s (Suc n) = (if is_char_boundary s (Suc n) then Suc n else back_to_boundary s n)"

definition floor_char_boundary :: "str \<Rightarrow> nat \<Rightarrow> nat" where
  "floor_char_boundary s index = (if index \<ge> str_len s then str_len s else back_to_boundary s index)"

function up_to_boundary :: "str \<Rightarrow> nat \<Rightarrow> nat" where
  "up_to_boundary s i = (if i < str_len s \<and> \<not> is_char_boundary s i then up_to_boundary s (Suc i) else i)"
  by auto
termination
  by (relation "measure (\<lambda>(s, i). str_len s - i)") auto

declare up_to_boundary.simps [simp del]

definition ceil_char_boundary :: "str \<Rightarrow> nat \<Rightarrow> nat" where
  "ceil_char_boundary s index = (if index \<ge> str_len s then str_len s else up_to_boundary s index)"

text \<open>\<open>&s[..end]\<close> at an index the code has moved to a boundary; elsewhere the slice would panic.\<close>

definition slice_to :: "str \<Rightarrow> nat \<Rightarrow> (unit, str) res" where
  "slice_to s n = (case take_bytes s n of Some p \<Rightarrow> Ok p | None \<Rightarrow> Panic)"

section \<open>Operations\<close>

definition truncate_line :: "str \<Rightarrow> nat \<Rightarrow> str" where
  "truncate_line line max_chars =
     (if str_len line \<le> max_chars then line
      else if length line \<le> max_chars then line
      else take max_chars line @ lit '' [... truncated ('' @ show_nat (length line) @ lit '' chars total)]'')"

fun wrap_loop :: "nat \<Rightarrow> nat \<Rightarrow> str \<Rightarrow> str" where
  "wrap_loop wrap_width chars_on_current_line [] = []"
| "wrap_loop wrap_width chars_on_current_line (ch # rest) =
     (if chars_on_current_line \<ge> wrap_width then 10 # ch # wrap_loop wrap_width 1 rest
      else ch # wrap_loop wrap_width (Suc chars_on_current_line) rest)"

text \<open>The capacity computed first divides by the width.\<close>

definition soft_wrap_line :: "str \<Rightarrow> nat \<Rightarrow> (unit, str) res" where
  "soft_wrap_line line wrap_width =
     (if str_len line \<le> wrap_width then Ok line
      else if length line \<le> wrap_width then Ok line
      else if wrap_width = 0 then Panic
      else Ok (wrap_loop wrap_width 0 line))"

fun soft_wrap_pieces :: "str list \<Rightarrow> nat \<Rightarrow> bool \<Rightarrow> (unit, str) res" where
  "soft_wrap_pieces [] wrap_width first = Ok []"
| "soft_wrap_pieces (line # rest) wrap_width first =
     bind_res (soft_wrap_line line wrap_width) (\<lambda>w.
       bind_res (soft_wrap_pieces rest wrap_width False) (\<lambda>r. Ok ((if first then [] else [10]) @ w @ r)))"

definition soft_wrap_lines :: "str \<Rightarrow> nat \<Rightarrow> (unit, str) res" where
  "soft_wrap_lines text wrap_width =
     bind_res (soft_wrap_pieces (str_lines text) wrap_width True) (\<lambda>r.
       Ok (r @ (if ends_with [10] text \<and> text \<noteq> [] then [10] else [])))"

definition truncate_str :: "str \<Rightarrow> nat \<Rightarrow> (unit, str) res" where
  "truncate_str s max_bytes =
     (if str_len s \<le> max_bytes then Ok s else slice_to s (back_to_boundary s max_bytes))"

definition truncate_with_preview :: "str \<Rightarrow> nat \<Rightarrow> nat \<Rightarrow> str option \<Rightarrow> (unit, str \<times> bool) res" where
  "truncate_with_preview txt_out max_bytes preview_bytes footer_hint =
     (if str_len txt_out \<le> max_bytes then Ok (txt_out, False)
      else bind_res (truncate_str txt_out (min preview_bytes (str_len txt_out))) (\<lambda>preview.
        let footer = lit ''[Output truncated - '' @ show_nat (str_len txt_out) @ lit '' bytes total'' @
              (case footer_hint of Some hint \<Rightarrow> lit ''. '' @ hint | None \<Rightarrow> []) @ lit '']''
        in Ok (preview @ [10, 10] @ footer, True)))"

definition TRUNCATION_MARKER :: str where "TRUNCATION_MARKER = [8230]"

definition truncate_str_with_marker :: "str \<Rightarrow> nat \<Rightarrow> (unit, str) res" where
  "truncate_str_with_marker s max_bytes =
     (if str_len s \<le> max_bytes then Ok s
      else if str_len TRUNCATION_MARKER > max_bytes then truncate_str s max_bytes
      else bind_res (slice_to s (back_to_boundary s (max_bytes - str_len TRUNCATION_MARKER)))
        (\<lambda>p. Ok (p @ TRUNCATION_MARKER)))"

text \<open>Offsets from \<open>char_indices().nth(k)\<close> are character positions here.\<close>

definition FRONT_BACK_ELLIPSIS :: str where
  "FRONT_BACK_ELLIPSIS = [10, 10] @ lit ''... (output truncated) ...'' @ [10, 10]"

definition truncate_front_and_back :: "str \<Rightarrow> nat \<Rightarrow> str \<times> bool" where
  "truncate_front_and_back s max_chars =
     (if str_len s \<le> max_chars then (s, False)
      else let half = max_chars div 2;
               total_chars = length s;
               back_start = (if total_chars \<le> half then 0 else total_chars - half)
        in (take half s @ FRONT_BACK_ELLIPSIS @ (if half = 0 then s else drop back_start s), True))"

definition truncate_middle :: "str \<Rightarrow> nat \<Rightarrow> str" where
  "truncate_middle s max_chars =
     (let char_count = length s in
      if char_count \<le> max_chars then s
      else let remaining = max_chars - 3;
               front_count = remaining div 2;
               back_count = remaining - front_count;
               back_start = (if char_count \<le> back_count then 0 else char_count - back_count)
        in take front_count s @ lit ''...'' @ (if back_count = 0 then s else drop back_start s))"

definition truncate_lines_to_char_budget :: "str \<Rightarrow> nat \<Rightarrow> (unit, str \<times> bool) res" where
  "truncate_lines_to_char_budget content budget =
     (let trimmed = trim content in
      if str_len trimmed \<le> budget then Ok (trimmed, False)
      else let byte_end = min budget (str_len trimmed); safe_end = back_to_boundary trimmed byte_end in
        bind_res (slice_to trimmed safe_end) (\<lambda>truncated.
          if 10 \<in> set truncated
          then Ok (trim (rev (tl (dropWhile (\<lambda>c. c \<noteq> 10) (rev truncated)))), True)
          else Ok (lit ''... [First line would be too large to fit within character budget] ...'', True)))"

section \<open>Properties\<close>

lemma boundary_iff: "is_char_boundary s n \<longleftrightarrow> (\<exists>p r. s = p @ r \<and> str_len p = n)"
  using take_bytes_append take_bytes_prefix by (fastforce simp: is_char_boundary_def)

lemma slice_to_boundary: "s = p @ r \<Longrightarrow> slice_to s (str_len p) = Ok p"
  by (simp add: slice_to_def take_bytes_append)

text \<open>The longest prefix of at most \<open>n\<close> bytes.\<close>

definition longest_prefix :: "str \<Rightarrow> nat \<Rightarrow> str \<Rightarrow> bool" where
  "longest_prefix s n p \<longleftrightarrow> (\<exists>r. s = p @ r \<and> str_len p \<le> n \<and> (r = [] \<or> n < str_len p + len_utf8 (hd r)))"

lemma str_len_mono: "str_len p \<le> str_len (p @ q)" "q \<noteq> [] \<Longrightarrow> str_len p + len_utf8 (hd q) \<le> str_len (p @ q)"
  by (auto simp: neq_Nil_conv)

lemma back_to_boundary_exact:
  "\<exists>p. longest_prefix s n p \<and> str_len p = back_to_boundary s n"
proof (induction n)
  case 0
  have "longest_prefix s 0 []"
    by (cases s) (auto simp: longest_prefix_def)
  then show ?case
    by (intro exI [of _ "[]"]) simp
next
  case (Suc n)
  show ?case
  proof (cases "is_char_boundary s (Suc n)")
    case True
    then obtain p r where "s = p @ r" "str_len p = Suc n"
      by (auto simp: boundary_iff)
    then have "longest_prefix s (Suc n) p"
      unfolding longest_prefix_def by (intro exI [of _ r]) auto
    then show ?thesis
      using True \<open>str_len p = Suc n\<close> by auto
  next
    case False
    obtain p where lp: "longest_prefix s n p" "str_len p = back_to_boundary s n"
      using Suc by blast
    then obtain r where p: "s = p @ r" "str_len p \<le> n" "r = [] \<or> n < str_len p + len_utf8 (hd r)"
      unfolding longest_prefix_def by blast
    have "str_len p + len_utf8 (hd r) \<noteq> Suc n" if "r \<noteq> []"
    proof
      assume "str_len p + len_utf8 (hd r) = Suc n"
      moreover have "s = (p @ [hd r]) @ tl r"
        using p(1) that by simp
      moreover have "str_len (p @ [hd r]) = str_len p + len_utf8 (hd r)"
        by simp
      ultimately have "is_char_boundary s (Suc n)"
        unfolding boundary_iff by (intro exI [of _ "p @ [hd r]"] exI [of _ "tl r"]) auto
      then show False
        using False by simp
    qed
    then have "longest_prefix s (Suc n) p"
      using p(1,2,3) unfolding longest_prefix_def by (intro exI [of _ r]) (cases "r = []"; auto)
    then show ?thesis
      using False lp(2) by auto
  qed
qed

lemma longest_prefix_all: "str_len s \<le> n \<Longrightarrow> longest_prefix s n s"
  by (auto simp: longest_prefix_def)

lemma longest_prefix_bound: "longest_prefix s n p \<Longrightarrow> str_len p \<le> n"
  by (auto simp: longest_prefix_def)

lemma slice_back: "\<exists>p. longest_prefix s n p \<and> slice_to s (back_to_boundary s n) = Ok p"
proof -
  obtain p where p: "longest_prefix s n p" "str_len p = back_to_boundary s n"
    using back_to_boundary_exact by blast
  then obtain r where "s = p @ r"
    by (auto simp: longest_prefix_def)
  then show ?thesis
    using p slice_to_boundary by metis
qed

lemma truncate_str_longest: "\<exists>p. longest_prefix s n p \<and> truncate_str s n = Ok p"
  using slice_back longest_prefix_all by (auto simp: truncate_str_def)

text \<open>
  Cutting a string never panics and never splits a character.  \<open>truncate_str\<close> returns the
  longest prefix that fits in the bytes given; \<open>truncate_str_with_marker\<close> returns the string if it
  fits, and otherwise the longest prefix that leaves room for the marker, followed by it (without the
  marker if there is no room for it), so the result always fits.
\<close>

theorem truncate_str_exact:
  "\<exists>p q. longest_prefix s n p \<and> truncate_str s n = Ok p \<and> truncate_str_with_marker s n = Ok q \<and> str_len q \<le> n \<and>
    (if str_len s \<le> n then q = s
     else if n < 3 then q = p
     else \<exists>c. longest_prefix s (n - 3) c \<and> q = c @ TRUNCATION_MARKER)"
proof -
  obtain p where p: "longest_prefix s n p" "truncate_str s n = Ok p"
    using truncate_str_longest by blast
  obtain c where c: "longest_prefix s (n - 3) c" "slice_to s (back_to_boundary s (n - 3)) = Ok c"
    using slice_back by blast
  have m: "str_len TRUNCATION_MARKER = 3"
    by (simp add: TRUNCATION_MARKER_def len_utf8_def)
  show ?thesis
  proof (cases "str_len s \<le> n \<or> n < 3")
    case True
    then show ?thesis
      using p m longest_prefix_bound [OF p(1)] by (auto simp: truncate_str_with_marker_def truncate_str_def)
  next
    case False
    then have q: "truncate_str_with_marker s n = Ok (c @ TRUNCATION_MARKER)"
      using c(2) m by (simp add: truncate_str_with_marker_def)
    moreover have "str_len (c @ TRUNCATION_MARKER) \<le> n"
      using longest_prefix_bound [OF c(1)] m False by (simp; linarith)
    ultimately show ?thesis
      using p c False by auto
  qed
qed

text \<open>The lines of a wrapped line: all full but the last, and together the line.\<close>

lemma wrap_loop_lines:
  assumes "0 < w" "k \<le> w" "10 \<notin> set s"
  shows "\<exists>x xs. split_char 10 (wrap_loop w k s) = x # xs \<and> x @ concat xs = s \<and> k + length x \<le> w \<and>
    (\<forall>y \<in> set xs. 0 < length y \<and> length y \<le> w) \<and> (xs = [] \<or> k + length x = w \<and> (\<forall>y \<in> set (butlast xs). length y = w))"
  using assms
proof (induction s arbitrary: k)
  case (Cons c s)
  show ?case
  proof (cases "w \<le> k")
    case True
    obtain x xs where x: "split_char 10 (wrap_loop w 1 s) = x # xs" "x @ concat xs = s" "1 + length x \<le> w"
        "\<forall>y \<in> set xs. 0 < length y \<and> length y \<le> w"
        "xs = [] \<or> 1 + length x = w \<and> (\<forall>y \<in> set (butlast xs). length y = w)"
      using Cons.IH [of 1] Cons.prems by auto
    then show ?thesis
      using True Cons.prems by (intro exI [of _ "[]"] exI [of _ "(c # x) # xs"]) auto
  next
    case False
    obtain x xs where x: "split_char 10 (wrap_loop w (Suc k) s) = x # xs" "x @ concat xs = s" "Suc k + length x \<le> w"
        "\<forall>y \<in> set xs. 0 < length y \<and> length y \<le> w"
        "xs = [] \<or> Suc k + length x = w \<and> (\<forall>y \<in> set (butlast xs). length y = w)"
      using Cons.IH [of "Suc k"] Cons.prems False by auto
    then show ?thesis
      using False Cons.prems by (intro exI [of _ "c # x"] exI [of _ xs]) auto
  qed
qed simp

text \<open>
  Wrapping a line loses nothing and bounds the lines: for a positive width the wrapped text,
  cut at its line feeds, concatenates to the line, every piece has at most the width, and all but the
  last have exactly the width.
\<close>

theorem soft_wrap_preserves:
  assumes "0 < w" "10 \<notin> set line"
  shows "\<exists>r. soft_wrap_line line w = Ok r \<and> concat (split_char 10 r) = line \<and>
    list_all (\<lambda>y. length y \<le> w) (split_char 10 r) \<and> list_all (\<lambda>y. length y = w) (butlast (split_char 10 r))"
proof (cases "length line \<le> w")
  case True
  then show ?thesis
    using assms by (auto simp: soft_wrap_line_def split_char_no_sep)
next
  case False
  have "length line \<le> str_len line"
  proof (induction line)
    case (Cons c line)
    then show ?case
      using len_utf8_pos [of c] by (simp; linarith)
  qed simp
  then have ok: "soft_wrap_line line w = Ok (wrap_loop w 0 line)"
    using False assms(1) by (simp add: soft_wrap_line_def)
  obtain x xs where x: "split_char 10 (wrap_loop w 0 line) = x # xs" "x @ concat xs = line" "length x \<le> w"
      "\<forall>y \<in> set xs. 0 < length y \<and> length y \<le> w" "xs = [] \<or> length x = w \<and> (\<forall>y \<in> set (butlast xs). length y = w)"
    using wrap_loop_lines [OF assms(1) _ assms(2), of 0] by auto
  then have "list_all (\<lambda>y. length y = w) (butlast (x # xs))"
    by (cases "xs = []") (simp_all add: list_all_iff)
  then show ?thesis
    using ok x by (auto simp: list_all_iff)
qed

theorem soft_wrap_preserves_witness:
  "\<exists>r. soft_wrap_line (lit ''abcde'') 2 = Ok r \<and> concat (split_char 10 r) = lit ''abcde'' \<and>
    list_all (\<lambda>y. length y \<le> 2) (split_char 10 r) \<and> list_all (\<lambda>y. length y = 2) (butlast (split_char 10 r))"
  by (rule soft_wrap_preserves) code_simp+

text \<open>
  Keeping both ends of a text stays within the budget from four characters on, and then shows a
  beginning and an end of the text; with a budget of at most three characters the whole text comes back
  behind the marker, longer than it was.
\<close>

theorem truncate_middle_bounds:
  assumes "n < length s"
  shows "if 4 \<le> n
    then length (truncate_middle s n) = n \<and>
      (\<exists>a b. truncate_middle s n = a @ lit ''...'' @ b \<and> (\<exists>m. s = a @ m @ b))
    else truncate_middle s n = lit ''...'' @ s"
proof (cases "4 \<le> n")
  case True
  let ?f = "(n - 3) div 2"
  let ?b = "n - 3 - ?f"
  have b: "0 < ?b" "?f + ?b \<le> length s" "?f + 3 + ?b = n" "\<not> length s \<le> ?b"
    using True assms by auto
  have eq: "truncate_middle s n = take ?f s @ lit ''...'' @ drop (length s - ?b) s"
    using assms b by (simp add: truncate_middle_def Let_def)
  have "s = take ?f s @ take (length s - ?b - ?f) (drop ?f s) @ drop (length s - ?b) s"
    using b by (metis (no_types, lifting) add_le_imp_le_diff append.assoc append_take_drop_id le_add_diff_inverse take_add)
  then show ?thesis
    using True eq b by auto
next
  case False
  then show ?thesis
    using assms by (auto simp: truncate_middle_def Let_def)
qed

theorem truncate_middle_bounds_witness:
  "length (truncate_middle (lit ''abcdefgh'') 5) = 5 \<and> truncate_middle (lit ''abcdefgh'') 3 = lit ''...abcdefgh''"
  using truncate_middle_bounds [of 5 "lit ''abcdefgh''"] truncate_middle_bounds [of 3 "lit ''abcdefgh''"] by simp

text \<open>
  Keeping the front and the back compares the bytes of the text with a budget of characters: a text
  of at most half the budget in characters that exceeds it in bytes comes back twice.
\<close>

theorem front_and_back_doubles:
  assumes "n < str_len s" "length s \<le> n div 2"
  shows "truncate_front_and_back s n = (s @ FRONT_BACK_ELLIPSIS @ s, True)"
  using assms by (auto simp: truncate_front_and_back_def Let_def)

theorem front_and_back_doubles_witness:
  "truncate_front_and_back [8364, 8364] 5 = ([8364, 8364] @ FRONT_BACK_ELLIPSIS @ [8364, 8364], True)"
  by (rule front_and_back_doubles) (simp_all add: len_utf8_def)

end
