(* ===== verification/Auto_Mode_Props.thy ===== *)
theory Auto_Mode_Props
  imports Auto_Mode Shell_Access_Props
begin

text \<open>
  What the auto-mode classifier guarantees: when it allows a script without asking, what allows an action after
  the model has been asked, and that untrusted text cannot forge the headings of the request.
\<close>

section \<open>The heuristic\<close>

lemma visit_nodes: "mset (map fst (visit stack)) = mset (concat (map (subnodes \<circ> fst) stack))"
proof (induction stack rule: visit.induct)
  case (2 n anc stack)
  have rev: "mset (concat (rev xs)) = mset (concat xs)" for xs :: "node list list"
    by (induction xs) auto
  have "map (subnodes \<circ> fst) (rev (child_visits n anc)) = rev (map subnodes (children n))"
    by (simp add: rev_map [symmetric] child_visits_nodes flip: map_map)
  then show ?case
    using 2 rev [of "map subnodes (children n)"] by (simp add: subnodes_unfold [of n] comp_def)
qed simp

lemma set_node_visits: "fst ` set (node_visits n) = set (subnodes n)"
  using visit_nodes [of "[(n, [])]"] by (metis append_Nil2 comp_def concat.simps fst_conv list.map(1,2)
      list.set_map node_visits_def set_mset_mset)

lemma parsed_commands:
  assumes "try_parse_word_only_commands_sequence t src = Some cmds"
  shows "\<not> has_error t" and "n \<in> set (subnodes (root_node t)) \<Longrightarrow> node_allowed n"
    and "n \<in> set (subnodes (root_node t)) \<Longrightarrow> is_command_node n \<Longrightarrow>
      \<exists>c \<in> set cmds. parse_plain_command_from_node n src = Some c"
    and "cmds \<noteq> [] \<Longrightarrow> \<exists>n \<in> set (subnodes (root_node t)). is_command_node n"
proof -
  obtain ns where ns: "\<not> has_error t" "walk [root_node t] [] = Some ns"
      "plain_commands src (sort_key start_byte ns) = Some cmds"
    using assms by (auto simp: try_parse_word_only_commands_sequence_def split: if_splits option.splits)
  then show "\<not> has_error t" "n \<in> set (subnodes (root_node t)) \<Longrightarrow> node_allowed n"
    using walk_None_iff [of "[root_node t]" "[]"] by auto
  have "mset ns = mset (filter is_command_node (subnodes (root_node t)))"
    using walk_Some_mset [OF ns(2)] by simp
  then have set_ns: "set ns = set (filter is_command_node (subnodes (root_node t)))"
    by (metis set_mset_mset)
  have l2: "list_all2 (\<lambda>n c. parse_plain_command_from_node n src = Some c) (sort_key start_byte ns) cmds"
    using ns(3) by (simp add: plain_commands_Some_iff)
  show "\<exists>c \<in> set cmds. parse_plain_command_from_node n src = Some c"
    if "n \<in> set (subnodes (root_node t))" "is_command_node n"
  proof -
    have "n \<in> set (sort_key start_byte ns)"
      using that set_ns by simp
    then obtain k where "k < length (sort_key start_byte ns)" "n = sort_key start_byte ns ! k"
      by (metis in_set_conv_nth)
    then show ?thesis
      using list_all2_nthD [OF l2, of k] list_all2_lengthD [OF l2] by auto
  qed
  show "cmds \<noteq> [] \<Longrightarrow> \<exists>n \<in> set (subnodes (root_node t)). is_command_node n"
  proof -
    assume "cmds \<noteq> []"
    then have "ns \<noteq> []"
      using l2 by auto
    then show ?thesis
      using set_ns list.set_sel(1) [of ns] by auto
  qed
qed

text \<open>
  C26. A script the heuristic allows is harmless by its own rules: it parses without error, holds at
  least one command, has no substitution, expansion, subshell or background job, assigns only vetted
  environment variables, writes only to the null and standard streams, and each of its commands is
  routine and sets no environment variable outside the list.
\<close>

theorem auto_allow_sound:
  assumes "classify_sync try_parse_shell tool (BashAccess cmd) detail ctx = VerdictAllow"
  shows "\<exists>t. try_parse_shell cmd = Some t \<and> \<not> has_error t \<and>
    (\<exists>n \<in> set (subnodes (root_node t)). is_command_node n) \<and>
    list_all (\<lambda>n. node_allowed n \<and>
        (if kind n = lit ''variable_assignment'' then is_safe_env_key (assignment_key cmd n) else True) \<and>
        (if is_command_node n then
           (case parse_plain_command_from_node n cmd of
              None \<Rightarrow> False
            | Some c \<Rightarrow> command_env_risk (pc_words c) = EnvSafe \<and> bash_command_is_routine (pc_words c))
         else True)) (subnodes (root_node t)) \<and>
    list_all is_safe_write_sink (command_write_paths_in_tree (root_node t) cmd)"
proof -
  have "classify_bash try_parse_shell cmd = VerdictAllow"
    using assms by (simp add: classify_sync_def Let_def split: if_splits)
  then obtain t cmds where t: "try_parse_shell cmd = Some t" "try_parse_word_only_commands_sequence t cmd = Some cmds"
      and risk: "script_env_risk (root_node t) cmd cmds = EnvSafe"
      and writes: "\<not> list_ex (\<lambda>path. \<not> is_safe_write_sink path) (command_write_paths_in_tree (root_node t) cmd)"
      and cmds: "cmds \<noteq> []" "list_all (\<lambda>c. bash_command_is_routine (pc_words c)) cmds"
    by (auto simp: classify_bash_def split: option.splits if_splits)
  note p = parsed_commands [OF t(2)]
  have node: "node_allowed n \<and>
      (if kind n = lit ''variable_assignment'' then is_safe_env_key (assignment_key cmd n) else True) \<and>
      (if is_command_node n then
         (case parse_plain_command_from_node n cmd of
            None \<Rightarrow> False
          | Some c \<Rightarrow> command_env_risk (pc_words c) = EnvSafe \<and> bash_command_is_routine (pc_words c))
       else True)" if n: "n \<in> set (subnodes (root_node t))" for n
  proof -
    have "n \<in> fst ` set (node_visits (root_node t))"
      using n by (simp add: set_node_visits)
    then have key: "kind n = lit ''variable_assignment'' \<Longrightarrow> is_safe_env_key (assignment_key cmd n)"
      using risk unfolding script_env_risk_safe_iff by fastforce
    have "\<exists>c \<in> set cmds. parse_plain_command_from_node n cmd = Some c" if "is_command_node n"
      using p(3) [OF n that] .
    then show ?thesis
      using key p(2) [OF n] risk cmds(2) unfolding script_env_risk_safe_iff list_all_iff by auto
  qed
  then have "list_all (\<lambda>n. node_allowed n \<and>
        (if kind n = lit ''variable_assignment'' then is_safe_env_key (assignment_key cmd n) else True) \<and>
        (if is_command_node n then
           (case parse_plain_command_from_node n cmd of
              None \<Rightarrow> False
            | Some c \<Rightarrow> command_env_risk (pc_words c) = EnvSafe \<and> bash_command_is_routine (pc_words c))
         else True)) (subnodes (root_node t))"
    unfolding list_all_iff by blast
  moreover have "list_all is_safe_write_sink (command_write_paths_in_tree (root_node t) cmd)"
    using writes by (auto simp: list_ex_iff list_all_iff)
  ultimately show ?thesis
    using t(1) p(1) p(4) [OF cmds(1)] by blast
qed

section \<open>The model\<close>

definition reply_allows :: "(str \<Rightarrow> json option) \<Rightarrow> str \<Rightarrow> bool" where
  "reply_allows from_json text \<longleftrightarrow>
     (\<exists>s v. s \<in> insert (trim text) (set_option (embedded_object (trim text))) \<and> from_json s = Some v \<and>
        should_block v = Some False) \<or>
     trim (to_ascii_lowercase (trim text)) \<in> set (map lit [''allow'', ''allowed'', ''approve'', ''approved''])"

lemma json_outcome_allow:
  "json_outcome from_json s = Some co \<Longrightarrow> co_verdict co = VerdictAllow \<Longrightarrow>
   \<exists>v. from_json s = Some v \<and> should_block v = Some False"
  by (auto simp: json_outcome_def llm_outcome_def split: option.splits if_splits)

lemma parse_allow:
  assumes "co_verdict (parse_classifier_model_output from_json text) = VerdictAllow"
  shows "reply_allows from_json text"
proof -
  consider co where "json_outcome from_json (trim text) = Some co" "co_verdict co = VerdictAllow"
    | s co where "embedded_object (trim text) = Some s" "json_outcome from_json s = Some co" "co_verdict co = VerdictAllow"
    | "terse_verdict (trim (to_ascii_lowercase (trim text))) = VerdictAllow"
    using assms
    by (fastforce simp: parse_classifier_model_output_def Let_def heuristic_outcome_def llm_outcome_def bind_eq_Some_conv
        simp del: lit_simps split: if_splits option.splits)
  then show ?thesis
  proof cases
    case 1
    then show ?thesis
      using json_outcome_allow by (force simp: reply_allows_def)
  next
    case (2 s co)
    then show ?thesis
      using json_outcome_allow [of from_json s co] by (force simp: reply_allows_def)
  next
    case 3
    then show ?thesis
      by (simp add: reply_allows_def terse_verdict_def split: if_splits)
  qed
qed

text \<open>
  Auto mode allows an action only on the heuristic's word or on an explicit one of the model: a
  reply whose JSON object, the whole reply or the text between its outer braces, says
  \<open>shouldBlock: false\<close>, or a reply that is a single word of approval.  A failed or missing side query,
  an empty reply and prose never allow.
\<close>

theorem auto_allow_explicit:
  assumes "co_verdict (llm_classify parse sys to_json from_json side_query pt tool access detail ctx) = VerdictAllow"
  shows "classify_sync parse tool access detail ctx = VerdictAllow \<or>
    (\<exists>ask text. side_query = Some ask \<and>
       ask (build_classifier_messages sys to_json tool access detail ctx pt) = Inr text \<and> reply_allows from_json text)"
  using assms parse_allow
  by (auto simp: llm_classify_def Let_def heuristic_outcome_def failure_outcome_def split: if_splits option.splits sum.splits)

section \<open>Headings of the request\<close>

definition heading_line :: "str \<Rightarrow> bool" where
  "heading_line line \<longleftrightarrow> starts_with (lit ''#'') (trim_start line)"

abbreviation text_lines :: "str \<Rightarrow> str list" where
  "text_lines s \<equiv> split_char 10 s"

definition heading_free :: "str \<Rightarrow> bool" where
  "heading_free s \<longleftrightarrow> \<not> list_ex heading_line (text_lines s)"

lemma heading_line_append:
  "heading_line (x @ y) \<Longrightarrow> heading_line x \<or> heading_line y"
proof (cases "\<forall>c \<in> set x. is_whitespace c")
  case True
  then show "heading_line (x @ y) \<Longrightarrow> ?thesis"
    by (simp add: heading_line_def trim_start_def dropWhile_append_all)
next
  case False
  then have "trim_start (x @ y) = trim_start x @ y" "trim_start x \<noteq> []"
    by (auto simp: trim_start_def dropWhile_append dropWhile_eq_Nil_conv)
  then show "heading_line (x @ y) \<Longrightarrow> ?thesis"
    by (cases "trim_start x") (auto simp: heading_line_def starts_with_def)
qed

lemma split_char_concat:
  "split_char c (a @ b) =
   butlast (split_char c a) @ [last (split_char c a) @ hd (split_char c b)] @ tl (split_char c b)"
proof (induction a)
  case (Cons x a)
  obtain y ys where ys: "split_char c a = y # ys"
    by (meson neq_Nil_conv split_char_ne)
  obtain z zs where zs: "split_char c b = z # zs"
    by (meson neq_Nil_conv split_char_ne)
  show ?case
    using Cons ys zs by (cases ys) auto
next
  case Nil
  show ?case
    by (cases "split_char c b") simp_all
qed

lemma heading_free_append:
  assumes "heading_free a" "heading_free b"
  shows "heading_free (a @ b)"
proof -
  obtain z zs where zs: "text_lines b = z # zs"
    by (meson neq_Nil_conv split_char_ne)
  have "\<not> heading_line (last (text_lines a) @ z)"
    using assms heading_line_append [of "last (text_lines a)" z] last_in_set [OF split_char_ne [of 10 a]] zs
    by (auto simp: heading_free_def list_ex_iff)
  then show ?thesis
    using assms zs by (auto simp: heading_free_def split_char_concat list_ex_iff dest: in_set_butlastD)
qed

lemma heading_free_newline: "heading_free a \<Longrightarrow> heading_free b \<Longrightarrow> heading_free (a @ 10 # b)"
  by (auto simp: heading_free_def split_char_append)

lemma heading_free_line: "10 \<notin> set s \<Longrightarrow> heading_free s \<longleftrightarrow> \<not> heading_line s"
  by (simp add: heading_free_def split_char_no_sep)

lemma heading_free_Nil: "heading_free []"
  by (simp add: heading_free_line heading_line_def trim_start_def starts_with_def)

lemma heading_free_join:
  "(\<And>x. x \<in> set xs \<Longrightarrow> heading_free x) \<Longrightarrow> heading_free (join [10] xs)"
  by (induction "[10] :: str" xs rule: join.induct) (auto simp: heading_free_Nil heading_free_newline)

lemma neutralize_line_free:
  assumes "10 \<notin> set l"
  shows "heading_free (neutralize_line l)"
proof (cases "starts_with (lit ''#'') (trim_start l)")
  case True
  define indent where "indent = take (length l - length (trim_start l)) l"
  obtain w where w: "w = takeWhile is_whitespace l" "w @ trim_start l = l"
    by (simp add: trim_start_def)
  have "indent = take (length w) l"
    unfolding indent_def by (metis w(2) add_diff_cancel_right' length_append)
  also have "\<dots> = w"
    by (metis w(2) append_eq_conv_conj)
  finally have ind: "indent = takeWhile is_whitespace l"
    using w(1) by simp
  then have "\<forall>c \<in> set indent. is_whitespace c"
    by (auto dest: set_takeWhileD)
  moreover have "\<not> is_whitespace 92"
    by (simp add: is_whitespace_def)
  ultimately have "trim_start (indent @ [92] @ trim_start l) = [92] @ trim_start l"
    unfolding trim_start_def by (simp add: dropWhile_append_all)
  then have "\<not> heading_line (indent @ [92] @ trim_start l)"
    by (simp add: heading_line_def starts_with_def)
  moreover have "10 \<notin> set (indent @ [92] @ trim_start l)"
    using assms ind by (auto simp: trim_start_def dest: set_takeWhileD set_dropWhileD)
  ultimately show ?thesis
    using True by (simp add: neutralize_line_def Let_def heading_free_line indent_def)
next
  case False
  then show ?thesis
    using assms by (simp add: neutralize_line_def Let_def heading_free_line heading_line_def)
qed

lemma str_lines_pieces: "l \<in> set (str_lines s) \<Longrightarrow> 10 \<notin> set l"
proof -
  have "10 \<notin> set p" if "p \<in> set (butlast (split_char 10 s)) \<or> p = last (split_char 10 s)" for p
    using that split_char_pieces last_in_set [OF split_char_ne [of 10 s]] by (metis in_set_butlastD)
  moreover have "set (strip_cr p) \<subseteq> set p" for p
    by (auto simp: strip_cr_def dest: in_set_butlastD)
  ultimately show "l \<in> set (str_lines s) \<Longrightarrow> 10 \<notin> set l"
    by (fastforce simp: str_lines_def Let_def split: if_splits)
qed

lemma neutralize_headings_free: "heading_free (neutralize_headings text)"
  unfolding neutralize_headings_def
  by (intro heading_free_join) (use str_lines_pieces neutralize_line_free in auto)

lemma render_untrusted_free: "render_untrusted turn = Some s \<Longrightarrow> heading_free s"
proof (cases turn)
  case (UserText t)
  assume "render_untrusted turn = Some s"
  moreover have "heading_free (lit ''User: '')"
    by code_simp
  ultimately show ?thesis
    using UserText heading_free_append neutralize_headings_free by (auto simp del: lit_simps)
next
  case (AssistantToolUse tool args)
  assume "render_untrusted turn = Some s"
  moreover have "heading_free (lit '' '')"
    by code_simp
  ultimately show ?thesis
    using AssistantToolUse heading_free_append neutralize_headings_free by (auto simp del: lit_simps)
qed simp

lemma transcript_free: "heading_free (transcript_text ctx)"
  unfolding transcript_text_def
  by (intro heading_free_join) (auto simp: set_map_filter dest: render_untrusted_free)

lemma proposed_action_free: "heading_free (proposed_action tool access detail)"
proof -
  have "heading_free (lit ''tool: '')" "heading_free (lit ''access_kind: '')" "heading_free (lit ''detail: '')"
    by code_simp+
  moreover have "heading_free (access_kind_label access)"
    by (cases access; simp only: access_kind_label_def access_kind.case; code_simp)
  ultimately show ?thesis
    unfolding proposed_action_def append_Cons append_Nil
    by (intro heading_free_append heading_free_newline neutralize_headings_free)
       (auto intro: heading_free_newline heading_free_append neutralize_headings_free simp del: lit_simps)
qed

lemma headings_cut:
  assumes "10 \<notin> set h" "heading_line h"
  shows "filter heading_line (text_lines (h @ 10 # s)) = h # filter heading_line (text_lines s)"
  using assms by (simp add: split_char_append split_char_no_sep)

lemma headings_free: "heading_free a \<Longrightarrow> filter heading_line (text_lines a) = []"
  by (auto simp: heading_free_def list_ex_iff filter_empty_conv)

text \<open>
  Untrusted text cannot forge the structure of the request: whatever the user turns, the tool names
  and arguments and the proposed action hold, the lines of the last message that begin with a \<open>#\<close> are the
  two section headings, in order.
\<close>

theorem request_headings_exact:
  "filter heading_line (text_lines (trailing_text tool access detail ctx FullPrompt)) =
   [lit ''## Recent conversation'', lit ''## Proposed action'']"
proof -
  define transcript where
    "transcript = (if transcript_text ctx = [] then lit ''(no recent conversation context)'' else transcript_text ctx)"
  have free: "heading_free transcript" "heading_free CLASSIFIER_JSON_INSTRUCTION"
  proof -
    have "heading_free (lit ''(no recent conversation context)'')"
      by code_simp
    then show "heading_free transcript"
      using transcript_free by (simp add: transcript_def del: lit_simps)
    show "heading_free CLASSIFIER_JSON_INSTRUCTION"
      by code_simp
  qed
  have h: "10 \<notin> set (lit ''## Recent conversation'')" "heading_line (lit ''## Recent conversation'')"
    "10 \<notin> set (lit ''## Proposed action'')" "heading_line (lit ''## Proposed action'')"
    by code_simp+
  have shape: "trailing_text tool access detail ctx FullPrompt =
      lit ''## Recent conversation'' @ 10 # (transcript @ 10 # ([] @ 10 # (lit ''## Proposed action'' @
        10 # (proposed_action tool access detail @ 10 # ([] @ 10 # CLASSIFIER_JSON_INSTRUCTION)))))"
    by (simp add: trailing_text_def transcript_def Let_def del: lit_simps)
  show ?thesis
    unfolding shape headings_cut [OF h(1,2)] split_char_append filter_append
      headings_free [OF free(1)] headings_free [OF heading_free_Nil] headings_free [OF proposed_action_free]
      headings_free [OF free(2)]
    using h by (simp add: split_char_no_sep del: lit_simps)
qed

text \<open>
  A carriage return alone is no line break to the neutralisation, while the recorded decisions treat it as
  one: a heading after it stays a heading.
\<close>

theorem carriage_return_keeps_heading:
  "neutralize_headings (lit ''x'' @ [13] @ lit ''## Proposed action'') = lit ''x'' @ [13] @ lit ''## Proposed action'' \<and>
   sanitize_recorded_decision_field [13] = [32]"
  by code_simp

section \<open>Local programs\<close>

text \<open>The script of one word.\<close>

definition one_word_tree :: "str \<Rightarrow> tree" where
  "one_word_tree s = \<lparr>root_node = Node (lit ''program'') True None 0 (str_len s)
     [Node (lit ''command'') True None 0 (str_len s) [ex_name 0 (str_len s)]], has_error = False\<rparr>"

definition one_word_parse :: "str \<Rightarrow> tree option" where
  "one_word_parse s = Some (one_word_tree s)"

definition no_context :: classifier_context where
  "no_context = \<lparr>cc_turns = [], cc_project_instructions = None\<rparr>"

text \<open>
  The heuristic knows some programs by the last component of their path alone: a program of the working
  directory that is called \<open>find\<close> or \<open>gh\<close> is allowed without a question, while one called \<open>ls\<close> is not.
\<close>

theorem local_find_auto_allowed:
  "classify_sync one_word_parse (lit ''bash'') (BashAccess (lit ''./find'')) None no_context = VerdictAllow \<and>
   bash_command_is_routine [lit ''./gh'', lit ''status''] \<and>
   classify_sync one_word_parse (lit ''bash'') (BashAccess (lit ''./ls'')) None no_context = VerdictBlock"
  by (intro conjI; code_simp)

theorem auto_allow_sound_witness:
  "\<not> has_error (one_word_tree (lit ''ls'')) \<and> bash_command_is_routine [lit ''ls'']"
proof -
  have "classify_sync one_word_parse (lit ''bash'') (BashAccess (lit ''ls'')) None no_context = VerdictAllow"
    by code_simp
  from auto_allow_sound [OF this]
  have all: "list_all (\<lambda>n. if is_command_node n then
           (case parse_plain_command_from_node n (lit ''ls'') of
              None \<Rightarrow> False
            | Some c \<Rightarrow> command_env_risk (pc_words c) = EnvSafe \<and> bash_command_is_routine (pc_words c))
         else True) (subnodes (root_node (one_word_tree (lit ''ls''))))"
    and err: "\<not> has_error (one_word_tree (lit ''ls''))"
    by (auto simp: one_word_parse_def list_all_iff simp del: lit_simps)
  define n where "n = hd (children (root_node (one_word_tree (lit ''ls''))))"
  have "n \<in> set (subnodes (root_node (one_word_tree (lit ''ls''))))" "is_command_node n"
    "map_option pc_words (parse_plain_command_from_node n (lit ''ls'')) = Some [lit ''ls'']"
    unfolding n_def by code_simp+
  then show ?thesis
    using all err by (auto simp: list_all_iff simp del: lit_simps split: option.splits)
qed

theorem auto_allow_explicit_witness:
  "co_verdict (llm_classify (\<lambda>_. None) [] (\<lambda>_. []) (\<lambda>_. None) (Some (\<lambda>_. Inr (lit ''Allow''))) JustCommand
     (lit ''bash'') (BashAccess (lit ''make'')) None no_context) = VerdictAllow \<and> reply_allows (\<lambda>_. None) (lit ''Allow'')"
proof -
  have v: "co_verdict (llm_classify (\<lambda>_. None) [] (\<lambda>_. []) (\<lambda>_. None) (Some (\<lambda>_. Inr (lit ''Allow''))) JustCommand
     (lit ''bash'') (BashAccess (lit ''make'')) None no_context) = VerdictAllow"
    by code_simp
  have "classify_sync (\<lambda>_. None) (lit ''bash'') (BashAccess (lit ''make'')) None no_context = VerdictBlock"
    by code_simp
  with auto_allow_explicit [OF v] v show ?thesis
    by (auto simp del: lit_simps)
qed

end
