(* ===== verification/Token_Estimate.thy ===== *)
theory Token_Estimate
  imports Prelude "HOL-Library.Word"
begin

text \<open>
  Token estimates and the thresholds of the context window (\<open>xai-token-estimation/src/lib.rs\<close>), on
  64-bit words with saturating arithmetic.  The two percentages computed in floating point are not
  modelled.
\<close>

section \<open>Saturating arithmetic\<close>

type_synonym u64 = "64 word"

definition saturating_mul :: "u64 \<Rightarrow> u64 \<Rightarrow> u64" where
  "saturating_mul a b = (if unat a * unat b < 2 ^ 64 then a * b else - 1)"

definition saturating_sub :: "u64 \<Rightarrow> u64 \<Rightarrow> u64" where
  "saturating_sub a b = (if b \<le> a then a - b else 0)"

lemma unat_saturating_mul: "unat (saturating_mul a b) = min (unat a * unat b) (2 ^ 64 - 1)"
proof (cases "unat a * unat b < 2 ^ 64")
  case True
  then have "unat (a * b) = unat a * unat b"
    using unat_mult_lem [of a b] by simp
  then show ?thesis
    using True by (simp add: saturating_mul_def)
next
  case False
  have "unat (- 1 :: u64) = 2 ^ 64 - 1"
    by (simp add: unsigned_minus_1_eq_mask mask_eq_exp_minus_1)
  then show ?thesis
    using False by (simp add: saturating_mul_def)
qed

lemma unat_saturating_sub: "unat (saturating_sub a b) = unat a - unat b"
  by (simp add: saturating_sub_def unat_sub word_le_nat_alt)

section \<open>Estimates\<close>

definition BYTES_PER_TOKEN :: u64 where "BYTES_PER_TOKEN = 4"
definition IMAGE_TOKEN_ESTIMATE :: u64 where "IMAGE_TOKEN_ESTIMATE = 765"

definition estimate_tokens :: "str \<Rightarrow> u64" where
  "estimate_tokens s = of_nat (str_len s) div BYTES_PER_TOKEN"

definition estimate_chars :: "u64 \<Rightarrow> u64" where
  "estimate_chars tokens = saturating_mul tokens BYTES_PER_TOKEN"

definition estimate_image_tokens :: "u64 \<Rightarrow> u64" where
  "estimate_image_tokens image_count = saturating_mul image_count IMAGE_TOKEN_ESTIMATE"

definition free_tokens :: "u64 \<Rightarrow> u64 \<Rightarrow> u64" where
  "free_tokens total_tokens used = saturating_sub total_tokens used"

section \<open>Thresholds\<close>

definition usage_percentage_truncated_u8 :: "u64 \<Rightarrow> u64 \<Rightarrow> 8 word" where
  "usage_percentage_truncated_u8 used total_tokens =
     (if total_tokens = 0 then 0 else ucast (min (saturating_mul used 100 div total_tokens) 100))"

definition exceeds_threshold :: "u64 \<Rightarrow> u64 \<Rightarrow> 8 word \<Rightarrow> bool" where
  "exceeds_threshold used context_window threshold_percent =
     (if context_window = 0 then False
      else saturating_mul used 100 \<ge> saturating_mul context_window (ucast threshold_percent))"

definition exceeds_threshold_with_headroom :: "u64 \<Rightarrow> u64 \<Rightarrow> 8 word \<Rightarrow> u64 \<Rightarrow> bool" where
  "exceeds_threshold_with_headroom used context_window threshold_percent headroom =
     (if context_window = 0 then False
      else saturating_mul used 100 \<ge>
        saturating_sub (saturating_mul context_window (ucast threshold_percent)) (saturating_mul headroom 100))"

section \<open>Properties\<close>

lemma unat_percent: "unat (ucast (p :: 8 word) :: u64) = unat p"
proof -
  have "unat p < 2 ^ 8"
    using unsigned_less [of p] by simp
  then show ?thesis
    by (simp add: unsigned_ucast_eq take_bit_nat_eq_self)
qed

text \<open>The comparison in exact arithmetic, and where saturation changes it.\<close>

lemma threshold_exact:
  "exceeds_threshold used cw p \<longleftrightarrow>
   cw \<noteq> 0 \<and> (unat cw * unat p \<le> unat used * 100 \<or> 2 ^ 64 - 1 \<le> unat used * 100)"
  by (auto simp: exceeds_threshold_def word_le_nat_alt unat_saturating_mul unat_percent)

lemma truncated_percentage:
  assumes "cw \<noteq> 0" "unat used * 100 < 2 ^ 64"
  shows "unat (usage_percentage_truncated_u8 used cw) = min (unat used * 100 div unat cw) 100"
proof -
  have "unat (saturating_mul used 100) = unat used * 100"
    using assms(2) by (simp add: unat_saturating_mul)
  then have q: "unat (saturating_mul used 100 div cw) = unat used * 100 div unat cw"
    by (simp add: unat_div_distrib)
  have m: "unat (min x (100 :: u64)) = min (unat x) 100" for x
    by (simp add: min_def word_le_nat_alt)
  have "unat (ucast (min (saturating_mul used 100 div cw) 100) :: 8 word) = min (unat used * 100 div unat cw) 100"
    by (simp add: unsigned_ucast_eq m q take_bit_nat_eq_self)
  then show ?thesis
    using assms(1) by (simp add: usage_percentage_truncated_u8_def)
qed

text \<open>
  The compaction gate compares exactly.  It fires exactly when the window is not empty and the
  tokens used reach the percentage of it in unbounded arithmetic, or their product with 100 no longer
  fits in 64 bits; so it never misses.  Where nothing saturates and the threshold is a percentage it
  agrees with the percentage that is displayed, and the headroom shifts it by exactly that many tokens.
\<close>

theorem threshold_agrees:
  assumes "unat used * 100 < 2 ^ 64 - 1" "unat p \<le> 100" "unat headroom * 100 < 2 ^ 64"
    and "unat cw * 100 < 2 ^ 64"
  shows "(exceeds_threshold used cw p \<longleftrightarrow> cw \<noteq> 0 \<and> unat cw * unat p \<le> unat used * 100) \<and>
    (exceeds_threshold used cw p \<longleftrightarrow> cw \<noteq> 0 \<and> p \<le> usage_percentage_truncated_u8 used cw) \<and>
    (exceeds_threshold_with_headroom used cw p headroom \<longleftrightarrow>
       cw \<noteq> 0 \<and> unat cw * unat p \<le> (unat used + unat headroom) * 100)"
proof -
  have cwp: "unat cw * unat p < 2 ^ 64"
    using assms(2,4) by (meson le_less_trans mult_le_mono2)
  have pct: "unat cw * unat p \<le> unat used * 100 \<longleftrightarrow> p \<le> usage_percentage_truncated_u8 used cw" if "cw \<noteq> 0"
  proof -
    have "0 < unat cw"
      using that by (simp add: unat_gt_0)
    then have "unat cw * unat p \<le> unat used * 100 \<longleftrightarrow> unat p \<le> unat used * 100 div unat cw"
      by (simp add: less_eq_div_iff_mult_less_eq mult.commute)
    then show ?thesis
      using truncated_percentage [OF that, of used] assms(1,2) by (auto simp: word_le_nat_alt)
  qed
  have "exceeds_threshold_with_headroom used cw p headroom \<longleftrightarrow>
      cw \<noteq> 0 \<and> unat cw * unat p \<le> (unat used + unat headroom) * 100"
    using assms cwp
    by (auto simp: exceeds_threshold_with_headroom_def word_le_nat_alt unat_saturating_mul unat_saturating_sub unat_percent
        min_def)
  then show ?thesis
    using assms(1) pct by (auto simp: threshold_exact)
qed

theorem threshold_agrees_witness:
  "(exceeds_threshold 850 1000 85 \<longleftrightarrow> (1000 :: u64) \<noteq> 0 \<and> unat (1000 :: u64) * unat (85 :: 8 word) \<le> unat (850 :: u64) * 100) \<and>
   exceeds_threshold 850 1000 85"
proof -
  have "(exceeds_threshold 850 1000 85 \<longleftrightarrow> (1000 :: u64) \<noteq> 0 \<and> unat (1000 :: u64) * unat (85 :: 8 word) \<le> unat (850 :: u64) * 100)"
    using threshold_agrees [of 850 85 0 1000] by simp
  then show ?thesis
    by simp
qed

end
