(* ===== verification/Event_Queue.thy ===== *)
theory Event_Queue
  imports Prelude
begin

text \<open>
  Buffers of events that arrive during a turn: \<open>EventQueue\<close>, the interjections of the user and their
  framing (\<open>xai-interjection-core/src\<close>: \<open>events.rs\<close>, \<open>buffer.rs\<close>, \<open>format.rs\<close>), and the events of
  background monitors (\<open>task/types.rs\<close>, \<open>monitor/event.rs\<close>, \<open>reminders/task_completion.rs\<close> of
  \<open>xai-grok-tools\<close>).  A queue is the list behind its lock; each operation holds the lock once.
\<close>

section \<open>The queue\<close>

definition push :: "'e \<Rightarrow> 'e list \<Rightarrow> 'e list" where
  "push event q = q @ [event]"

definition push_capped :: "'e \<Rightarrow> nat \<Rightarrow> 'e list \<Rightarrow> 'e list" where
  "push_capped event cap q =
     (let q = q @ [event] in if length q > cap then drop (length q - cap) q else q)"

definition drain_matching :: "('e \<Rightarrow> bool) \<Rightarrow> 'e list \<Rightarrow> 'e list \<times> 'e list" where
  "drain_matching takes q = partition takes q"

definition drain_all :: "'e list \<Rightarrow> 'e list \<times> 'e list" where
  "drain_all q = (q, [])"

section \<open>Interjections\<close>

record 'a pending_interjection =
  pi_text :: str
  pi_attachments :: "'a list"

definition LARGE_PROMPT_THRESHOLD :: nat where "LARGE_PROMPT_THRESHOLD = 25000"

definition user_query :: "str \<Rightarrow> str" where
  "user_query user_message = lit ''<user_query>'' @ [10] @ user_message @ [10] @ lit ''</user_query>''"

text \<open>The characters that start below the threshold.\<close>

fun starting_below :: "nat \<Rightarrow> nat \<Rightarrow> str \<Rightarrow> str" where
  "starting_below limit i [] = []"
| "starting_below limit i (c # cs) = (if i < limit then c # starting_below limit (i + len_utf8 c) cs else [])"

definition format_interjection :: "str \<Rightarrow> str" where
  "format_interjection s =
     (let truncated =
        (if str_len s > LARGE_PROMPT_THRESHOLD
         then starting_below LARGE_PROMPT_THRESHOLD 0 s @ lit ''... [truncated]''
         else s)
      in lit ''The user sent a message while you were working:'' @ [10] @ user_query truncated)"

definition drain_formatted :: "(str \<Rightarrow> str) \<Rightarrow> 'a pending_interjection list \<Rightarrow>
    'a pending_interjection list \<times> 'a pending_interjection list" where
  "drain_formatted sanitize_text q =
     (let (drained, rest) = drain_all q in
      (map (\<lambda>e. e\<lparr>pi_text := format_interjection (sanitize_text (pi_text e))\<rparr>) drained, rest))"

section \<open>Monitor events\<close>

record monitor_event =
  me_task_id :: str
  me_event_text :: str
  me_owner_session_id :: "str option"

definition owned_by_session :: "str option \<Rightarrow> monitor_event \<Rightarrow> bool" where
  "owned_by_session my_owner e =
     (case (my_owner, me_owner_session_id e) of
        (Some me, Some owner) \<Rightarrow> me = owner
      | _ \<Rightarrow> True)"

definition drain_owned :: "str option \<Rightarrow> monitor_event list \<Rightarrow> monitor_event list \<times> monitor_event list" where
  "drain_owned my_owner buffer = drain_matching (owned_by_session my_owner) buffer"

definition sanitize_monitor_description :: "str \<Rightarrow> str" where
  "sanitize_monitor_description d = map (\<lambda>c. if c = 34 then 39 else if c = 10 \<or> c = 13 then 32 else c) d"

definition wrap_monitor_event :: "str \<Rightarrow> str \<Rightarrow> str \<Rightarrow> str" where
  "wrap_monitor_event description event_text task_id =
     lit ''<monitor-event description='' @ [34] @ sanitize_monitor_description description @ [34] @
     lit '' task_id='' @ [34] @ task_id @ [34] @ lit ''>'' @ [10] @ event_text @ [10] @ lit ''</monitor-event>''"

definition split_wrapped_monitor_event :: "str \<Rightarrow> (str \<times> str) option" where
  "split_wrapped_monitor_event event_text =
     Option.bind (strip_prefix (lit ''<monitor-event description='' @ [34]) event_text) (\<lambda>rest.
     Option.bind (split_once (lit ''>'' @ [10]) rest) (\<lambda>(open_tag, after).
     Option.bind (rsplit_once ([34] @ lit '' task_id='' @ [34]) open_tag) (\<lambda>(description, _).
     map_option (\<lambda>inner. (description, inner)) (strip_suffix ([10] @ lit ''</monitor-event>'') after))))"

definition inner_text :: "monitor_event \<Rightarrow> str" where
  "inner_text e = (case split_wrapped_monitor_event (me_event_text e) of Some (_, inner) \<Rightarrow> inner | None \<Rightarrow> me_event_text e)"

definition event_label :: "monitor_event list \<Rightarrow> str" where
  "event_label es =
     sanitize_monitor_description
       (case List.map_filter (\<lambda>e. split_wrapped_monitor_event (me_event_text e)) es of
          (desc, _) # _ \<Rightarrow> if desc = [] then lit ''event'' else desc
        | [] \<Rightarrow> lit ''event'')"

fun add_to_group :: "monitor_event \<Rightarrow> (str \<times> monitor_event list) list \<Rightarrow> (str \<times> monitor_event list) list" where
  "add_to_group e [] = [(me_task_id e, [e])]"
| "add_to_group e ((i, es) # rest) =
     (if i = me_task_id e then (i, es @ [e]) # rest else (i, es) # add_to_group e rest)"

definition monitor_groups :: "monitor_event list \<Rightarrow> (str \<times> monitor_event list) list" where
  "monitor_groups events = foldl (\<lambda>groups e. add_to_group e groups) [] events"

definition tick_line :: "nat \<times> monitor_event \<Rightarrow> str" where
  "tick_line ne = [10] @ lit ''['' @ show_nat (fst ne + 1) @ lit ''] '' @ inner_text (snd ne)"

definition render_group :: "str \<times> monitor_event list \<Rightarrow> str" where
  "render_group g =
     [10, 10] @ lit ''<monitor description='' @ [34] @ event_label (snd g) @ [34] @
     lit '' task_id='' @ [34] @ fst g @ [34] @ lit ''>'' @
     concat (map tick_line (List.enumerate 0 (snd g))) @ [10] @ lit ''</monitor>''"

definition format_monitor_events :: "monitor_event list \<Rightarrow> str option \<Rightarrow> str option" where
  "format_monitor_events events task_output_name =
     (let tool_hint = (case task_output_name of Some n \<Rightarrow> n | None \<Rightarrow> lit ''get_command_or_subagent_output'') in
      case events of
        [] \<Rightarrow> None
      | [event] \<Rightarrow>
          Some (lit ''<monitor-event task_id='' @ [34] @ me_task_id event @ [34] @ lit ''>'' @ [10] @ lit ''['' @
            event_label [event] @ lit ''] '' @ inner_text event @ [10] @ lit ''</monitor-event>'')
      | _ \<Rightarrow>
          (let groups = monitor_groups events in
           Some (show_nat (length events) @ lit '' monitor events from '' @ show_nat (length groups) @ lit '' '' @
             (if length groups = 1 then lit ''monitor'' else lit ''monitors'') @ lit '' (use '' @ tool_hint @
             lit '' to identify each monitor):'' @ concat (map render_group groups))))"

section \<open>Properties\<close>

lemma push_capped_suffix: "push_capped e cap q = drop (length q + 1 - cap) (q @ [e])"
  by (auto simp: push_capped_def Let_def)

lemma push_capped_bound: "length q \<le> cap \<Longrightarrow> length (push_capped e cap q) \<le> cap"
  by (simp add: push_capped_suffix)

lemma starting_below_prefix: "\<exists>r. s = starting_below limit i s @ r"
  by (induction s arbitrary: i) auto

lemma starting_below_stop: "limit \<le> i \<Longrightarrow> starting_below limit i s = []"
  by (cases s) simp_all

lemma starting_below_len: "str_len (starting_below limit i s) \<le> limit - i + 3"
proof (induction s arbitrary: i)
  case (Cons c cs)
  have "len_utf8 c \<le> 4"
    by (simp add: len_utf8_def)
  then show ?case
    using Cons [of "i + len_utf8 c"] by (cases "i + len_utf8 c < limit") (auto simp: starting_below_stop)
qed simp

lemma sanitized_free: "34 \<notin> set (sanitize_monitor_description d)" "10 \<notin> set (sanitize_monitor_description d)"
  by (auto simp: sanitize_monitor_description_def)

definition id_char :: "uchar \<Rightarrow> bool" where
  "id_char c \<longleftrightarrow> c = 45 \<or> c = 95 \<or> 48 \<le> c \<and> c \<le> 57 \<or> 65 \<le> c \<and> c \<le> 90 \<or> 97 \<le> c \<and> c \<le> 122"

lemma last_attribute:
  assumes "list_all id_char t" "34 \<notin> set d"
  shows "rsplit_once ([34] @ lit '' task_id='' @ [34]) (d @ [34] @ lit '' task_id='' @ [34] @ t @ [34]) = Some (d, t @ [34])"
proof -
  have quote: "34 \<notin> set t" and equals: "61 \<notin> set t"
    using assms(1) by (auto simp: list_all_iff id_char_def)
  let ?p = "34 # rev (lit '' task_id='')"
  have skip: "split_once (?p @ [34]) (34 # rev t @ r) = map_option (\<lambda>(a, b). (34 # rev t @ a, b)) (split_once (?p @ [34]) r)"
    if "\<forall>x \<in> set t. x \<noteq> 34" "\<forall>x \<in> set t. x \<noteq> 61" "t = [] \<longrightarrow> (\<exists>q. r = 34 # q)" for r
  proof -
    have pass: "split_once (?p @ [34]) (u @ r) = map_option (\<lambda>(a, b). (u @ a, b)) (split_once (?p @ [34]) r)"
      if "34 \<notin> set u" for u
      using that by (induction u) (auto simp: option.map_comp comp_def case_prod_unfold option.map_ident)
    have "34 \<notin> set (rev t)"
      using that(1) by auto
    moreover have "strip_prefix (?p @ [34]) (34 # rev t @ r) = None"
      using that by (cases "rev t") auto
    ultimately show ?thesis
      using pass [of "rev t"] by (simp add: option.map_comp comp_def case_prod_unfold)
  qed
  have "split_once (?p @ [34]) (34 # rev (lit '' task_id='') @ 34 # rev d) = Some ([], rev d)"
    using strip_prefix_append [of "?p @ [34]" "rev d"] by simp
  moreover have "split_once (?p @ [34]) (34 # rev t @ 34 # rev (lit '' task_id='') @ 34 # rev d) =
      map_option (\<lambda>(a, b). (34 # rev t @ a, b)) (split_once (?p @ [34]) (34 # rev (lit '' task_id='') @ 34 # rev d))"
    by (rule skip) (use quote equals in auto)
  ultimately have "split_once (?p @ [34]) (34 # rev t @ 34 # rev (lit '' task_id='') @ 34 # rev d) = Some (34 # rev t, rev d)"
    by (simp only: option.map prod.case append_Nil2)
  moreover have "rev (d @ [34] @ lit '' task_id='' @ [34] @ t @ [34]) = 34 # rev t @ 34 # rev (lit '' task_id='') @ 34 # rev d"
    "rev ([34] @ lit '' task_id='' @ [34]) = ?p @ [34]"
    by simp_all
  ultimately show ?thesis
    unfolding rsplit_once_def by (simp only: option.map prod.case rev.simps rev_rev_ident)
qed

text \<open>
  What the writer of monitor events wraps the reader takes apart: whatever the description and the
  text contain, line breaks, quotes and imitated tags included, the reader returns the sanitised description
  and exactly the text; and a single such event is shown to the model with both.
\<close>

theorem monitor_event_roundtrip:
  assumes "list_all id_char task_id"
  shows "split_wrapped_monitor_event (wrap_monitor_event description event_text task_id) =
      Some (sanitize_monitor_description description, event_text) \<and>
    (me_event_text e = wrap_monitor_event description event_text task_id \<longrightarrow> inner_text e = event_text)"
proof -
  let ?d = "sanitize_monitor_description description"
  let ?tag = "?d @ [34] @ lit '' task_id='' @ [34] @ task_id @ [34]"
  have "10 \<notin> set ?tag"
    using assms sanitized_free by (auto simp: list_all_iff id_char_def)
  then have "split_once (lit ''>'' @ [10]) (?tag @ lit ''>'' @ 10 # event_text @ [10] @ lit ''</monitor-event>'') =
      Some (?tag, event_text @ [10] @ lit ''</monitor-event>'')"
    by (intro split_once_first) simp_all
  moreover have "rsplit_once ([34] @ lit '' task_id='' @ [34]) ?tag = Some (?d, task_id @ [34])"
    by (rule last_attribute) (use assms sanitized_free in simp_all)
  moreover have "strip_suffix ([10] @ lit ''</monitor-event>'') (event_text @ [10] @ lit ''</monitor-event>'') = Some event_text"
    unfolding strip_suffix_def rev_append strip_prefix_append by simp
  moreover have "strip_prefix (lit ''<monitor-event description='' @ [34]) (wrap_monitor_event description event_text task_id) =
      Some (?tag @ lit ''>'' @ 10 # event_text @ [10] @ lit ''</monitor-event>'')"
    by (simp add: strip_prefix_Some_iff wrap_monitor_event_def)
  ultimately show ?thesis
    by (simp add: split_wrapped_monitor_event_def inner_text_def del: lit_simps)
qed

theorem monitor_event_roundtrip_witness:
  "split_wrapped_monitor_event (wrap_monitor_event (lit ''a'' @ [34, 62, 10]) (lit ''>'' @ [10]) (lit ''t-1'')) =
     Some (sanitize_monitor_description (lit ''a'' @ [34, 62, 10]), lit ''>'' @ [10])"
proof -
  have "list_all id_char (lit ''t-1'')"
    by code_simp
  from monitor_event_roundtrip [OF this] show ?thesis
    by blast
qed

text \<open>Grouping keeps every event once: the groups are the monitors in the order first seen, each with its events in order.\<close>

lemma add_to_group_exact:
  "distinct (map fst g) \<Longrightarrow> add_to_group e g =
     (if me_task_id e \<in> fst ` set g then map (\<lambda>(i, es). (i, if i = me_task_id e then es @ [e] else es)) g
      else g @ [(me_task_id e, [e])])"
proof (induction g)
  case (Cons p g)
  then show ?case
    by (cases p) (force intro!: map_idI [symmetric])
qed simp

lemma monitor_groups_exact:
  "monitor_groups es = map (\<lambda>i. (i, filter (\<lambda>e. me_task_id e = i) es)) (rev (remdups (rev (map me_task_id es))))"
proof (induction es rule: rev_induct)
  case (snoc e es)
  let ?ids = "rev (remdups (rev (map me_task_id es)))"
  have "monitor_groups (es @ [e]) = add_to_group e (monitor_groups es)"
    by (simp add: monitor_groups_def)
  also have "\<dots> = map (\<lambda>i. (i, filter (\<lambda>e'. me_task_id e' = i) (es @ [e]))) (rev (remdups (rev (map me_task_id (es @ [e])))))"
  proof (cases "me_task_id e \<in> me_task_id ` set es")
    case True
    then show ?thesis
      by (subst snoc, subst add_to_group_exact) (auto simp: comp_def image_image)
  next
    case False
    then have "filter (\<lambda>e'. me_task_id e' = me_task_id e) es = []"
      by (auto simp: filter_empty_conv image_iff)
    with False show ?thesis
      by (subst snoc, subst add_to_group_exact) (auto simp: comp_def image_image)
  qed
  finally show ?case .
qed (simp add: monitor_groups_def)

end
