(* ===== verification/Prompt_Queue.thy ===== *)
theory Prompt_Queue
  imports Event_Queue "HOL-Library.List_Lexorder"
begin

text \<open>
  The prompt queue of a session: the merge rules of \<open>xai-prompt-queue\<close>, the queue operations of
  \<open>acp_session_impl/prompt_queue.rs\<close>, promotion and notifications of \<open>notification_drain.rs\<close>,
  completion (\<open>turn_end.rs\<close>), cancellation (\<open>tasks_cancel.rs\<close>), and the interjection fallback.  The actor
  holds its state in a lock; each operation takes the state and returns it changed, one definition per
  stretch of code that holds the lock.  Of an input only what the queue reads is kept, not the fields it hands to the turn.
\<close>

section \<open>Content of a prompt\<close>

type_synonym meta = "(str, json) hmap"

datatype content_block = TextBlock str "meta option" | ImageBlock str | OtherBlock json

text \<open>\<open>PromptBlockMeta::from_value\<close>: the derived reader of a struct with one optional string.\<close>

definition prompt_block_meta :: "meta \<Rightarrow> str option option" where
  "prompt_block_meta m =
     (case hm_get m (lit ''bash_command'') of
        None \<Rightarrow> Some None
      | Some JNull \<Rightarrow> Some None
      | Some (JString s) \<Rightarrow> Some (Some s)
      | _ \<Rightarrow> None)"

fun extract_bash_command :: "content_block list \<Rightarrow> str option" where
  "extract_bash_command [] = None"
| "extract_bash_command (TextBlock _ (Some m) # bs) =
     (case prompt_block_meta m of Some command \<Rightarrow> command | None \<Rightarrow> extract_bash_command bs)"
| "extract_bash_command (_ # bs) = extract_bash_command bs"

fun block_text :: "content_block \<Rightarrow> str option" where
  "block_text (TextBlock t _) = Some t"
| "block_text _ = None"

fun display_text :: "content_block \<Rightarrow> str option" where
  "display_text (TextBlock _ (Some m)) =
     (case Option.bind (hm_get m (lit ''displayText'')) as_str of
        Some s \<Rightarrow> if trim s = [] then None else Some (trim s)
      | None \<Rightarrow> None)"
| "display_text _ = None"

definition has_display_text :: "content_block \<Rightarrow> bool" where
  "has_display_text b \<longleftrightarrow> display_text b \<noteq> None"

definition queue_text_from_blocks :: "content_block list \<Rightarrow> str" where
  "queue_text_from_blocks blocks =
     (case find_map display_text blocks of
        Some display \<Rightarrow> display
      | None \<Rightarrow> join [10, 10] (filter (\<lambda>s. s \<noteq> []) (map trim (List.map_filter block_text blocks))))"

section \<open>Origins\<close>

datatype prompt_origin =
    User
  | TaskCompleted str
  | SubagentCompleted str
  | WorkflowCompleted str
  | NotificationDrain
  | GoalSummary
  | GoalClassifierNudge
  | SchedulerFired
  | PlanResume

definition from_prompt_id :: "str \<Rightarrow> prompt_origin" where
  "from_prompt_id i =
     (case strip_prefix (lit ''task-completed-'') i of Some task_id \<Rightarrow> TaskCompleted task_id | None \<Rightarrow>
      case strip_prefix (lit ''subagent-completed-'') i of Some subagent_id \<Rightarrow> SubagentCompleted subagent_id | None \<Rightarrow>
      case strip_prefix (lit ''workflow-completed-'') i of Some completion_id \<Rightarrow> WorkflowCompleted completion_id | None \<Rightarrow>
      if starts_with (lit ''notifications-'') i then NotificationDrain
      else if starts_with (lit ''goal-summary-'') i then GoalSummary
      else if starts_with (lit ''goal-classifier-nudge-'') i then GoalClassifierNudge
      else if starts_with (lit ''scheduler-fired-'') i then SchedulerFired
      else if starts_with (lit ''plan-resume-'') i then PlanResume
      else User)"

definition is_synthetic :: "prompt_origin \<Rightarrow> bool" where
  "is_synthetic origin \<longleftrightarrow> origin \<noteq> User"

fun hide_user_echo_from_scrollback :: "prompt_origin \<Rightarrow> bool" where
  "hide_user_echo_from_scrollback User = False"
| "hide_user_echo_from_scrollback SchedulerFired = False"
| "hide_user_echo_from_scrollback PlanResume = False"
| "hide_user_echo_from_scrollback _ = True"

fun completion_id :: "prompt_origin \<Rightarrow> str option" where
  "completion_id (TaskCompleted i) = Some i"
| "completion_id (SubagentCompleted i) = Some i"
| "completion_id (WorkflowCompleted i) = Some i"
| "completion_id _ = None"

section \<open>State\<close>

definition U64_MAX :: nat where "U64_MAX = 2 ^ 64 - 1"

record queue_entry_meta =
  qm_id :: str
  qm_version :: nat
  qm_owner :: "str option"
  qm_last_editor :: "str option"
  qm_kind :: str
  qm_text :: str
  qm_combined_texts :: "str list option"

record queue_entry_wire =
  qw_id :: str
  qw_version :: nat
  qw_owner :: "str option"
  qw_last_editor :: "str option"
  qw_kind :: str
  qw_text :: str
  qw_combined_texts :: "str list option"
  qw_position :: nat

record queue_changed =
  qc_entries :: "queue_entry_wire list"
  qc_running_prompt_id :: "str option"
  qc_running_text :: "str option"
  qc_running_kind :: "str option"
  qc_running_combined_texts :: "str list option"

datatype notification_source = MonitorEventSource str | MonitorCompleted str | BashTaskCompleted str

fun source_task_id :: "notification_source \<Rightarrow> str" where
  "source_task_id (MonitorEventSource i) = i"
| "source_task_id (MonitorCompleted i) = i"
| "source_task_id (BashTaskCompleted i) = i"

datatype notification_priority = NextPriority | LaterPriority

record pending_notification =
  pn_prompt_blocks :: "content_block list"
  pn_priority :: notification_priority
  pn_source :: notification_source

record task_wake_fallback =
  tw_prompt_blocks :: "content_block list"
  tw_source :: notification_source

record input_item =
  ii_prompt_id :: str
  ii_prompt_blocks :: "content_block list"
  ii_origin :: prompt_origin
  ii_task_wake_fallback :: "task_wake_fallback option"
  ii_tool_overrides_update :: "json option"
  ii_respond_to :: nat
  ii_queue_meta :: "queue_entry_meta option"
  ii_send_now :: bool

text \<open>
  What the receiver of a reply channel sees: a result of the turn, one of the answers the queue gives, or that
  the sender was dropped without an answer.
\<close>

datatype turn_reply = TurnResult str | RemovedFromQueue | CancelledTurn "str option" | Rewound | SenderDropped

text \<open>
  \<open>State\<close>, the two buffers the actor shares with the turn, and what goes out: replies, broadcasts, released
  reservations and completions marked as reported.
\<close>

record session =
  running_task :: "str option"
  pending_inputs :: "input_item list"
  pending_notifications :: "pending_notification list"
  combine_edit_holds :: "str list"
  notifications_suppressed :: bool
  rewindable :: bool
  pending_interjections :: "str pending_interjection list"
  monitor_event_buffer :: "monitor_event list option"
  sent_replies :: "(nat \<times> turn_reply) list"
  broadcasts :: "queue_changed list"
  released :: "str list"
  reported :: "str list"

definition respond :: "turn_reply \<Rightarrow> input_item list \<Rightarrow> session \<Rightarrow> session" where
  "respond r items s = s\<lparr>sent_replies := sent_replies s @ map (\<lambda>i. (ii_respond_to i, r)) items\<rparr>"

definition release :: "input_item list \<Rightarrow> session \<Rightarrow> session" where
  "release items s = s\<lparr>released := released s @ List.map_filter (\<lambda>i. completion_id (ii_origin i)) items\<rparr>"

section \<open>Merging\<close>

record combine_gate =
  cg_id :: str
  cg_is_plain_prompt :: bool
  cg_is_synthetic :: bool
  cg_is_expanded_skill :: bool
  cg_is_bash :: bool
  cg_has_images :: bool
  cg_text :: str

definition can_merge_front :: "combine_gate \<Rightarrow> bool" where
  "can_merge_front g \<longleftrightarrow> cg_is_plain_prompt g \<and> \<not> cg_is_synthetic g \<and> \<not> cg_is_expanded_skill g \<and>
     \<not> cg_is_bash g \<and> cg_text g \<noteq> []"

definition can_merge_follower :: "str list \<Rightarrow> combine_gate \<Rightarrow> bool" where
  "can_merge_follower skip_ids g \<longleftrightarrow> can_merge_front g \<and> \<not> cg_has_images g \<and> cg_id g \<notin> set skip_ids"

definition combine_prefix_len :: "combine_gate list \<Rightarrow> str list \<Rightarrow> nat" where
  "combine_prefix_len items skip_ids =
     (case items of
        [] \<Rightarrow> 0
      | front # rest \<Rightarrow>
          if \<not> can_merge_front front then 1 else 1 + length (takeWhile (can_merge_follower skip_ids) rest))"

definition TEXT_SEPARATOR :: str where "TEXT_SEPARATOR = [10, 10]"

definition join_texts :: "str list \<Rightarrow> str" where
  "join_texts texts = join TEXT_SEPARATOR (filter (\<lambda>t. t \<noteq> []) texts)"

definition is_combined :: "str list \<Rightarrow> bool" where
  "is_combined segs \<longleftrightarrow> length segs \<ge> 2"

definition stamp_combined_display_texts :: "meta \<Rightarrow> str list \<Rightarrow> meta" where
  "stamp_combined_display_texts m segs =
     (if \<not> is_combined segs then m
      else hm_insert (lit ''combinedDisplayTexts'') (JArray (map JString segs)) m)"

fun is_text_block :: "content_block \<Rightarrow> bool" where
  "is_text_block (TextBlock _ _) = True"
| "is_text_block _ = False"

fun is_image_block :: "content_block \<Rightarrow> bool" where
  "is_image_block (ImageBlock _) = True"
| "is_image_block _ = False"

definition nonempty_text :: "content_block \<Rightarrow> str option" where
  "nonempty_text b = (case block_text b of Some t \<Rightarrow> if t = [] then None else Some t | None \<Rightarrow> None)"

definition combine_gate_of :: "input_item \<Rightarrow> combine_gate" where
  "combine_gate_of item =
     (let blocks = ii_prompt_blocks item;
          is_bash = (extract_bash_command blocks \<noteq> None);
          is_plain = (map_option qm_kind (ii_queue_meta item) = Some (lit ''prompt'') \<and> \<not> is_bash);
          has_text = list_ex (\<lambda>b. nonempty_text b \<noteq> None) blocks;
          non_text_non_image = list_ex (\<lambda>b. \<not> is_text_block b \<and> \<not> is_image_block b) blocks;
          meta_text = (case ii_queue_meta item of Some m \<Rightarrow> qm_text m | None \<Rightarrow> [])
      in \<lparr>cg_id = ii_prompt_id item,
          cg_is_plain_prompt = (is_plain \<and> has_text \<and> \<not> non_text_non_image \<and> ii_tool_overrides_update item = None),
          cg_is_synthetic = is_synthetic (ii_origin item),
          cg_is_expanded_skill = list_ex has_display_text blocks,
          cg_is_bash = is_bash,
          cg_has_images = list_ex is_image_block blocks,
          cg_text = (if meta_text = []
            then (case find_map nonempty_text blocks of Some t \<Rightarrow> t | None \<Rightarrow> [])
            else meta_text)\<rparr>)"

definition joined_text_blocks :: "content_block list \<Rightarrow> str" where
  "joined_text_blocks blocks = join_texts (List.map_filter nonempty_text blocks)"

text \<open>The first text block changed, and the last one.\<close>

fun map_first_text :: "(str \<Rightarrow> meta option \<Rightarrow> content_block) \<Rightarrow> content_block list \<Rightarrow> content_block list" where
  "map_first_text f [] = []"
| "map_first_text f (TextBlock t m # bs) = f t m # bs"
| "map_first_text f (b # bs) = b # map_first_text f bs"

definition append_to_last_text :: "str \<Rightarrow> content_block list \<Rightarrow> content_block list" where
  "append_to_last_text extra blocks =
     rev (map_first_text (\<lambda>t m. TextBlock ((if t = [] then t else t @ TEXT_SEPARATOR) @ extra) m) (rev blocks))"

definition stamp_combined_display_texts_meta :: "input_item \<Rightarrow> input_item" where
  "stamp_combined_display_texts_meta item =
     (case Option.bind (ii_queue_meta item) qm_combined_texts of
        None \<Rightarrow> item
      | Some segs \<Rightarrow>
          item\<lparr>ii_prompt_blocks := map_first_text
            (\<lambda>t m. TextBlock t (Some (stamp_combined_display_texts (case m of Some m \<Rightarrow> m | None \<Rightarrow> []) segs)))
            (ii_prompt_blocks item)\<rparr>)"

definition append_text_to_prompt :: "input_item \<Rightarrow> str \<Rightarrow> input_item" where
  "append_text_to_prompt item extra =
     (if extra = [] then item
      else
        let segments = (\<lambda>m. m\<lparr>qm_combined_texts := Some (case qm_combined_texts m of
                 Some segs \<Rightarrow> segs @ [extra] | None \<Rightarrow> [qm_text m, extra])\<rparr>);
            blocks = append_to_last_text extra (ii_prompt_blocks item);
            text_of = (\<lambda>m. m\<lparr>qm_text := queue_text_from_blocks blocks\<rparr>)
        in stamp_combined_display_texts_meta
             (item\<lparr>ii_prompt_blocks := blocks, ii_queue_meta := map_option (text_of \<circ> segments) (ii_queue_meta item)\<rparr>))"

text \<open>The merged front, the prompts merged away, and the rest.\<close>

definition combine_front_pending_inputs :: "input_item list \<Rightarrow> str list \<Rightarrow> input_item list \<times> input_item list" where
  "combine_front_pending_inputs pending skip_ids =
     (case pending of
        front # rest \<Rightarrow>
          (let n = combine_prefix_len (map combine_gate_of pending) skip_ids in
           if length pending < 2 \<or> n < 2 then (pending, [])
           else (foldl (\<lambda>f next. append_text_to_prompt f (joined_text_blocks (ii_prompt_blocks next))) front (take (n - 1) rest)
                   # drop (n - 1) rest,
                 take (n - 1) rest))
      | [] \<Rightarrow> (pending, []))"

section \<open>Broadcasts\<close>

definition wire_of :: "nat \<times> queue_entry_meta \<Rightarrow> queue_entry_wire" where
  "wire_of pm =
     \<lparr>qw_id = qm_id (snd pm), qw_version = qm_version (snd pm), qw_owner = qm_owner (snd pm),
      qw_last_editor = qm_last_editor (snd pm), qw_kind = qm_kind (snd pm), qw_text = qm_text (snd pm),
      qw_combined_texts = qm_combined_texts (snd pm), qw_position = fst pm\<rparr>"

definition build_queue_wire :: "session \<Rightarrow> queue_entry_wire list" where
  "build_queue_wire s =
     map wire_of (List.enumerate 0
       (filter (\<lambda>m. running_task s \<noteq> Some (qm_id m)) (List.map_filter ii_queue_meta (pending_inputs s))))"

record running_prompt_display =
  rd_id :: str
  rd_text :: str
  rd_kind :: str
  rd_combined_texts :: "str list option"

definition running_display_from_item :: "input_item \<Rightarrow> running_prompt_display" where
  "running_display_from_item item =
     \<lparr>rd_id = ii_prompt_id item,
      rd_text = (case ii_queue_meta item of Some m \<Rightarrow> qm_text m | None \<Rightarrow> queue_text_from_blocks (ii_prompt_blocks item)),
      rd_kind = (case ii_queue_meta item of Some m \<Rightarrow> qm_kind m | None \<Rightarrow> lit ''prompt''),
      rd_combined_texts = (case Option.bind (ii_queue_meta item) qm_combined_texts of
          Some v \<Rightarrow> if length v \<ge> 2 then Some v else None | None \<Rightarrow> None)\<rparr>"

definition renumber :: "queue_entry_wire list \<Rightarrow> queue_entry_wire list" where
  "renumber es = map (\<lambda>(i, e). e\<lparr>qw_position := i\<rparr>) (List.enumerate 0 es)"

definition broadcast_queue_changed_inner :: "running_prompt_display option \<Rightarrow> session \<Rightarrow> session" where
  "broadcast_queue_changed_inner running s =
     (let entries = (case running of
             Some r \<Rightarrow> renumber (filter (\<lambda>e. qw_id e \<noteq> rd_id r) (build_queue_wire s))
           | None \<Rightarrow> build_queue_wire s)
      in s\<lparr>broadcasts := broadcasts s @
          [\<lparr>qc_entries = entries, qc_running_prompt_id = map_option rd_id running,
            qc_running_text = map_option rd_text running, qc_running_kind = map_option rd_kind running,
            qc_running_combined_texts = Option.bind running rd_combined_texts\<rparr>]\<rparr>)"

definition broadcast_queue_changed :: "session \<Rightarrow> session" where
  "broadcast_queue_changed s =
     broadcast_queue_changed_inner
       (Option.bind (running_task s) (\<lambda>pid.
          map_option running_display_from_item (find (\<lambda>i. ii_prompt_id i = pid) (pending_inputs s)))) s"

section \<open>Sweeps and notifications\<close>

definition sweep_pending_inputs :: "(input_item \<Rightarrow> bool) \<Rightarrow> session \<Rightarrow> input_item list \<times> session" where
  "sweep_pending_inputs drop_if s =
     (let (dropped, kept) = partition (\<lambda>i. running_task s \<noteq> Some (ii_prompt_id i) \<and> drop_if i) (pending_inputs s)
      in (dropped, s\<lparr>pending_inputs := kept\<rparr>))"

text \<open>The swept inputs go out of scope: their channels close, and their reservations are released.\<close>

definition drop_swept :: "(input_item \<Rightarrow> bool) \<Rightarrow> session \<Rightarrow> session" where
  "drop_swept drop_if s =
     (let (dropped, s) = sweep_pending_inputs drop_if s in respond SenderDropped dropped (release dropped s))"

definition is_session_idle_for_injection :: "session \<Rightarrow> bool" where
  "is_session_idle_for_injection s \<longleftrightarrow>
     running_task s = None \<and> pending_inputs s = [] \<and> \<not> notifications_suppressed s"

definition state_is_busy :: "session \<Rightarrow> bool" where
  "state_is_busy s \<longleftrightarrow> running_task s \<noteq> None \<or> pending_inputs s \<noteq> []"

definition MAX_PENDING_NOTIFICATIONS :: nat where "MAX_PENDING_NOTIFICATIONS = 50"

definition push_pending_notification :: "pending_notification \<Rightarrow> session \<Rightarrow> session" where
  "push_pending_notification n s =
     (let ns = pending_notifications s @ [n] in
      s\<lparr>pending_notifications := drop (length ns - MAX_PENDING_NOTIFICATIONS) ns\<rparr>)"

definition push_task_wake_fallback :: "task_wake_fallback \<Rightarrow> session \<Rightarrow> session" where
  "push_task_wake_fallback f s =
     push_pending_notification
       \<lparr>pn_prompt_blocks = tw_prompt_blocks f, pn_priority = LaterPriority, pn_source = tw_source f\<rparr> s"

definition sweep_monitor_buffer_into_pending :: "str \<Rightarrow> session \<Rightarrow> session" where
  "sweep_monitor_buffer_into_pending session_id s =
     (case monitor_event_buffer s of
        None \<Rightarrow> s
      | Some buffer \<Rightarrow>
          let (events, rest) = drain_owned (Some session_id) buffer in
          foldl (\<lambda>s e. push_pending_notification
              \<lparr>pn_prompt_blocks = [TextBlock (me_event_text e) None], pn_priority = NextPriority,
               pn_source = MonitorEventSource (me_task_id e)\<rparr> s)
            (s\<lparr>monitor_event_buffer := Some rest\<rparr>) events)"

definition drop_pending_items_for_consumed_completions :: "str list \<Rightarrow> session \<Rightarrow> session" where
  "drop_pending_items_for_consumed_completions consumed_ids s =
     (if consumed_ids = [] then s
      else let s = drop_swept (\<lambda>i. case completion_id (ii_origin i) of Some c \<Rightarrow> c \<in> set consumed_ids | None \<Rightarrow> False) s
        in s\<lparr>pending_notifications := filter (\<lambda>n. source_task_id (pn_source n) \<notin> set consumed_ids) (pending_notifications s)\<rparr>)"

definition drop_pending_synthetic_items :: "session \<Rightarrow> session" where
  "drop_pending_synthetic_items s =
     (let (dropped, kept) = partition (\<lambda>i. is_synthetic (ii_origin i)) (pending_inputs s)
      in respond SenderDropped dropped (release dropped
           (s\<lparr>pending_inputs := kept, pending_notifications := []\<rparr>)))"

section \<open>Queueing a prompt\<close>

record session_prompt =
  pr_prompt_id :: str
  pr_prompt_blocks :: "content_block list"
  pr_client_identifier :: "str option"
  pr_send_now :: bool
  pr_task_wake_fallback :: "task_wake_fallback option"
  pr_tool_overrides_update :: "json option"
  pr_respond_to :: nat

definition front_is_running :: "session \<Rightarrow> bool" where
  "front_is_running s =
     (case (pending_inputs s, running_task s) of
        (front # _, Some running) \<Rightarrow> ii_prompt_id front = running
      | _ \<Rightarrow> False)"

definition insert_behind :: "nat \<Rightarrow> input_item \<Rightarrow> session \<Rightarrow> session" where
  "insert_behind k item s = s\<lparr>pending_inputs := take k (pending_inputs s) @ item # drop k (pending_inputs s)\<rparr>"

definition send_now_position :: "session \<Rightarrow> nat" where
  "send_now_position s =
     (let k = (if front_is_running s then 1 else 0) in
      k + length (takeWhile ii_send_now (drop k (pending_inputs s))))"

definition preempt_synthetic :: "session \<Rightarrow> session" where
  "preempt_synthetic s =
     (if list_ex (\<lambda>i. completion_id (ii_origin i) \<noteq> None \<and> running_task s \<noteq> Some (ii_prompt_id i)) (pending_inputs s)
      then drop_swept (\<lambda>i. is_synthetic (ii_origin i)) s else s)"

definition queue_meta_of :: "session_prompt \<Rightarrow> queue_entry_meta" where
  "queue_meta_of r =
     \<lparr>qm_id = pr_prompt_id r, qm_version = 0, qm_owner = pr_client_identifier r, qm_last_editor = None,
      qm_kind = (if extract_bash_command (pr_prompt_blocks r) \<noteq> None then lit ''bash'' else lit ''prompt''),
      qm_text = queue_text_from_blocks (pr_prompt_blocks r), qm_combined_texts = None\<rparr>"

definition input_of :: "session_prompt \<Rightarrow> input_item" where
  "input_of r =
     (let origin = from_prompt_id (pr_prompt_id r) in
      \<lparr>ii_prompt_id = pr_prompt_id r, ii_prompt_blocks = pr_prompt_blocks r, ii_origin = origin,
       ii_task_wake_fallback = pr_task_wake_fallback r, ii_tool_overrides_update = pr_tool_overrides_update r,
       ii_respond_to = pr_respond_to r,
       ii_queue_meta = (if is_synthetic origin then None else Some (queue_meta_of r)), ii_send_now = False\<rparr>)"

text \<open>Before the insertion: a reported subagent, and the synthetic prompts a user prompt preempts.\<close>

definition make_room :: "session_prompt \<Rightarrow> session \<Rightarrow> session" where
  "make_room r s =
     (let origin = from_prompt_id (pr_prompt_id r);
          s1 = (case origin of SubagentCompleted i \<Rightarrow> s\<lparr>reported := reported s @ [i]\<rparr> | _ \<Rightarrow> s)
      in if is_synthetic origin then s1 else preempt_synthetic s1)"

definition sends_now :: "bool \<Rightarrow> session_prompt \<Rightarrow> session \<Rightarrow> bool" where
  "sends_now blocked_in_wait r s =
     (let held_user_queue = list_ex (\<lambda>q. \<not> is_synthetic (ii_origin q) \<and> Some (ii_prompt_id q) \<noteq> running_task s) (pending_inputs s);
          auto_send_now = (running_task s \<noteq> None \<and> blocked_in_wait \<and> \<not> held_user_queue)
      in \<not> is_synthetic (from_prompt_id (pr_prompt_id r)) \<and> (pr_send_now r \<or> auto_send_now))"

definition enqueue :: "bool \<Rightarrow> input_item \<Rightarrow> session \<Rightarrow> session" where
  "enqueue send_now item s =
     (if send_now then insert_behind (send_now_position s) (item\<lparr>ii_send_now := True\<rparr>) s
      else s\<lparr>pending_inputs := pending_inputs s @ [item]\<rparr>)"

definition queue_input :: "bool \<Rightarrow> bool \<Rightarrow> session_prompt \<Rightarrow> session \<Rightarrow> session \<times> bool" where
  "queue_input goal_active blocked_in_wait r s =
     (let s1 = make_room r s;
          send_now = sends_now blocked_in_wait r s1
      in (broadcast_queue_changed (enqueue send_now (input_of r) s1),
          send_now \<and> running_task s1 \<noteq> None \<and> \<not> goal_active))"

section \<open>Edits of the queue by clients\<close>

definition row_matches :: "str \<Rightarrow> nat \<Rightarrow> str option \<Rightarrow> input_item \<Rightarrow> bool" where
  "row_matches i expected_version owner item =
     (case ii_queue_meta item of
        Some m \<Rightarrow> qm_id m = i \<and> qm_version m = expected_version \<and>
          (case owner of Some c \<Rightarrow> qm_owner m = Some c | None \<Rightarrow> True)
      | None \<Rightarrow> False)"

fun remove_first :: "('a \<Rightarrow> bool) \<Rightarrow> 'a list \<Rightarrow> ('a \<times> 'a list) option" where
  "remove_first P [] = None"
| "remove_first P (x # xs) =
     (if P x then Some (x, xs) else map_option (\<lambda>(y, ys). (y, x # ys)) (remove_first P xs))"

fun map_first :: "('a \<Rightarrow> bool) \<Rightarrow> ('a \<Rightarrow> 'a) \<Rightarrow> 'a list \<Rightarrow> 'a list" where
  "map_first P f [] = []"
| "map_first P f (x # xs) = (if P x then f x # xs else x # map_first P f xs)"

definition handle_remove_queued_prompt :: "str \<Rightarrow> nat \<Rightarrow> str option \<Rightarrow> session \<Rightarrow> session" where
  "handle_remove_queued_prompt i expected_version owner s =
     broadcast_queue_changed
       (case if running_task s = Some i then None
             else remove_first (row_matches i expected_version owner) (pending_inputs s) of
          Some (item, rest) \<Rightarrow> respond RemovedFromQueue [item] (s\<lparr>pending_inputs := rest\<rparr>)
        | None \<Rightarrow> s)"

definition bash_meta :: "str \<Rightarrow> meta" where
  "bash_meta command = [(lit ''bash_command'', JString command)]"

definition apply_queued_prompt_edit :: "str \<Rightarrow> str option \<Rightarrow> input_item \<Rightarrow> input_item" where
  "apply_queued_prompt_edit new_text editor item =
     item\<lparr>ii_prompt_blocks :=
            TextBlock new_text (if extract_bash_command (ii_prompt_blocks item) \<noteq> None then Some (bash_meta new_text) else None)
              # filter is_image_block (ii_prompt_blocks item),
          ii_queue_meta := map_option (\<lambda>m. m\<lparr>qm_text := new_text, qm_combined_texts := None,
              qm_version := min (qm_version m + 1) U64_MAX, qm_last_editor := editor\<rparr>) (ii_queue_meta item)\<rparr>"

definition handle_interject_queued_prompt :: "bool \<Rightarrow> str \<Rightarrow> nat \<Rightarrow> str option \<Rightarrow> str option \<Rightarrow> session \<Rightarrow> session \<times> bool" where
  "handle_interject_queued_prompt goal_active i expected_version owner new_text s =
     (let matches = row_matches i expected_version owner;
          edit = (\<lambda>item. case new_text of
              Some t \<Rightarrow> if trim t = [] then item else apply_queued_prompt_edit t owner item
            | None \<Rightarrow> item)
      in case if running_task s = Some i then None else remove_first matches (pending_inputs s) of
           Some (item, rest) \<Rightarrow>
             (let s1 = s\<lparr>pending_inputs := rest\<rparr>;
                  s2 = insert_behind (send_now_position s1) ((edit item)\<lparr>ii_send_now := True\<rparr>) s1
              in (broadcast_queue_changed s2, running_task s \<noteq> None \<and> \<not> goal_active))
         | None \<Rightarrow>
             (broadcast_queue_changed
                (if running_task s = Some i then s
                 else s\<lparr>pending_inputs := map_first matches edit (pending_inputs s)\<rparr>), False))"

text \<open>Position of an identifier in the requested order, unnamed ones last; the sort is stable.\<close>

definition rank :: "str list \<Rightarrow> input_item \<Rightarrow> nat" where
  "rank ordered_ids item =
     (case ii_queue_meta item of
        Some m \<Rightarrow> length (takeWhile (\<lambda>x. x \<noteq> qm_id m) ordered_ids)
      | None \<Rightarrow> length ordered_ids)"

definition queueable :: "session \<Rightarrow> input_item \<Rightarrow> bool" where
  "queueable s item = (case ii_queue_meta item of Some m \<Rightarrow> running_task s \<noteq> Some (qm_id m) | None \<Rightarrow> False)"

definition handle_reorder_queue :: "str list \<Rightarrow> session \<Rightarrow> session" where
  "handle_reorder_queue ordered_ids s =
     (let (queued, pinned) = partition (queueable s) (pending_inputs s)
      in broadcast_queue_changed (s\<lparr>pending_inputs := pinned @ sort_key (rank ordered_ids) queued\<rparr>))"

definition clear_keeps :: "str option \<Rightarrow> session \<Rightarrow> input_item \<Rightarrow> bool" where
  "clear_keeps owner s item =
     (case ii_queue_meta item of
        None \<Rightarrow> True
      | Some m \<Rightarrow> running_task s = Some (qm_id m) \<or> (case owner of Some c \<Rightarrow> qm_owner m \<noteq> Some c | None \<Rightarrow> False))"

definition handle_clear_queue :: "str option \<Rightarrow> session \<Rightarrow> session" where
  "handle_clear_queue owner s =
     (let (kept, cleared) = partition (clear_keeps owner s) (pending_inputs s)
      in broadcast_queue_changed (respond RemovedFromQueue cleared (s\<lparr>pending_inputs := kept\<rparr>)))"

definition has_row_id :: "str \<Rightarrow> input_item \<Rightarrow> bool" where
  "has_row_id i item = (case ii_queue_meta item of Some m \<Rightarrow> qm_id m = i | None \<Rightarrow> False)"

definition handle_edit_queued_prompt :: "str \<Rightarrow> str \<Rightarrow> str option \<Rightarrow> session \<Rightarrow> session" where
  "handle_edit_queued_prompt i new_text editor s =
     (if trim new_text = [] then s
      else if running_task s = Some i then s
      else if \<not> list_ex (has_row_id i) (pending_inputs s) then s
      else broadcast_queue_changed
        (s\<lparr>pending_inputs := map_first (has_row_id i) (apply_queued_prompt_edit new_text editor) (pending_inputs s),
           combine_edit_holds := removeAll i (combine_edit_holds s)\<rparr>))"

definition hold_combine_edit :: "str \<Rightarrow> session \<Rightarrow> session" where
  "hold_combine_edit i s = s\<lparr>combine_edit_holds := List.insert i (combine_edit_holds s)\<rparr>"

definition release_combine_edit :: "str \<Rightarrow> session \<Rightarrow> session" where
  "release_combine_edit i s = s\<lparr>combine_edit_holds := removeAll i (combine_edit_holds s)\<rparr>"

section \<open>Promotion\<close>

definition workflow_revision :: "str \<Rightarrow> (str \<times> nat) option" where
  "workflow_revision c =
     Option.bind (rsplit_once [45] c) (\<lambda>(run_id, revision). map_option (Pair run_id) (parse_uint 64 revision))"

definition stale_front :: "(str \<Rightarrow> nat \<Rightarrow> bool) \<Rightarrow> input_item \<Rightarrow> bool" where
  "stale_front is_unreported_completion item =
     (case ii_origin item of
        WorkflowCompleted c \<Rightarrow>
          (case workflow_revision c of
             Some (run_id, revision) \<Rightarrow> \<not> is_unreported_completion run_id revision
           | None \<Rightarrow> True)
      | _ \<Rightarrow> False)"

definition gc_holds :: "session \<Rightarrow> session" where
  "gc_holds s = s\<lparr>combine_edit_holds := filter (\<lambda>i. i \<in> ii_prompt_id ` set (pending_inputs s)) (combine_edit_holds s)\<rparr>"

definition start_front :: "session \<Rightarrow> session" where
  "start_front s =
     (case pending_inputs s of
        [] \<Rightarrow> s
      | front # rest \<Rightarrow>
          (let s1 = s\<lparr>pending_inputs := front\<lparr>ii_tool_overrides_update := None\<rparr> # rest,
                notifications_suppressed := (notifications_suppressed s \<and> ii_origin front \<noteq> User),
                rewindable := True\<rparr>
           in (broadcast_queue_changed_inner (Some (running_display_from_item front)) s1)
                \<lparr>running_task := Some (ii_prompt_id front)\<rparr>))"

text \<open>The second locked part of \<open>maybe_start_running_task\<close>, and the whole.\<close>

definition promote_front :: "bool \<Rightarrow> (str \<Rightarrow> nat \<Rightarrow> bool) \<Rightarrow> session \<Rightarrow> session" where
  "promote_front combine_queued is_unreported_completion s =
     (if running_task s \<noteq> None \<or> pending_inputs s = [] then s
      else
        let stale = takeWhile (stale_front is_unreported_completion) (pending_inputs s);
            s1 = respond RemovedFromQueue stale
                (s\<lparr>pending_inputs := dropWhile (stale_front is_unreported_completion) (pending_inputs s)\<rparr>);
            s2 = gc_holds s1;
            (merged, away) = (if combine_queued then combine_front_pending_inputs (pending_inputs s2) (combine_edit_holds s2)
                else (pending_inputs s2, []));
            s3 = respond RemovedFromQueue away (s2\<lparr>pending_inputs := merged\<rparr>)
        in start_front s3)"

definition maybe_start_running_task :: "bool \<Rightarrow> (str \<Rightarrow> nat \<Rightarrow> bool) \<Rightarrow> session \<Rightarrow> session" where
  "maybe_start_running_task combine_queued_prompts is_unreported_completion s =
     (if running_task s \<noteq> None \<or> pending_inputs s = [] then s
      else promote_front (length (pending_inputs s) \<ge> 2 \<and> combine_queued_prompts) is_unreported_completion s)"

section \<open>End of a turn\<close>

definition handle_completion :: "str \<Rightarrow> str \<Rightarrow> session \<Rightarrow> session" where
  "handle_completion prompt_id result s =
     (let owned = (case pending_inputs s of front # _ \<Rightarrow> ii_prompt_id front = prompt_id | [] \<Rightarrow> False);
          s1 = (if owned then respond (TurnResult result) [hd (pending_inputs s)] (s\<lparr>pending_inputs := tl (pending_inputs s)\<rparr>) else s);
          s2 = (if running_task s = Some prompt_id \<or> owned then s1\<lparr>running_task := None\<rparr> else s1)
      in if owned \<and> ii_queue_meta (hd (pending_inputs s)) \<noteq> None then broadcast_queue_changed s2 else s2)"

definition is_wake :: "input_item \<Rightarrow> bool" where
  "is_wake i = (case ii_origin i of TaskCompleted _ \<Rightarrow> True | WorkflowCompleted _ \<Rightarrow> True | _ \<Rightarrow> False)"

definition cancel_front :: "bool \<Rightarrow> str option \<Rightarrow> session \<Rightarrow> session" where
  "cancel_front suppress_task_wakes trigger s =
     (case pending_inputs s of
        [] \<Rightarrow> s
      | front # rest \<Rightarrow>
          (let (wakes, kept) = partition (\<lambda>i. suppress_task_wakes \<and> is_wake i) rest;
               s1 = foldl (\<lambda>s i. case ii_task_wake_fallback i of Some f \<Rightarrow> push_task_wake_fallback f s | None \<Rightarrow> s)
                 (s\<lparr>pending_inputs := kept\<rparr>) wakes
           in respond (CancelledTurn trigger) [front] (release [front] (respond RemovedFromQueue wakes s1))))"

definition cancel_everything :: "str option \<Rightarrow> session \<Rightarrow> session" where
  "cancel_everything trigger s =
     (let q = pending_inputs s in
      respond (CancelledTurn None) (tl q) (respond (CancelledTurn trigger) (take 1 q) (release q (s\<lparr>pending_inputs := []\<rparr>))))"

definition cancel_running_task :: "str \<Rightarrow> bool \<Rightarrow> bool \<Rightarrow> str option \<Rightarrow> session \<Rightarrow> session" where
  "cancel_running_task session_id kill_background_tasks rewind_if_pristine trigger s =
     (let suppress_task_wakes = (trigger = Some (lit ''ctrl_c''));
          s1 = (if suppress_task_wakes then s\<lparr>notifications_suppressed := True\<rparr> else s);
          s2 = sweep_monitor_buffer_into_pending session_id s1;
          s3 = (if kill_background_tasks then s2\<lparr>pending_notifications := []\<rparr> else s2);
          rewinds = (rewind_if_pristine \<and> rewindable s3);
          s4 = (if rewinds then s3\<lparr>notifications_suppressed := False, rewindable := False\<rparr> else s3);
          s5 = s4\<lparr>running_task := None\<rparr>
      in if rewinds \<and> pending_inputs s5 \<noteq> []
         then respond Rewound [hd (pending_inputs s5)] (s5\<lparr>pending_inputs := tl (pending_inputs s5)\<rparr>)
         else if kill_background_tasks then cancel_everything trigger s5
         else cancel_front suppress_task_wakes trigger s5)"

definition cancel_turn_for_send_now :: "str \<Rightarrow> session \<Rightarrow> session" where
  "cancel_turn_for_send_now session_id s =
     (cancel_running_task session_id False False (Some (lit ''send_now'')) (s\<lparr>pending_interjections := []\<rparr>))
       \<lparr>notifications_suppressed := False\<rparr>"

definition close_rewind_window :: "session \<Rightarrow> session" where
  "close_rewind_window s = s\<lparr>rewindable := False\<rparr>"

section \<open>Turns the session queues itself\<close>

definition synthetic_item :: "str \<Rightarrow> prompt_origin \<Rightarrow> content_block list \<Rightarrow> nat \<Rightarrow> input_item" where
  "synthetic_item prompt_id origin blocks respond_to =
     \<lparr>ii_prompt_id = prompt_id, ii_prompt_blocks = blocks, ii_origin = origin, ii_task_wake_fallback = None,
      ii_tool_overrides_update = None, ii_respond_to = respond_to, ii_queue_meta = None, ii_send_now = False\<rparr>"

definition queue_interjection_fallback_prompt :: "str \<Rightarrow> nat \<Rightarrow> bool \<Rightarrow> str pending_interjection \<Rightarrow> session \<Rightarrow> session" where
  "queue_interjection_fallback_prompt uuid respond_to front entry s =
     (let item = (synthetic_item (lit ''interject-fallback-'' @ uuid) User
            (TextBlock (pi_text entry) None # map ImageBlock (pi_attachments entry)) respond_to)\<lparr>ii_send_now := front\<rparr>
      in if front then insert_behind (if front_is_running s then 1 else 0) item s
         else s\<lparr>pending_inputs := pending_inputs s @ [item]\<rparr>)"

definition queue_goal_summary :: "str \<Rightarrow> nat \<Rightarrow> str \<Rightarrow> session \<Rightarrow> session" where
  "queue_goal_summary uuid respond_to prompt_text s =
     s\<lparr>pending_inputs := pending_inputs s @
        [synthetic_item (lit ''goal-summary-'' @ uuid) GoalSummary [TextBlock prompt_text None] respond_to]\<rparr>"

definition maybe_queue_goal_continuation :: "str \<Rightarrow> nat \<Rightarrow> str \<Rightarrow> session \<Rightarrow> session" where
  "maybe_queue_goal_continuation uuid respond_to directive s =
     (if list_ex (\<lambda>i. ii_origin i \<in> {GoalSummary, GoalClassifierNudge}) (pending_inputs s) then s
      else queue_goal_summary uuid respond_to directive s)"

definition WORKFLOW_STOPPED :: str where
  "WORKFLOW_STOPPED = lit (''A background workflow stopped. Review the workflow completion reminder, '' @
     ''report the result to the user, and take any appropriate next action.'')"

definition workflow_completion_turn :: "bool \<Rightarrow> (str \<Rightarrow> nat \<Rightarrow> bool) \<Rightarrow> nat \<Rightarrow> str \<Rightarrow> nat \<Rightarrow> session \<Rightarrow> session" where
  "workflow_completion_turn wake_suppressed is_unreported_completion respond_to run_id revision s =
     (if notifications_suppressed s \<or> wake_suppressed \<or> \<not> is_unreported_completion run_id revision then s
      else if list_ex (\<lambda>i. case ii_origin i of WorkflowCompleted _ \<Rightarrow> True | _ \<Rightarrow> False) (pending_inputs s) then s
      else
        let c = run_id @ [45] @ show_nat revision in
        s\<lparr>pending_inputs := pending_inputs s @
          [synthetic_item (lit ''workflow-completed-'' @ c) (WorkflowCompleted c) [TextBlock WORKFLOW_STOPPED None] respond_to]\<rparr>)"

definition split_goal_suppressed :: "bool \<Rightarrow> str list \<Rightarrow> pending_notification list \<Rightarrow> pending_notification list" where
  "split_goal_suppressed suppress_all goal_turn_task_ids ns =
     (if suppress_all then [] else filter (\<lambda>n. source_task_id (pn_source n) \<notin> set goal_turn_task_ids) ns)"

fun is_monitor_event :: "notification_source \<Rightarrow> bool" where
  "is_monitor_event (MonitorEventSource _) = True"
| "is_monitor_event _ = False"

definition completed_monitors :: "pending_notification list \<Rightarrow> str list" where
  "completed_monitors ns = List.map_filter (\<lambda>n. case pn_source n of MonitorCompleted i \<Rightarrow> Some i | _ \<Rightarrow> None) ns"

definition event_of :: "pending_notification \<Rightarrow> monitor_event" where
  "event_of n =
     \<lparr>me_task_id = source_task_id (pn_source n),
      me_event_text = join [10] (List.map_filter block_text (pn_prompt_blocks n)), me_owner_session_id = None\<rparr>"

text \<open>
  The sections of a batch: one for all events of monitors still running, where the first of them stands, and
  one for each completion.
\<close>

fun sections :: "content_block list \<Rightarrow> bool \<Rightarrow> pending_notification list \<Rightarrow> content_block list list" where
  "sections batch seen [] = []"
| "sections batch seen (n # ns) =
     (if is_monitor_event (pn_source n)
      then (if seen then sections batch True ns else batch # sections batch True ns)
      else pn_prompt_blocks n # sections batch seen ns)"

fun separated :: "content_block list list \<Rightarrow> content_block list" where
  "separated [] = []"
| "separated [s] = s"
| "separated (s # t # rest) = s @ TextBlock (lit ''---'') None # separated (t # rest)"

definition notification_blocks :: "pending_notification list \<Rightarrow> str \<Rightarrow> content_block list" where
  "notification_blocks ns task_output_tool_name =
     (let live = filter (\<lambda>n. \<not> (is_monitor_event (pn_source n) \<and> source_task_id (pn_source n) \<in> set (completed_monitors ns))) ns;
          events = map event_of (filter (\<lambda>n. is_monitor_event (pn_source n)) live);
          batch = (case format_monitor_events events (Some task_output_tool_name) of
              Some b \<Rightarrow> [TextBlock b None] | None \<Rightarrow> [])
      in separated (sections batch False live))"

definition maybe_drain_notifications ::
  "str \<Rightarrow> bool \<Rightarrow> str list \<Rightarrow> str \<Rightarrow> str \<Rightarrow> nat \<Rightarrow> bool \<Rightarrow> (str \<Rightarrow> nat \<Rightarrow> bool) \<Rightarrow> session \<Rightarrow> session" where
  "maybe_drain_notifications session_id suppress_all goal_turn_task_ids tool_name uuid respond_to combine unreported s =
     (if \<not> is_session_idle_for_injection s then s
      else
        let s1 = sweep_monitor_buffer_into_pending session_id s;
            ns = pending_notifications s1;
            to_surface = split_goal_suppressed suppress_all goal_turn_task_ids ns;
            s2 = s1\<lparr>pending_notifications := [], reported := reported s1 @ map (\<lambda>n. source_task_id (pn_source n)) ns\<rparr>
        in if ns = [] then s1
           else if to_surface = [] then s2
           else maybe_start_running_task combine unreported
             (s2\<lparr>pending_inputs := pending_inputs s2 @
                [synthetic_item (lit ''notifications-'' @ uuid) NotificationDrain
                   (notification_blocks to_surface tool_name) respond_to]\<rparr>))"

section \<open>Arms of the session loop\<close>

definition admit_task_completion_wake :: "bool \<Rightarrow> bool \<Rightarrow> prompt_origin \<Rightarrow> task_wake_fallback \<Rightarrow> session \<Rightarrow>
    session \<times> task_wake_fallback option" where
  "admit_task_completion_wake gate_suppressed listening origin fallback s =
     (case origin of
        TaskCompleted _ \<Rightarrow>
          if gate_suppressed \<or> notifications_suppressed s \<or> \<not> listening
          then (push_task_wake_fallback fallback s, None)
          else (s, Some fallback)
      | _ \<Rightarrow> (s, if listening then Some fallback else None))"

text \<open>An admission is the state of the wake gate, whether the sender still listens, and the fallback it carries.\<close>

definition admit_prompt :: "(bool \<times> bool \<times> task_wake_fallback) option \<Rightarrow> session_prompt \<Rightarrow> session \<Rightarrow> session \<times> session_prompt option" where
  "admit_prompt admission r s =
     (case admission of
        None \<Rightarrow> (s, Some (r\<lparr>pr_task_wake_fallback := None\<rparr>))
      | Some (gate_suppressed, listening, fallback) \<Rightarrow>
          (case admit_task_completion_wake gate_suppressed listening (from_prompt_id (pr_prompt_id r)) fallback s of
             (s, None) \<Rightarrow> (s\<lparr>sent_replies := sent_replies s @ [(pr_respond_to r, RemovedFromQueue)]\<rparr>, None)
           | (s, Some f) \<Rightarrow> (s, Some (r\<lparr>pr_task_wake_fallback := Some f\<rparr>))))"

definition user_intake :: "session_prompt \<Rightarrow> session \<Rightarrow> session" where
  "user_intake r s =
     (if is_synthetic (from_prompt_id (pr_prompt_id r)) then s else s\<lparr>notifications_suppressed := False\<rparr>)"

definition prompt_command :: "str \<Rightarrow> bool \<Rightarrow> bool \<Rightarrow> bool \<Rightarrow> (str \<Rightarrow> nat \<Rightarrow> bool) \<Rightarrow>
    (bool \<times> bool \<times> task_wake_fallback) option \<Rightarrow> session_prompt \<Rightarrow> session \<Rightarrow> session" where
  "prompt_command session_id goal_active blocked_in_wait combine unreported admission r s =
     (case admit_prompt admission r s of
        (s1, None) \<Rightarrow> s1
      | (s1, Some r) \<Rightarrow>
          (let (s2, cancel) = queue_input goal_active blocked_in_wait r (user_intake r s1);
               s3 = (if cancel then cancel_turn_for_send_now session_id s2 else s2)
           in maybe_start_running_task combine unreported s3))"

definition interject_queued_command ::
  "str \<Rightarrow> bool \<Rightarrow> bool \<Rightarrow> (str \<Rightarrow> nat \<Rightarrow> bool) \<Rightarrow> str \<Rightarrow> nat \<Rightarrow> str option \<Rightarrow> str option \<Rightarrow> session \<Rightarrow> session" where
  "interject_queued_command session_id goal_active combine unreported i expected_version owner new_text s =
     (let (s1, cancel) = handle_interject_queued_prompt goal_active i expected_version owner new_text s;
          s2 = (if cancel then cancel_turn_for_send_now session_id s1 else s1)
      in maybe_start_running_task combine unreported s2)"

text \<open>A \<open>Next\<close> event during a turn goes to the shared buffer; in a session without one it is dropped.\<close>

definition inject_notification :: "bool \<Rightarrow> str \<Rightarrow> pending_notification \<Rightarrow> session \<Rightarrow> session" where
  "inject_notification is_turn_active session_id n s =
     (if is_turn_active \<and> pn_priority n = NextPriority
      then s\<lparr>monitor_event_buffer := map_option (push_capped
        ((event_of n)\<lparr>me_owner_session_id := Some session_id\<rparr>) 50) (monitor_event_buffer s)\<rparr>
      else push_pending_notification n s)"

definition interject ::
  "bool \<Rightarrow> str \<Rightarrow> nat \<Rightarrow> bool \<Rightarrow> (str \<Rightarrow> nat \<Rightarrow> bool) \<Rightarrow> str pending_interjection \<Rightarrow> session \<Rightarrow> session" where
  "interject turn_running uuid respond_to combine unreported entry s =
     (if turn_running then s\<lparr>pending_interjections := push entry (pending_interjections s)\<rparr>
      else maybe_start_running_task combine unreported (queue_interjection_fallback_prompt uuid respond_to True entry s))"

text \<open>Each stranded entry gets an identifier and a channel of its own.\<close>

definition flush_stranded_interjections :: "(str \<times> nat) list \<Rightarrow> session \<Rightarrow> session" where
  "flush_stranded_interjections fresh s =
     foldl (\<lambda>s (entry, uuid, respond_to). queue_interjection_fallback_prompt uuid respond_to True entry s)
       (s\<lparr>pending_interjections := []\<rparr>) (rev (zip (pending_interjections s) fresh))"

text \<open>
  What a user turn takes over from the deferred notifications: completions, and the events of the tasks that
  completed.  The reminder and the completions are returned.
\<close>

definition completion_task :: "pending_notification \<Rightarrow> str option" where
  "completion_task n = (case pn_source n of MonitorEventSource _ \<Rightarrow> None | MonitorCompleted i \<Rightarrow> Some i | BashTaskCompleted i \<Rightarrow> Some i)"

definition consume_deferred_completions :: "str \<Rightarrow> str \<Rightarrow> session \<Rightarrow> session \<times> str option \<times> str list" where
  "consume_deferred_completions session_id tool_name s =
     (let s1 = sweep_monitor_buffer_into_pending session_id s;
          ids = sort (remdups (List.map_filter completion_task (pending_notifications s1)));
          consumes = (\<lambda>n. \<not> is_monitor_event (pn_source n) \<or> source_task_id (pn_source n) \<in> set ids);
          (deferred, retained) = partition consumes (pending_notifications s1);
          completion_text = join [10] (List.map_filter block_text (notification_blocks deferred tool_name))
      in (s1\<lparr>pending_notifications := retained, reported := reported s1 @ ids\<rparr>,
          if completion_text = [] then None else Some completion_text, ids))"

definition consume_deferred_completions_for_user_turn :: "str \<Rightarrow> str \<Rightarrow> session \<Rightarrow> session \<times> str option" where
  "consume_deferred_completions_for_user_turn session_id tool_name s =
     (let (s1, reminder, consumed) = consume_deferred_completions session_id tool_name s
      in (s1\<lparr>released := released s1 @ consumed\<rparr>, reminder))"

text \<open>
  The arms of the loop as a whole.  What the idle drain reads of the session is gathered in a record: the
  goal gate, the tasks of the goal turn, the tool name, the new identifier and channel.
\<close>

record drain_env =
  de_session_id :: str
  de_suppress_all :: bool
  de_goal_turn_task_ids :: "str list"
  de_tool_name :: str
  de_uuid :: str
  de_respond_to :: nat

definition drain_idle :: "drain_env \<Rightarrow> bool \<Rightarrow> (str \<Rightarrow> nat \<Rightarrow> bool) \<Rightarrow> session \<Rightarrow> session" where
  "drain_idle e combine unreported s =
     maybe_drain_notifications (de_session_id e) (de_suppress_all e) (de_goal_turn_task_ids e) (de_tool_name e)
       (de_uuid e) (de_respond_to e) combine unreported s"

definition goal_summary_command :: "str \<Rightarrow> nat \<Rightarrow> str \<Rightarrow> bool \<Rightarrow> (str \<Rightarrow> nat \<Rightarrow> bool) \<Rightarrow> session \<Rightarrow> session" where
  "goal_summary_command uuid respond_to prompt_text combine unreported s =
     maybe_start_running_task combine unreported (queue_goal_summary uuid respond_to prompt_text s)"

definition workflow_completion_command ::
  "bool \<Rightarrow> nat \<Rightarrow> str \<Rightarrow> nat \<Rightarrow> bool \<Rightarrow> (str \<Rightarrow> nat \<Rightarrow> bool) \<Rightarrow> session \<Rightarrow> session" where
  "workflow_completion_command wake_suppressed respond_to run_id revision combine unreported s =
     (let t = workflow_completion_turn wake_suppressed unreported respond_to run_id revision s in
      if length (pending_inputs t) = length (pending_inputs s) then s else maybe_start_running_task combine unreported t)"

definition inject_notification_command ::
  "bool \<Rightarrow> pending_notification \<Rightarrow> drain_env \<Rightarrow> bool \<Rightarrow> (str \<Rightarrow> nat \<Rightarrow> bool) \<Rightarrow> session \<Rightarrow> session" where
  "inject_notification_command is_turn_active n e combine unreported s =
     (let t = inject_notification is_turn_active (de_session_id e) n s in
      if is_turn_active \<and> pn_priority n = NextPriority then t else drain_idle e combine unreported t)"

definition cancel_command ::
  "bool \<Rightarrow> bool \<Rightarrow> str option \<Rightarrow> drain_env \<Rightarrow> bool \<Rightarrow> (str \<Rightarrow> nat \<Rightarrow> bool) \<Rightarrow> session \<Rightarrow> session" where
  "cancel_command kill_background_tasks rewind_if_pristine trigger e combine unreported s =
     (let s1 = cancel_running_task (de_session_id e) kill_background_tasks rewind_if_pristine trigger
            (s\<lparr>pending_interjections := []\<rparr>);
          s2 = maybe_start_running_task combine unreported s1
      in if trigger = Some (lit ''ctrl_c'') then s2 else drain_idle e combine unreported s2)"

text \<open>The goal continuation a turn end may queue is given: an identifier, a channel and the directive.\<close>

definition completion_command ::
  "str \<Rightarrow> str \<Rightarrow> (str \<times> nat \<times> str) option \<Rightarrow> (str \<times> nat) list \<Rightarrow> drain_env \<Rightarrow> bool \<Rightarrow> (str \<Rightarrow> nat \<Rightarrow> bool) \<Rightarrow> session \<Rightarrow> session" where
  "completion_command prompt_id result continuation fresh e combine unreported s =
     (let s1 = sweep_monitor_buffer_into_pending (de_session_id e) (handle_completion prompt_id result s);
          s2 = (case continuation of
              Some (uuid, respond_to, directive) \<Rightarrow> maybe_queue_goal_continuation uuid respond_to directive s1
            | None \<Rightarrow> s1);
          s3 = flush_stranded_interjections fresh s2
      in drain_idle e combine unreported (maybe_start_running_task combine unreported s3))"

end
