(* ===== verification/Prompt_Queue_Props.thy ===== *)
theory Prompt_Queue_Props
  imports Prompt_Queue "HOL-Library.Multiset"
begin

text \<open>
  The prompt queue is sound: in every reachable state the running turn is the front of the queue and no
  operation of a client can remove or displace it; every reply channel is answered exactly once; a send-now
  prompt runs next; reordering permutes; merging keeps the texts in order.  A scheduled prompt can lose its
  answer (finding).
\<close>

section \<open>Fields the helpers leave alone\<close>

lemma reply_fields [simp]:
  "running_task (respond r is s) = running_task s" "pending_inputs (respond r is s) = pending_inputs s"
  "pending_notifications (respond r is s) = pending_notifications s"
  "combine_edit_holds (respond r is s) = combine_edit_holds s"
  "sent_replies (respond r is s) = sent_replies s @ map (\<lambda>i. (ii_respond_to i, r)) is"
  by (simp_all add: respond_def)

lemma release_fields [simp]:
  "running_task (release is s) = running_task s" "pending_inputs (release is s) = pending_inputs s"
  "pending_notifications (release is s) = pending_notifications s" "sent_replies (release is s) = sent_replies s"
  by (simp_all add: release_def)

lemma broadcast_inner_fields [simp]:
  "running_task (broadcast_queue_changed_inner d s) = running_task s"
  "pending_inputs (broadcast_queue_changed_inner d s) = pending_inputs s"
  "pending_notifications (broadcast_queue_changed_inner d s) = pending_notifications s"
  "sent_replies (broadcast_queue_changed_inner d s) = sent_replies s"
  by (simp_all add: broadcast_queue_changed_inner_def Let_def)

lemma broadcast_fields [simp]:
  "running_task (broadcast_queue_changed s) = running_task s"
  "pending_inputs (broadcast_queue_changed s) = pending_inputs s"
  "pending_notifications (broadcast_queue_changed s) = pending_notifications s"
  "sent_replies (broadcast_queue_changed s) = sent_replies s"
  by (simp_all add: broadcast_queue_changed_def)

lemma push_notification_fields [simp]:
  "running_task (push_pending_notification n s) = running_task s"
  "pending_inputs (push_pending_notification n s) = pending_inputs s"
  "sent_replies (push_pending_notification n s) = sent_replies s"
  by (simp_all add: push_pending_notification_def Let_def)

lemma push_fallback_fields [simp]:
  "running_task (push_task_wake_fallback f s) = running_task s"
  "pending_inputs (push_task_wake_fallback f s) = pending_inputs s"
  "sent_replies (push_task_wake_fallback f s) = sent_replies s"
  by (simp_all add: push_task_wake_fallback_def)

lemma push_notification_bound [simp]:
  "length (pending_notifications (push_pending_notification n s)) \<le> MAX_PENDING_NOTIFICATIONS"
  by (simp add: push_pending_notification_def Let_def)

lemma push_fallback_bound [simp]:
  "length (pending_notifications (push_task_wake_fallback f s)) \<le> MAX_PENDING_NOTIFICATIONS"
  by (simp add: push_task_wake_fallback_def)

lemma foldl_keeps: "P s \<Longrightarrow> (\<And>s x. x \<in> set xs \<Longrightarrow> P s \<Longrightarrow> P (f s x)) \<Longrightarrow> P (foldl f s xs)"
  by (induction xs arbitrary: s) auto

lemma sweep_monitor_fields [simp]:
  "running_task (sweep_monitor_buffer_into_pending i s) = running_task s"
  "pending_inputs (sweep_monitor_buffer_into_pending i s) = pending_inputs s"
  "sent_replies (sweep_monitor_buffer_into_pending i s) = sent_replies s"
  unfolding sweep_monitor_buffer_into_pending_def Let_def case_prod_unfold
  by (cases "monitor_event_buffer s"; simp; rule foldl_keeps; simp)+

lemma sweep_monitor_bound:
  "length (pending_notifications s) \<le> MAX_PENDING_NOTIFICATIONS \<Longrightarrow>
   length (pending_notifications (sweep_monitor_buffer_into_pending i s)) \<le> MAX_PENDING_NOTIFICATIONS"
  unfolding sweep_monitor_buffer_into_pending_def Let_def case_prod_unfold
  by (cases "monitor_event_buffer s"; simp; rule foldl_keeps; simp)

section \<open>Well-formed queues\<close>

definition item_ok :: "input_item \<Rightarrow> bool" where
  "item_ok i = (case ii_queue_meta i of Some m \<Rightarrow> qm_id m = ii_prompt_id i \<and> ii_origin i = User | None \<Rightarrow> True)"

definition front_runs :: "str option \<Rightarrow> input_item list \<Rightarrow> bool" where
  "front_runs run q = (case run of None \<Rightarrow> True | Some p \<Rightarrow> q \<noteq> [] \<and> ii_prompt_id (hd q) = p)"

definition queue_ok :: "str option \<Rightarrow> input_item list \<Rightarrow> bool" where
  "queue_ok run q \<longleftrightarrow> list_all item_ok q \<and> front_runs run q"

definition session_ok :: "session \<Rightarrow> bool" where
  "session_ok s \<longleftrightarrow> queue_ok (running_task s) (pending_inputs s) \<and>
     length (pending_notifications s) \<le> MAX_PENDING_NOTIFICATIONS"

lemma item_ok_updates [simp]:
  "item_ok (i\<lparr>ii_send_now := b\<rparr>) = item_ok i" "item_ok (i\<lparr>ii_tool_overrides_update := u\<rparr>) = item_ok i"
  by (simp_all add: item_ok_def split: option.splits)

lemma queue_ok_idle: "queue_ok run q \<Longrightarrow> queue_ok None q"
  by (simp add: queue_ok_def front_runs_def)

lemma queue_ok_tl: "queue_ok run q \<Longrightarrow> queue_ok None (tl q)"
  by (cases q) (simp_all add: queue_ok_def front_runs_def)

lemma queue_ok_drop: "queue_ok None q \<Longrightarrow> queue_ok None (drop n q)"
  by (simp add: queue_ok_def front_runs_def flip: drop_map)
    (metis append_take_drop_id list_all_append)

lemma queue_ok_filter:
  assumes "queue_ok run q" "\<And>i. i \<in> set q \<Longrightarrow> run = Some (ii_prompt_id i) \<Longrightarrow> P i"
  shows "queue_ok run (filter P q)"
proof -
  have "front_runs run (filter P q)"
    using assms by (cases q) (auto simp: queue_ok_def front_runs_def split: option.splits)
  then show ?thesis
    using assms(1) by (auto simp: queue_ok_def list_all_iff)
qed

lemma queue_ok_between:
  assumes "queue_ok run (a @ b)" "item_ok i" "run \<noteq> None \<Longrightarrow> a \<noteq> []"
  shows "queue_ok run (a @ i # b)"
proof -
  have "front_runs run (a @ i # b)"
    using assms(1,3) by (auto simp: queue_ok_def front_runs_def split: option.splits)
  then show ?thesis
    using assms(1,2) by (auto simp: queue_ok_def)
qed

lemma queue_ok_insert:
  assumes "queue_ok run q" "item_ok i" "run \<noteq> None \<Longrightarrow> 0 < k"
  shows "queue_ok run (take k q @ i # drop k q)"
proof (rule queue_ok_between)
  show "run \<noteq> None \<Longrightarrow> take k q \<noteq> []"
    using assms(1,3) by (auto simp: queue_ok_def front_runs_def)
qed (use assms in simp_all)

lemma queue_ok_snoc:
  assumes "queue_ok run q" "item_ok i"
  shows "queue_ok run (q @ [i])"
  using assms by (cases q) (auto simp: queue_ok_def front_runs_def split: option.splits)

lemma queue_ok_map:
  assumes "queue_ok run q" "map ii_prompt_id q' = map ii_prompt_id q" "list_all item_ok q'"
  shows "queue_ok run q'"
  using assms by (cases q; cases q') (auto simp: queue_ok_def front_runs_def split: option.splits)

lemma front_running_iff: "queue_ok (running_task s) (pending_inputs s) \<Longrightarrow> front_is_running s \<longleftrightarrow> running_task s \<noteq> None"
  by (cases "pending_inputs s"; cases "running_task s") (auto simp: front_is_running_def queue_ok_def front_runs_def)

lemma remove_first_Some: "remove_first P xs = Some (x, ys) \<Longrightarrow> \<exists>a b. xs = a @ x # b \<and> ys = a @ b \<and> P x"
proof (induction xs arbitrary: ys)
  case (Cons z zs)
  show ?case
  proof (cases "P z")
    case True
    then have "z # zs = [] @ x # zs \<and> ys = [] @ zs \<and> P x"
      using Cons.prems by simp
    then show ?thesis
      by blast
  next
    case False
    then obtain ys' where "remove_first P zs = Some (x, ys')" "ys = z # ys'"
      using Cons.prems by auto
    with Cons.IH obtain a b where "zs = a @ x # b" "ys' = a @ b" "P x"
      by blast
    then have "z # zs = (z # a) @ x # b \<and> ys = (z # a) @ b \<and> P x"
      using \<open>ys = z # ys'\<close> by simp
    then show ?thesis
      by blast
  qed
qed simp

lemma remove_first_None: "remove_first P xs = None \<longleftrightarrow> (\<forall>x \<in> set xs. \<not> P x)"
  by (induction xs) auto

lemma map_first_none: "\<forall>x \<in> set xs. \<not> P x \<Longrightarrow> map_first P f xs = xs"
  by (induction xs) auto

lemma edit_fields [simp]:
  "ii_prompt_id (apply_queued_prompt_edit t c i) = ii_prompt_id i" "ii_origin (apply_queued_prompt_edit t c i) = ii_origin i"
  "ii_respond_to (apply_queued_prompt_edit t c i) = ii_respond_to i"
  "item_ok (apply_queued_prompt_edit t c i) = item_ok i"
  by (auto simp: apply_queued_prompt_edit_def item_ok_def split: option.splits)

lemma stamp_fields [simp]:
  "ii_prompt_id (stamp_combined_display_texts_meta i) = ii_prompt_id i"
  "ii_origin (stamp_combined_display_texts_meta i) = ii_origin i"
  "ii_respond_to (stamp_combined_display_texts_meta i) = ii_respond_to i"
  "ii_queue_meta (stamp_combined_display_texts_meta i) = ii_queue_meta i"
  by (auto simp: stamp_combined_display_texts_meta_def split: option.splits)

lemma append_text_fields [simp]:
  "ii_prompt_id (append_text_to_prompt i t) = ii_prompt_id i" "ii_origin (append_text_to_prompt i t) = ii_origin i"
  "ii_respond_to (append_text_to_prompt i t) = ii_respond_to i"
  "item_ok (append_text_to_prompt i t) = item_ok i"
  by (auto simp: append_text_to_prompt_def item_ok_def Let_def split: option.splits)

lemma combine_front_cases:
  "combine_front_pending_inputs q skip = (q, []) \<or>
   (\<exists>front away rest. q = front # away @ rest \<and> combine_front_pending_inputs q skip =
      (foldl (\<lambda>f next. append_text_to_prompt f (joined_text_blocks (ii_prompt_blocks next))) front away # rest, away))"
proof (cases q)
  case (Cons front tail)
  let ?n = "combine_prefix_len (map combine_gate_of q) skip - 1"
  show ?thesis
  proof (cases "length q < 2 \<or> combine_prefix_len (map combine_gate_of q) skip < 2")
    case True
    then show ?thesis
      using Cons by (simp add: combine_front_pending_inputs_def Let_def)
  next
    case False
    have "q = front # take ?n tail @ drop ?n tail"
      using Cons by simp
    moreover have "combine_front_pending_inputs q skip =
        (foldl (\<lambda>f next. append_text_to_prompt f (joined_text_blocks (ii_prompt_blocks next))) front (take ?n tail)
           # drop ?n tail, take ?n tail)"
      using False unfolding Cons by (simp add: combine_front_pending_inputs_def Let_def)
    ultimately show ?thesis
      by blast
  qed
qed (simp add: combine_front_pending_inputs_def)

lemma foldl_append_text_fields [simp]:
  "ii_prompt_id (foldl (\<lambda>f next. append_text_to_prompt f (g next)) front xs) = ii_prompt_id front"
  "ii_origin (foldl (\<lambda>f next. append_text_to_prompt f (g next)) front xs) = ii_origin front"
  "ii_respond_to (foldl (\<lambda>f next. append_text_to_prompt f (g next)) front xs) = ii_respond_to front"
  "item_ok (foldl (\<lambda>f next. append_text_to_prompt f (g next)) front xs) = item_ok front"
  by (induction xs arbitrary: front) simp_all

lemma combine_front_ok:
  assumes "queue_ok None q"
  shows "queue_ok None (fst (combine_front_pending_inputs q skip))"
  using combine_front_cases [of q skip]
proof (elim disjE exE conjE)
  fix front away rest
  assume q: "q = front # away @ rest" and "combine_front_pending_inputs q skip =
      (foldl (\<lambda>f next. append_text_to_prompt f (joined_text_blocks (ii_prompt_blocks next))) front away # rest, away)"
  then show ?thesis
    using assms by (simp add: queue_ok_def front_runs_def)
qed (use assms in simp)

section \<open>Every operation keeps the queue well formed\<close>

lemma sweep_ok: "session_ok s \<Longrightarrow> session_ok (snd (sweep_pending_inputs P s))"
  by (auto simp: session_ok_def sweep_pending_inputs_def comp_def intro!: queue_ok_filter)

lemma drop_swept_fields [simp]:
  "running_task (drop_swept P s) = running_task s"
  "pending_inputs (drop_swept P s) = filter (\<lambda>i. \<not> (running_task s \<noteq> Some (ii_prompt_id i) \<and> P i)) (pending_inputs s)"
  "pending_notifications (drop_swept P s) = pending_notifications s"
  by (simp_all add: drop_swept_def sweep_pending_inputs_def comp_def)

lemma drop_swept_ok: "session_ok s \<Longrightarrow> session_ok (drop_swept P s)"
  by (auto simp: session_ok_def intro!: queue_ok_filter)

lemma consumed_ok: "session_ok s \<Longrightarrow> session_ok (drop_pending_items_for_consumed_completions ids s)"
  using drop_swept_ok by (auto simp: drop_pending_items_for_consumed_completions_def session_ok_def Let_def
      intro: order_trans [OF length_filter_le])

lemma preempt_fields [simp]:
  "running_task (preempt_synthetic s) = running_task s"
  "pending_notifications (preempt_synthetic s) = pending_notifications s"
  "set (pending_inputs (preempt_synthetic s)) \<subseteq> set (pending_inputs s)"
  by (auto simp: preempt_synthetic_def)

lemma preempt_ok: "session_ok s \<Longrightarrow> session_ok (preempt_synthetic s)"
  by (simp add: preempt_synthetic_def drop_swept_ok)

lemma send_now_position_behind: "session_ok s \<Longrightarrow> running_task s \<noteq> None \<Longrightarrow> 0 < send_now_position s"
  by (simp add: send_now_position_def front_running_iff session_ok_def)

lemma insert_behind_ok:
  assumes "session_ok s" "item_ok i" "running_task s \<noteq> None \<Longrightarrow> 0 < k"
  shows "session_ok (insert_behind k i s)"
  using queue_ok_insert [of "running_task s" "pending_inputs s" i k] assms
  by (simp add: session_ok_def insert_behind_def)

lemma input_of_ok: "item_ok (input_of r)" "item_ok (input_of r\<lparr>ii_send_now := True\<rparr>)"
  "ii_prompt_id (input_of r) = pr_prompt_id r" "ii_origin (input_of r) = from_prompt_id (pr_prompt_id r)"
  "ii_respond_to (input_of r) = pr_respond_to r"
  by (simp_all add: item_ok_def input_of_def queue_meta_of_def Let_def is_synthetic_def)

lemma session_ok_queue:
  "session_ok s \<Longrightarrow> queue_ok (running_task s) q \<Longrightarrow> session_ok (s\<lparr>pending_inputs := q\<rparr>)"
  by (simp add: session_ok_def)

lemma broadcast_ok [simp]: "session_ok (broadcast_queue_changed s) = session_ok s"
  "session_ok (broadcast_queue_changed_inner d s) = session_ok s" "session_ok (respond r is s) = session_ok s"
  "session_ok (release is s) = session_ok s"
  by (simp_all add: session_ok_def)

lemma make_room_fields [simp]:
  "running_task (make_room r s) = running_task s" "pending_notifications (make_room r s) = pending_notifications s"
  by (simp_all add: make_room_def Let_def split: prompt_origin.splits)

lemma make_room_subset: "set (pending_inputs (make_room r s)) \<subseteq> set (pending_inputs s)"
  using preempt_fields(3) [of s] by (auto simp: make_room_def Let_def is_synthetic_def split: prompt_origin.splits)

lemma make_room_ok: "session_ok s \<Longrightarrow> session_ok (make_room r s)"
  by (auto simp: make_room_def Let_def session_ok_def [of "s\<lparr>reported := _\<rparr>"] session_ok_def [of s]
      split: prompt_origin.splits intro!: preempt_ok)

lemma enqueue_ok:
  assumes "session_ok s" "item_ok i"
  shows "session_ok (enqueue b i s)"
proof (cases b)
  case True
  have "session_ok (insert_behind (send_now_position s) (i\<lparr>ii_send_now := True\<rparr>) s)"
    using assms by (intro insert_behind_ok send_now_position_behind) simp_all
  then show ?thesis
    using True by (simp add: enqueue_def)
next
  case False
  then show ?thesis
    using assms by (auto simp: enqueue_def session_ok_def intro: queue_ok_snoc)
qed

lemma queue_input_ok:
  assumes "session_ok s"
  shows "session_ok (fst (queue_input g b r s))"
proof -
  have "session_ok (enqueue (sends_now b r (make_room r s)) (input_of r) (make_room r s))"
    using assms make_room_subset [of r s] by (intro enqueue_ok make_room_ok) (auto simp: input_of_ok)
  then show ?thesis
    by (simp add: queue_input_def Let_def)
qed

lemma row_id: "row_matches i v c item \<Longrightarrow> item_ok item \<Longrightarrow> ii_prompt_id item = i"
  by (simp add: row_matches_def item_ok_def split: option.splits)

lemma removed_ok:
  assumes "session_ok s" "running_task s \<noteq> Some i" "remove_first (row_matches i v c) (pending_inputs s) = Some (item, rest)"
  shows "session_ok (s\<lparr>pending_inputs := rest\<rparr>)" "item_ok item"
proof -
  obtain a b where q: "pending_inputs s = a @ item # b" "rest = a @ b" and m: "row_matches i v c item"
    using remove_first_Some [OF assms(3)] by blast
  have ok: "queue_ok (running_task s) (a @ item # b)"
    using assms(1) q by (simp add: session_ok_def)
  then show item: "item_ok item"
    by (auto simp: queue_ok_def q)
  have "running_task s \<noteq> Some (ii_prompt_id item)"
    using row_id [OF m item] assms(2) by simp
  then have "queue_ok (running_task s) (a @ b)"
    using ok by (cases a) (auto simp: queue_ok_def front_runs_def split: option.splits)
  then show "session_ok (s\<lparr>pending_inputs := rest\<rparr>)"
    using assms(1) by (simp add: session_ok_def q)
qed

lemma remove_ok: "session_ok s \<Longrightarrow> session_ok (handle_remove_queued_prompt i v c s)"
  using removed_ok(1) by (auto simp: handle_remove_queued_prompt_def split: option.splits)

lemma interject_queued_ok:
  assumes "session_ok s"
  shows "session_ok (fst (handle_interject_queued_prompt g i v c t s))"
proof -
  let ?edit = "\<lambda>item. case t of Some t \<Rightarrow> if trim t = [] then item else apply_queued_prompt_edit t c item | None \<Rightarrow> item"
  have edit: "item_ok (?edit item) = item_ok item" "ii_prompt_id (?edit item) = ii_prompt_id item" for item
    by (auto split: option.splits)
  show ?thesis
  proof (cases "if running_task s = Some i then None else remove_first (row_matches i v c) (pending_inputs s)")
    case None
    then have "session_ok (if running_task s = Some i then s
        else s\<lparr>pending_inputs := map_first (row_matches i v c) ?edit (pending_inputs s)\<rparr>)"
      using assms by (auto simp: remove_first_None map_first_none split: if_splits)
    then show ?thesis
      using None by (simp add: handle_interject_queued_prompt_def Let_def)
  next
    case (Some p)
    obtain item rest where p: "p = (item, rest)"
      by (cases p)
    with Some have rem: "running_task s \<noteq> Some i" "remove_first (row_matches i v c) (pending_inputs s) = Some (item, rest)"
      by (simp_all split: if_splits)
    let ?s = "s\<lparr>pending_inputs := rest\<rparr>"
    have "session_ok (insert_behind (send_now_position ?s) ((?edit item)\<lparr>ii_send_now := True\<rparr>) ?s)"
      using removed_ok [OF assms rem] by (intro insert_behind_ok send_now_position_behind) (simp_all add: edit)
    then show ?thesis
      using Some p by (simp add: handle_interject_queued_prompt_def Let_def)
  qed
qed

lemma running_not_queueable: "item_ok i \<Longrightarrow> running_task s = Some (ii_prompt_id i) \<Longrightarrow> \<not> queueable s i"
  by (simp add: item_ok_def queueable_def split: option.splits)

lemma reorder_ok:
  assumes "session_ok s"
  shows "session_ok (handle_reorder_queue ids s)"
proof -
  let ?q = "pending_inputs s"
  let ?pinned = "filter (\<lambda>i. \<not> queueable s i) ?q" and ?sorted = "sort_key (rank ids) (filter (queueable s) ?q)"
  have ok: "queue_ok (running_task s) ?q"
    using assms by (simp add: session_ok_def)
  have "front_runs (running_task s) (?pinned @ ?sorted)"
    using ok running_not_queueable [of "hd ?q" s]
    by (cases ?q) (auto simp: queue_ok_def front_runs_def split: option.splits)
  moreover have "list_all item_ok (?pinned @ ?sorted)"
    using ok by (auto simp: queue_ok_def list_all_iff)
  ultimately have "queue_ok (running_task s) (?pinned @ ?sorted)"
    by (simp add: queue_ok_def)
  then show ?thesis
    using assms by (simp add: handle_reorder_queue_def comp_def session_ok_def)
qed

lemma clear_ok:
  assumes "session_ok s"
  shows "session_ok (handle_clear_queue c s)"
proof -
  have "queue_ok (running_task s) (filter (clear_keeps c s) (pending_inputs s))"
    using assms by (intro queue_ok_filter)
      (auto simp: session_ok_def queue_ok_def list_all_iff clear_keeps_def item_ok_def split: option.splits)
  then show ?thesis
    using assms by (simp add: handle_clear_queue_def session_ok_def)
qed

lemma map_first_items: "list_all item_ok q \<Longrightarrow> list_all item_ok (map_first P (apply_queued_prompt_edit t c) q)"
  by (induction q) simp_all

lemma map_first_ok:
  "queue_ok run q \<Longrightarrow> queue_ok run (map_first P (apply_queued_prompt_edit t c) q)"
proof (rule queue_ok_map)
  show "map ii_prompt_id (map_first P (apply_queued_prompt_edit t c) q) = map ii_prompt_id q"
    by (induction q) simp_all
  show "queue_ok run q \<Longrightarrow> list_all item_ok (map_first P (apply_queued_prompt_edit t c) q)"
    by (simp add: queue_ok_def map_first_items)
qed

lemma edit_ok: "session_ok s \<Longrightarrow> session_ok (handle_edit_queued_prompt i t c s)"
  by (auto simp: handle_edit_queued_prompt_def session_ok_def intro: map_first_ok)

lemma start_front_ok:
  assumes "session_ok s" "running_task s = None"
  shows "session_ok (start_front s)"
  using assms by (cases "pending_inputs s") (auto simp: start_front_def session_ok_def Let_def queue_ok_def front_runs_def)

lemma promote_ok:
  assumes "session_ok s"
  shows "session_ok (promote_front c f s)"
proof (cases "running_task s \<noteq> None \<or> pending_inputs s = []")
  case False
  let ?q = "dropWhile (stale_front f) (pending_inputs s)"
  have "queue_ok None (pending_inputs s)"
    using assms by (auto simp: session_ok_def intro: queue_ok_idle)
  then have "queue_ok None ?q"
    by (simp add: dropWhile_eq_drop queue_ok_drop)
  then have "queue_ok None (fst (if c then combine_front_pending_inputs ?q skip else (?q, [])))" for skip
    by (simp add: combine_front_ok)
  then have "session_ok (respond RemovedFromQueue away (s'\<lparr>pending_inputs := fst (if c then combine_front_pending_inputs ?q skip else (?q, []))\<rparr>))"
    if "running_task s' = None" "pending_notifications s' = pending_notifications s" for s' skip away
    using assms that by (simp add: session_ok_def)
  then show ?thesis
    using False unfolding promote_front_def Let_def case_prod_unfold
    by (auto simp: gc_holds_def intro!: start_front_ok)
qed (simp add: promote_front_def assms)

lemma maybe_start_ok: "session_ok s \<Longrightarrow> session_ok (maybe_start_running_task c f s)"
  by (simp add: maybe_start_running_task_def promote_ok)

lemma completion_ok:
  assumes "session_ok s"
  shows "session_ok (handle_completion p r s)"
proof -
  have "queue_ok None (tl (pending_inputs s))" "queue_ok None (pending_inputs s)"
    using assms by (auto simp: session_ok_def intro: queue_ok_idle queue_ok_tl)
  then show ?thesis
    using assms by (auto simp: handle_completion_def Let_def session_ok_def)
qed

lemma foldl_fallback_fields [simp]:
  fixes s :: session and wakes :: "input_item list"
  defines "f \<equiv> \<lambda>(s::session) i. case ii_task_wake_fallback i of Some f \<Rightarrow> push_task_wake_fallback f s | None \<Rightarrow> s"
  shows "running_task (foldl f s wakes) = running_task s" "pending_inputs (foldl f s wakes) = pending_inputs s"
    "sent_replies (foldl f s wakes) = sent_replies s"
    "length (pending_notifications s) \<le> MAX_PENDING_NOTIFICATIONS \<Longrightarrow>
     length (pending_notifications (foldl f s wakes)) \<le> MAX_PENDING_NOTIFICATIONS"
  unfolding f_def by (rule foldl_keeps; simp split: option.splits)+

lemma cancel_front_ok:
  assumes "session_ok s" "running_task s = None"
  shows "session_ok (cancel_front w t s)"
proof (cases "pending_inputs s")
  case (Cons front rest)
  have "queue_ok None (tl (pending_inputs s))"
    using assms by (auto simp: session_ok_def intro: queue_ok_tl)
  then have "queue_ok None (filter (\<lambda>i. \<not> (w \<and> is_wake i)) rest)"
    using Cons by (auto intro: queue_ok_filter)
  then show ?thesis
    using assms Cons by (simp add: cancel_front_def session_ok_def comp_def del: de_Morgan_conj)
qed (simp add: cancel_front_def assms)

lemma cancel_ok:
  assumes "session_ok s"
  shows "session_ok (cancel_running_task i k w t s)"
proof -
  let ?ctrl = "t = Some (lit ''ctrl_c'')"
  define s3 where "s3 = (let s2 = sweep_monitor_buffer_into_pending i (if ?ctrl then s\<lparr>notifications_suppressed := True\<rparr> else s)
    in if k then s2\<lparr>pending_notifications := []\<rparr> else s2)"
  define s5 where "s5 = (if w \<and> rewindable s3 then s3\<lparr>notifications_suppressed := False, rewindable := False\<rparr> else s3)\<lparr>running_task := None\<rparr>"
  have "session_ok s3"
    using assms by (simp add: s3_def Let_def session_ok_def sweep_monitor_bound)
  then have s5: "session_ok s5" "running_task s5 = None"
    by (auto simp: s5_def session_ok_def intro: queue_ok_idle)
  then have "queue_ok None (tl (pending_inputs s5))" "length (pending_notifications s5) \<le> MAX_PENDING_NOTIFICATIONS"
    by (auto simp: session_ok_def intro: queue_ok_tl)
  then have "session_ok (s5\<lparr>pending_inputs := tl (pending_inputs s5)\<rparr>)" "session_ok (cancel_everything t s5)"
    using s5 by (simp_all add: session_ok_def cancel_everything_def Let_def queue_ok_def front_runs_def)
  moreover have "session_ok (cancel_front ?ctrl t s5)"
    using s5 by (rule cancel_front_ok)
  ultimately show ?thesis
    unfolding cancel_running_task_def Let_def s3_def [unfolded Let_def, symmetric] s5_def [symmetric] by simp
qed

lemma snoc_ok:
  "session_ok s \<Longrightarrow> item_ok i \<Longrightarrow>
   session_ok (s\<lparr>pending_inputs := pending_inputs s @ [i]\<rparr>)"
  by (auto simp: session_ok_def intro: queue_ok_snoc)

lemma synthetic_item_ok [simp]:
  "item_ok (synthetic_item p org bs ch)" "ii_prompt_id (synthetic_item p org bs ch) = p"
  "ii_origin (synthetic_item p org bs ch) = org" "ii_respond_to (synthetic_item p org bs ch) = ch"
  by (simp_all add: item_ok_def synthetic_item_def)

lemma fallback_ok:
  assumes "session_ok s"
  shows "session_ok (queue_interjection_fallback_prompt uuid ch b entry s)"
  using assms front_running_iff [of s]
  by (auto simp: queue_interjection_fallback_prompt_def Let_def session_ok_def [of s] intro!: insert_behind_ok snoc_ok
      simp del: lit_simps)

lemma drain_ok:
  assumes "session_ok s"
  shows "session_ok (maybe_drain_notifications i all ids tool uuid ch c f s)"
proof (cases "is_session_idle_for_injection s")
  case True
  then have "pending_inputs s = []" "running_task s = None"
    by (simp_all add: is_session_idle_for_injection_def)
  then have "session_ok (sweep_monitor_buffer_into_pending i s)"
    "session_ok ((sweep_monitor_buffer_into_pending i s)\<lparr>pending_notifications := [], reported := rs\<rparr>)"
    "session_ok ((sweep_monitor_buffer_into_pending i s)\<lparr>pending_notifications := [], reported := rs,
       pending_inputs := pending_inputs s @ [synthetic_item p org bs ch]\<rparr>)" for rs p org bs
    using assms by (simp_all add: session_ok_def sweep_monitor_bound queue_ok_def front_runs_def)
  then show ?thesis
    using True by (simp add: maybe_drain_notifications_def Let_def maybe_start_ok)
qed (simp add: maybe_drain_notifications_def assms)

lemma consume_ok: "session_ok s \<Longrightarrow> session_ok (fst (consume_deferred_completions_for_user_turn i tool s))"
  using sweep_monitor_bound [of s i]
  by (auto simp: consume_deferred_completions_for_user_turn_def consume_deferred_completions_def Let_def case_prod_unfold
      session_ok_def intro: order_trans [OF length_filter_le])

section \<open>Every channel is answered once\<close>

definition key :: "input_item \<Rightarrow> nat \<times> prompt_origin" where
  "key i = (ii_respond_to i, ii_origin i)"

text \<open>From \<open>s\<close> to \<open>t\<close> the inputs \<open>new\<close> came in, and each input that left was answered once.\<close>

definition answers :: "(input_item \<times> turn_reply) list \<Rightarrow> session \<Rightarrow> session \<Rightarrow> bool" where
  "answers away s t \<longleftrightarrow> sent_replies t = sent_replies s @ map (\<lambda>(i, r). (ii_respond_to i, r)) away \<and>
     (\<forall>(i, r) \<in> set away. r = SenderDropped \<longrightarrow> is_synthetic (ii_origin i))"

definition accounts :: "input_item list \<Rightarrow> session \<Rightarrow> session \<Rightarrow> bool" where
  "accounts new s t \<longleftrightarrow> (\<exists>away. answers away s t \<and>
     mset (map key (pending_inputs t)) + mset (map (key \<circ> fst) away) = mset (map key (pending_inputs s)) + mset (map key new))"

lemma balance:
  fixes a b m n t u v :: "'a multiset"
  assumes "t + a = v + n" "u + b = t + m"
  shows "u + (a + b) = v + (n + m)"
proof -
  have "u + (a + b) = (u + b) + a"
    by (simp add: ac_simps)
  also have "\<dots> = (t + a) + m"
    unfolding assms(2) by (simp add: ac_simps)
  finally show ?thesis
    unfolding assms(1) by (simp add: ac_simps)
qed

lemma accounts_trans:
  assumes "accounts n s t" "accounts m t u"
  shows "accounts (n @ m) s u"
proof -
  obtain a where a: "answers a s t"
      "mset (map key (pending_inputs t)) + mset (map (key \<circ> fst) a) = mset (map key (pending_inputs s)) + mset (map key n)"
    using assms(1) unfolding accounts_def by blast
  obtain b where b: "answers b t u"
      "mset (map key (pending_inputs u)) + mset (map (key \<circ> fst) b) = mset (map key (pending_inputs t)) + mset (map key m)"
    using assms(2) unfolding accounts_def by blast
  have "answers (a @ b) s u"
    using a(1) b(1) by (auto simp: answers_def)
  moreover have "mset (map key (pending_inputs u)) + mset (map (key \<circ> fst) (a @ b)) =
      mset (map key (pending_inputs s)) + mset (map key (n @ m))"
    using balance [OF a(2) b(2)] by (simp only: map_append mset_append)
  ultimately show ?thesis
    unfolding accounts_def by blast
qed

lemma accounts_after: "accounts [] s t \<Longrightarrow> accounts n t u \<Longrightarrow> accounts n s u"
  using accounts_trans [of "[]" s t n u] by simp

lemma accounts_same:
  "sent_replies t = sent_replies s \<Longrightarrow> mset (map key (pending_inputs t)) = mset (map key (pending_inputs s)) \<Longrightarrow> accounts [] s t"
  unfolding accounts_def answers_def by (intro exI [of _ "[]"]) simp

lemma accounts_new:
  "sent_replies t = sent_replies s \<Longrightarrow> mset (map key (pending_inputs t)) = add_mset (key i) (mset (map key (pending_inputs s))) \<Longrightarrow>
   accounts [i] s t"
  unfolding accounts_def answers_def by (intro exI [of _ "[]"]) simp

lemma accounts_reply:
  assumes "sent_replies t = sent_replies s @ map (\<lambda>i. (ii_respond_to i, r)) is"
    "mset (map key (pending_inputs t)) + mset (map key is) = mset (map key (pending_inputs s))"
    "r = SenderDropped \<Longrightarrow> list_all (\<lambda>i. is_synthetic (ii_origin i)) is"
  shows "accounts [] s t"
  unfolding accounts_def answers_def using assms
  by (intro exI [of _ "map (\<lambda>i. (i, r)) is"]) (auto simp: comp_def list_all_iff)

lemma mset_partition: "mset (map f (filter (\<lambda>x. \<not> P x) xs)) + mset (map f (filter P xs)) = mset (map f xs)"
  by (induction xs) simp_all

lemma drop_swept_accounts:
  assumes "\<And>i. P i \<Longrightarrow> is_synthetic (ii_origin i)"
  shows "accounts [] s (drop_swept P s)"
proof (rule accounts_reply)
  let ?D = "\<lambda>i. running_task s \<noteq> Some (ii_prompt_id i) \<and> P i"
  show "sent_replies (drop_swept P s) = sent_replies s @ map (\<lambda>i. (ii_respond_to i, SenderDropped)) (filter ?D (pending_inputs s))"
    by (simp add: drop_swept_def sweep_pending_inputs_def)
  show "mset (map key (pending_inputs (drop_swept P s))) + mset (map key (filter ?D (pending_inputs s))) =
      mset (map key (pending_inputs s))"
    unfolding drop_swept_fields by (rule mset_partition)
qed (use assms in \<open>auto simp: list_all_iff\<close>)

lemma completion_synthetic: "completion_id org \<noteq> None \<Longrightarrow> is_synthetic org"
  by (cases org) (simp_all add: is_synthetic_def)

lemma make_room_accounts: "accounts [] s (make_room r s)"
proof -
  let ?s = "case from_prompt_id (pr_prompt_id r) of SubagentCompleted i \<Rightarrow> s\<lparr>reported := reported s @ [i]\<rparr> | _ \<Rightarrow> s"
  have s: "accounts [] s ?s"
    by (rule accounts_same) (simp_all split: prompt_origin.splits)
  have "accounts [] ?s (preempt_synthetic ?s)"
    by (auto simp: preempt_synthetic_def intro: drop_swept_accounts accounts_same)
  from accounts_trans [OF s this] s show ?thesis
    by (simp add: make_room_def Let_def)
qed

lemma mset_insert: "mset (map f (take k q @ x # drop k q)) = add_mset (f x) (mset (map f q))"
  by (metis append_take_drop_id mset.simps(2) mset_append list.simps(9) map_append union_mset_add_mset_right)

lemma enqueue_accounts: "accounts [i] s (enqueue b i s)"
proof (rule accounts_new)
  show "mset (map key (pending_inputs (enqueue b i s))) = add_mset (key i) (mset (map key (pending_inputs s)))"
    using mset_insert [of key "send_now_position s" "pending_inputs s" "i\<lparr>ii_send_now := True\<rparr>"]
    by (simp add: enqueue_def insert_behind_def key_def)
qed (simp add: enqueue_def insert_behind_def)

lemma accounts_fields:
  "pending_inputs t' = pending_inputs t \<Longrightarrow> sent_replies t' = sent_replies t \<Longrightarrow> accounts n s t' = accounts n s t"
  by (simp add: accounts_def answers_def)

lemma queue_input_accounts: "accounts [input_of r] s (fst (queue_input g b r s))"
proof -
  have "accounts ([] @ [input_of r]) s (enqueue (sends_now b r (make_room r s)) (input_of r) (make_room r s))"
    by (rule accounts_trans [OF make_room_accounts enqueue_accounts])
  then show ?thesis
    by (simp add: queue_input_def Let_def accounts_fields [of "broadcast_queue_changed _"])
qed

lemma remove_accounts: "accounts [] s (handle_remove_queued_prompt i v c s)"
proof (cases "if running_task s = Some i then None else remove_first (row_matches i v c) (pending_inputs s)")
  case (Some p)
  obtain item rest where p: "p = (item, rest)"
    by (cases p)
  with Some obtain a b where "pending_inputs s = a @ item # b" "rest = a @ b"
    using remove_first_Some by (metis option.distinct(1))
  then show ?thesis
    using Some p by (intro accounts_reply [of _ _ RemovedFromQueue "[item]"]) (simp_all add: handle_remove_queued_prompt_def)
qed (simp add: handle_remove_queued_prompt_def accounts_same)

lemma interject_queued_accounts: "accounts [] s (fst (handle_interject_queued_prompt g i v c t s))"
proof (rule accounts_same)
  let ?edit = "\<lambda>item. case t of Some t \<Rightarrow> if trim t = [] then item else apply_queued_prompt_edit t c item | None \<Rightarrow> item"
  have key: "key (?edit item) = key item" "key (item\<lparr>ii_send_now := b\<rparr>) = key item" for item b
    by (simp_all add: key_def split: option.splits)
  let ?t = "fst (handle_interject_queued_prompt g i v c t s)"
  show "sent_replies ?t = sent_replies s"
    by (simp add: handle_interject_queued_prompt_def Let_def insert_behind_def split: option.splits)
  show "mset (map key (pending_inputs ?t)) = mset (map key (pending_inputs s))"
  proof (cases "if running_task s = Some i then None else remove_first (row_matches i v c) (pending_inputs s)")
    case None
    then have "pending_inputs ?t = pending_inputs s"
      by (auto simp: handle_interject_queued_prompt_def Let_def remove_first_None map_first_none split: if_splits)
    then show ?thesis
      by simp
  next
    case (Some p)
    obtain item rest where p: "p = (item, rest)"
      by (cases p)
    with Some obtain a b where q: "pending_inputs s = a @ item # b" "rest = a @ b"
      using remove_first_Some by (metis option.distinct(1))
    have "pending_inputs ?t = take (send_now_position (s\<lparr>pending_inputs := rest\<rparr>)) rest @
        (?edit item)\<lparr>ii_send_now := True\<rparr> # drop (send_now_position (s\<lparr>pending_inputs := rest\<rparr>)) rest"
      using Some p by (simp add: handle_interject_queued_prompt_def Let_def insert_behind_def)
    then show ?thesis
      using mset_insert [of key _ rest "(?edit item)\<lparr>ii_send_now := True\<rparr>"] by (simp add: key q)
  qed
qed

lemma consumed_accounts: "accounts [] s (drop_pending_items_for_consumed_completions ids s)"
proof -
  let ?P = "\<lambda>i. case completion_id (ii_origin i) of Some c \<Rightarrow> c \<in> set ids | None \<Rightarrow> False"
  have "accounts [] s (drop_swept ?P s)"
    by (rule drop_swept_accounts) (auto intro: completion_synthetic split: option.splits)
  then show ?thesis
    by (simp add: drop_pending_items_for_consumed_completions_def Let_def accounts_same
        accounts_fields [of "(drop_swept _ _)\<lparr>pending_notifications := _\<rparr>" "drop_swept ?P s"])
qed

lemma reorder_accounts: "accounts [] s (handle_reorder_queue ids s)"
proof (rule accounts_same)
  have "mset (pending_inputs (handle_reorder_queue ids s)) = mset (pending_inputs s)"
    by (simp add: handle_reorder_queue_def comp_def)
  then show "mset (map key (pending_inputs (handle_reorder_queue ids s))) = mset (map key (pending_inputs s))"
    by simp
qed (simp add: handle_reorder_queue_def)

lemma clear_accounts: "accounts [] s (handle_clear_queue c s)"
  using mset_partition [of key "\<lambda>i. \<not> clear_keeps c s i" "pending_inputs s"]
  by (intro accounts_reply [of _ _ RemovedFromQueue "filter (\<lambda>i. \<not> clear_keeps c s i) (pending_inputs s)"])
    (simp_all add: handle_clear_queue_def comp_def)

lemma edit_accounts: "accounts [] s (handle_edit_queued_prompt i t c s)"
proof (rule accounts_same)
  have "map key (map_first P (apply_queued_prompt_edit t c) q) = map key q" for P q
    by (induction q) (simp_all add: key_def)
  then show "mset (map key (pending_inputs (handle_edit_queued_prompt i t c s))) = mset (map key (pending_inputs s))"
    by (simp add: handle_edit_queued_prompt_def del: mset_map)
qed (simp add: handle_edit_queued_prompt_def)

lemma start_front_accounts: "accounts [] s (start_front s)"
  by (cases "pending_inputs s") (auto simp: start_front_def Let_def key_def intro!: accounts_same)

lemma combine_front_keys:
  "mset (map key (fst (combine_front_pending_inputs q skip))) + mset (map key (snd (combine_front_pending_inputs q skip))) =
   mset (map key q)"
  using combine_front_cases [of q skip] by (elim disjE exE conjE) (simp_all add: key_def)

lemma promote_accounts: "accounts [] s (promote_front c f s)"
proof (cases "running_task s \<noteq> None \<or> pending_inputs s = []")
  case False
  define s1 where "s1 = respond RemovedFromQueue (takeWhile (stale_front f) (pending_inputs s))
    (s\<lparr>pending_inputs := dropWhile (stale_front f) (pending_inputs s)\<rparr>)"
  define s2 where "s2 = gc_holds s1"
  define m where "m = (if c then combine_front_pending_inputs (pending_inputs s2) (combine_edit_holds s2) else (pending_inputs s2, []))"
  define s3 where "s3 = respond RemovedFromQueue (snd m) (s2\<lparr>pending_inputs := fst m\<rparr>)"
  have "mset (map key (dropWhile P q)) + mset (map key (takeWhile P q)) = mset (map key q)" for P q
    by (metis mset_append takeWhile_dropWhile_id map_append union_commute)
  then have "accounts [] s s1"
    by (intro accounts_reply [of _ _ RemovedFromQueue]) (simp_all add: s1_def)
  moreover have "accounts [] s1 s2"
    by (rule accounts_same) (simp_all add: s2_def gc_holds_def)
  moreover have "mset (map key (fst m)) + mset (map key (snd m)) = mset (map key (pending_inputs s2))"
    by (cases c) (simp_all add: m_def combine_front_keys del: mset_map)
  then have "accounts [] s2 s3"
    by (intro accounts_reply [of _ _ RemovedFromQueue]) (simp_all add: s3_def)
  ultimately have "accounts [] s (start_front s3)"
    using start_front_accounts [of s3] by (meson accounts_after)
  moreover have "promote_front c f s = start_front s3"
    using False by (simp add: promote_front_def s1_def s2_def s3_def m_def Let_def case_prod_unfold)
  ultimately show ?thesis
    by simp
qed (auto simp: promote_front_def intro: accounts_same)

lemma maybe_start_accounts: "accounts [] s (maybe_start_running_task c f s)"
  by (simp add: maybe_start_running_task_def promote_accounts accounts_same)

lemma completion_accounts: "accounts [] s (handle_completion p r s)"
proof (cases "\<exists>front rest. pending_inputs s = front # rest \<and> ii_prompt_id front = p")
  case True
  then obtain front rest where "pending_inputs s = front # rest" "ii_prompt_id front = p"
    by blast
  then show ?thesis
    by (intro accounts_reply [of _ _ "TurnResult r" "[front]"]) (simp_all add: handle_completion_def Let_def)
next
  case False
  then show ?thesis
    by (intro accounts_same) (auto simp: handle_completion_def Let_def split: list.splits)
qed

lemma cancel_front_accounts: "accounts [] s (cancel_front w t s)"
proof (cases "pending_inputs s")
  case (Cons front rest)
  let ?wakes = "filter (\<lambda>i. w \<and> is_wake i) rest"
  have "mset (map key (filter (\<lambda>i. \<not> (w \<and> is_wake i)) rest)) + mset (map key ?wakes) = mset (map key rest)"
    by (rule mset_partition)
  then have "mset (map key (filter (\<lambda>i. \<not> (w \<and> is_wake i)) rest)) +
      mset (map (key \<circ> fst) (map (\<lambda>i. (i, RemovedFromQueue)) ?wakes @ [(front, CancelledTurn t)])) = mset (map key (pending_inputs s))"
    by (simp add: Cons comp_def del: de_Morgan_conj)
  then show ?thesis
    unfolding accounts_def
    by (intro exI [of _ "map (\<lambda>i. (i, RemovedFromQueue)) ?wakes @ [(front, CancelledTurn t)]"])
      (auto simp: cancel_front_def Cons answers_def comp_def simp del: de_Morgan_conj)
qed (simp add: cancel_front_def accounts_same)

lemma cancel_everything_accounts: "accounts [] s (cancel_everything t s)"
proof (cases "pending_inputs s")
  case (Cons front rest)
  then show ?thesis
    unfolding accounts_def
    by (intro exI [of _ "(front, CancelledTurn t) # map (\<lambda>i. (i, CancelledTurn None)) rest"])
      (auto simp: cancel_everything_def answers_def comp_def Let_def)
qed (simp add: cancel_everything_def accounts_same)

lemma cancel_accounts: "accounts [] s (cancel_running_task i k w t s)"
proof -
  let ?ctrl = "t = Some (lit ''ctrl_c'')"
  define s3 where "s3 = (let s2 = sweep_monitor_buffer_into_pending i (if ?ctrl then s\<lparr>notifications_suppressed := True\<rparr> else s)
    in if k then s2\<lparr>pending_notifications := []\<rparr> else s2)"
  define s5 where "s5 = (if w \<and> rewindable s3 then s3\<lparr>notifications_suppressed := False, rewindable := False\<rparr> else s3)\<lparr>running_task := None\<rparr>"
  have s5: "accounts [] s s5"
    by (rule accounts_same) (simp_all add: s5_def s3_def Let_def)
  have "accounts [] s5 (respond Rewound [hd (pending_inputs s5)] (s5\<lparr>pending_inputs := tl (pending_inputs s5)\<rparr>))"
    if "pending_inputs s5 \<noteq> []"
    using that by (intro accounts_reply [of _ _ Rewound "[hd (pending_inputs s5)]"]) (simp_all, cases "pending_inputs s5", simp_all)
  note last = this cancel_everything_accounts [of s5 t] cancel_front_accounts [of s5 ?ctrl t]
  then show ?thesis
    using accounts_trans [OF s5, of "[]"]
    unfolding cancel_running_task_def Let_def s3_def [unfolded Let_def, symmetric] s5_def [symmetric] by simp
qed

lemma fallback_accounts:
  "\<exists>item. key item = (ch, User) \<and> accounts [item] s (queue_interjection_fallback_prompt uuid ch b entry s)"
proof -
  define item where "item = (synthetic_item (lit ''interject-fallback-'' @ uuid) User
    (TextBlock (pi_text entry) None # map ImageBlock (pi_attachments entry)) ch)\<lparr>ii_send_now := b\<rparr>"
  have "accounts [item] s (queue_interjection_fallback_prompt uuid ch b entry s)"
  proof (rule accounts_new)
    show "mset (map key (pending_inputs (queue_interjection_fallback_prompt uuid ch b entry s))) =
        add_mset (key item) (mset (map key (pending_inputs s)))"
      using mset_insert [of key _ "pending_inputs s" item]
      by (simp add: queue_interjection_fallback_prompt_def Let_def insert_behind_def item_def key_def)
  qed (simp add: queue_interjection_fallback_prompt_def Let_def insert_behind_def)
  then show ?thesis
    by (intro exI [of _ item]) (simp add: item_def key_def)
qed

lemma drain_accounts:
  "\<exists>new. map key new \<in> {[], [(ch, NotificationDrain)]} \<and> accounts new s (maybe_drain_notifications i all ids tool uuid ch c f s)"
proof (cases "maybe_drain_notifications i all ids tool uuid ch c f s")
  define s1 where "s1 = sweep_monitor_buffer_into_pending i s"
  define item where "item = synthetic_item (lit ''notifications-'' @ uuid) NotificationDrain
    (notification_blocks (split_goal_suppressed all ids (pending_notifications s1)) tool) ch"
  define s2 where "s2 = s1\<lparr>pending_notifications := [],
    reported := reported s1 @ map (\<lambda>n. source_task_id (pn_source n)) (pending_notifications s1)\<rparr>"
  have "accounts [item] s (s2\<lparr>pending_inputs := pending_inputs s2 @ [item]\<rparr>)"
    by (rule accounts_new) (simp_all add: s1_def s2_def)
  from accounts_trans [OF this maybe_start_accounts]
  have "accounts [item] s (maybe_start_running_task c f (s2\<lparr>pending_inputs := pending_inputs s2 @ [item]\<rparr>))"
    by simp
  moreover have "accounts [] s s1" "accounts [] s s2" "accounts [] s s"
    by (rule accounts_same; simp add: s1_def s2_def)+
  moreover have "key item = (ch, NotificationDrain)"
    by (simp add: item_def key_def)
  ultimately show ?thesis
    unfolding maybe_drain_notifications_def Let_def s1_def [symmetric] s2_def [symmetric] item_def [symmetric]
    by (auto intro: exI [of _ "[]"] exI [of _ "[item]"])
qed

lemma consume_accounts: "accounts [] s (fst (consume_deferred_completions_for_user_turn i tool s))"
  by (rule accounts_same)
    (simp_all add: consume_deferred_completions_for_user_turn_def consume_deferred_completions_def Let_def case_prod_unfold)

section \<open>Reachable sessions\<close>

text \<open>
  A step is one stretch of code that holds the lock, in any order: the loop of the session, the task that runs
  the turn and the start-up task interleave between them.  The first component lists the reply channels
  opened so far, with the origin of their prompt.  Channels are fresh; prompt identifiers come from the client
  (\<open>promptId\<close>) and need not be.  The fields only the turn writes change freely.  The sweep of
  \<open>SessionCommand::Shutdown\<close> is no step: the loop returns after it.  Replies to cancelled inputs are part of the
  step that removes the inputs; the code sends them a little later, after it has released the lock
  (\<open>tasks_cancel.rs\<close>), and no other code reads or answers those channels in between.
\<close>

definition fresh_channel :: "nat \<Rightarrow> (nat \<times> prompt_origin) list \<Rightarrow> bool" where
  "fresh_channel ch opened \<longleftrightarrow> ch \<notin> fst ` set opened"

type_synonym channels = "(nat \<times> prompt_origin) list"

text \<open>How many inputs came in, by counting queued inputs and replies: the channel of a turn not queued is not opened.\<close>

definition came_in :: "session \<Rightarrow> session \<Rightarrow> nat" where
  "came_in s t = (length (pending_inputs t) + length (sent_replies t)) - (length (pending_inputs s) + length (sent_replies s))"

inductive session_step :: "channels \<times> session \<Rightarrow> channels \<times> session \<Rightarrow> bool" where
  step_prompt: "fresh_channel (pr_respond_to r) cs \<Longrightarrow>
    session_step (cs, s) (cs @ [(pr_respond_to r, from_prompt_id (pr_prompt_id r))], fst (queue_input g b r s))"
| step_refused: "fresh_channel (pr_respond_to r) cs \<Longrightarrow> admit_prompt a r s = (t, None) \<Longrightarrow>
    session_step (cs, s) (cs @ [(pr_respond_to r, from_prompt_id (pr_prompt_id r))], t)"
| step_remove: "session_step (cs, s) (cs, handle_remove_queued_prompt i v c s)"
| step_interject_queued: "session_step (cs, s) (cs, fst (handle_interject_queued_prompt g i v c t s))"
| step_reorder: "session_step (cs, s) (cs, handle_reorder_queue ids s)"
| step_clear: "session_step (cs, s) (cs, handle_clear_queue c s)"
| step_edit: "session_step (cs, s) (cs, handle_edit_queued_prompt i t c s)"
| step_hold: "session_step (cs, s) (cs, hold_combine_edit i s)"
| step_release: "session_step (cs, s) (cs, release_combine_edit i s)"
| step_promote: "session_step (cs, s) (cs, promote_front c f s)"
| step_completion: "session_step (cs, s) (cs, handle_completion p r s)"
| step_cancel: "session_step (cs, s) (cs, cancel_running_task i k w t s)"
| step_consumed: "session_step (cs, s) (cs, drop_pending_items_for_consumed_completions ids s)"
| step_fallback: "fresh_channel ch cs \<Longrightarrow>
    session_step (cs, s) (cs @ [(ch, User)], queue_interjection_fallback_prompt uuid ch b entry s)"
| step_goal_summary: "fresh_channel ch cs \<Longrightarrow>
    session_step (cs, s) (cs @ [(ch, GoalSummary)], queue_goal_summary uuid ch t s)"
| step_workflow: "fresh_channel ch cs \<Longrightarrow>
    t = workflow_completion_turn w f ch run_id revision s \<Longrightarrow>
    session_step (cs, s) (cs @ take (came_in s t) [(ch, WorkflowCompleted (run_id @ [45] @ show_nat revision))], t)"
| step_drain: "fresh_channel ch cs \<Longrightarrow> t = maybe_drain_notifications i all ids tool uuid ch c f s \<Longrightarrow>
    session_step (cs, s) (cs @ take (came_in s t) [(ch, NotificationDrain)], t)"
| step_notify: "session_step (cs, s) (cs, inject_notification a i n s)"
| step_deferred: "session_step (cs, s) (cs, fst (consume_deferred_completions_for_user_turn i tool s))"
| step_flags: "session_step (cs, s) (cs, s\<lparr>notifications_suppressed := a, rewindable := b,
    pending_interjections := p, monitor_event_buffer := m\<rparr>)"

inductive_cases session_stepE: "session_step (cs, s) (cs', t)"

definition new_session :: "channels \<times> session \<Rightarrow> bool" where
  "new_session x \<longleftrightarrow> fst x = [] \<and> running_task (snd x) = None \<and> pending_inputs (snd x) = [] \<and>
     pending_notifications (snd x) = [] \<and> sent_replies (snd x) = []"

text \<open>The accounts: queued inputs and replies together are the opened channels, each once.\<close>

definition balanced :: "channels \<times> session \<Rightarrow> bool" where
  "balanced x = (let (cs, s) = x in distinct (map fst cs) \<and>
     mset (map ii_respond_to (pending_inputs s)) + mset (map fst (sent_replies s)) = mset (map fst cs) \<and>
     key ` set (pending_inputs s) \<subseteq> set cs \<and>
     (\<forall>ch. (ch, SenderDropped) \<in> set (sent_replies s) \<longrightarrow> (\<exists>org. (ch, org) \<in> set cs \<and> is_synthetic org)))"

lemma balanced_step:
  assumes "balanced (cs, s)" "accounts new s t" "distinct (map fst (cs @ map key new))"
  shows "balanced (cs @ map key new, t)"
proof -
  obtain away where away: "answers away s t"
    and eq: "mset (map key (pending_inputs t)) + mset (map (key \<circ> fst) away) = mset (map key (pending_inputs s)) + mset (map key new)"
    using assms(2) unfolding accounts_def by blast
  have sub: "key ` set (pending_inputs t) \<union> key ` fst ` set away = key ` set (pending_inputs s) \<union> key ` set new"
    using arg_cong [OF eq, of set_mset] by (simp add: image_image comp_def)
  have cs: "key ` set (pending_inputs s) \<subseteq> set cs"
    using assms(1) by (simp add: balanced_def)
  have fst_key: "map ii_respond_to q = map fst (map key q)" for q
    by (simp add: key_def)
  have "mset (map ii_respond_to (pending_inputs t)) + mset (map (\<lambda>a. ii_respond_to (fst a)) away) =
      mset (map ii_respond_to (pending_inputs s)) + mset (map ii_respond_to new)"
    using arg_cong [OF eq, of "image_mset fst"]
    by (simp add: key_def comp_def multiset.map_comp)
  moreover have "sent_replies t = sent_replies s @ map (\<lambda>(i, r). (ii_respond_to i, r)) away"
    using away by (simp add: answers_def)
  then have "map fst (sent_replies t) = map fst (sent_replies s) @ map (\<lambda>a. ii_respond_to (fst a)) away"
    by (simp add: case_prod_unfold comp_def)
  ultimately have "mset (map ii_respond_to (pending_inputs t)) + mset (map fst (sent_replies t)) =
      mset (map ii_respond_to (pending_inputs s)) + mset (map fst (sent_replies s)) + mset (map ii_respond_to new)"
    using balance [of "mset (map ii_respond_to (pending_inputs s))" "mset (map fst (sent_replies s))"
        "mset (map ii_respond_to (pending_inputs s)) + mset (map fst (sent_replies s))" "{#}"]
    by (simp only: mset_append add_0_left add_0_right)
  then have "mset (map ii_respond_to (pending_inputs t)) + mset (map fst (sent_replies t)) = mset (map fst (cs @ map key new))"
    using assms(1) by (simp add: balanced_def key_def comp_def)
  moreover have "\<exists>org. (ch, org) \<in> set (cs @ map key new) \<and> is_synthetic org"
    if "(ch, SenderDropped) \<in> set (sent_replies t)" for ch
  proof (cases "(ch, SenderDropped) \<in> set (sent_replies s)")
    case True
    then show ?thesis
      using assms(1) by (auto simp: balanced_def)
  next
    case False
    then have "(ch, SenderDropped) \<in> set (map (\<lambda>(i, r). (ii_respond_to i, r)) away)"
      using that away by (auto simp: answers_def simp del: set_map)
    then obtain i where "(i, SenderDropped) \<in> set away" "ch = ii_respond_to i"
      by auto
    moreover have "is_synthetic (ii_origin i)"
      using away \<open>(i, SenderDropped) \<in> set away\<close> by (auto simp: answers_def)
    moreover have "key i \<in> key ` fst ` set away"
      using \<open>(i, SenderDropped) \<in> set away\<close> by (metis fst_conv image_eqI)
    then have "key i \<in> key ` set (pending_inputs s) \<union> key ` set new"
      unfolding sub [symmetric] by (rule UnI2)
    then have "key i \<in> set (cs @ map key new)"
      using cs by auto
    ultimately show ?thesis
      by (auto simp: key_def)
  qed
  moreover have "key ` set (pending_inputs t) \<subseteq> set (cs @ map key new)"
    using sub cs by auto
  ultimately show ?thesis
    using assms(3) by (simp add: balanced_def multiset.map_comp)
qed

lemma accounts_came_in: "accounts new s t \<Longrightarrow> came_in s t = length new"
proof -
  assume "accounts new s t"
  then obtain away where away: "answers away s t"
    and eq: "mset (map key (pending_inputs t)) + mset (map (key \<circ> fst) away) = mset (map key (pending_inputs s)) + mset (map key new)"
    unfolding accounts_def by blast
  from eq have "size (mset (map key (pending_inputs t)) + mset (map (key \<circ> fst) away)) =
      size (mset (map key (pending_inputs s)) + mset (map key new))"
    by (rule arg_cong)
  then have "length (pending_inputs t) + length away = length (pending_inputs s) + length new"
    by simp
  with away show ?thesis
    by (simp add: came_in_def answers_def)
qed

text \<open>What a step does to the queue and to the accounts, whatever the step.\<close>

lemma goal_summary_step:
  "accounts [synthetic_item (lit ''goal-summary-'' @ uuid) GoalSummary [TextBlock t None] ch] s (queue_goal_summary uuid ch t s)"
  by (rule accounts_new) (simp_all add: queue_goal_summary_def)

lemma workflow_step:
  "\<exists>new. map key new \<in> {[], [(ch, WorkflowCompleted (run_id @ [45] @ show_nat revision))]} \<and>
     accounts new s (workflow_completion_turn w f ch run_id revision s)"
proof -
  define c where "c = run_id @ [45] @ show_nat revision"
  define item where "item = synthetic_item (lit ''workflow-completed-'' @ c) (WorkflowCompleted c) [TextBlock WORKFLOW_STOPPED None] ch"
  have "accounts [item] s (s\<lparr>pending_inputs := pending_inputs s @ [item]\<rparr>)" "accounts [] s s" "key item = (ch, WorkflowCompleted c)"
    by (auto intro: accounts_new accounts_same simp: item_def key_def)
  then show ?thesis
    unfolding workflow_completion_turn_def Let_def c_def [symmetric] item_def [symmetric]
    by (auto intro: exI [of _ "[]"] exI [of _ "[item]"])
qed

lemma refused_step:
  assumes "admit_prompt a r s = (t, None)"
  shows "running_task t = running_task s" "pending_inputs t = pending_inputs s"
    "length (pending_notifications s) \<le> MAX_PENDING_NOTIFICATIONS \<Longrightarrow> length (pending_notifications t) \<le> MAX_PENDING_NOTIFICATIONS"
    "sent_replies t = sent_replies s @ [(pr_respond_to r, RemovedFromQueue)]"
  using assms by (auto simp: admit_prompt_def admit_task_completion_wake_def
      split: option.splits prod.splits prompt_origin.splits if_splits)

lemma step_ok:
  assumes "session_step x y" "session_ok (snd x)"
  shows "session_ok (snd y)"
  using assms
proof (induction rule: session_step.induct)
  case (step_refused r cs a s t)
  then show ?case
    using refused_step [OF step_refused.hyps(2)] by (simp add: session_ok_def)
next
  case (step_workflow ch cs t w f run_id revision s)
  then show ?case
    by (auto simp: workflow_completion_turn_def Let_def intro!: snoc_ok simp del: lit_simps)
next
  case (step_goal_summary ch cs s uuid t)
  then show ?case
    by (auto simp: queue_goal_summary_def intro!: snoc_ok simp del: lit_simps)
next
  case (step_notify cs s a i n)
  then show ?case
    by (auto simp: inject_notification_def session_ok_def)
qed (auto simp: queue_input_ok remove_ok interject_queued_ok reorder_ok clear_ok edit_ok promote_ok completion_ok
    cancel_ok consumed_ok fallback_ok drain_ok consume_ok hold_combine_edit_def release_combine_edit_def simp del: lit_simps
    simp: session_ok_def [of "_\<lparr>combine_edit_holds := _\<rparr>"] session_ok_def [of "_\<lparr>notifications_suppressed := _, rewindable := _, pending_interjections := _, monitor_event_buffer := _\<rparr>"] session_ok_def [symmetric])

lemma balanced_channel:
  assumes "balanced (cs, s)" "accounts new s t" "map key new \<in> {[], [(ch, org)]}" "fresh_channel ch cs"
  shows "balanced (cs @ take (came_in s t) [(ch, org)], t)"
proof -
  have "distinct (map fst (cs @ map key new))"
    using assms(1,3,4) by (auto simp: balanced_def fresh_channel_def image_iff)
  from balanced_step [OF assms(1,2) this] have "balanced (cs @ map key new, t)" .
  moreover have "map key new = take (came_in s t) [(ch, org)]"
    using assms(3) accounts_came_in [OF assms(2)] by auto
  ultimately show ?thesis
    by simp
qed

lemma balanced_quiet: "balanced (cs, s) \<Longrightarrow> accounts [] s t \<Longrightarrow> balanced (cs, t)"
  using balanced_step [of cs s "[]" t] by (simp add: balanced_def)

lemma balanced_new:
  assumes "balanced (cs, s)" "accounts [i] s t" "key i = (ch, org)" "fresh_channel ch cs"
  shows "balanced (cs @ [(ch, org)], t)"
  using balanced_channel [OF assms(1,2), of ch org] accounts_came_in [OF assms(2)] assms(3,4) by simp

lemma flag_accounts:
  "accounts [] s (hold_combine_edit i s)" "accounts [] s (release_combine_edit i s)" "accounts [] s (inject_notification b i n s)"
  "accounts [] s (s\<lparr>notifications_suppressed := b, rewindable := c, pending_interjections := p, monitor_event_buffer := m\<rparr>)"
  by (rule accounts_same; simp add: hold_combine_edit_def release_combine_edit_def inject_notification_def)+

lemmas quiet_accounts = remove_accounts interject_queued_accounts reorder_accounts clear_accounts edit_accounts
  promote_accounts completion_accounts cancel_accounts consumed_accounts consume_accounts flag_accounts

lemma step_balanced:
  assumes "session_step x y" "balanced x"
  shows "balanced y"
  using assms
proof (induction rule: session_step.induct)
  case (step_prompt r cs s g b)
  show ?case
    by (rule balanced_new [OF step_prompt.prems queue_input_accounts _ step_prompt.hyps]) (simp add: key_def input_of_ok)
next
  case (step_refused r cs a s t)
  then show ?case
    using refused_step [OF step_refused.hyps(2)] by (auto simp: balanced_def fresh_channel_def)
next
  case (step_fallback ch cs s uuid b entry)
  obtain item where "key item = (ch, User)" "accounts [item] s (queue_interjection_fallback_prompt uuid ch b entry s)"
    using fallback_accounts by blast
  then show ?case
    using balanced_new step_fallback by blast
next
  case (step_goal_summary ch cs s uuid t)
  show ?case
    by (rule balanced_new [OF step_goal_summary.prems goal_summary_step _ step_goal_summary.hyps]) (simp add: key_def)
next
  case (step_workflow ch cs t w f run_id revision s)
  obtain new where "map key new \<in> {[], [(ch, WorkflowCompleted (run_id @ [45] @ show_nat revision))]}" "accounts new s t"
    unfolding step_workflow.hyps(2) using workflow_step [of ch run_id revision s w f] by meson
  then show ?case
    by (intro balanced_channel [OF step_workflow.prems _ _ step_workflow.hyps(1)])
next
  case (step_drain ch cs t i all ids tool uuid c f s)
  obtain new where "map key new \<in> {[], [(ch, NotificationDrain)]}" "accounts new s t"
    unfolding step_drain.hyps(2) using drain_accounts [of ch s i all ids tool uuid c f] by meson
  then show ?case
    by (intro balanced_channel [OF step_drain.prems _ _ step_drain.hyps(1)])
qed (erule balanced_quiet, rule quiet_accounts)+

interpretation queue: inductive_invariant new_session session_step "\<lambda>x. session_ok (snd x) \<and> balanced x"
proof unfold_locales
  show "session_ok (snd x) \<and> balanced x" if "new_session x" for x
    using that by (cases x) (simp add: new_session_def session_ok_def queue_ok_def front_runs_def balanced_def)
  show "session_ok (snd y) \<and> balanced y" if "session_ok (snd x) \<and> balanced x" "session_step x y" for x y
    using that step_ok step_balanced by blast
qed

lemma shutdown_keeps_user_front:
  assumes "queue_ok (running_task s) (pending_inputs s)"
    and "running_task s \<noteq> None" "\<not> is_synthetic (ii_origin (hd (pending_inputs s)))"
  shows "take 1 (pending_inputs (drop_pending_synthetic_items s)) = take 1 (pending_inputs s)"
  using assms by (cases "pending_inputs s")
    (auto simp: drop_pending_synthetic_items_def queue_ok_def front_runs_def case_prod_unfold Let_def comp_def)

text \<open>
  C35. The running turn is safe.  As long as the session loop runs, whatever clients, the turn and the session
  did in whatever order and whatever prompt identifiers the clients chose, the input at the front of the queue
  has the identifier of the running turn, every row shown to clients is a user prompt with its own identifier,
  and at most fifty notifications wait.  The sweep of the shutdown, after which the loop returns, keeps a running
  turn of a user at the front; a running turn of the session itself it drops with the other synthetic inputs.
\<close>

theorem running_turn_is_front:
  assumes "reach new_session session_step (cs, s)"
  shows "running_task s \<in> {None} \<union> Some ` ii_prompt_id ` set (take 1 (pending_inputs s)) \<and>
    (\<forall>i \<in> set (pending_inputs s). \<forall>m. ii_queue_meta i = Some m \<longrightarrow> qm_id m = ii_prompt_id i \<and> ii_origin i = User) \<and>
    length (pending_notifications s) \<le> MAX_PENDING_NOTIFICATIONS \<and>
    (running_task s \<noteq> None \<and> \<not> is_synthetic (ii_origin (hd (pending_inputs s))) \<longrightarrow>
      take 1 (pending_inputs (drop_pending_synthetic_items s)) = take 1 (pending_inputs s))"
proof -
  have ok: "session_ok s"
    using queue.reach_inv [OF assms] by simp
  moreover have "running_task s \<in> {None} \<union> Some ` ii_prompt_id ` set (take 1 (pending_inputs s))"
    if "front_runs (running_task s) (pending_inputs s)"
    using that by (cases "pending_inputs s") (auto simp: front_runs_def split: option.splits)
  moreover have "take 1 (pending_inputs (drop_pending_synthetic_items s)) = take 1 (pending_inputs s)"
    if "running_task s \<noteq> None" "\<not> is_synthetic (ii_origin (hd (pending_inputs s)))"
    using ok that by (intro shutdown_keeps_user_front) (simp_all add: session_ok_def)
  ultimately show ?thesis
    by (auto simp: session_ok_def queue_ok_def list_all_iff item_ok_def split: option.splits)
qed

text \<open>
  C36. Every prompt is answered exactly once.  In every reachable session the opened reply channels are the
  channels of the queued inputs and of the replies sent, each once: no prompt is lost and none is answered
  twice.  A channel closed without an answer belonged to a prompt of the session itself or of its scheduler,
  never to one a user typed.
\<close>

theorem prompts_answered_once:
  assumes "reach new_session session_step (cs, s)"
  shows "distinct (map ii_respond_to (pending_inputs s) @ map fst (sent_replies s)) \<and>
    set (map ii_respond_to (pending_inputs s) @ map fst (sent_replies s)) = fst ` set cs \<and>
    (\<forall>ch. (ch, SenderDropped) \<in> set (sent_replies s) \<longrightarrow> (ch, User) \<notin> set cs)"
proof -
  have b: "balanced (cs, s)"
    using queue.reach_inv [OF assms] by simp
  then have eq: "mset (map ii_respond_to (pending_inputs s) @ map fst (sent_replies s)) = mset (map fst cs)" and "distinct (map fst cs)"
    by (simp_all add: balanced_def)
  then have "distinct (map ii_respond_to (pending_inputs s) @ map fst (sent_replies s))"
    using mset_eq_imp_distinct_iff by blast
  moreover have "set (map ii_respond_to (pending_inputs s) @ map fst (sent_replies s)) = fst ` set cs"
    using mset_eq_setD [OF eq] by simp
  moreover have "(ch, User) \<notin> set cs" if dropped: "(ch, SenderDropped) \<in> set (sent_replies s)" for ch
  proof
    assume "(ch, User) \<in> set cs"
    moreover obtain org where "(ch, org) \<in> set cs" "is_synthetic org"
      using b dropped by (auto simp: balanced_def)
    ultimately have "org = User"
      using \<open>distinct (map fst cs)\<close> eq_key_imp_eq_value by fast
    then show False
      using \<open>is_synthetic org\<close> by (simp add: is_synthetic_def)
  qed
  ultimately show ?thesis
    by blast
qed

section \<open>Order\<close>

text \<open>
  Reordering is a stable permutation.  The queue after a reorder holds the same inputs; the running turn
  and the inputs clients cannot see come first, in their order; the rows named in the request follow in the
  order it names them, the unnamed ones behind in theirs; and repeating the request changes nothing.
\<close>

theorem reorder_exact:
  "(let q = pending_inputs s; q' = pending_inputs (handle_reorder_queue ids s);
        named = filter (queueable s) q' in
    mset q' = mset q \<and> q' = filter (\<lambda>i. \<not> queueable s i) q @ named \<and>
    sorted (map (rank ids) named) \<and>
    filter (\<lambda>i. rank ids i = k) named = filter (\<lambda>i. rank ids i = k) (filter (queueable s) q) \<and>
    pending_inputs (handle_reorder_queue ids (handle_reorder_queue ids s)) = q')"
proof -
  let ?rows = "filter (queueable s) (pending_inputs s)" and ?pinned = "filter (\<lambda>i. \<not> queueable s i) (pending_inputs s)"
  have q': "pending_inputs (handle_reorder_queue ids t) =
      filter (\<lambda>i. \<not> queueable t i) (pending_inputs t) @ sort_key (rank ids) (filter (queueable t) (pending_inputs t))" for t
    by (simp add: handle_reorder_queue_def comp_def)
  have same: "queueable (handle_reorder_queue ids s) = queueable s"
    by (rule ext) (simp add: queueable_def handle_reorder_queue_def split: option.splits)
  have named: "filter (queueable s) (?pinned @ sort_key (rank ids) ?rows) = sort_key (rank ids) ?rows"
    "filter (\<lambda>i. \<not> queueable s i) (?pinned @ sort_key (rank ids) ?rows) = ?pinned"
    by (auto simp: filter_id_conv filter_empty_conv)
  moreover have "sort_key (rank ids) (sort_key (rank ids) ?rows) = sort_key (rank ids) ?rows"
    by (rule properties_for_sort_key) simp_all
  moreover have "filter (\<lambda>i. rank ids i = k) (sort_key (rank ids) ?rows) = filter (\<lambda>i. rank ids i = k) ?rows"
    by (rule sort_key_stable)
  ultimately show ?thesis
    unfolding Let_def q' same by (simp del: filter_filter)
qed

lemma promote_user_front:
  assumes "running_task s = None" "pending_inputs s = i # rest" "ii_origin i = User"
  shows "running_task (promote_front c f s) = Some (ii_prompt_id i)"
    "ii_respond_to (hd (pending_inputs (promote_front c f s))) = ii_respond_to i"
    "set (sent_replies s) \<subseteq> set (sent_replies (promote_front c f s))"
proof -
  have stale: "\<not> stale_front f i"
    using assms(3) by (simp add: stale_front_def)
  define s2 where "s2 = gc_holds (respond RemovedFromQueue [] (s\<lparr>pending_inputs := i # rest\<rparr>))"
  define m where "m = (if c then combine_front_pending_inputs (pending_inputs s2) (combine_edit_holds s2) else (pending_inputs s2, []))"
  have s2: "pending_inputs s2 = i # rest" "sent_replies s2 = sent_replies s"
    by (simp_all add: s2_def gc_holds_def)
  have "promote_front c f s = start_front (respond RemovedFromQueue (snd m) (s2\<lparr>pending_inputs := fst m\<rparr>))"
    using assms stale by (simp add: promote_front_def s2_def m_def Let_def case_prod_unfold)
  moreover obtain front q where "fst m = front # q" "ii_prompt_id front = ii_prompt_id i" "ii_respond_to front = ii_respond_to i"
    using combine_front_cases [of "i # rest" "combine_edit_holds s2"] by (cases c) (auto simp: m_def s2)
  ultimately show "running_task (promote_front c f s) = Some (ii_prompt_id i)"
    "ii_respond_to (hd (pending_inputs (promote_front c f s))) = ii_respond_to i"
    "set (sent_replies s) \<subseteq> set (sent_replies (promote_front c f s))"
    by (auto simp: start_front_def Let_def s2)
qed

lemma cancel_for_send_now:
  assumes "pending_inputs s = i # rest"
  shows "running_task (cancel_turn_for_send_now sid s) = None" "pending_inputs (cancel_turn_for_send_now sid s) = rest"
    "(ii_respond_to i, CancelledTurn (Some (lit ''send_now''))) \<in> set (sent_replies (cancel_turn_for_send_now sid s))"
  using assms by (simp_all add: cancel_turn_for_send_now_def cancel_running_task_def cancel_front_def Let_def)

lemma takeWhile_filter_none: "list_all (\<lambda>i. \<not> P i) xs \<Longrightarrow> takeWhile P (filter Q xs) = []"
  by (induction xs) auto

lemma user_intake_fields [simp]:
  "running_task (user_intake r s) = running_task s" "pending_inputs (user_intake r s) = pending_inputs s"
  by (simp_all add: user_intake_def)

lemma make_room_user:
  assumes "from_prompt_id (pr_prompt_id r) = User"
  shows "\<exists>P. pending_inputs (make_room r s) = filter P (pending_inputs s) \<and> (\<forall>i. running_task s = Some (ii_prompt_id i) \<longrightarrow> P i)"
  by (auto simp: make_room_def Let_def assms is_synthetic_def preempt_synthetic_def
      intro: exI [of _ "\<lambda>i. \<not> (running_task s \<noteq> Some (ii_prompt_id i) \<and> _ i)"] exI [of _ "\<lambda>_. True"])

text \<open>A send-now prompt with no other waiting lands at the head, or right behind the running turn.\<close>

lemma send_now_inserted:
  assumes "session_ok s" "from_prompt_id (pr_prompt_id r) = User"
    and "list_all (\<lambda>i. \<not> ii_send_now i) (if running_task s = None then pending_inputs s else tl (pending_inputs s))"
  shows "\<exists>rest. pending_inputs (insert_behind (send_now_position (make_room r s)) item (make_room r s)) =
    (if running_task s = None then [] else [hd (pending_inputs s)]) @ item # rest"
proof -
  obtain P where P: "pending_inputs (make_room r s) = filter P (pending_inputs s)"
      and kept: "\<And>i. running_task s = Some (ii_prompt_id i) \<Longrightarrow> P i"
    using make_room_user [OF assms(2)] by blast
  show ?thesis
  proof (cases "running_task s")
    case None
    then have "takeWhile ii_send_now (pending_inputs (make_room r s)) = []"
      using assms(3) by (simp add: P takeWhile_filter_none)
    then have "send_now_position (make_room r s) = 0"
      using None by (simp add: send_now_position_def front_is_running_def split: list.splits)
    then show ?thesis
      using None by (simp add: insert_behind_def)
  next
    case (Some p)
    obtain front rest where q: "pending_inputs s = front # rest" "ii_prompt_id front = p"
      using assms(1) Some by (cases "pending_inputs s") (auto simp: session_ok_def queue_ok_def front_runs_def)
    then have room: "pending_inputs (make_room r s) = front # filter P rest"
      using kept Some by (simp add: P)
    moreover have "takeWhile ii_send_now (filter P rest) = []"
      using assms(3) Some q by (simp add: takeWhile_filter_none)
    ultimately have "send_now_position (make_room r s) = 1"
      using Some q by (simp add: send_now_position_def front_is_running_def)
    then show ?thesis
      using Some q by (simp add: insert_behind_def room)
  qed
qed

lemma send_now_command:
  fixes r s
  assumes "from_prompt_id (pr_prompt_id r) = User" "pr_send_now r"
  defines "q \<equiv> r\<lparr>pr_task_wake_fallback := None\<rparr>"
  defines "s1 \<equiv> make_room q (user_intake q s)"
  defines "t \<equiv> broadcast_queue_changed (insert_behind (send_now_position s1) ((input_of q)\<lparr>ii_send_now := True\<rparr>) s1)"
  shows "prompt_command sid goal blocked combine unreported None r s =
    maybe_start_running_task combine unreported
      (if running_task s = None \<or> goal then t else cancel_turn_for_send_now sid t)"
proof -
  have "from_prompt_id (pr_prompt_id q) = User" "pr_send_now q" "running_task s1 = running_task s"
    using assms(1,2) by (simp_all add: q_def s1_def)
  then show ?thesis
    by (simp add: prompt_command_def admit_prompt_def q_def [symmetric] queue_input_def s1_def [symmetric] t_def
        sends_now_def enqueue_def is_synthetic_def Let_def case_prod_unfold)
qed

text \<open>
  C38. A send-now prompt runs next.  Let a user send a prompt to run now while no earlier one of that kind waits.
  If no turn runs, or no goal is active, then after the command the running turn is that prompt, it stands at the
  front with its own reply channel, and a turn that was running has been cancelled and its caller answered.  If a
  turn runs while a goal is active, that turn keeps running at the front, and the prompt stands right behind it.
\<close>

theorem send_now_runs_next:
  assumes "session_ok s" "from_prompt_id (pr_prompt_id r) = User" "pr_send_now r"
    and "list_all (\<lambda>i. \<not> ii_send_now i) (if running_task s = None then pending_inputs s else tl (pending_inputs s))"
  shows "(let t = prompt_command sid goal blocked combine unreported None r s in
    if goal \<and> running_task s \<noteq> None
    then running_task t = running_task s \<and>
      (\<exists>item rest. pending_inputs t = hd (pending_inputs s) # item # rest \<and>
        ii_prompt_id item = pr_prompt_id r \<and> ii_respond_to item = pr_respond_to r)
    else running_task t = Some (pr_prompt_id r) \<and> ii_respond_to (hd (pending_inputs t)) = pr_respond_to r \<and>
      (running_task s \<noteq> None \<longrightarrow>
        (ii_respond_to (hd (pending_inputs s)), CancelledTurn (Some (lit ''send_now''))) \<in> set (sent_replies t)))"
proof -
  define q where "q = r\<lparr>pr_task_wake_fallback := None\<rparr>"
  define s1 where "s1 = make_room q (user_intake q s)"
  define item where "item = (input_of q)\<lparr>ii_send_now := True\<rparr>"
  define t where "t = broadcast_queue_changed (insert_behind (send_now_position s1) item s1)"
  have item: "ii_prompt_id item = pr_prompt_id r" "ii_respond_to item = pr_respond_to r" "ii_origin item = User"
    by (simp_all add: item_def input_of_ok q_def assms(2))
  have "session_ok (user_intake q s)"
    using assms(1) by (simp add: user_intake_def session_ok_def)
  moreover have "from_prompt_id (pr_prompt_id q) = User"
      "list_all (\<lambda>i. \<not> ii_send_now i)
         (if running_task (user_intake q s) = None then pending_inputs (user_intake q s) else tl (pending_inputs (user_intake q s)))"
    unfolding user_intake_fields using assms(4) by (simp_all add: q_def assms(2))
  ultimately obtain rest where queue: "pending_inputs t = (if running_task s = None then [] else [hd (pending_inputs s)]) @ item # rest"
    using send_now_inserted [of "user_intake q s" q item] unfolding user_intake_fields t_def s1_def broadcast_fields by blast
  have start: "maybe_start_running_task combine unreported u = promote_front (length (pending_inputs u) \<ge> 2 \<and> combine) unreported u"
    if "running_task u = None" "pending_inputs u \<noteq> []" for u
    using that by (simp add: maybe_start_running_task_def)
  note command = send_now_command [OF assms(2,3), of sid goal blocked combine unreported s, folded q_def, folded s1_def item_def, folded t_def]
  show ?thesis
  proof (cases "running_task s")
    case None
    then have idle: "running_task t = None" "pending_inputs t = item # rest"
      using queue by (simp_all add: t_def s1_def insert_behind_def)
    then show ?thesis
      using promote_user_front [OF idle item(3)] None item by (simp add: command start)
  next
    case (Some p)
    then have "pending_inputs t = hd (pending_inputs s) # item # rest"
      using queue by simp
    note queued = this
    note c = cancel_for_send_now [OF this, of sid]
    note front = promote_user_front [OF c(1,2) item(3)]
    show ?thesis
    proof (cases goal)
      case True
      have "running_task t = running_task s"
        by (simp add: t_def s1_def insert_behind_def)
      then have "maybe_start_running_task combine unreported t = t"
        using Some by (simp add: maybe_start_running_task_def)
      then show ?thesis
        unfolding Let_def command using True Some queued item \<open>running_task t = running_task s\<close> by auto
    next
      case False
      then show ?thesis
        unfolding Let_def command using Some start [OF c(1)] c(2) front(1,2) subsetD [OF front(3) c(3)] item
        by (simp del: lit_simps)
    qed
  qed
qed

section \<open>Merged prompts\<close>

lemma join_grow_last: "join sep (xs @ [y @ z]) = join sep (xs @ [y]) @ z"
  by (cases "xs = []") (simp_all add: join_snoc)

lemma map_first_text_split:
  "list_all (\<lambda>b. \<not> is_text_block b) a \<Longrightarrow> map_first_text f (a @ TextBlock t m # b) = a @ f t m # b"
proof (induction a)
  case (Cons x a)
  then show ?case
    by (cases x) simp_all
qed simp

lemma last_text_block:
  assumes "list_ex is_text_block bs"
  obtains a t m b where "bs = a @ TextBlock t m # b" "list_all (\<lambda>b. \<not> is_text_block b) b"
proof -
  have "\<exists>x \<in> set bs. is_text_block x"
    using assms by (simp add: list_ex_iff)
  then obtain a x b where "bs = a @ x # b" "is_text_block x" "\<forall>z \<in> set b. \<not> is_text_block z"
    using split_list_last_prop by metis
  then show thesis
    using that by (cases x) (auto simp: list_all_iff)
qed

lemma no_text_filter: "list_all (\<lambda>b. \<not> is_text_block b) b \<Longrightarrow> List.map_filter nonempty_text b = []"
proof (induction b)
  case (Cons x b)
  then show ?case
    by (cases x) (simp_all add: List.map_filter_def nonempty_text_def)
qed (simp add: List.map_filter_def)

lemma nonempty_texts: "\<forall>t \<in> set (List.map_filter nonempty_text bs). t \<noteq> []"
  by (auto simp: List.map_filter_def nonempty_text_def split: option.splits if_splits)

lemma joined_alt: "joined_text_blocks bs = join TEXT_SEPARATOR (List.map_filter nonempty_text bs)"
  using nonempty_texts [of bs] by (simp add: joined_text_blocks_def join_texts_def cong: filter_cong)

definition has_body :: "content_block list \<Rightarrow> bool" where
  "has_body bs \<longleftrightarrow> List.map_filter nonempty_text bs \<noteq> []"

lemma has_body_text: "has_body bs \<Longrightarrow> list_ex is_text_block bs"
proof -
  assume "has_body bs"
  then obtain b t where "b \<in> set bs" and b: "nonempty_text b = Some t"
    using set_map_filter [of _ nonempty_text bs] unfolding has_body_def by (metis list.set_intros(1) neq_Nil_conv)
  moreover have "is_text_block b"
    using b by (cases b) (simp_all add: nonempty_text_def)
  ultimately show ?thesis
    unfolding list_ex_iff by blast
qed

lemma append_last_joined:
  assumes "has_body bs" "extra \<noteq> []"
  shows "joined_text_blocks (append_to_last_text extra bs) = joined_text_blocks bs @ TEXT_SEPARATOR @ extra"
    "has_body (append_to_last_text extra bs)"
    "filter is_image_block (append_to_last_text extra bs) = filter is_image_block bs"
proof -
  obtain a t m b where bs: "bs = a @ TextBlock t m # b" "list_all (\<lambda>b. \<not> is_text_block b) b"
    using last_text_block [OF has_body_text [OF assms(1)]] by blast
  have app: "append_to_last_text extra bs = a @ TextBlock ((if t = [] then t else t @ TEXT_SEPARATOR) @ extra) m # b"
    using map_first_text_split [of "rev b"] bs(2) by (simp add: append_to_last_text_def bs(1) list_all_iff)
  then show "has_body (append_to_last_text extra bs)" "filter is_image_block (append_to_last_text extra bs) = filter is_image_block bs"
    using assms(2) by (simp_all add: has_body_def map_filter_append bs nonempty_text_def List.map_filter_simps)
  have none: "List.map_filter nonempty_text b = []"
    by (rule no_text_filter [OF bs(2)])
  show "joined_text_blocks (append_to_last_text extra bs) = joined_text_blocks bs @ TEXT_SEPARATOR @ extra"
  proof (cases "t = []")
    case True
    then have "List.map_filter nonempty_text a \<noteq> []"
      using assms(1) none by (simp add: has_body_def bs map_filter_append nonempty_text_def List.map_filter_simps)
    then show ?thesis
      unfolding joined_alt app using True none assms(2) by (simp add: bs(1) map_filter_append nonempty_text_def List.map_filter_simps join_snoc)
  next
    case False
    then show ?thesis
      unfolding joined_alt app
      using none assms(2) join_grow_last [of TEXT_SEPARATOR "List.map_filter nonempty_text a" t "TEXT_SEPARATOR @ extra"]
      by (simp add: bs(1) map_filter_append nonempty_text_def List.map_filter_simps)
  qed
qed

lemma map_first_text_same:
  "List.map_filter nonempty_text (map_first_text (\<lambda>t m. TextBlock t (g t m)) bs) = List.map_filter nonempty_text bs"
  "filter is_image_block (map_first_text (\<lambda>t m. TextBlock t (g t m)) bs) = filter is_image_block bs"
proof (induction bs)
  case (Cons x bs)
  case 1
  show ?case
    using Cons.IH(1) by (cases x) (simp_all add: List.map_filter_simps nonempty_text_def)
  case 2
  show ?case
    using Cons.IH(2) by (cases x) simp_all
qed simp_all

lemma stamp_blocks:
  "List.map_filter nonempty_text (ii_prompt_blocks (stamp_combined_display_texts_meta i)) = List.map_filter nonempty_text (ii_prompt_blocks i)"
  "filter is_image_block (ii_prompt_blocks (stamp_combined_display_texts_meta i)) = filter is_image_block (ii_prompt_blocks i)"
  by (simp_all add: stamp_combined_display_texts_meta_def map_first_text_same split: option.splits)

lemma append_text_joined:
  assumes "has_body (ii_prompt_blocks i)" "extra \<noteq> []"
  shows "joined_text_blocks (ii_prompt_blocks (append_text_to_prompt i extra)) = joined_text_blocks (ii_prompt_blocks i) @ TEXT_SEPARATOR @ extra"
    "has_body (ii_prompt_blocks (append_text_to_prompt i extra))"
    "filter is_image_block (ii_prompt_blocks (append_text_to_prompt i extra)) = filter is_image_block (ii_prompt_blocks i)"
  using append_last_joined [OF assms] assms(2)
  by (simp_all add: append_text_to_prompt_def Let_def joined_alt has_body_def stamp_blocks)

lemma merge_texts:
  assumes "has_body (ii_prompt_blocks front)" "list_all (\<lambda>i. has_body (ii_prompt_blocks i)) away"
  shows "joined_text_blocks (ii_prompt_blocks
      (foldl (\<lambda>f next. append_text_to_prompt f (joined_text_blocks (ii_prompt_blocks next))) front away)) =
      join TEXT_SEPARATOR (map (\<lambda>i. joined_text_blocks (ii_prompt_blocks i)) (front # away)) \<and>
    filter is_image_block (ii_prompt_blocks
      (foldl (\<lambda>f next. append_text_to_prompt f (joined_text_blocks (ii_prompt_blocks next))) front away)) =
      filter is_image_block (ii_prompt_blocks front) \<and>
    has_body (ii_prompt_blocks
      (foldl (\<lambda>f next. append_text_to_prompt f (joined_text_blocks (ii_prompt_blocks next))) front away))"
  using assms(2)
proof (induction away rule: rev_induct)
  case (snoc i away)
  have "joined_text_blocks (ii_prompt_blocks i) \<noteq> []"
    using snoc.prems nonempty_texts [of "ii_prompt_blocks i"]
    by (cases "List.map_filter nonempty_text (ii_prompt_blocks i)" rule: join.cases [of "(TEXT_SEPARATOR, _)", simplified])
      (auto simp: joined_alt has_body_def)
  moreover have "join TEXT_SEPARATOR (map (\<lambda>i. joined_text_blocks (ii_prompt_blocks i)) (front # away @ [i])) =
      join TEXT_SEPARATOR (map (\<lambda>i. joined_text_blocks (ii_prompt_blocks i)) (front # away)) @ TEXT_SEPARATOR @
        joined_text_blocks (ii_prompt_blocks i)"
    using join_snoc [of _ "map (\<lambda>i. joined_text_blocks (ii_prompt_blocks i)) (front # away)"] by simp
  ultimately show ?case
    using snoc append_text_joined by simp
qed (use assms in simp)

lemma mergeable_body: "can_merge_front (combine_gate_of i) \<Longrightarrow> has_body (ii_prompt_blocks i)"
  by (auto simp: can_merge_front_def combine_gate_of_def Let_def has_body_def List.map_filter_def list_ex_iff filter_empty_conv)

lemma combine_prefix_merges:
  assumes "combine_front_pending_inputs q skip = (q', away)" "away \<noteq> []"
  shows "\<exists>front rest. q = front # away @ rest \<and> can_merge_front (combine_gate_of front) \<and>
    list_all (can_merge_follower skip \<circ> combine_gate_of) away \<and>
    q' = foldl (\<lambda>f next. append_text_to_prompt f (joined_text_blocks (ii_prompt_blocks next))) front away # rest"
proof (cases q)
  case (Cons front tail)
  let ?n = "combine_prefix_len (map combine_gate_of q) skip"
  have n: "2 \<le> ?n" "away = take (?n - 1) tail"
    "q' = foldl (\<lambda>f next. append_text_to_prompt f (joined_text_blocks (ii_prompt_blocks next))) front away # drop (?n - 1) tail"
    using assms Cons by (auto simp: combine_front_pending_inputs_def Let_def split: if_splits)
  then have front: "can_merge_front (combine_gate_of front)"
    "?n - 1 = length (takeWhile (can_merge_follower skip \<circ> combine_gate_of) tail)"
    by (auto simp: combine_prefix_len_def Cons takeWhile_map split: if_splits)
  have "away = takeWhile (can_merge_follower skip \<circ> combine_gate_of) tail"
    unfolding n(2) front(2) by (rule takeWhile_eq_take [symmetric])
  then have "list_all (can_merge_follower skip \<circ> combine_gate_of) away"
    by (auto simp: list_all_iff dest: set_takeWhileD)
  moreover have "q = front # away @ drop (?n - 1) tail"
    using Cons n(2) by simp
  ultimately show ?thesis
    using front(1) n(3) by blast
qed (use assms in \<open>simp add: combine_front_pending_inputs_def\<close>)

text \<open>
  C39. Merging keeps what was written.  When prompts are merged into the front, the queue was the front, the
  merged ones and the rest; the text of the new front is the texts of all of them in order, separated by blank
  lines; its images are those of the front, and no merged prompt had images, was a command, or was being
  edited.
\<close>

theorem merge_keeps_texts:
  assumes "combine_front_pending_inputs q skip = (q', away)" "away \<noteq> []"
  shows "\<exists>front front' rest. q = front # away @ rest \<and> q' = front' # rest \<and>
    ii_prompt_id front' = ii_prompt_id front \<and> ii_respond_to front' = ii_respond_to front \<and>
    joined_text_blocks (ii_prompt_blocks front') =
      join TEXT_SEPARATOR (map (\<lambda>i. joined_text_blocks (ii_prompt_blocks i)) (front # away)) \<and>
    filter is_image_block (ii_prompt_blocks front') = filter is_image_block (ii_prompt_blocks front) \<and>
    list_all (\<lambda>i. \<not> list_ex is_image_block (ii_prompt_blocks i) \<and> extract_bash_command (ii_prompt_blocks i) = None \<and>
      ii_prompt_id i \<notin> set skip) away"
proof -
  obtain front rest where q: "q = front # away @ rest" "can_merge_front (combine_gate_of front)"
    "list_all (can_merge_follower skip \<circ> combine_gate_of) away"
    "q' = foldl (\<lambda>f next. append_text_to_prompt f (joined_text_blocks (ii_prompt_blocks next))) front away # rest"
    using combine_prefix_merges [OF assms] by blast
  have "list_all (\<lambda>i. has_body (ii_prompt_blocks i)) away"
    using q(3) mergeable_body by (auto simp: list_all_iff can_merge_follower_def)
  note merged = merge_texts [OF mergeable_body [OF q(2)] this]
  have "list_all (\<lambda>i. \<not> list_ex is_image_block (ii_prompt_blocks i) \<and> extract_bash_command (ii_prompt_blocks i) = None \<and>
      ii_prompt_id i \<notin> set skip) away"
    using q(3) by (auto simp: list_all_iff can_merge_follower_def can_merge_front_def combine_gate_of_def Let_def)
  then show ?thesis
    using merged q(1,4) by (intro exI [of _ front] exI [of _ "hd q'"] exI [of _ rest]) simp
qed

section \<open>A prompt that loses its answer\<close>

text \<open>
  C40. A queued prompt of the scheduler is dropped without an answer.  When a user prompt arrives while both a
  completion wake and a scheduled prompt are queued, the sweep that makes room for it removes the scheduled one too
  and closes its reply channel, although the client that fired it waits for the answer.
\<close>

theorem scheduled_prompt_dropped:
  assumes "i \<in> set (pending_inputs s)" "ii_origin i = SchedulerFired" "running_task s \<noteq> Some (ii_prompt_id i)"
    and "j \<in> set (pending_inputs s)" "completion_id (ii_origin j) \<noteq> None" "running_task s \<noteq> Some (ii_prompt_id j)"
    and "from_prompt_id (pr_prompt_id r) = User"
  shows "(ii_respond_to i, SenderDropped) \<in> set (sent_replies (fst (queue_input g b r s)))"
proof -
  have "list_ex (\<lambda>j. completion_id (ii_origin j) \<noteq> None \<and> running_task s \<noteq> Some (ii_prompt_id j)) (pending_inputs s)"
    using assms(4-6) unfolding list_ex_iff by blast
  then have "make_room r s = drop_swept (\<lambda>i. is_synthetic (ii_origin i)) s"
    using assms(7) by (simp add: make_room_def preempt_synthetic_def is_synthetic_def)
  then have "(ii_respond_to i, SenderDropped) \<in> set (sent_replies (make_room r s))"
    using assms(1-3) by (auto simp: drop_swept_def sweep_pending_inputs_def is_synthetic_def)
  then show ?thesis
    by (simp add: queue_input_def Let_def enqueue_def insert_behind_def)
qed

section \<open>Instances\<close>

definition ex_empty :: session where
  "ex_empty = \<lparr>running_task = None, pending_inputs = [], pending_notifications = [], combine_edit_holds = [],
     notifications_suppressed = False, rewindable = False, pending_interjections = [], monitor_event_buffer = None,
     sent_replies = [], broadcasts = [], released = [], reported = []\<rparr>"

definition ex_request :: "string \<Rightarrow> nat \<Rightarrow> bool \<Rightarrow> session_prompt" where
  "ex_request p ch now = \<lparr>pr_prompt_id = lit p, pr_prompt_blocks = [TextBlock (lit p) None], pr_client_identifier = None,
     pr_send_now = now, pr_task_wake_fallback = None, pr_tool_overrides_update = None, pr_respond_to = ch\<rparr>"

definition ex_queued :: session where
  "ex_queued = fst (queue_input False False (ex_request ''p1'' 7 False) ex_empty)"

definition ex_running :: session where
  "ex_running = promote_front False (\<lambda>_ _. True) ex_queued"

lemma ex_session_reach: "reach new_session session_step ([(7, User)], ex_running)"
proof -
  have "reach new_session session_step ([], ex_empty)"
    by (rule reach_init) (simp add: new_session_def ex_empty_def)
  moreover have "session_step ([], ex_empty) ([] @ [(7, from_prompt_id (lit ''p1''))], ex_queued)"
    unfolding ex_queued_def using step_prompt [of "ex_request ''p1'' 7 False" "[]" ex_empty False False]
    by (simp add: ex_request_def fresh_channel_def ex_empty_def del: lit_simps)
  moreover have "from_prompt_id (lit ''p1'') = User"
    by code_simp
  ultimately have "reach new_session session_step ([(7, User)], ex_queued)"
    using reach_step by fastforce
  then show ?thesis
    unfolding ex_running_def by (rule reach_step) (rule step_promote)
qed

theorem running_turn_is_front_witness:
  "running_task ex_running = Some (lit ''p1'') \<and>
   running_task ex_running \<in> {None} \<union> Some ` ii_prompt_id ` set (take 1 (pending_inputs ex_running))"
proof
  show "running_task ex_running = Some (lit ''p1'')"
    by code_simp
  show "running_task ex_running \<in> {None} \<union> Some ` ii_prompt_id ` set (take 1 (pending_inputs ex_running))"
    using running_turn_is_front [OF ex_session_reach] by blast
qed

theorem prompts_answered_once_witness:
  "distinct (map ii_respond_to (pending_inputs ex_running) @ map fst (sent_replies ex_running)) \<and>
   set (map ii_respond_to (pending_inputs ex_running) @ map fst (sent_replies ex_running)) = {7}"
  using prompts_answered_once [OF ex_session_reach] by simp

theorem send_now_runs_next_witness:
  "running_task (prompt_command (lit ''s'') False False True (\<lambda>_ _. True) None (ex_request ''p2'' 8 True) ex_running) = Some (lit ''p2'') \<and>
   running_task (prompt_command (lit ''s'') True False True (\<lambda>_ _. True) None (ex_request ''p2'' 8 True) ex_running) = running_task ex_running \<and>
   running_task ex_running \<noteq> None"
proof -
  have ok: "session_ok ex_running"
    using queue.reach_inv [OF ex_session_reach] by simp
  have r: "from_prompt_id (pr_prompt_id (ex_request ''p2'' 8 True)) = User" "pr_send_now (ex_request ''p2'' 8 True)"
    "list_all (\<lambda>i. \<not> ii_send_now i) (if running_task ex_running = None then pending_inputs ex_running else tl (pending_inputs ex_running))"
    "pr_prompt_id (ex_request ''p2'' 8 True) = lit ''p2''" "running_task ex_running \<noteq> None"
    by code_simp+
  show ?thesis
    using send_now_runs_next [OF ok r(1-3), of "lit ''s''" False False True "\<lambda>_ _. True"]
      send_now_runs_next [OF ok r(1-3), of "lit ''s''" True False True "\<lambda>_ _. True"] r(4,5) unfolding Let_def by (simp del: lit_simps)
qed

definition ex_items :: "input_item list" where
  "ex_items = [input_of (ex_request ''a'' 1 False), input_of (ex_request ''b'' 2 False)]"

theorem merge_keeps_texts_witness:
  "joined_text_blocks (ii_prompt_blocks (hd (fst (combine_front_pending_inputs ex_items [])))) = lit ''a'' @ [10, 10] @ lit ''b''"
proof -
  let ?c = "combine_front_pending_inputs ex_items []"
  have "snd ?c = [input_of (ex_request ''b'' 2 False)]"
    by code_simp
  then have "?c = (fst ?c, [input_of (ex_request ''b'' 2 False)])"
    by (metis prod.collapse)
  from merge_keeps_texts [OF this] obtain front front' rest where
    "ex_items = front # [input_of (ex_request ''b'' 2 False)] @ rest" "fst ?c = front' # rest"
    "joined_text_blocks (ii_prompt_blocks front') =
      join TEXT_SEPARATOR (map (\<lambda>i. joined_text_blocks (ii_prompt_blocks i)) (front # [input_of (ex_request ''b'' 2 False)]))"
    by blast
  moreover have "join TEXT_SEPARATOR (map (\<lambda>i. joined_text_blocks (ii_prompt_blocks i)) ex_items) = lit ''a'' @ [10, 10] @ lit ''b''"
    by code_simp
  ultimately show ?thesis
    by (simp add: ex_items_def)
qed

definition ex_busy :: session where
  "ex_busy = ex_empty\<lparr>pending_inputs :=
     [input_of (ex_request ''task-completed-t'' 1 False), input_of (ex_request ''scheduler-fired-x'' 2 False)]\<rparr>"

theorem scheduled_prompt_dropped_witness:
  "(2, SenderDropped) \<in> set (sent_replies (fst (queue_input False False (ex_request ''p'' 3 False) ex_busy)))"
proof -
  let ?j = "input_of (ex_request ''task-completed-t'' 1 False)" and ?i = "input_of (ex_request ''scheduler-fired-x'' 2 False)"
  have "ii_origin ?i = SchedulerFired" "completion_id (ii_origin ?j) \<noteq> None" "ii_respond_to ?i = 2"
    "from_prompt_id (pr_prompt_id (ex_request ''p'' 3 False)) = User"
    by code_simp+
  moreover have "running_task ex_busy = None" "pending_inputs ex_busy = [?j, ?i]"
    by (simp_all add: ex_busy_def ex_empty_def)
  ultimately show ?thesis
    using scheduled_prompt_dropped [of ?i ex_busy ?j "ex_request ''p'' 3 False"] by simp
qed

end
