(* ===== verification/Prompt_Arms.thy ===== *)
theory Prompt_Arms
  imports Prompt_Queue_Props
begin

text \<open>
  The session loop runs one arm after the other: a command of a client, the end of a turn, or, in between, what
  the running turn does to the shared state.  This theory shows that no prompt is left waiting while the
  session is idle: the queue never stalls.
\<close>

section \<open>Arms\<close>

inductive arm_step :: "session \<Rightarrow> session \<Rightarrow> bool" where
  arm_prompt: "arm_step s (prompt_command i g b c f a r s)"
| arm_interject_queued: "arm_step s (interject_queued_command i g c f row v owner t s)"
| arm_remove: "arm_step s (handle_remove_queued_prompt row v owner s)"
| arm_reorder: "arm_step s (handle_reorder_queue ids s)"
| arm_clear: "arm_step s (handle_clear_queue owner s)"
| arm_edit: "arm_step s (handle_edit_queued_prompt row t owner s)"
| arm_hold: "arm_step s (hold_combine_edit row s)"
| arm_release: "arm_step s (release_combine_edit row s)"
| arm_cancel: "arm_step s (cancel_command k w t e c f s)"
| arm_completion: "arm_step s (completion_command p res cont fresh e c f s)"
| arm_interject: "arm_step s (interject b uuid ch c f entry s)"
| arm_goal_summary: "arm_step s (goal_summary_command uuid ch t c f s)"
| arm_workflow: "arm_step s (workflow_completion_command w ch run_id revision c f s)"
| arm_notify: "arm_step s (inject_notification_command b n e c f s)"
| turn_consumed: "arm_step s (drop_pending_items_for_consumed_completions ids s)"
| turn_deferred: "arm_step s (fst (consume_deferred_completions_for_user_turn i tool s))"
| turn_flags: "arm_step s (s\<lparr>notifications_suppressed := x, rewindable := y, pending_interjections := z, monitor_event_buffer := m\<rparr>)"

definition idle_session :: "session \<Rightarrow> bool" where
  "idle_session s \<longleftrightarrow> running_task s = None \<and> pending_inputs s = []"

definition no_stall :: "session \<Rightarrow> bool" where
  "no_stall s \<longleftrightarrow> state_is_busy s = (running_task s \<noteq> None)"

lemma no_stall_iff: "no_stall s \<longleftrightarrow> (running_task s = None \<longrightarrow> pending_inputs s = [])"
  by (auto simp: no_stall_def state_is_busy_def)

text \<open>The start leaves nothing behind; what only removes or permutes keeps the queue from stalling.\<close>

lemma start_front_no_stall: "no_stall (start_front s)" if "running_task s = None"
  using that by (auto simp: no_stall_iff start_front_def Let_def split: list.splits)

lemma promote_no_stall: "no_stall s \<or> running_task s = None \<Longrightarrow> no_stall (promote_front c f s)"
  by (auto simp: promote_front_def Let_def gc_holds_def case_prod_unfold no_stall_iff [of s]
      intro!: start_front_no_stall)

lemma start_no_stall: "no_stall (maybe_start_running_task c f s)"
proof (cases "running_task s \<noteq> None \<or> pending_inputs s = []")
  case True
  then show ?thesis
    by (auto simp: maybe_start_running_task_def no_stall_iff)
next
  case False
  then show ?thesis
    by (auto simp: maybe_start_running_task_def intro: promote_no_stall)
qed

lemma no_stall_shrinks:
  "no_stall s \<Longrightarrow> running_task t = running_task s \<Longrightarrow> set (pending_inputs t) \<subseteq> set (pending_inputs s) \<Longrightarrow> no_stall t"
  by (auto simp: no_stall_iff)

lemma no_stall_same:
  "no_stall s \<Longrightarrow> running_task t = running_task s \<Longrightarrow> length (pending_inputs t) \<le> length (pending_inputs s) \<Longrightarrow> no_stall t"
  by (auto simp: no_stall_iff)

lemma drain_no_stall: "no_stall s \<Longrightarrow> no_stall (drain_idle e c f s)"
proof -
  assume s: "no_stall s"
  have "no_stall (sweep_monitor_buffer_into_pending i s)"
    "no_stall ((sweep_monitor_buffer_into_pending i s)\<lparr>pending_notifications := ns, reported := r\<rparr>)" for i ns r
    by (rule no_stall_same [OF s]; simp)+
  then show ?thesis
    using s by (simp add: drain_idle_def maybe_drain_notifications_def Let_def start_no_stall)
qed

section \<open>The arms keep the queue moving\<close>

lemma remove_no_stall: "no_stall s \<Longrightarrow> no_stall (handle_remove_queued_prompt row v owner s)"
  using remove_first_Some [of "row_matches row v owner" "pending_inputs s"]
  by (auto simp: handle_remove_queued_prompt_def no_stall_iff split: option.splits)

lemma map_first_length [simp]: "length (map_first P f xs) = length xs"
  by (induction xs) auto

lemma reorder_no_stall: "no_stall s \<Longrightarrow> no_stall (handle_reorder_queue ids s)"
  by (erule no_stall_shrinks) (auto simp: handle_reorder_queue_def)

lemma clear_no_stall: "no_stall s \<Longrightarrow> no_stall (handle_clear_queue owner s)"
  by (erule no_stall_shrinks) (auto simp: handle_clear_queue_def)

lemma edit_no_stall: "no_stall s \<Longrightarrow> no_stall (handle_edit_queued_prompt row t owner s)"
  by (erule no_stall_same) (auto simp: handle_edit_queued_prompt_def)

lemma consumed_no_stall: "no_stall s \<Longrightarrow> no_stall (drop_pending_items_for_consumed_completions ids s)"
  by (erule no_stall_shrinks)
    (auto simp: drop_pending_items_for_consumed_completions_def drop_swept_def sweep_pending_inputs_def)

lemma deferred_no_stall: "no_stall s \<Longrightarrow> no_stall (fst (consume_deferred_completions_for_user_turn i tool s))"
  by (erule no_stall_same)
    (simp_all add: consume_deferred_completions_for_user_turn_def consume_deferred_completions_def Let_def case_prod_unfold)

lemma prompt_no_stall: "no_stall s \<Longrightarrow> no_stall (prompt_command i g b c f a r s)"
proof (cases "admit_prompt a r s")
  case (Pair t admitted)
  assume s: "no_stall s"
  show ?thesis
  proof (cases admitted)
    case None
    then have "admit_prompt a r s = (t, None)"
      using Pair by simp
    from refused_step(1,2) [OF this] have "no_stall t"
      by (intro no_stall_same [OF s]) simp_all
    then show ?thesis
      using Pair None by (simp add: prompt_command_def)
  next
    case (Some q)
    then show ?thesis
      using Pair by (simp add: prompt_command_def case_prod_unfold Let_def start_no_stall)
  qed
qed

lemma notify_no_stall: "no_stall s \<Longrightarrow> no_stall (inject_notification_command b n e c f s)"
proof -
  assume "no_stall s"
  then have "no_stall (inject_notification b i n s)" for i
    by (rule no_stall_same) (simp_all add: inject_notification_def)
  then show ?thesis
    unfolding inject_notification_command_def Let_def by (cases "b \<and> pn_priority n = NextPriority") (auto intro: drain_no_stall)
qed

lemma flags_no_stall [simp]:
  "no_stall (hold_combine_edit row s) = no_stall s" "no_stall (release_combine_edit row s) = no_stall s"
  "no_stall (s\<lparr>notifications_suppressed := x, rewindable := y, pending_interjections := z, monitor_event_buffer := m\<rparr>) = no_stall s"
  by (simp_all add: no_stall_iff hold_combine_edit_def release_combine_edit_def)

lemmas arm_no_stall = prompt_no_stall remove_no_stall reorder_no_stall clear_no_stall edit_no_stall
  consumed_no_stall deferred_no_stall notify_no_stall

lemma started_no_stall:
  "no_stall (interject_queued_command i g c f row v owner t s)"
  "no_stall (cancel_command k w trigger e c f s)"
  "no_stall (completion_command p res cont fresh e c f s)"
  "no_stall (goal_summary_command uuid ch prompt c f s)"
  by (simp_all add: interject_queued_command_def cancel_command_def completion_command_def goal_summary_command_def
      Let_def case_prod_unfold start_no_stall drain_no_stall)

interpretation arms: inductive_invariant idle_session arm_step no_stall
proof unfold_locales
  show "no_stall s" if "idle_session s" for s
    using that by (simp add: no_stall_iff idle_session_def)
  show "no_stall t" if "no_stall s" "arm_step s t" for s t
    using that(2,1)
  proof (induction rule: arm_step.induct)
    case (arm_interject s b uuid ch c f entry)
    then show ?case
      by (simp add: interject_def start_no_stall) (simp add: no_stall_iff)
  next
    case (arm_workflow s w ch run_id revision c f)
    then show ?case
      by (simp add: workflow_completion_command_def Let_def start_no_stall)
  qed (simp_all add: arm_no_stall started_no_stall flags_no_stall)
qed

text \<open>
  C37. The queue never stalls.  A session is busy exactly when a turn runs: after any commands of clients, turn
  ends, cancellations, wakes and notifications, in any order, no prompt waits while no turn runs, although a
  prompt is started only by the arms that ask for it.
\<close>

theorem queue_never_stalls:
  assumes "reach idle_session arm_step s"
  shows "state_is_busy s = (running_task s \<noteq> None)"
  using arms.reach_inv [OF assms] by (simp add: no_stall_def)

definition ex_arm :: session where
  "ex_arm = goal_summary_command (lit ''1'') 7 (lit ''go on'') True (\<lambda>_ _. True) ex_empty"

theorem queue_never_stalls_witness:
  "state_is_busy ex_arm = (running_task ex_arm \<noteq> None) \<and> map ii_prompt_id (pending_inputs ex_arm) = [lit ''goal-summary-1'']"
proof
  have "reach idle_session arm_step ex_empty"
    by (rule reach_init) (simp add: idle_session_def ex_empty_def)
  then have "reach idle_session arm_step ex_arm"
    unfolding ex_arm_def by (rule reach_step) (rule arm_goal_summary)
  then show "state_is_busy ex_arm = (running_task ex_arm \<noteq> None)"
    by (rule queue_never_stalls)
  show "map ii_prompt_id (pending_inputs ex_arm) = [lit ''goal-summary-1'']"
    by code_simp
qed

end
