(* ===== verification/Manager_Inputs.thy ===== *)
theory Manager_Inputs
  imports Auto_Mode "HOL-Library.Word"
begin

text \<open>
  What the permission manager derives from a request before it decides (\<open>permission/manager.rs\<close> and the
  helpers it calls): the access a tool call stands for (\<open>types.rs\<close>), the qualified names of MCP tools
  (\<open>xai-grok-mcp\<close>, \<open>xai-tool-protocol\<close>), the allowlist of web domains (\<open>web_fetch/domain.rs\<close>), the path an
  edit tool will really open (\<open>types/resources.rs\<close>), the scan of local git configuration
  (\<open>exec_risk.rs\<close>), and the file that keeps the grants (\<open>state.rs\<close>).

  The URL parser, tilde expansion, the git library and the text form of TOML values are arguments.
\<close>

section \<open>From a tool call to an access\<close>

text \<open>\<open>ToolInput\<close>, with the arguments the access depends on; \<open>OtherInput\<close> stands for the variants that only the
  wildcard arm covers and that name no file.\<close>

datatype tool_input =
    ReadFileInput str
  | SearchReplaceInput str
  | BashInput str
  | GrepInput "str option" "str option"
  | ListDirInput str
  | TodoWriteInput
  | SkillInput
  | MCPInput str str
  | TaskOutputInput
  | WaitTasksInput
  | KillTaskInput
  | WebSearchInput str
  | WebFetchInput str
  | WriteInput str
  | ApplyPatchInput str
  | HashlineEditInput str
  | CodexListDirInput str
  | CodexGrepFilesInput str
  | CodexReadFileInput str
  | UseToolInput str str
  | MonitorInput str
  | DynamicInput
  | OtherInput

fun access_of_input :: "tool_input \<Rightarrow> access_kind" where
  "access_of_input (ReadFileInput path) = ReadAccess (Some path)"
| "access_of_input (ListDirInput target_directory) = ReadAccess (Some target_directory)"
| "access_of_input (GrepInput path glob) = GrepAccess path glob"
| "access_of_input TodoWriteInput = ReadAccess None"
| "access_of_input TaskOutputInput = ReadAccess None"
| "access_of_input WaitTasksInput = ReadAccess None"
| "access_of_input KillTaskInput = ReadAccess None"
| "access_of_input SkillInput = ReadAccess None"
| "access_of_input (WebSearchInput query) = WebSearchAccess query"
| "access_of_input (SearchReplaceInput file_path) = EditAccess file_path"
| "access_of_input (ApplyPatchInput patch) = EditAccess (lit ''apply_patch'')"
| "access_of_input (HashlineEditInput file_path) = EditAccess file_path"
| "access_of_input (WriteInput file_path) = EditAccess file_path"
| "access_of_input (BashInput command) = BashAccess command"
| "access_of_input (MonitorInput command) = BashAccess command"
| "access_of_input (MCPInput tool_name input) = MCPToolAccess tool_name input"
| "access_of_input (UseToolInput tool_name input) = MCPToolAccess tool_name input"
| "access_of_input (WebFetchInput url) = WebFetchAccess url"
| "access_of_input DynamicInput = ReadAccess None"
| "access_of_input _ = ReadAccess None"

definition tool_name_for_access :: "access_kind \<Rightarrow> str" where
  "tool_name_for_access access =
     (case access of
        ReadAccess _ \<Rightarrow> lit ''read_file''
      | GrepAccess _ _ \<Rightarrow> lit ''grep''
      | EditAccess _ \<Rightarrow> lit ''search_replace''
      | BashAccess _ \<Rightarrow> lit ''run_terminal_command''
      | MCPToolAccess name _ \<Rightarrow> lit ''mcp:'' @ name
      | WebFetchAccess _ \<Rightarrow> lit ''web_fetch''
      | WebSearchAccess _ \<Rightarrow> lit ''web_search'')"

definition MCP_ACCESS_DETAIL_MAX_LEN :: nat where "MCP_ACCESS_DETAIL_MAX_LEN = 1024"

text \<open>The arguments are kept as their compact JSON text, so a null input is the text \<open>null\<close>.\<close>

definition mcp_access_detail :: "str \<Rightarrow> str \<Rightarrow> str" where
  "mcp_access_detail name input =
     (if input = lit ''null'' then name
      else truncate_line (name @ lit '' '' @ input) MCP_ACCESS_DETAIL_MAX_LEN)"

definition access_labels :: "access_kind \<Rightarrow> str \<times> str option" where
  "access_labels access =
     (case access of
        ReadAccess _ \<Rightarrow> (lit ''read'', None)
      | GrepAccess path _ \<Rightarrow> (lit ''grep'', path)
      | EditAccess path \<Rightarrow> (lit ''edit'', Some path)
      | BashAccess cmd \<Rightarrow> (lit ''bash'', Some cmd)
      | MCPToolAccess name input \<Rightarrow> (lit ''mcp'', Some (mcp_access_detail name input))
      | WebFetchAccess url \<Rightarrow> (lit ''web_fetch'', Some url)
      | WebSearchAccess query \<Rightarrow> (lit ''web_search'', Some query))"

definition CLASSIFIER_TURN_MAX_LEN :: nat where "CLASSIFIER_TURN_MAX_LEN = 400"

text \<open>The truncation never fails (\<open>truncate_str_exact\<close>), so the second case is not taken.\<close>

definition permission_decision_args :: "(json \<Rightarrow> str) \<Rightarrow> access_kind \<Rightarrow> str option \<Rightarrow> str" where
  "permission_decision_args to_json access access_detail =
     (let raw = (case access of
           BashAccess cmd \<Rightarrow> to_json (JObject [(lit ''command'', JString cmd)])
         | _ \<Rightarrow> (case access_detail of Some d \<Rightarrow> d | None \<Rightarrow> lit ''(none)''))
      in case truncate_str_with_marker raw CLASSIFIER_TURN_MAX_LEN of Ok args \<Rightarrow> args | _ \<Rightarrow> [])"

section \<open>Qualified names of MCP tools\<close>

definition is_id_char :: "uchar \<Rightarrow> bool" where
  "is_id_char c \<longleftrightarrow> is_ascii_alphanumeric c \<or> c = 95 \<or> c = 45"

definition is_valid_segment :: "str \<Rightarrow> bool" where
  "is_valid_segment s \<longleftrightarrow> s \<noteq> [] \<and> list_all is_id_char s"

text \<open>\<open>splitn(3, ':')\<close> has a third piece exactly when there are two or more colons.\<close>

definition is_well_formed_tool_id :: "str \<Rightarrow> bool" where
  "is_well_formed_tool_id s =
     (case split_char 58 s of
        [first] \<Rightarrow> is_valid_segment first
      | [first, second] \<Rightarrow> is_valid_segment first \<and> is_valid_segment second
      | _ \<Rightarrow> False)"

text \<open>The positions of \<open>__\<close>, overlapping ones included; the delimiter is ASCII, so bytes and characters agree.\<close>

definition delimiter_positions :: "str \<Rightarrow> nat list" where
  "delimiter_positions name =
     filter (\<lambda>i. name ! i = 95 \<and> name ! Suc i = 95) [0..<length name - 1]"

definition parse_mcp_qualified_name :: "str \<Rightarrow> (str \<times> str \<times> str) option" where
  "parse_mcp_qualified_name name =
     (case delimiter_positions name of
        [boundary] \<Rightarrow>
          (let server = take boundary name; tool = drop (boundary + 2) name in
           if server = [] \<or> tool = [] then None
           else if is_well_formed_tool_id name then Some (name, server, tool)
           else None)
      | _ \<Rightarrow> None)"

definition mcp_server_prefix_allowed :: "str \<Rightarrow> str list \<Rightarrow> bool" where
  "mcp_server_prefix_allowed name servers \<longleftrightarrow>
     servers \<noteq> [] \<and>
     (case parse_mcp_qualified_name name of Some (_, server, _) \<Rightarrow> server \<in> set servers | None \<Rightarrow> False)"

definition mcp_pre_decision :: "str \<Rightarrow> permission_state \<Rightarrow> bool \<Rightarrow> bool \<Rightarrow> decision option" where
  "mcp_pre_decision name state forced remember_tool_approvals =
     (if forced \<and> \<not> remember_tool_approvals then None
      else if name \<in> set (ps_allowed_mcp_tools state) then Some Allow
      else if mcp_server_prefix_allowed name (ps_allowed_mcp_servers state) then Some Allow
      else None)"

section \<open>The allowlist of web domains\<close>

datatype host_entry = AnyPath | PathPrefixes "str list"

type_synonym domain_matcher = "(str, host_entry) hmap"

definition matcher_add :: "'g policy_env \<Rightarrow> domain_matcher \<Rightarrow> str \<Rightarrow> domain_matcher" where
  "matcher_add env entries raw =
     (let normalized = normalize_domain env raw;
          host = takeWhile (\<lambda>c. c \<noteq> 47) normalized;
          path = dropWhile (\<lambda>c. c \<noteq> 47) normalized
      in if normalized = [] then entries
         else if path = [] then hm_insert host AnyPath entries
         else if hm_get entries host = Some AnyPath then entries
         else let pre = trim_end_char 47 path in
           if pre = [] \<or> pre = lit ''/'' then hm_insert host AnyPath entries
           else let pre = (if starts_with (lit ''/'') pre then pre else lit ''/'' @ pre) in
             (case hm_get entries host of
                Some (PathPrefixes v) \<Rightarrow>
                  if pre \<in> set v then entries else hm_insert host (PathPrefixes (v @ [pre])) entries
              | Some AnyPath \<Rightarrow> entries
              | None \<Rightarrow> hm_insert host (PathPrefixes [pre]) entries))"

definition domain_matcher_new :: "'g policy_env \<Rightarrow> str list \<Rightarrow> domain_matcher" where
  "domain_matcher_new env raw_entries = foldl (matcher_add env) [] raw_entries"

definition path_under :: "str \<Rightarrow> str \<Rightarrow> bool" where
  "path_under pre url_path \<longleftrightarrow>
     url_path = pre \<or> (case strip_prefix pre url_path of Some (c # _) \<Rightarrow> c = 47 | _ \<Rightarrow> False)"

text \<open>\<open>check\<close> returns \<open>None\<close>, the URL is permitted.  \<open>url_path\<close> is \<open>Url::path\<close> of the parsed URL.\<close>

definition matcher_permits :: "'g policy_env \<Rightarrow> (str \<Rightarrow> str) \<Rightarrow> domain_matcher \<Rightarrow> str \<Rightarrow> bool" where
  "matcher_permits env url_path entries url =
     (case pe_url_host env url of
        None \<Rightarrow> False
      | Some raw_host \<Rightarrow>
          (case hm_get entries (normalize_domain env raw_host) of
             Some AnyPath \<Rightarrow> True
           | Some (PathPrefixes pres) \<Rightarrow>
               list_ex (\<lambda>pre. path_under pre (pe_to_lowercase env (url_path url))) pres
           | None \<Rightarrow> False))"

definition DEFAULT_ALLOWED_DOMAINS :: "str list" where
  "DEFAULT_ALLOWED_DOMAINS = map lit
     [''x.ai'', ''console.x.ai'', ''docs.x.ai'', ''api.x.ai'', ''docs.python.org'', ''en.cppreference.com'',
      ''docs.oracle.com'', ''learn.microsoft.com'', ''developer.mozilla.org'', ''go.dev'', ''pkg.go.dev'',
      ''www.php.net'', ''docs.swift.org'', ''kotlinlang.org'', ''ruby-doc.org'', ''doc.rust-lang.org'',
      ''docs.rs'', ''www.typescriptlang.org'', ''react.dev'', ''angular.io'', ''vuejs.org'', ''nextjs.org'',
      ''expressjs.com'', ''nodejs.org'', ''bun.sh'', ''jquery.com'', ''getbootstrap.com'',
      ''tailwindcss.com'', ''d3js.org'', ''threejs.org'', ''redux.js.org'', ''webpack.js.org'', ''jestjs.io'',
      ''reactrouter.com'', ''docs.djangoproject.com'', ''flask.palletsprojects.com'',
      ''fastapi.tiangolo.com'', ''pandas.pydata.org'', ''numpy.org'', ''www.tensorflow.org'', ''pytorch.org'',
      ''scikit-learn.org'', ''matplotlib.org'', ''requests.readthedocs.io'', ''jupyter.org'', ''laravel.com'',
      ''symfony.com'', ''wordpress.org'', ''docs.spring.io'', ''hibernate.org'', ''tomcat.apache.org'',
      ''gradle.org'', ''maven.apache.org'', ''asp.net'', ''dotnet.microsoft.com'', ''nuget.org'',
      ''blazor.net'', ''reactnative.dev'', ''docs.flutter.dev'', ''developer.apple.com'',
      ''developer.android.com'', ''keras.io'', ''spark.apache.org'', ''huggingface.co'', ''www.kaggle.com'',
      ''redis.io'', ''www.postgresql.org'', ''dev.mysql.com'', ''www.sqlite.org'', ''graphql.org'',
      ''prisma.io'', ''docs.aws.amazon.com'', ''cloud.google.com'', ''kubernetes.io'', ''www.docker.com'',
      ''www.terraform.io'', ''www.ansible.com'', ''vercel.com/docs'', ''docs.netlify.com'',
      ''devcenter.heroku.com'', ''cypress.io'', ''selenium.dev'', ''docs.unity.com'',
      ''docs.unrealengine.com'', ''git-scm.com'', ''nginx.org'', ''httpd.apache.org'']"

section \<open>The path an edit opens\<close>

function strip_escapes :: "str \<Rightarrow> str" where
  "strip_escapes s =
     (case or_else (strip_suffix [92, 110] s) (or_else (strip_suffix [92, 114] s) (strip_suffix [92, 116] s)) of
        Some stripped \<Rightarrow> strip_escapes (trim_end stripped)
      | None \<Rightarrow> s)"
  by pat_completeness auto

lemma strip_suffix_Some_iff: "strip_suffix p s = Some t \<longleftrightarrow> s = t @ p"
  by (auto simp: strip_suffix_def strip_prefix_Some_iff) (metis rev_append rev_rev_ident)

lemma length_trim_end: "length (trim_end s) \<le> length s"
  by (simp add: trim_end_def) (metis length_dropWhile_le length_rev)

termination strip_escapes
proof (relation "measure length")
  fix s stripped
  assume "or_else (strip_suffix [92, 110] s) (or_else (strip_suffix [92, 114] s) (strip_suffix [92, 116] s)) =
    Some stripped"
  then have "length stripped < length s"
    by (auto simp: or_else_def strip_suffix_Some_iff split: option.splits)
  then show "(trim_end stripped, s) \<in> measure length"
    using length_trim_end [of stripped] by simp
qed simp

declare strip_escapes.simps [simp del]

definition is_quote :: "uchar \<Rightarrow> bool" where
  "is_quote c \<longleftrightarrow> c = 34 \<or> c = 39"

definition sanitize_model_path_arg :: "str \<Rightarrow> str" where
  "sanitize_model_path_arg input =
     (let trimmed = trim input;
          quote_wrapped = (2 \<le> str_len trimmed \<and> is_quote (hd trimmed) \<and> is_quote (last trimmed));
          unquoted = trim (trim_matches is_quote trimmed)
      in if \<not> quote_wrapped then unquoted else strip_escapes unquoted)"

text \<open>
  \<open>Path::strip_prefix\<close> of absolute paths: the text after the matched components, without separators and
  dots at either end.
\<close>

primrec skip_components :: "nat \<Rightarrow> str list \<Rightarrow> str list" where
  "skip_components 0 pieces = trailing pieces"
| "skip_components (Suc n) pieces = skip_components n (tl (trailing pieces))"

definition path_strip_prefix :: "str \<Rightarrow> str \<Rightarrow> str option" where
  "path_strip_prefix p base =
     (if path_starts_with p base then
        Some (join (lit ''/'')
          (rev (trailing (rev (skip_components (length (path_components base) - 1) (tl (split_char 47 p)))))))
      else None)"

definition resolve_model_path :: "(str \<Rightarrow> str) \<Rightarrow> str \<Rightarrow> str option \<Rightarrow> str \<Rightarrow> str" where
  "resolve_model_path tilde cwd display_cwd input =
     (let expanded = tilde (sanitize_model_path_arg input) in
      if display_cwd \<noteq> None \<and> is_abs expanded then
        (case path_strip_prefix expanded (the display_cwd) of
           Some rest \<Rightarrow> path_join cwd rest
         | None \<Rightarrow> expanded)
      else if \<not> is_abs expanded \<and> expanded \<noteq> [] then
        (case path_strip_prefix (lit ''/'' @ expanded) (case display_cwd of Some d \<Rightarrow> d | None \<Rightarrow> cwd) of
           Some rest \<Rightarrow> path_join cwd rest
         | None \<Rightarrow> path_join cwd expanded)
      else path_join cwd expanded)"

section \<open>Local git configuration\<close>

datatype open_result = OpenedFile | OpenedOther | OpenNotFound | OpenError   \<comment> \<open>\<open>File::open\<close> and \<open>metadata\<close>\<close>

record git_repo =
  gr_path :: str
  gr_commondir :: str
  gr_entries :: "(bool \<times> str \<times> str) option list option"   \<comment> \<open>local or worktree level, name, value\<close>

datatype discover_result = RepoFound git_repo | RepoNotFound | RepoError

record git_library =
  gl_discover :: "str \<Rightarrow> discover_result"
  gl_open :: "str \<Rightarrow> open_result"
  gl_parse_bool :: "str \<Rightarrow> bool"        \<comment> \<open>\<open>Config::parse_bool\<close> succeeds\<close>

definition SAFE_GIT_SUBCOMMANDS :: "str list" where
  "SAFE_GIT_SUBCOMMANDS = map lit [''status'', ''branch'', ''log'', ''diff'', ''ls-files'', ''show'', ''rev-parse'']"

definition local_git_config_entry_is_exec :: "(str \<Rightarrow> bool) \<Rightarrow> str \<Rightarrow> str \<Rightarrow> bool" where
  "local_git_config_entry_is_exec parse_bool name value =
     (let name = to_ascii_lowercase name; value = trim value in
      if value = [] then False
      else if name = lit ''core.fsmonitor'' then \<not> parse_bool value
      else if name = lit ''diff.external'' then True
      else if (case strip_prefix (lit ''diff.'') name of
            Some rest \<Rightarrow> ends_with (lit ''.command'') rest \<or> ends_with (lit ''.textconv'') rest \<or>
              ends_with (lit ''.external'') rest
          | None \<Rightarrow> False) then True
      else (case strip_prefix (lit ''alias.'') name of
          Some alias \<Rightarrow> alias \<in> set SAFE_GIT_SUBCOMMANDS \<and> starts_with (lit ''!'') value
        | None \<Rightarrow> False))"

definition path_unreadable :: "git_library \<Rightarrow> str \<Rightarrow> bool" where
  "path_unreadable git path \<longleftrightarrow> gl_open git path \<in> {OpenedOther, OpenError}"

fun entries_have_exec :: "(str \<Rightarrow> bool) \<Rightarrow> (bool \<times> str \<times> str) option list \<Rightarrow> bool" where
  "entries_have_exec parse_bool [] = False"
| "entries_have_exec parse_bool (None # es) = True"
| "entries_have_exec parse_bool (Some (is_local, name, value) # es) =
     (if is_local \<and> local_git_config_entry_is_exec parse_bool name value then True
      else entries_have_exec parse_bool es)"

definition local_repo_config_has_exec_risk :: "git_library \<Rightarrow> str \<Rightarrow> bool" where
  "local_repo_config_has_exec_risk git cwd =
     (case gl_discover git cwd of
        RepoNotFound \<Rightarrow> False
      | RepoError \<Rightarrow> True
      | RepoFound repo \<Rightarrow>
          if path_unreadable git (path_join (gr_commondir repo) (lit ''config'')) \<or>
             path_unreadable git (path_join (gr_path repo) (lit ''config'')) \<or>
             path_unreadable git (path_join (gr_path repo) (lit ''config.worktree'')) then True
          else (case gr_entries repo of
              None \<Rightarrow> True
            | Some entries \<Rightarrow> entries_have_exec (gl_parse_bool git) entries))"

definition is_static_path_operand :: "str \<Rightarrow> bool" where
  "is_static_path_operand p \<longleftrightarrow>
     p \<noteq> [] \<and> p \<noteq> lit ''-'' \<and> \<not> starts_with (lit ''-'') p \<and> 36 \<notin> set p \<and> 96 \<notin> set p \<and>
     \<not> str_contains (lit ''$('') p"

definition join_cwd :: "str \<Rightarrow> str \<Rightarrow> str" where
  "join_cwd base operand = (if is_abs operand then operand else path_join base operand)"

text \<open>The first argument is the target found so far; an early return and a missing target are both \<open>None\<close>.\<close>

fun chdir_target :: "str option \<Rightarrow> argv \<Rightarrow> str option" where
  "chdir_target target [] = target"
| "chdir_target target (tok # args) =
     (if tok = lit ''--'' then (case args of [] \<Rightarrow> None | a # _ \<Rightarrow> Some a)
      else if starts_with (lit ''-'') tok then None
      else if target \<noteq> None then None
      else chdir_target (Some tok) args)"

definition apply_literal_chdir :: "str \<Rightarrow> argv \<Rightarrow> str option" where
  "apply_literal_chdir cwd words =
     (case chdir_target None (drop 1 words) of
        None \<Rightarrow> None
      | Some target \<Rightarrow> if is_static_path_operand target then Some (join_cwd cwd target) else None)"

function (sequential) git_cwd_scan :: "str \<Rightarrow> argv \<Rightarrow> str option" where
  "git_cwd_scan cwd [] = Some cwd"
| "git_cwd_scan cwd (tok # rest) =
     (if tok = lit ''--'' \<or> \<not> starts_with (lit ''-'') tok \<or> tok = lit ''-'' then Some cwd
      else if is_git_repo_retarget_flag tok then None
      else if tok = lit ''-C'' then
        (case rest of
           [] \<Rightarrow> None
         | path # rest' \<Rightarrow>
             if is_static_path_operand path then git_cwd_scan (join_cwd cwd path) rest' else None)
      else (case attached_git_c_path tok of
          Some path \<Rightarrow>
            if is_static_path_operand path then git_cwd_scan (join_cwd cwd path) rest else None
        | None \<Rightarrow>
            if git_skips_value tok rest then git_cwd_scan cwd (drop 1 rest) else git_cwd_scan cwd rest))"
  by pat_completeness auto
termination by (relation "measure (length \<circ> snd)") simp_all

definition git_effective_cwd :: "argv \<Rightarrow> str \<Rightarrow> str option" where
  "git_effective_cwd words start_cwd = git_cwd_scan start_cwd (drop 1 words)"

datatype ambient_scan_plan = FailClosed | CheckDirs "str list"

fun ambient_loop :: "str \<Rightarrow> str list \<Rightarrow> argv list \<Rightarrow> ambient_scan_plan" where
  "ambient_loop cwd git_cwds [] = (if git_cwds = [] then FailClosed else CheckDirs git_cwds)"
| "ambient_loop cwd git_cwds (raw # segments) =
     (case normalize_for_exec_risk raw of
        None \<Rightarrow> FailClosed
      | Some words \<Rightarrow>
          let name = normalized_program_name words in
          if name = Some (lit ''cd'') \<or> name = Some (lit ''pushd'') then
            (case apply_literal_chdir cwd words of
               Some next_cwd \<Rightarrow> ambient_loop next_cwd git_cwds segments
             | None \<Rightarrow> FailClosed)
          else if name = Some (lit ''popd'') then FailClosed
          else if name = Some (lit ''git'') then
            (case git_effective_cwd words cwd of
               Some effective \<Rightarrow> ambient_loop cwd (git_cwds @ [effective]) segments
             | None \<Rightarrow> FailClosed)
          else ambient_loop cwd git_cwds segments)"

definition ambient_scan_plan_from_segments :: "argv list \<Rightarrow> str \<Rightarrow> ambient_scan_plan" where
  "ambient_scan_plan_from_segments raw_segments session_cwd = ambient_loop session_cwd [] raw_segments"

definition ambient_exec_risk_from_plan :: "git_library \<Rightarrow> ambient_scan_plan \<Rightarrow> bool" where
  "ambient_exec_risk_from_plan git plan =
     (case plan of
        FailClosed \<Rightarrow> True
      | CheckDirs dirs \<Rightarrow> list_ex (local_repo_config_has_exec_risk git) dirs)"

section \<open>The file of grants\<close>

definition VALIDATED_MCP_SERVER_GRANTS_VERSION :: int where "VALIDATED_MCP_SERVER_GRANTS_VERSION = 1"

definition default_state :: permission_state where
  "default_state =
     \<lparr>ps_edit_policy = EditAsk, ps_allow_bash_execute = False, ps_allowed_bash_commands = [],
      ps_disallowed_bash_commands = [], ps_allowed_web_fetch_domains = [], ps_allowed_mcp_tools = [],
      ps_allowed_mcp_servers = [],
      ps_validated_mcp_server_grants_version = VALIDATED_MCP_SERVER_GRANTS_VERSION\<rparr>"

definition sanitize_client_id :: "str \<Rightarrow> str" where
  "sanitize_client_id client = map (\<lambda>c. if is_ascii_alphanumeric c \<or> c = 45 \<or> c = 95 then c else 95) client"

text \<open>The name of the file in the directory of the session.\<close>

definition state_file_path :: "str option \<Rightarrow> str" where
  "state_file_path client_identifier =
     (case client_identifier of
        Some client \<Rightarrow> lit ''permission_'' @ sanitize_client_id client @ lit ''.toml''
      | None \<Rightarrow> lit ''permission.toml'')"

text \<open>
  \<open>toml::Value\<close>; \<open>TOther\<close> stands for floats and dates.  The text form of a value, \<open>to_string_pretty\<close> and
  \<open>from_str\<close> of the \<open>toml\<close> crate, is an argument: both may fail.
\<close>

datatype toml =
    TString str
  | TInt "64 word"
  | TBool bool
  | TArray "toml list"
  | TTable "(str \<times> toml) list"
  | TOther str

record toml_crate =
  toml_to_string :: "toml \<Rightarrow> str option"
  toml_from_str :: "str \<Rightarrow> toml option"

text \<open>The derived writer of \<open>PermissionState\<close> and the written one of \<open>EditPolicy\<close>: every field, by its name.\<close>

fun serialize_edit_policy :: "edit_policy \<Rightarrow> toml" where
  "serialize_edit_policy EditAsk = TString (lit ''ask'')"
| "serialize_edit_policy EditAllow = TString (lit ''allow'')"
| "serialize_edit_policy EditReject = TString (lit ''reject'')"

definition serialize_set :: "str list \<Rightarrow> toml" where
  "serialize_set xs = TArray (map TString xs)"

definition state_fields :: "permission_state \<Rightarrow> (str \<times> toml) list" where
  "state_fields st =
     [(lit ''edit_policy'', serialize_edit_policy (ps_edit_policy st)),
      (lit ''allow_bash_execute'', TBool (ps_allow_bash_execute st)),
      (lit ''allowed_bash_commands'', serialize_set (ps_allowed_bash_commands st)),
      (lit ''disallowed_bash_commands'', serialize_set (ps_disallowed_bash_commands st)),
      (lit ''allowed_web_fetch_domains'', serialize_set (ps_allowed_web_fetch_domains st)),
      (lit ''allowed_mcp_tools'', serialize_set (ps_allowed_mcp_tools st)),
      (lit ''allowed_mcp_servers'', serialize_set (ps_allowed_mcp_servers st)),
      (lit ''validated_mcp_server_grants_version'',
         TInt (word_of_int (ps_validated_mcp_server_grants_version st)))]"

text \<open>
  The readers.  A field of another type is an error for the whole state; a missing field has the value of the
  default state, except the version, which is then the legacy one; other fields are ignored.
\<close>

definition deserialize_edit_policy :: "toml \<Rightarrow> edit_policy option" where
  "deserialize_edit_policy v =
     (case v of
        TString s \<Rightarrow>
          if s = lit ''ask'' then Some EditAsk
          else if s = lit ''allow'' then Some EditAllow
          else if s = lit ''reject'' then Some EditReject
          else None
      | _ \<Rightarrow> None)"

definition deserialize_bool :: "toml \<Rightarrow> bool option" where
  "deserialize_bool v = (case v of TBool b \<Rightarrow> Some b | _ \<Rightarrow> None)"

fun deserialize_strings :: "toml list \<Rightarrow> str list option" where
  "deserialize_strings [] = Some []"
| "deserialize_strings (TString s # vs) = map_option (\<lambda>xs. List.insert s xs) (deserialize_strings vs)"
| "deserialize_strings (_ # vs) = None"

definition deserialize_set :: "toml \<Rightarrow> str list option" where
  "deserialize_set v = (case v of TArray vs \<Rightarrow> deserialize_strings vs | _ \<Rightarrow> None)"

definition legacy_mcp_server_grants_version :: int where "legacy_mcp_server_grants_version = 0"

definition deserialize_mcp_server_grants_version :: "toml \<Rightarrow> int option" where
  "deserialize_mcp_server_grants_version v =
     Some (case v of TInt n \<Rightarrow> if 0 \<le> sint n then sint n else 0 | _ \<Rightarrow> 0)"

definition read_field :: "(str \<rightharpoonup> toml) \<Rightarrow> string \<Rightarrow> (toml \<Rightarrow> 'a option) \<Rightarrow> 'a \<Rightarrow> 'a option" where
  "read_field t name read missing = (case t (lit name) of None \<Rightarrow> Some missing | Some v \<Rightarrow> read v)"

definition read_state :: "(str \<rightharpoonup> toml) \<Rightarrow> permission_state option" where
  "read_state t =
     Option.bind (read_field t ''edit_policy'' deserialize_edit_policy (ps_edit_policy default_state)) (\<lambda>policy.
     Option.bind (read_field t ''allow_bash_execute'' deserialize_bool (ps_allow_bash_execute default_state)) (\<lambda>blanket.
     Option.bind (read_field t ''allowed_bash_commands'' deserialize_set (ps_allowed_bash_commands default_state)) (\<lambda>allowed.
     Option.bind (read_field t ''disallowed_bash_commands'' deserialize_set (ps_disallowed_bash_commands default_state)) (\<lambda>disallowed.
     Option.bind (read_field t ''allowed_web_fetch_domains'' deserialize_set (ps_allowed_web_fetch_domains default_state)) (\<lambda>domains.
     Option.bind (read_field t ''allowed_mcp_tools'' deserialize_set (ps_allowed_mcp_tools default_state)) (\<lambda>tools.
     Option.bind (read_field t ''allowed_mcp_servers'' deserialize_set (ps_allowed_mcp_servers default_state)) (\<lambda>servers.
     Option.bind (read_field t ''validated_mcp_server_grants_version'' deserialize_mcp_server_grants_version
       legacy_mcp_server_grants_version) (\<lambda>version.
       Some \<lparr>ps_edit_policy = policy, ps_allow_bash_execute = blanket, ps_allowed_bash_commands = allowed,
             ps_disallowed_bash_commands = disallowed, ps_allowed_web_fetch_domains = domains,
             ps_allowed_mcp_tools = tools, ps_allowed_mcp_servers = servers,
             ps_validated_mcp_server_grants_version = version\<rparr>))))))))"

definition deserialize_state :: "toml \<Rightarrow> permission_state option" where
  "deserialize_state v = (case v of TTable t \<Rightarrow> read_state (map_of t) | _ \<Rightarrow> None)"

text \<open>A file is missing or unreadable, or has a text.\<close>

datatype state_file = NoFile | FileText str

type_synonym disk = "str \<Rightarrow> state_file"

definition write_state :: "toml_crate \<Rightarrow> bool \<Rightarrow> str \<Rightarrow> permission_state \<Rightarrow> disk \<Rightarrow> disk" where
  "write_state crate writable path state d =
     (case toml_to_string crate (TTable (state_fields state)) of
        Some contents \<Rightarrow> if writable then d(path := FileText contents) else d
      | None \<Rightarrow> d)"

definition state_of_text :: "toml_crate \<Rightarrow> str \<Rightarrow> permission_state" where
  "state_of_text crate contents =
     (case Option.bind (toml_from_str crate contents) deserialize_state of
        Some state \<Rightarrow> state | None \<Rightarrow> default_state)"

definition try_load_state :: "toml_crate \<Rightarrow> bool \<Rightarrow> str \<Rightarrow> disk \<Rightarrow> permission_state option \<times> disk" where
  "try_load_state crate writable path d =
     (case d path of
        NoFile \<Rightarrow> (None, d)
      | FileText contents \<Rightarrow>
          (let state = state_of_text crate contents in
           if ps_validated_mcp_server_grants_version state < VALIDATED_MCP_SERVER_GRANTS_VERSION then
             (let state = state\<lparr>ps_allowed_mcp_servers := [],
                   ps_validated_mcp_server_grants_version := VALIDATED_MCP_SERVER_GRANTS_VERSION\<rparr>
              in (Some state, write_state crate writable path state d))
           else (Some state, d)))"

definition load_state_from_dir :: "toml_crate \<Rightarrow> bool \<Rightarrow> str option \<Rightarrow> disk \<Rightarrow> permission_state \<times> disk" where
  "load_state_from_dir crate writable client_identifier d =
     (let generic = (\<lambda>d. case try_load_state crate writable (state_file_path None) d of
            (Some state, d) \<Rightarrow> (state, d) | (None, d) \<Rightarrow> (default_state, d))
      in case client_identifier of
           None \<Rightarrow> generic d
         | Some client \<Rightarrow>
             (case try_load_state crate writable (state_file_path (Some client)) d of
                (Some state, d) \<Rightarrow> (state, d)
              | (None, d) \<Rightarrow> generic d))"

definition persist_state :: "toml_crate \<Rightarrow> bool \<Rightarrow> str option \<Rightarrow> permission_state \<Rightarrow> disk \<Rightarrow> disk" where
  "persist_state crate writable client_identifier state d =
     write_state crate writable (state_file_path client_identifier) state d"

end
