(* ===== verification/Permission_Prompter.thy ===== *)
theory Permission_Prompter
  imports Manager_Inputs
begin

text \<open>
  Asking the user (\<open>permission/prompter.rs\<close>, \<open>permission/hub_permission.rs\<close>): the options a client is shown for an
  access, and what the manager is told of the option the client selected, over the local protocol or through
  the chat server.  The transport itself is an argument: its reply, or its failure.
\<close>

section \<open>Options\<close>

datatype client_type = Generic | GrokTUI | GrokWeb | Nebula | Extension | GrokPager | Desktop

datatype option_kind = KindAllowOnce | KindAllowAlways | KindRejectOnce | KindRejectAlways | KindOther

record prompt_option =
  po_id :: str
  po_label :: str
  po_kind :: option_kind

definition option_of :: "string \<Rightarrow> str \<Rightarrow> option_kind \<Rightarrow> prompt_option" where
  "option_of i label k = \<lparr>po_id = lit i, po_label = label, po_kind = k\<rparr>"

definition REJECT_ONCE_LABEL :: str where
  "REJECT_ONCE_LABEL = lit ''No, and tell Grok what to do differently''"

definition ALLOW_EDITS_SESSION_OPTION_ID :: str where
  "ALLOW_EDITS_SESSION_OPTION_ID = lit ''allow-edits-session''"

definition ENABLE_ALWAYS_APPROVE_OPTION_ID :: str where
  "ENABLE_ALWAYS_APPROVE_OPTION_ID = lit ''enable-always-approve''"

definition edit_options :: "prompt_option list" where
  "edit_options =
     [option_of ''allow-edits-session'' (lit ''Yes, allow all edits during this session'') KindAllowAlways,
      option_of ''allow-once'' (lit ''Yes'') KindAllowOnce,
      option_of ''reject-once'' REJECT_ONCE_LABEL KindRejectOnce]"

definition bash_options :: "prompt_option list" where
  "bash_options =
     [option_of ''allow-once'' (lit ''Yes, proceed'') KindAllowOnce,
      option_of ''reject-once'' REJECT_ONCE_LABEL KindRejectOnce]"

definition generic_bash_options :: "prompt_option list" where
  "generic_bash_options =
     [option_of ''always-allow'' (lit ''Yes, and don'' @ [39] @ lit ''t ask again for bash commands'') KindAllowAlways,
      option_of ''allow-once'' (lit ''Yes, proceed'') KindAllowOnce,
      option_of ''reject-once'' REJECT_ONCE_LABEL KindRejectOnce,
      option_of ''reject-always'' (lit ''No, and don'' @ [39] @ lit ''t run bash commands'') KindRejectAlways]"

definition fallback_options :: "prompt_option list" where
  "fallback_options =
     [option_of ''always-allow'' (lit ''always allow'') KindAllowAlways,
      option_of ''allow-once'' (lit ''allow once'') KindAllowOnce,
      option_of ''reject-once'' (lit ''reject once'') KindRejectOnce]"

text \<open>\<open>highlighted_words\<close> of \<open>primary_command_from_script\<close>; the words around it are only shown.\<close>

definition primary_command_words :: "(str \<Rightarrow> tree option) \<Rightarrow> str \<Rightarrow> argv option" where
  "primary_command_words try_parse_shell script =
     (case try_parse_shell script of
        None \<Rightarrow> None
      | Some t \<Rightarrow>
          (case try_parse_word_only_commands_sequence t script of
             None \<Rightarrow> None
           | Some commands \<Rightarrow> map_option pc_words (find (\<lambda>c. \<not> is_setup_command (pc_words c)) commands)))"

definition bash_scope_option :: "string \<Rightarrow> string \<Rightarrow> option_kind \<Rightarrow> argv \<Rightarrow> prompt_option" where
  "bash_scope_option i pre k primary = option_of i (lit pre @ lit '' '' @ join (lit '' '') primary) k"

definition client_supports_enable_always_approve :: "client_type \<Rightarrow> bool" where
  "client_supports_enable_always_approve c \<longleftrightarrow> c \<in> {GrokTUI, GrokPager, Desktop}"

definition domain_from_url :: "'g policy_env \<Rightarrow> str \<Rightarrow> str option" where
  "domain_from_url env url = map_option (normalize_domain env) (pe_url_host env url)"

text \<open>The options of one prompt, in the order they are shown; identifiers are distinct, so an \<open>IndexMap\<close> is a list.\<close>

definition build_options_inner :: "'g policy_env \<Rightarrow> client_type \<Rightarrow> access_kind \<Rightarrow> prompt_option list" where
  "build_options_inner env client access =
     (case access of
        EditAccess _ \<Rightarrow> edit_options
      | BashAccess cmd \<Rightarrow>
          if client_supports_enable_always_approve client then
            (case primary_command_words (pe_parse_shell env) cmd of
               Some primary \<Rightarrow>
                 [bash_scope_option ''allow-always-command'' ''Always allow:'' KindAllowAlways primary] @ bash_options @
                 [bash_scope_option ''reject-always-command'' ''Never allow:'' KindRejectAlways primary]
             | None \<Rightarrow> bash_options)
          else generic_bash_options
      | WebFetchAccess url \<Rightarrow>
          [option_of ''allow-always-domain''
             (lit ''Yes, always allow '' @
              (case domain_from_url env url of Some d \<Rightarrow> d | None \<Rightarrow> lit ''unknown domain'') @ lit '' this session'')
             KindAllowAlways,
           option_of ''allow-once'' (lit ''Yes, allow once'') KindAllowOnce,
           option_of ''reject-once'' REJECT_ONCE_LABEL KindRejectOnce]
      | MCPToolAccess tool_name _ \<Rightarrow>
          if client_supports_enable_always_approve client then
            [option_of ''allow-always-mcp'' (lit ''Always allow: '' @ tool_name) KindAllowAlways,
             option_of ''allow-once'' (lit ''Yes'') KindAllowOnce,
             option_of ''reject-once'' REJECT_ONCE_LABEL KindRejectOnce]
          else fallback_options
      | _ \<Rightarrow> fallback_options)"

definition REMEMBER_TOOL_APPROVALS_GATED_IDS :: "str list" where
  "REMEMBER_TOOL_APPROVALS_GATED_IDS = map lit [''allow-always-command'', ''reject-always-command'', ''allow-always-mcp'',
     ''allow-always-domain'', ''always-allow'', ''reject-always'']"

definition enable_always_approve_option :: prompt_option where
  "enable_always_approve_option =
     option_of ''enable-always-approve''
       (lit ''Yes, and don'' @ [39] @ lit ''t ask again for anything (always-approve mode)'') KindAllowOnce"

definition prepend_enable_always_approve :: "client_type \<Rightarrow> prompt_option list \<Rightarrow> prompt_option list" where
  "prepend_enable_always_approve client base =
     (if client_supports_enable_always_approve client then enable_always_approve_option # base else base)"

definition build_options :: "'g policy_env \<Rightarrow> client_type \<Rightarrow> bool \<Rightarrow> access_kind \<Rightarrow> prompt_option list" where
  "build_options env client remember_tool_approvals access =
     (let base = build_options_inner env client access;
          base = (if remember_tool_approvals then base
                  else filter (\<lambda>p. po_id p \<notin> set REMEMBER_TOOL_APPROVALS_GATED_IDS) base)
      in prepend_enable_always_approve client base)"

section \<open>The selected option\<close>

datatype prompt_outcome =
    AllowOnce
  | AllowAlways
  | AllowEditsForSession
  | AllowAlwaysBashCommand str
  | AllowAlwaysDomain str
  | AllowAlwaysMcpTool str
  | AllowAlwaysMcpServer str
  | RejectOnce
  | RejectAlwaysBashCommand str
  | PromptCancelled
  | PromptFollowup str
  | PromptError str

type_synonym meta = "(str \<times> json) list"

text \<open>\<open>from_value::<BashCommandSelectedTerms>\<close>: an array of strings.\<close>

definition selected_terms :: "meta option \<Rightarrow> str list option" where
  "selected_terms m =
     (case Option.bind m (\<lambda>kvs. map_of kvs (lit ''command_parts'')) of
        Some (JArray xs) \<Rightarrow>
          if list_all (\<lambda>x. as_str x \<noteq> None) xs then Some (map (\<lambda>x. the (as_str x)) xs) else None
      | _ \<Rightarrow> None)"

datatype mcp_scope_selection = ScopeTool str | ScopeServer str

definition scope_selection :: "meta option \<Rightarrow> mcp_scope_selection option" where
  "scope_selection m =
     (case m of
        None \<Rightarrow> None
      | Some kvs \<Rightarrow>
          let field = (\<lambda>k. Option.bind (map_of kvs (lit k)) as_str) in
          if field ''kind'' = Some (lit ''tool'') then map_option ScopeTool (field ''tool_name'')
          else if field ''kind'' = Some (lit ''server'') then map_option ScopeServer (field ''server'')
          else None)"

definition followup_of :: "meta option \<Rightarrow> str option" where
  "followup_of m =
     (case Option.bind m (\<lambda>kvs. Option.bind (map_of kvs (lit ''followup_message'')) as_str) of
        Some followup \<Rightarrow> if trim followup \<noteq> [] then Some followup else None
      | None \<Rightarrow> None)"

definition mcp_scope_outcome :: "meta option \<Rightarrow> access_kind \<Rightarrow> prompt_outcome" where
  "mcp_scope_outcome m access =
     (let tool_scope = (case access of MCPToolAccess name _ \<Rightarrow> AllowAlwaysMcpTool name | _ \<Rightarrow> AllowAlways) in
      case scope_selection m of
        Some (ScopeTool tool_name) \<Rightarrow> AllowAlwaysMcpTool tool_name
      | Some (ScopeServer server) \<Rightarrow> if server = [] then tool_scope else AllowAlwaysMcpServer server
      | None \<Rightarrow> tool_scope)"

definition bash_scope_words :: "(str \<Rightarrow> tree option) \<Rightarrow> meta option \<Rightarrow> access_kind \<Rightarrow> str option" where
  "bash_scope_words try_parse_shell m access =
     (case selected_terms m of
        Some parts \<Rightarrow> Some (join (lit '' '') parts)
      | None \<Rightarrow>
          (case access of
             BashAccess cmd \<Rightarrow> map_option (join (lit '' '')) (primary_command_words try_parse_shell cmd)
           | _ \<Rightarrow> None))"

definition always_outcome :: "'g policy_env \<Rightarrow> str \<Rightarrow> meta option \<Rightarrow> access_kind \<Rightarrow> prompt_outcome" where
  "always_outcome env option_id m access =
     (if option_id = ENABLE_ALWAYS_APPROVE_OPTION_ID then AllowOnce
      else if option_id = lit ''allow-always-mcp'' then mcp_scope_outcome m access
      else if option_id = lit ''allow-always-domain'' then
        (case access of
           WebFetchAccess url \<Rightarrow>
             (case domain_from_url env url of
                Some domain \<Rightarrow> if domain \<noteq> [] then AllowAlwaysDomain domain else AllowOnce
              | None \<Rightarrow> AllowOnce)
         | _ \<Rightarrow> AllowOnce)
      else if option_id = lit ''allow-always-command'' then
        (case bash_scope_words (pe_parse_shell env) m access of
           Some words \<Rightarrow> AllowAlwaysBashCommand words
         | None \<Rightarrow> AllowAlways)
      else if option_id = ALLOW_EDITS_SESSION_OPTION_ID then AllowEditsForSession
      else AllowAlways)"

definition reject_always_outcome :: "'g policy_env \<Rightarrow> str \<Rightarrow> meta option \<Rightarrow> access_kind \<Rightarrow> prompt_outcome" where
  "reject_always_outcome env option_id m access =
     (if option_id = lit ''reject-always-command'' then
        (case bash_scope_words (pe_parse_shell env) m access of
           Some words \<Rightarrow> RejectAlwaysBashCommand words
         | None \<Rightarrow> RejectOnce)
      else RejectOnce)"

definition map_selected_outcome :: "'g policy_env \<Rightarrow> prompt_option list \<Rightarrow> str \<Rightarrow> meta option \<Rightarrow> access_kind \<Rightarrow>
    prompt_outcome" where
  "map_selected_outcome env options option_id m access =
     (case find (\<lambda>p. po_id p = option_id) options of
        None \<Rightarrow> PromptError (lit ''unknown permission option'')
      | Some p \<Rightarrow>
          (case po_kind p of
             KindAllowOnce \<Rightarrow> AllowOnce
           | KindAllowAlways \<Rightarrow> always_outcome env option_id m access
           | KindRejectOnce \<Rightarrow>
               (case followup_of m of Some followup \<Rightarrow> PromptFollowup followup | None \<Rightarrow> RejectOnce)
           | KindRejectAlways \<Rightarrow> reject_always_outcome env option_id m access
           | KindOther \<Rightarrow> PromptError (lit ''unknown permission option kind'')))"

section \<open>Through the chat server\<close>

definition scope_kind_value :: "json \<Rightarrow> (str \<times> str option) option" where
  "scope_kind_value reply =
     (case json_get (lit ''scope'') reply of
        None \<Rightarrow> None
      | Some scope \<Rightarrow>
          (case Option.bind (json_get (lit ''kind'') scope) as_str of
             None \<Rightarrow> None
           | Some k \<Rightarrow> Some (k, Option.bind (json_get (lit ''value'') scope) as_str)))"

definition reply_word :: "json \<Rightarrow> str" where
  "reply_word reply =
     (case json_get (lit ''outcome'') reply of
        Some (JString s) \<Rightarrow> s
      | Some (JNumber n) \<Rightarrow>
          if n = lit ''1'' then lit ''approve'' else if n = lit ''2'' then lit ''reject''
          else if n = lit ''3'' then lit ''always_approve'' else if n = lit ''4'' then lit ''always_reject'' else []
      | _ \<Rightarrow> [])"

definition reply_to_outcome :: "json \<Rightarrow> prompt_outcome" where
  "reply_to_outcome reply =
     (let outcome = reply_word reply;
          followup = (case Option.bind (json_get (lit ''followup_message'') reply) as_str of
              Some s \<Rightarrow> if s \<noteq> [] then Some s else None
            | None \<Rightarrow> None)
      in if outcome = lit ''approve'' then AllowOnce
         else if outcome = lit ''always_approve'' then
           (case scope_kind_value reply of
              Some (k, Some v) \<Rightarrow>
                if k = lit ''bash_command'' then AllowAlwaysBashCommand v
                else if k = lit ''server_prefix'' then AllowAlwaysMcpServer v
                else if k = lit ''domain'' then AllowAlwaysDomain v
                else AllowAlways
            | _ \<Rightarrow> AllowAlways)
         else if outcome = lit ''reject'' then
           (case followup of Some message \<Rightarrow> PromptFollowup message | None \<Rightarrow> RejectOnce)
         else if outcome = lit ''always_reject'' then
           (case scope_kind_value reply of
              Some (k, Some v) \<Rightarrow> if k = lit ''bash_command'' then RejectAlwaysBashCommand v else RejectOnce
            | _ \<Rightarrow> RejectOnce)
         else if outcome = lit ''cancelled'' then PromptCancelled
         else RejectOnce)"

definition request_permission_via_hub :: "access_kind \<Rightarrow> str + json \<Rightarrow> prompt_outcome" where
  "request_permission_via_hub access answer =
     (case answer of
        Inr reply \<Rightarrow>
          (let outcome = reply_to_outcome reply in
           case access of
             EditAccess _ \<Rightarrow> if outcome = AllowAlways then AllowEditsForSession else outcome
           | _ \<Rightarrow> outcome)
      | Inl e \<Rightarrow> PromptError (lit ''hub permission request failed: '' @ e))"

section \<open>The prompt\<close>

text \<open>What the transport brings back: of the local protocol, or of the chat server when one is set.\<close>

datatype prompt_answer =
    ClientCancelled
  | ClientSelected str "meta option"
  | ClientUnknown
  | ClientFailed
  | HubAnswered "str + json"

text \<open>\<open>AcpPrompter::request\<close>; which transport is used is fixed by the prompter, not by the answer.\<close>

definition prompter_request :: "'g policy_env \<Rightarrow> client_type \<Rightarrow> bool \<Rightarrow> access_kind \<Rightarrow> prompt_answer \<Rightarrow> prompt_outcome" where
  "prompter_request env client remember_tool_approvals access answer =
     (case answer of
        HubAnswered reply \<Rightarrow> request_permission_via_hub access reply
      | ClientCancelled \<Rightarrow> PromptCancelled
      | ClientSelected option_id m \<Rightarrow>
          map_selected_outcome env (build_options env client remember_tool_approvals access) option_id m access
      | ClientUnknown \<Rightarrow> PromptError (lit ''unknown permission outcome'')
      | ClientFailed \<Rightarrow> PromptError (lit ''failed to request permission''))"

end
