(* ===== verification/Permission_Manager.thy ===== *)
theory Permission_Manager
  imports Permission_Prompter
begin

text \<open>
  The permission manager actor (\<open>permission/manager.rs\<close>): its state, the commands it serves one after the
  other, the handler of a permission request with all its early returns, and the handle its clients hold.

  What one request meets outside the manager is the record \<open>world\<close>: the file system, the git library, the
  answer of the user's prompt, whether the sandbox is on, and at which moments the requester is found gone.
  Times, log lines and the queue depth of the telemetry are left out.
\<close>

section \<open>State and inputs\<close>

type_synonym classifier = "str \<Rightarrow> access_kind \<Rightarrow> str option \<Rightarrow> classifier_context \<Rightarrow> classifier_outcome"

text \<open>The arguments of \<open>spawn_permission_manager_with_pin\<close> that the actor keeps.\<close>

record 'g manager_config =
  mc_env :: "'g policy_env"
  mc_cwd :: str
  mc_client_identifier :: "str option"
  mc_client_type :: client_type
  mc_permission_config :: "permission_config option"
  mc_web_fetch_allowed_domains :: "str list"
  mc_remember_tool_approvals :: bool
  mc_yolo_pin :: "str option"
  mc_toml :: toml_crate
  mc_default_classifier :: classifier       \<comment> \<open>\<open>default_auto_mode_classifier()\<close>\<close>

definition mc_prompt_policy :: "'g manager_config \<Rightarrow> prompt_policy" where
  "mc_prompt_policy cfg =
     (case mc_permission_config cfg of Some c \<Rightarrow> pcfg_prompt_policy c | None \<Rightarrow> PromptAsk)"

definition mc_compiled_policy :: "'g manager_config \<Rightarrow> 'g compiled_policy option" where
  "mc_compiled_policy cfg = map_option (policy_new (mc_env cfg)) (mc_permission_config cfg)"

definition mc_static_domain_matcher :: "'g manager_config \<Rightarrow> domain_matcher" where
  "mc_static_domain_matcher cfg = domain_matcher_new (mc_env cfg) (mc_web_fetch_allowed_domains cfg)"

definition mc_allowlist_is_default :: "'g manager_config \<Rightarrow> bool" where
  "mc_allowlist_is_default cfg \<longleftrightarrow> mc_web_fetch_allowed_domains cfg = DEFAULT_ALLOWED_DOMAINS"

text \<open>The local variables of the actor; the denial counters are \<open>u32\<close> and stay far below its range.\<close>

record manager =
  mg_state :: permission_state
  mg_disk :: disk
  mg_yolo_mode :: bool
  mg_auto_mode :: bool
  mg_classifier :: "classifier option"
  mg_consecutive_denials :: nat
  mg_total_denials :: nat
  mg_turns :: "classifier_turn list"
  mg_recorded :: "classifier_turn list"
  mg_instructions :: "str option"
  mg_pin_refusal_logged :: bool
  mg_allow_edits :: bool

record request =
  rq_access :: access_kind
  rq_tool_id :: str
  rq_edit_path_context :: "(str \<times> str option) option"     \<comment> \<open>\<open>real_cwd\<close>, \<open>display_cwd\<close>\<close>
  rq_session_id :: "str option"
  rq_subagent_type :: "str option"
  rq_subagent_description :: "str option"

text \<open>The moments at which the handler looks whether the reply channel is closed.\<close>

datatype moment = AtDequeue | AfterScan | DuringClassify | BeforePrompt | DuringPrompt | AfterPrompt

record world =
  wd_files :: file_system
  wd_tilde :: "str \<Rightarrow> str"
  wd_url_path :: "str \<Rightarrow> str"
  wd_git :: git_library
  wd_scan_joined :: bool                    \<comment> \<open>the blocking scan task returned\<close>
  wd_to_json :: "json \<Rightarrow> str"
  wd_sandbox :: bool                        \<comment> \<open>\<open>should_auto_allow_bash()\<close>\<close>
  wd_writable :: bool
  wd_answer :: prompt_answer
  wd_closed :: "moment \<Rightarrow> bool"

text \<open>The arguments of \<open>emit_event\<close>, and whether the decision is sent to the requester.\<close>

record verdict =
  vd_decision :: decision
  vd_auto_approved :: bool
  vd_user_prompted :: bool
  vd_prompt_outcome :: "str option"
  vd_reason :: str
  vd_sent :: bool

definition auto_verdict :: "decision \<Rightarrow> str \<Rightarrow> verdict" where
  "auto_verdict d reason =
     \<lparr>vd_decision = d, vd_auto_approved = True, vd_user_prompted = False, vd_prompt_outcome = None,
      vd_reason = reason, vd_sent = True\<rparr>"

definition deny_verdict :: "decision \<Rightarrow> str \<Rightarrow> verdict" where
  "deny_verdict d reason =
     \<lparr>vd_decision = d, vd_auto_approved = False, vd_user_prompted = False, vd_prompt_outcome = None,
      vd_reason = reason, vd_sent = True\<rparr>"

definition gone_verdict :: verdict where
  "gone_verdict =
     \<lparr>vd_decision = Cancelled, vd_auto_approved = False, vd_user_prompted = False, vd_prompt_outcome = None,
      vd_reason = lit ''requester_gone'', vd_sent = False\<rparr>"

section \<open>Before the policy\<close>

definition bash_floor :: "bash_evaluation option \<Rightarrow> bool" where
  "bash_floor e = (case e of None \<Rightarrow> False | Some e \<Rightarrow> bash_request_floor_requires_prompt e)"

definition bash_defers :: "bash_evaluation option \<Rightarrow> bool" where
  "bash_defers e = (case e of None \<Rightarrow> False | Some e \<Rightarrow> bash_request_floor_defers_to_classifier e)"

definition bash_opaque_shell_floor_requires_prompt :: "bash_evaluation option \<Rightarrow> bool" where
  "bash_opaque_shell_floor_requires_prompt e =
     (case e of None \<Rightarrow> False | Some e \<Rightarrow> be_has_opaque_shell e \<and> \<not> be_exact_grant e)"

text \<open>\<open>None\<close> when the requester was found gone after the scan of the git configuration.\<close>

definition evaluate_request :: "'g manager_config \<Rightarrow> world \<Rightarrow> request \<Rightarrow> manager \<Rightarrow> bash_evaluation option option" where
  "evaluate_request cfg w rq mg =
     (case rq_access rq of
        BashAccess cmd \<Rightarrow>
          (let e = evaluate_bash (pe_parse_shell (mc_env cfg)) cmd (mg_state mg) True in
           case be_ambient_segments e of
             None \<Rightarrow> Some (Some e)
           | Some raw \<Rightarrow>
               let plan = ambient_scan_plan_from_segments raw (mc_cwd cfg);
                   ambient_risk = (case plan of
                       FailClosed \<Rightarrow> True
                     | CheckDirs _ \<Rightarrow> \<not> wd_scan_joined w \<or> ambient_exec_risk_from_plan (wd_git w) plan);
                   e = e\<lparr>be_ambient_segments := None\<rparr>
               in if wd_closed w AfterScan then None
                  else Some (Some (if ambient_risk then e\<lparr>be_exec_risk := True\<rparr> else e)))
      | _ \<Rightarrow> Some None)"

definition protected_edit :: "'g manager_config \<Rightarrow> world \<Rightarrow> request \<Rightarrow> bool" where
  "protected_edit cfg w rq =
     (case rq_access rq of
        EditAccess path \<Rightarrow>
          (case rq_edit_path_context rq of
             Some (real_cwd, display_cwd) \<Rightarrow>
               edit_target_requires_prompt (wd_files w) (resolve_model_path (wd_tilde w) real_cwd display_cwd path)
           | None \<Rightarrow>
               edit_target_requires_prompt (wd_files w) (resolve_model_path (wd_tilde w) (mc_cwd cfg) None path))
      | _ \<Rightarrow> False)"

definition request_preflight :: "'g manager_config \<Rightarrow> world \<Rightarrow> request \<Rightarrow> manager \<Rightarrow> gate_preflight" where
  "request_preflight cfg w rq mg =
     preflight_with_files (mc_env cfg) (wd_files w) (mc_cwd cfg) (mc_compiled_policy cfg) (rq_access rq)
       (mg_auto_mode mg)"

section \<open>Deny, always-approve, session grants and policy allows\<close>

definition session_grant_pre_decision :: "'g policy_env \<Rightarrow> (str \<Rightarrow> str) \<Rightarrow> access_kind \<Rightarrow> bash_evaluation option \<Rightarrow>
    permission_state \<Rightarrow> bool \<Rightarrow> domain_matcher \<Rightarrow> bool \<Rightarrow> str option \<Rightarrow> (decision \<times> str) option" where
  "session_grant_pre_decision env url_path access e state allow_edits matcher honor_static yolo_pin =
     (case access of
        MCPToolAccess name _ \<Rightarrow>
          map_option (\<lambda>d. (d, lit ''session_grant'')) (mcp_pre_decision name state False False)
      | WebFetchAccess url \<Rightarrow>
          if honor_static \<and> matcher_permits env url_path matcher url then Some (Allow, lit ''static_allowlist'')
          else (case pe_url_host env url of
              None \<Rightarrow> None
            | Some host \<Rightarrow>
                then_some (normalize_domain env host \<in> set (ps_allowed_web_fetch_domains state))
                  (Allow, lit ''session_grant''))
      | EditAccess _ \<Rightarrow> then_some allow_edits (Allow, lit ''session_grant'')
      | BashAccess cmd \<Rightarrow>
          (case e of
             None \<Rightarrow> None
           | Some e \<Rightarrow> bash_grant_pre_decision cmd e state yolo_pin PRE_CLASSIFIER)
      | _ \<Rightarrow> None)"

definition undenied_verdict :: "'g manager_config \<Rightarrow> world \<Rightarrow> request \<Rightarrow> bash_evaluation option \<Rightarrow> bool \<Rightarrow>
    gate_preflight \<Rightarrow> manager \<Rightarrow> verdict option" where
  "undenied_verdict cfg w rq e protected pf mg =
     (if mg_yolo_mode mg \<and> \<not> shell_forced_prompt pf then Some (auto_verdict Allow (lit ''yolo''))
      else case
        (if policy_forced_prompt pf \<or> shell_forced_prompt pf \<or> protected then None
         else session_grant_pre_decision (mc_env cfg) (wd_url_path w) (rq_access rq) e (mg_state mg)
           (mg_allow_edits mg) (mc_static_domain_matcher cfg)
           (\<not> (mg_auto_mode mg \<and> mc_allowlist_is_default cfg)) (mc_yolo_pin cfg)) of
          Some (d, reason) \<Rightarrow> Some (auto_verdict d reason)
        | None \<Rightarrow>
            then_some
              (mg_auto_mode mg \<and> \<not> policy_forced_prompt pf \<and> \<not> shell_forced_prompt pf \<and> \<not> protected \<and>
               \<not> bash_floor e \<and> policy_decision pf = Some Allow)
              (auto_verdict Allow (lit ''policy_allow'')))"

definition early_verdict :: "'g manager_config \<Rightarrow> world \<Rightarrow> request \<Rightarrow> bash_evaluation option \<Rightarrow> bool \<Rightarrow>
    gate_preflight \<Rightarrow> manager \<Rightarrow> verdict option" where
  "early_verdict cfg w rq e protected pf mg =
     (case policy_decision pf of
        Some (Reject reason) \<Rightarrow> Some (deny_verdict (PolicyDeny reason) (lit ''policy_deny''))
      | _ \<Rightarrow> undenied_verdict cfg w rq e protected pf mg)"

section \<open>Auto mode\<close>

definition AUTO_DENY_CONSECUTIVE_LIMIT :: nat where "AUTO_DENY_CONSECUTIVE_LIMIT = 3"
definition AUTO_DENY_TOTAL_LIMIT :: nat where "AUTO_DENY_TOTAL_LIMIT = 20"

definition AUTO_DENY_GUIDANCE :: str where
  "AUTO_DENY_GUIDANCE =
     lit ''Take a safer approach that stays within what the user asked for; do not retry this exact action or attempt to work around the denial. If no safer alternative exists, ask the user how to proceed.''"

definition auto_deny_reason :: "str option \<Rightarrow> str" where
  "auto_deny_reason reason =
     (case reason of
        Some r \<Rightarrow> lit ''Auto mode blocked this action ('' @ trim_end_char 46 r @ lit ''). '' @ AUTO_DENY_GUIDANCE
      | None \<Rightarrow> lit ''Auto mode blocked this action. '' @ AUTO_DENY_GUIDANCE)"

fun source_text :: "classifier_source \<Rightarrow> str" where
  "source_text SourceLlm = lit ''llm''"
| "source_text SourceHeuristic = lit ''heuristic''"
| "source_text SourceTimeout = lit ''timeout''"
| "source_text SourceTransportError = lit ''transport_error''"

text \<open>Auto mode answers the request, forces a prompt for a reason, or has no say.\<close>

datatype auto_result = AutoAnswer verdict | AutoPrompt str | AutoSkip

definition auto_verdict_of :: "gate_preflight \<Rightarrow> bash_evaluation option \<Rightarrow> classifier_outcome \<Rightarrow> manager \<Rightarrow>
    manager \<times> auto_result" where
  "auto_verdict_of pf e outcome mg =
     (case co_verdict outcome of
        VerdictAllow \<Rightarrow>
          (mg\<lparr>mg_consecutive_denials := 0\<rparr>, AutoAnswer (auto_verdict Allow (lit ''auto_classifier_allow'')))
      | VerdictBlock \<Rightarrow>
          if gp_defers_gate_ask pf \<or> bash_floor e then (mg, AutoPrompt (lit ''auto_classifier_block''))
          else if mg_consecutive_denials mg < AUTO_DENY_CONSECUTIVE_LIMIT \<and>
              mg_total_denials mg < AUTO_DENY_TOTAL_LIMIT then
            (mg\<lparr>mg_consecutive_denials := mg_consecutive_denials mg + 1,
                mg_total_denials := mg_total_denials mg + 1\<rparr>,
             AutoAnswer (deny_verdict (PolicyDeny (auto_deny_reason (co_reason outcome)))
               (lit ''auto_classifier_deny'')))
          else (mg, AutoPrompt (lit ''auto_denial_limit''))
      | VerdictUnavailable \<Rightarrow>
          (mg, AutoPrompt
            (if outcome_is_timeout outcome then lit ''auto_classifier_timeout''
             else lit ''auto_classifier_unavailable'')))"

definition classify_request :: "world \<Rightarrow> request \<Rightarrow> manager \<Rightarrow> classifier_outcome option" where
  "classify_request w rq mg =
     (case mg_classifier mg of
        Some clf \<Rightarrow>
          if wd_closed w DuringClassify then None
          else Some (clf (tool_name_for_access (rq_access rq)) (rq_access rq) (snd (access_labels (rq_access rq)))
            \<lparr>cc_turns = mg_turns mg @ mg_recorded mg, cc_project_instructions = mg_instructions mg\<rparr>)
      | None \<Rightarrow> Some (heuristic_outcome VerdictUnavailable))"

text \<open>The second component is the classifier source of the telemetry.\<close>

definition auto_stage :: "world \<Rightarrow> request \<Rightarrow> bash_evaluation option \<Rightarrow> bool \<Rightarrow> gate_preflight \<Rightarrow> manager \<Rightarrow>
    manager \<times> str option \<times> auto_result" where
  "auto_stage w rq e protected pf mg =
     (if \<not> (mg_auto_mode mg \<and> admits_auto_classifier pf \<and> (\<not> bash_floor e \<or> bash_defers e)) then (mg, None, AutoSkip)
      else let tool_name = tool_name_for_access (rq_access rq);
               needs_user = (protected \<or> access_requires_user_interaction tool_name (rq_access rq))
        in case auto_mode_fast_path (rq_access rq) tool_name needs_user of
             FastAllow \<Rightarrow> (mg, Some (lit ''fast_path''), AutoAnswer (auto_verdict Allow (lit ''auto_fast_path'')))
           | FastPromptUser \<Rightarrow> (mg, None, AutoPrompt (lit ''needs_user''))
           | FastClassify \<Rightarrow>
               (case classify_request w rq mg of
                  None \<Rightarrow> (mg, None, AutoAnswer gone_verdict)
                | Some outcome \<Rightarrow>
                    let (mg, result) = auto_verdict_of pf e outcome mg
                    in (mg, Some (source_text (provenance_source (co_provenance outcome))), result)))"

section \<open>Sandbox, policy allow and pre-decisions\<close>

definition auto_prompt_blocks_allow :: "access_kind \<Rightarrow> bool" where
  "auto_prompt_blocks_allow access = (case access of BashAccess _ \<Rightarrow> False | _ \<Rightarrow> True)"

text \<open>The pre-decision match; \<open>forced\<close> is \<open>auto_forced_prompt\<close>.\<close>

definition pre_decision :: "'g manager_config \<Rightarrow> world \<Rightarrow> request \<Rightarrow> bash_evaluation option \<Rightarrow> bool \<Rightarrow>
    gate_preflight \<Rightarrow> bool \<Rightarrow> manager \<Rightarrow> (decision \<times> str) option" where
  "pre_decision cfg w rq e protected pf forced mg =
     (case rq_access rq of
        ReadAccess _ \<Rightarrow> if policy_forced_prompt pf then None else Some (Allow, lit ''safe_command'')
      | GrepAccess _ _ \<Rightarrow> if policy_forced_prompt pf then None else Some (Allow, lit ''safe_command'')
      | WebSearchAccess _ \<Rightarrow> Some (Allow, lit ''safe_command'')
      | MCPToolAccess name _ \<Rightarrow>
          map_option (\<lambda>d. (d, lit ''persisted_grant''))
            (mcp_pre_decision name (mg_state mg) (policy_forced_prompt pf) (mc_remember_tool_approvals cfg))
      | EditAccess _ \<Rightarrow>
          if mg_allow_edits mg \<and> \<not> protected then Some (Allow, lit ''persisted_grant'')
          else if ps_edit_policy (mg_state mg) = EditReject then
            Some (Reject (lit ''edits prohibited''), lit ''session_deny'')
          else None
      | BashAccess cmd \<Rightarrow>
          if bash_floor e then None
          else if policy_forced_prompt pf then
            (if mc_remember_tool_approvals cfg \<and> \<not> forced \<and> \<not> shell_file_forced_prompt pf then
               bash_grant_pre_decision cmd (the e) (mg_state mg) (mc_yolo_pin cfg) ASK_FLOOR_REMEMBER
             else None)
          else bash_grant_pre_decision cmd (the e) (mg_state mg) (mc_yolo_pin cfg) (post_classify forced)
      | WebFetchAccess url \<Rightarrow>
          if matcher_permits (mc_env cfg) (wd_url_path w) (mc_static_domain_matcher cfg) url then
            Some (Allow, lit ''static_allowlist'')
          else (case pe_url_host (mc_env cfg) url of
              Some host \<Rightarrow>
                then_some (normalize_domain (mc_env cfg) host \<in> set (ps_allowed_web_fetch_domains (mg_state mg)))
                  (Allow, lit ''persisted_grant'')
            | None \<Rightarrow> None))"

definition is_bash :: "access_kind \<Rightarrow> bool" where
  "is_bash access = (case access of BashAccess _ \<Rightarrow> True | _ \<Rightarrow> False)"

text \<open>The match on the managed decision: an ask, and an allow under a floor, fall through.\<close>

definition managed_allow :: "bash_evaluation option \<Rightarrow> bool \<Rightarrow> gate_preflight \<Rightarrow> decision option" where
  "managed_allow e protected pf =
     (case policy_decision pf of
        None \<Rightarrow> None
      | Some d \<Rightarrow>
          if d = Ask then None
          else if d = Allow \<and> (protected \<or> bash_floor e) then None
          else Some d)"

text \<open>From the sandbox to the prompt policy; \<open>None\<close> when the user has to be asked.\<close>

definition late_verdict :: "'g manager_config \<Rightarrow> world \<Rightarrow> request \<Rightarrow> bash_evaluation option \<Rightarrow> bool \<Rightarrow>
    gate_preflight \<Rightarrow> bool \<Rightarrow> manager \<Rightarrow> verdict option" where
  "late_verdict cfg w rq e protected pf forced mg =
     (if is_bash (rq_access rq) \<and> sandbox_may_auto_allow_bash e (wd_sandbox w) \<and> \<not> policy_forced_prompt pf \<and> \<not> forced
      then Some (auto_verdict Allow (lit ''sandbox_auto''))
      else case managed_allow e protected pf of
          Some d \<Rightarrow> Some (auto_verdict d (lit ''policy_allow''))
        | None \<Rightarrow>
            let pre = pre_decision cfg w rq e protected pf forced mg;
                pre = (if forced \<and> auto_prompt_blocks_allow (rq_access rq) \<and> map_option fst pre = Some Allow
                       then None else pre)
            in case pre of
                 Some (d, reason) \<Rightarrow> Some (auto_verdict d reason)
               | None \<Rightarrow>
                   then_some (mc_prompt_policy cfg = PromptDeny)
                     (deny_verdict (PolicyDeny (lit ''denied by prompt policy (tool not pre-approved)''))
                       (lit ''prompt_deny'')))"

section \<open>The prompt\<close>

definition save_state :: "'g manager_config \<Rightarrow> world \<Rightarrow> manager \<Rightarrow> manager" where
  "save_state cfg w mg =
     mg\<lparr>mg_disk := persist_state (mc_toml cfg) (wd_writable w) (mc_client_identifier cfg) (mg_state mg) (mg_disk mg)\<rparr>"

definition change_state :: "'g manager_config \<Rightarrow> world \<Rightarrow> (permission_state \<Rightarrow> permission_state) \<Rightarrow> manager \<Rightarrow> manager" where
  "change_state cfg w f mg = save_state cfg w (mg\<lparr>mg_state := f (mg_state mg)\<rparr>)"

definition allow_bash :: "str \<Rightarrow> permission_state \<Rightarrow> permission_state" where
  "allow_bash cmd st = st\<lparr>ps_allowed_bash_commands := List.insert cmd (ps_allowed_bash_commands st)\<rparr>"

definition disallow_bash :: "str \<Rightarrow> permission_state \<Rightarrow> permission_state" where
  "disallow_bash cmd st = st\<lparr>ps_disallowed_bash_commands := List.insert cmd (ps_disallowed_bash_commands st)\<rparr>"

definition allow_domain :: "str \<Rightarrow> permission_state \<Rightarrow> permission_state" where
  "allow_domain d st = st\<lparr>ps_allowed_web_fetch_domains := List.insert d (ps_allowed_web_fetch_domains st)\<rparr>"

definition allow_mcp_tool :: "str \<Rightarrow> permission_state \<Rightarrow> permission_state" where
  "allow_mcp_tool name st = st\<lparr>ps_allowed_mcp_tools := List.insert name (ps_allowed_mcp_tools st)\<rparr>"

definition allow_mcp_server :: "str \<Rightarrow> permission_state \<Rightarrow> permission_state" where
  "allow_mcp_server server st = st\<lparr>ps_allowed_mcp_servers := List.insert server (ps_allowed_mcp_servers st)\<rparr>"

abbreviation user_rejected :: decision where
  "user_rejected \<equiv> Reject (lit ''User rejected the execution'')"

abbreviation prompt_failed :: "str \<Rightarrow> decision" where
  "prompt_failed e \<equiv> Reject (lit ''Failed to request permission from user: '' @ e)"

definition bash_prompt :: "'g manager_config \<Rightarrow> world \<Rightarrow> str \<Rightarrow> prompt_outcome \<Rightarrow> manager \<Rightarrow>
    manager \<times> decision \<times> str" where
  "bash_prompt cfg w cmd outcome mg =
     (case outcome of
        AllowOnce \<Rightarrow> (mg, Allow, lit ''allow_once'')
      | AllowAlways \<Rightarrow> (change_state cfg w (allow_bash cmd) mg, Allow, lit ''allow_always'')
      | AllowAlwaysBashCommand pre \<Rightarrow> (change_state cfg w (allow_bash pre) mg, Allow, lit ''allow_always_bash'')
      | RejectOnce \<Rightarrow> (mg, user_rejected, lit ''reject_once'')
      | RejectAlwaysBashCommand pre \<Rightarrow>
          (change_state cfg w (disallow_bash pre) mg,
           Reject (lit ''User rejected the execution and excluded '' @ pre @ lit '' from this session''),
           lit ''reject_always_bash'')
      | PromptCancelled \<Rightarrow> (mg, Cancelled, lit ''cancelled'')
      | PromptFollowup msg \<Rightarrow> (mg, FollowupMessage msg, lit ''followup'')
      | PromptError e \<Rightarrow> (mg, prompt_failed e, lit ''error'')
      | _ \<Rightarrow> (mg, Allow, lit ''allow_once''))"

definition other_prompt :: "'g manager_config \<Rightarrow> world \<Rightarrow> access_kind \<Rightarrow> prompt_outcome \<Rightarrow> manager \<Rightarrow>
    manager \<times> decision \<times> str" where
  "other_prompt cfg w access outcome mg =
     (case outcome of
        AllowOnce \<Rightarrow> (mg, Allow, lit ''allow_once'')
      | AllowEditsForSession \<Rightarrow> (mg\<lparr>mg_allow_edits := True\<rparr>, Allow, lit ''allow_edits_for_session'')
      | AllowAlways \<Rightarrow>
          ((case access of
              MCPToolAccess name _ \<Rightarrow> change_state cfg w (allow_mcp_tool name) mg
            | _ \<Rightarrow> save_state cfg w mg), Allow, lit ''allow_always'')
      | AllowAlwaysBashCommand _ \<Rightarrow> (mg, Allow, lit ''allow_always_bash'')
      | AllowAlwaysDomain domain \<Rightarrow>
          ((case access of
              WebFetchAccess _ \<Rightarrow> change_state cfg w (allow_domain domain) mg
            | _ \<Rightarrow> mg), Allow, lit ''allow_always_domain'')
      | AllowAlwaysMcpTool tool_name \<Rightarrow>
          ((case access of
              MCPToolAccess access_name _ \<Rightarrow> change_state cfg w (allow_mcp_tool access_name) mg
            | _ \<Rightarrow> mg), Allow, lit ''allow_always_mcp_tool'')
      | AllowAlwaysMcpServer server_prefix \<Rightarrow>
          ((case access of
              MCPToolAccess access_name _ \<Rightarrow>
                (case parse_mcp_qualified_name access_name of
                   Some (_, canonical, _) \<Rightarrow>
                     if canonical = server_prefix then change_state cfg w (allow_mcp_server canonical) mg
                     else change_state cfg w (allow_mcp_tool access_name) mg
                 | None \<Rightarrow> change_state cfg w (allow_mcp_tool access_name) mg)
            | _ \<Rightarrow> mg), Allow, lit ''allow_always_mcp_server'')
      | RejectAlwaysBashCommand _ \<Rightarrow> (mg, user_rejected, lit ''reject_always_bash'')
      | RejectOnce \<Rightarrow> (mg, user_rejected, lit ''reject_once'')
      | PromptCancelled \<Rightarrow> (mg, Cancelled, lit ''cancelled'')
      | PromptError e \<Rightarrow> (mg, prompt_failed e, lit ''error'')
      | PromptFollowup msg \<Rightarrow> (mg, FollowupMessage msg, lit ''followup''))"

definition MAX_RECORDED_PERMISSION_DECISIONS :: nat where "MAX_RECORDED_PERMISSION_DECISIONS = 12"

definition prompted_decision_approved :: "decision \<Rightarrow> str \<Rightarrow> bool option" where
  "prompted_decision_approved d outcome_str =
     (case d of
        Allow \<Rightarrow> Some True
      | Reject _ \<Rightarrow> if outcome_str \<noteq> lit ''error'' then Some False else None
      | _ \<Rightarrow> None)"

definition record_decision :: "world \<Rightarrow> access_kind \<Rightarrow> bool \<Rightarrow> manager \<Rightarrow> manager" where
  "record_decision w access approved mg =
     (let recorded = mg_recorded mg @
            [PermissionDecision (tool_name_for_access access)
              (permission_decision_args (wd_to_json w) access (snd (access_labels access))) approved]
      in mg\<lparr>mg_recorded := drop (length recorded - MAX_RECORDED_PERMISSION_DECISIONS) recorded\<rparr>)"

definition prompt_result :: "'g manager_config \<Rightarrow> world \<Rightarrow> request \<Rightarrow> prompt_outcome" where
  "prompt_result cfg w rq =
     (if wd_closed w DuringPrompt then PromptCancelled
      else prompter_request (mc_env cfg) (mc_client_type cfg) (mc_remember_tool_approvals cfg) (rq_access rq)
        (wd_answer w))"

definition ask_user :: "'g manager_config \<Rightarrow> world \<Rightarrow> request \<Rightarrow> str \<Rightarrow> manager \<Rightarrow> manager \<times> verdict" where
  "ask_user cfg w rq trigger mg =
     (let outcome = prompt_result cfg w rq;
          (mg, d, outcome_str) =
            (case rq_access rq of
               BashAccess cmd \<Rightarrow> bash_prompt cfg w cmd outcome mg
             | _ \<Rightarrow> other_prompt cfg w (rq_access rq) outcome mg);
          mg = (case prompted_decision_approved d outcome_str of
              Some approved \<Rightarrow> record_decision w (rq_access rq) approved mg
            | None \<Rightarrow> mg);
          requester_gone = (d = Cancelled \<and> wd_closed w AfterPrompt);
          mg = (if outcome_str \<noteq> lit ''error'' \<and> \<not> requester_gone then mg\<lparr>mg_consecutive_denials := 0\<rparr> else mg)
      in (mg, \<lparr>vd_decision = d, vd_auto_approved = False, vd_user_prompted = True,
          vd_prompt_outcome = Some outcome_str,
          vd_reason = (if requester_gone then lit ''requester_gone'' else trigger), vd_sent = True\<rparr>))"

section \<open>The request handler\<close>

definition prompt_stage :: "'g manager_config \<Rightarrow> world \<Rightarrow> request \<Rightarrow> bash_evaluation option \<Rightarrow> gate_preflight \<Rightarrow>
    str option \<Rightarrow> manager \<Rightarrow> manager \<times> verdict" where
  "prompt_stage cfg w rq e pf auto_prompt_reason mg =
     (let trigger = (case prompt_trigger pf auto_prompt_reason of
            Some t \<Rightarrow> t
          | None \<Rightarrow>
              if bash_opaque_shell_floor_requires_prompt e then lit ''opaque_shell''
              else if bash_floor e then lit ''bash_request_floor''
              else lit ''needs_user'')
      in if wd_closed w BeforePrompt then (mg, gone_verdict) else ask_user cfg w rq trigger mg)"

definition after_auto :: "'g manager_config \<Rightarrow> world \<Rightarrow> request \<Rightarrow> bash_evaluation option \<Rightarrow> bool \<Rightarrow>
    gate_preflight \<Rightarrow> str option \<Rightarrow> manager \<Rightarrow> manager \<times> verdict" where
  "after_auto cfg w rq e protected pf auto_prompt_reason mg =
     (case late_verdict cfg w rq e protected pf (auto_prompt_reason \<noteq> None) mg of
        Some v \<Rightarrow> (mg, v)
      | None \<Rightarrow> prompt_stage cfg w rq e pf auto_prompt_reason mg)"

definition decide_request :: "'g manager_config \<Rightarrow> world \<Rightarrow> request \<Rightarrow> manager \<Rightarrow> manager \<times> str option \<times> verdict" where
  "decide_request cfg w rq mg =
     (if wd_closed w AtDequeue then (mg, None, gone_verdict)
      else case evaluate_request cfg w rq mg of
          None \<Rightarrow> (mg, None, gone_verdict)
        | Some e \<Rightarrow>
            let protected = protected_edit cfg w rq; pf = request_preflight cfg w rq mg in
            case early_verdict cfg w rq e protected pf mg of
              Some v \<Rightarrow> (mg, None, v)
            | None \<Rightarrow>
                (case auto_stage w rq e protected pf mg of
                   (mg, source, AutoAnswer v) \<Rightarrow> (mg, source, v)
                 | (mg, source, AutoPrompt reason) \<Rightarrow>
                     (case after_auto cfg w rq e protected pf (Some reason) mg of (mg, v) \<Rightarrow> (mg, source, v))
                 | (mg, source, AutoSkip) \<Rightarrow>
                     (case after_auto cfg w rq e protected pf None mg of (mg, v) \<Rightarrow> (mg, source, v))))"

record permission_event =
  pv_tool_id :: str
  pv_tool_name :: str
  pv_access_kind :: str
  pv_access_detail :: "str option"
  pv_yolo_mode :: bool
  pv_auto_approved :: bool
  pv_user_prompted :: bool
  pv_decision :: str
  pv_prompt_outcome :: "str option"
  pv_reject_reason :: "str option"
  pv_subagent_session_id :: "str option"
  pv_subagent_type :: "str option"
  pv_subagent_description :: "str option"
  pv_permission_mode :: str
  pv_decision_reason :: str
  pv_classifier_source :: "str option"
  pv_auto_denials_consecutive :: "nat option"
  pv_auto_denials_total :: "nat option"

definition decision_text :: "decision \<Rightarrow> str \<times> str option" where
  "decision_text d =
     (case d of
        Allow \<Rightarrow> (lit ''allow'', None)
      | Ask \<Rightarrow> (lit ''ask'', None)
      | Reject reason \<Rightarrow> (lit ''reject'', Some reason)
      | PolicyDeny reason \<Rightarrow> (lit ''reject'', Some reason)
      | FollowupMessage _ \<Rightarrow> (lit ''followup'', None)
      | Cancelled \<Rightarrow> (lit ''cancelled'', None))"

definition permission_mode_text :: "manager \<Rightarrow> str" where
  "permission_mode_text mg =
     (if mg_yolo_mode mg then lit ''always-approve'' else if mg_auto_mode mg then lit ''auto'' else lit ''ask'')"

text \<open>
  Every change of the denial counters is copied to the telemetry before the event is emitted, and a request
  does not change the mode, so both are read from the manager after the decision.
\<close>

definition emit_event :: "manager \<Rightarrow> request \<Rightarrow> str option \<Rightarrow> verdict \<Rightarrow> permission_event" where
  "emit_event mg rq source v =
     \<lparr>pv_tool_id = rq_tool_id rq, pv_tool_name = tool_name_for_access (rq_access rq),
      pv_access_kind = fst (access_labels (rq_access rq)), pv_access_detail = snd (access_labels (rq_access rq)),
      pv_yolo_mode = mg_yolo_mode mg, pv_auto_approved = vd_auto_approved v,
      pv_user_prompted = vd_user_prompted v, pv_decision = fst (decision_text (vd_decision v)),
      pv_prompt_outcome = vd_prompt_outcome v, pv_reject_reason = snd (decision_text (vd_decision v)),
      pv_subagent_session_id = rq_session_id rq, pv_subagent_type = rq_subagent_type rq,
      pv_subagent_description = rq_subagent_description rq, pv_permission_mode = permission_mode_text mg,
      pv_decision_reason = vd_reason v, pv_classifier_source = source,
      pv_auto_denials_consecutive = then_some (mg_auto_mode mg) (mg_consecutive_denials mg),
      pv_auto_denials_total = then_some (mg_auto_mode mg) (mg_total_denials mg)\<rparr>"

definition handle_request :: "'g manager_config \<Rightarrow> world \<Rightarrow> request \<Rightarrow> manager \<Rightarrow>
    manager \<times> permission_event \<times> decision option" where
  "handle_request cfg w rq mg =
     (case decide_request cfg w rq mg of
        (mg, source, v) \<Rightarrow> (mg, emit_event mg rq source v, then_some (vd_sent v) (vd_decision v)))"

section \<open>The actor\<close>

datatype permission_command =
    Request request
  | SetYoloMode bool
  | SetAutoMode bool
  | SetClassifier "classifier option"
  | SetClassifierTranscript "classifier_turn list"
  | SetProjectInstructions "str option"
  | ResetState
  | Shutdown

definition set_yolo :: "'g manager_config \<Rightarrow> bool \<Rightarrow> manager \<Rightarrow> manager" where
  "set_yolo cfg enabled mg =
     (let clamped = clamp_yolo enabled (mc_yolo_pin cfg);
          mg = mg\<lparr>mg_pin_refusal_logged := mg_pin_refusal_logged mg \<or> enabled \<and> \<not> clamped, mg_yolo_mode := clamped\<rparr>
      in if clamped then mg\<lparr>mg_auto_mode := False\<rparr> else mg)"

definition set_auto :: "'g manager_config \<Rightarrow> bool \<Rightarrow> manager \<Rightarrow> manager" where
  "set_auto cfg enabled mg =
     (let mg = mg\<lparr>mg_auto_mode := enabled\<rparr> in
      if enabled then
        mg\<lparr>mg_yolo_mode := False,
           mg_classifier := (case mg_classifier mg of Some c \<Rightarrow> Some c | None \<Rightarrow> Some (mc_default_classifier cfg))\<rparr>
      else mg)"

definition reset_state :: "'g manager_config \<Rightarrow> world \<Rightarrow> manager \<Rightarrow> manager" where
  "reset_state cfg w mg = (change_state cfg w (\<lambda>_. default_state) mg)\<lparr>mg_allow_edits := False\<rparr>"

text \<open>One command: the next state, or \<open>None\<close> when the loop ends; the event and the reply of a request.\<close>

fun serve :: "'g manager_config \<Rightarrow> world \<Rightarrow> permission_command \<Rightarrow> manager \<Rightarrow>
    manager option \<times> (permission_event \<times> decision option) option" where
  "serve cfg w (Request rq) mg = (case handle_request cfg w rq mg of (mg, ev, sent) \<Rightarrow> (Some mg, Some (ev, sent)))"
| "serve cfg w (SetYoloMode enabled) mg = (Some (set_yolo cfg enabled mg), None)"
| "serve cfg w (SetAutoMode enabled) mg = (Some (set_auto cfg enabled mg), None)"
| "serve cfg w (SetClassifier c) mg = (Some (mg\<lparr>mg_classifier := c\<rparr>), None)"
| "serve cfg w (SetClassifierTranscript turns) mg = (Some (mg\<lparr>mg_turns := turns\<rparr>), None)"
| "serve cfg w (SetProjectInstructions text) mg = (Some (mg\<lparr>mg_instructions := text\<rparr>), None)"
| "serve cfg w ResetState mg = (Some (reset_state cfg w mg), None)"
| "serve cfg w Shutdown mg = (None, None)"

text \<open>The actor before its first command, with the migration of a legacy edit policy.\<close>

definition spawn_permission_manager :: "'g manager_config \<Rightarrow> bool \<Rightarrow> bool \<Rightarrow> disk \<Rightarrow> manager" where
  "spawn_permission_manager cfg initial_yolo writable d =
     (let initial_yolo = clamp_yolo initial_yolo (mc_yolo_pin cfg);
          seed_auto = (\<not> initial_yolo \<and>
            (case mc_permission_config cfg of Some c \<Rightarrow> pcfg_prompt_policy c = PromptAuto | None \<Rightarrow> False));
          (state, d) = load_state_from_dir (mc_toml cfg) writable (mc_client_identifier cfg) d;
          (state, d) =
            (if ps_edit_policy state = EditAllow then
               (let state = state\<lparr>ps_edit_policy := EditAsk\<rparr>
                in (state, persist_state (mc_toml cfg) writable (mc_client_identifier cfg) state d))
             else (state, d))
      in \<lparr>mg_state = state, mg_disk = d, mg_yolo_mode = initial_yolo, mg_auto_mode = seed_auto,
          mg_classifier = Some (mc_default_classifier cfg), mg_consecutive_denials = 0, mg_total_denials = 0,
          mg_turns = [], mg_recorded = [], mg_instructions = None, mg_pin_refusal_logged = False,
          mg_allow_edits = False\<rparr>)"

section \<open>The handle\<close>

text \<open>
  What the clones of a handle share with the actor: the two mode flags and the channel.  The stores of one call are
  one step here.
\<close>

record shared =
  sh_yolo_state :: bool
  sh_auto_state :: bool
  sh_side_query_wired :: bool
  sh_queue :: "permission_command list"

datatype permission_handle = ActorHandle shared | AllowAll

definition send :: "permission_command \<Rightarrow> shared \<Rightarrow> shared" where
  "send c sh = sh\<lparr>sh_queue := sh_queue sh @ [c]\<rparr>"

definition handle_set_yolo_mode :: "str option \<Rightarrow> bool \<Rightarrow> shared \<Rightarrow> shared" where
  "handle_set_yolo_mode yolo_pin enabled sh =
     (let clamped = clamp_yolo enabled yolo_pin;
          sh = sh\<lparr>sh_yolo_state := clamped\<rparr>;
          sh = (if clamped then sh\<lparr>sh_auto_state := False\<rparr> else sh)
      in send (SetYoloMode enabled) sh)"

definition handle_set_auto_mode :: "bool \<Rightarrow> shared \<Rightarrow> shared" where
  "handle_set_auto_mode enabled sh =
     (let sh = sh\<lparr>sh_auto_state := enabled\<rparr>;
          sh = (if enabled then sh\<lparr>sh_yolo_state := False\<rparr> else sh)
      in send (SetAutoMode enabled) sh)"

definition handle_set_classifier :: "classifier option \<Rightarrow> shared \<Rightarrow> shared" where
  "handle_set_classifier c sh = send (SetClassifier c) (sh\<lparr>sh_side_query_wired := False\<rparr>)"

definition handle_set_classifier_with_side_query :: "classifier \<Rightarrow> bool \<Rightarrow> shared \<Rightarrow> shared" where
  "handle_set_classifier_with_side_query c has_side_query sh =
     send (SetClassifier (Some c)) (sh\<lparr>sh_side_query_wired := has_side_query\<rparr>)"

definition handle_set_llm_side_query_wired :: "bool \<Rightarrow> shared \<Rightarrow> shared" where
  "handle_set_llm_side_query_wired wired sh = sh\<lparr>sh_side_query_wired := wired\<rparr>"

definition handle_set_classifier_transcript :: "classifier_turn list \<Rightarrow> shared \<Rightarrow> shared" where
  "handle_set_classifier_transcript turns sh = send (SetClassifierTranscript turns) sh"

definition handle_set_project_instructions :: "str option \<Rightarrow> shared \<Rightarrow> shared" where
  "handle_set_project_instructions instructions sh = send (SetProjectInstructions instructions) sh"

definition handle_reset_state :: "shared \<Rightarrow> shared" where
  "handle_reset_state sh = send ResetState sh"

definition is_yolo_mode :: "permission_handle \<Rightarrow> bool" where
  "is_yolo_mode h = (case h of AllowAll \<Rightarrow> True | ActorHandle sh \<Rightarrow> sh_yolo_state sh)"

definition is_auto_mode :: "permission_handle \<Rightarrow> bool" where
  "is_auto_mode h = (case h of AllowAll \<Rightarrow> False | ActorHandle sh \<Rightarrow> sh_auto_state sh)"

definition has_llm_side_query :: "permission_handle \<Rightarrow> bool" where
  "has_llm_side_query h = (case h of AllowAll \<Rightarrow> False | ActorHandle sh \<Rightarrow> sh_side_query_wired sh)"

text \<open>
  What the caller of a request gets: \<open>delivered\<close> tells whether the actor still receives, \<open>reply\<close> is what came
  back before the reply channel closed.
\<close>

definition request_decision :: "permission_handle \<Rightarrow> bool \<Rightarrow> decision option \<Rightarrow> decision" where
  "request_decision h delivered reply =
     (case h of
        AllowAll \<Rightarrow> Allow
      | ActorHandle _ \<Rightarrow>
          if \<not> delivered then Reject (lit ''permission manager unavailable'')
          else (case reply of
              Some d \<Rightarrow> d
            | None \<Rightarrow> Reject (lit ''failed to receive permission decision'')))"

text \<open>The stores of the actor to the shared flags.\<close>

fun publish :: "'g manager_config \<Rightarrow> permission_command \<Rightarrow> shared \<Rightarrow> shared" where
  "publish cfg (SetYoloMode enabled) sh =
     (let clamped = clamp_yolo enabled (mc_yolo_pin cfg); sh = sh\<lparr>sh_yolo_state := clamped\<rparr>
      in if clamped then sh\<lparr>sh_auto_state := False\<rparr> else sh)"
| "publish cfg (SetAutoMode enabled) sh =
     (let sh = sh\<lparr>sh_auto_state := enabled\<rparr> in if enabled then sh\<lparr>sh_yolo_state := False\<rparr> else sh)"
| "publish cfg _ sh = sh"

definition spawn_shared :: "manager \<Rightarrow> shared" where
  "spawn_shared mg =
     \<lparr>sh_yolo_state = mg_yolo_mode mg, sh_auto_state = mg_auto_mode mg, sh_side_query_wired = False, sh_queue = []\<rparr>"

text \<open>A step of the whole: a client calls the handle, or the actor serves the next command.\<close>

inductive handle_step :: "'g manager_config \<Rightarrow> manager \<times> shared \<Rightarrow> manager \<times> shared \<Rightarrow> bool" for cfg where
  client_yolo: "handle_step cfg (mg, sh) (mg, handle_set_yolo_mode (mc_yolo_pin cfg) b sh)"
| client_auto: "handle_step cfg (mg, sh) (mg, handle_set_auto_mode b sh)"
| client_classifier: "handle_step cfg (mg, sh) (mg, handle_set_classifier c sh)"
| client_side_query: "handle_step cfg (mg, sh) (mg, handle_set_classifier_with_side_query c' b sh)"
| client_wired: "handle_step cfg (mg, sh) (mg, handle_set_llm_side_query_wired b sh)"
| client_transcript: "handle_step cfg (mg, sh) (mg, handle_set_classifier_transcript ts sh)"
| client_instructions: "handle_step cfg (mg, sh) (mg, handle_set_project_instructions t sh)"
| client_reset: "handle_step cfg (mg, sh) (mg, handle_reset_state sh)"
| client_request: "handle_step cfg (mg, sh) (mg, send (Request rq) sh)"
| actor: "sh_queue sh = c # cs \<Longrightarrow> serve cfg w c mg = (Some mg', out) \<Longrightarrow>
    handle_step cfg (mg, sh) (mg', publish cfg c (sh\<lparr>sh_queue := cs\<rparr>))"

end
