(* ===== verification/State_File_Props.thy ===== *)
theory State_File_Props
  imports Manager_Inputs
begin

text \<open>
  The file of grants (\<open>permission/state.rs\<close>): what is written is what is read back, given that the text form
  of the \<open>toml\<close> crate keeps the entries of a table; legacy server grants are invalidated once.
\<close>

section \<open>What the TOML crate promises\<close>

text \<open>
  Writing a table of booleans, integers, strings and lists of strings, and parsing the text, gives a table with
  the same entries.
\<close>

fun flat_value :: "toml \<Rightarrow> bool" where
  "flat_value (TArray vs) = list_all (\<lambda>v. case v of TString s \<Rightarrow> True | _ \<Rightarrow> False) vs"
| "flat_value (TTable t) = False"
| "flat_value (TOther s) = False"
| "flat_value v = True"

definition toml_contract :: "toml_crate \<Rightarrow> bool" where
  "toml_contract crate \<longleftrightarrow> (\<forall>t. distinct (map fst t) \<and> list_all (\<lambda>(k, v). flat_value v) t \<longrightarrow>
     (\<exists>contents t'. toml_to_string crate (TTable t) = Some contents \<and>
        toml_from_str crate contents = Some (TTable t') \<and> map_of t' = map_of t))"

section \<open>Writing and reading a state\<close>

text \<open>The sets of a state hold no element twice, and its version is a validated one that fits its type.\<close>

definition versioned :: "permission_state \<Rightarrow> bool" where
  "versioned st \<longleftrightarrow> VALIDATED_MCP_SERVER_GRANTS_VERSION \<le> ps_validated_mcp_server_grants_version st \<and>
     ps_validated_mcp_server_grants_version st < 2 ^ 63 \<and>
     distinct (ps_allowed_bash_commands st) \<and> distinct (ps_disallowed_bash_commands st) \<and>
     distinct (ps_allowed_web_fetch_domains st) \<and> distinct (ps_allowed_mcp_tools st) \<and>
     distinct (ps_allowed_mcp_servers st)"

lemma default_versioned: "versioned default_state"
  by (simp add: versioned_def default_state_def VALIDATED_MCP_SERVER_GRANTS_VERSION_def)

lemma deserialize_strings_same: "distinct xs \<Longrightarrow> deserialize_strings (map TString xs) = Some xs"
  by (induction xs) simp_all

lemma deserialize_set_same: "distinct xs \<Longrightarrow> deserialize_set (serialize_set xs) = Some xs"
  by (simp add: serialize_set_def deserialize_set_def deserialize_strings_same)

lemma deserialize_edit_policy_same: "deserialize_edit_policy (serialize_edit_policy p) = Some p"
  by (cases p) (simp_all add: deserialize_edit_policy_def)

lemma sint_word_of_int_same: "0 \<le> n \<Longrightarrow> n < 2 ^ 63 \<Longrightarrow> sint (word_of_int n :: 64 word) = n"
  by (simp add: signed_of_int signed_take_bit_int_eq_self)

lemma deserialize_version_same:
  "0 \<le> n \<Longrightarrow> n < 2 ^ 63 \<Longrightarrow> deserialize_mcp_server_grants_version (TInt (word_of_int n)) = Some n"
  by (simp add: deserialize_mcp_server_grants_version_def sint_word_of_int_same)

lemma read_state_same:
  assumes "versioned st"
  shows "read_state (map_of (state_fields st)) = Some st"
proof -
  note v = assms [unfolded versioned_def VALIDATED_MCP_SERVER_GRANTS_VERSION_def]
  let ?t = "map_of (state_fields st)"
  have "?t (lit ''edit_policy'') = Some (serialize_edit_policy (ps_edit_policy st))"
    "?t (lit ''allow_bash_execute'') = Some (TBool (ps_allow_bash_execute st))"
    "?t (lit ''allowed_bash_commands'') = Some (serialize_set (ps_allowed_bash_commands st))"
    "?t (lit ''disallowed_bash_commands'') = Some (serialize_set (ps_disallowed_bash_commands st))"
    "?t (lit ''allowed_web_fetch_domains'') = Some (serialize_set (ps_allowed_web_fetch_domains st))"
    "?t (lit ''allowed_mcp_tools'') = Some (serialize_set (ps_allowed_mcp_tools st))"
    "?t (lit ''allowed_mcp_servers'') = Some (serialize_set (ps_allowed_mcp_servers st))"
    "?t (lit ''validated_mcp_server_grants_version'') =
       Some (TInt (word_of_int (ps_validated_mcp_server_grants_version st)))"
    by (simp_all add: state_fields_def)
  then show ?thesis
    using v unfolding read_state_def read_field_def
    by (simp add: deserialize_set_same deserialize_edit_policy_same deserialize_bool_def deserialize_version_same
        del: lit_simps)
qed

lemma state_fields_flat:
  "distinct (map fst (state_fields st))" "list_all (\<lambda>(k, v). flat_value v) (state_fields st)"
proof -
  show "distinct (map fst (state_fields st))"
    by (simp add: state_fields_def)
  have "flat_value (serialize_edit_policy p)" "flat_value (serialize_set xs)" for p xs
    by (cases p; simp) (simp add: serialize_set_def list_all_iff)
  then show "list_all (\<lambda>(k, v). flat_value v) (state_fields st)"
    by (simp add: state_fields_def del: lit_simps)
qed

lemma written_text:
  assumes "toml_contract crate" "versioned st"
  obtains contents where "toml_to_string crate (TTable (state_fields st)) = Some contents"
    "state_of_text crate contents = st"
proof -
  obtain contents t' where c: "toml_to_string crate (TTable (state_fields st)) = Some contents"
      "toml_from_str crate contents = Some (TTable t')" "map_of t' = map_of (state_fields st)"
    using assms(1) state_fields_flat unfolding toml_contract_def by blast
  moreover have "state_of_text crate contents = st"
    by (simp add: state_of_text_def c deserialize_state_def read_state_same [OF assms(2)])
  ultimately show thesis
    using that by blast
qed

text \<open>Whatever a file holds, the state read from it holds no element twice and a version of its type.\<close>

lemma deserialize_strings_distinct: "deserialize_strings vs = Some xs \<Longrightarrow> distinct xs"
  by (induction vs arbitrary: xs rule: deserialize_strings.induct) auto

lemma read_set_distinct: "read_field t f deserialize_set missing = Some xs \<Longrightarrow> distinct missing \<Longrightarrow> distinct xs"
  by (auto simp: read_field_def deserialize_set_def dest: deserialize_strings_distinct
      split: option.splits toml.splits)

lemma read_version_fits:
  assumes "read_field t f deserialize_mcp_server_grants_version legacy_mcp_server_grants_version = Some n"
  shows "n < 2 ^ 63"
  using assms sint_lt
  by (auto simp: read_field_def deserialize_mcp_server_grants_version_def legacy_mcp_server_grants_version_def
      split: option.splits toml.splits if_splits intro: less_le_trans [OF sint_lt])

lemma read_state_shape:
  assumes "read_state t = Some st" "VALIDATED_MCP_SERVER_GRANTS_VERSION \<le> ps_validated_mcp_server_grants_version st"
  shows "versioned st"
  using assms unfolding read_state_def versioned_def
  by (auto simp: bind_eq_Some_conv default_state_def dest: read_set_distinct read_version_fits)

lemma read_state_validated:
  assumes "read_state t = Some st"
  shows "versioned (st\<lparr>ps_allowed_mcp_servers := [],
    ps_validated_mcp_server_grants_version := VALIDATED_MCP_SERVER_GRANTS_VERSION\<rparr>)"
  using assms unfolding read_state_def versioned_def
  by (auto simp: bind_eq_Some_conv default_state_def VALIDATED_MCP_SERVER_GRANTS_VERSION_def dest: read_set_distinct)

section \<open>Loading what was written\<close>

lemma write_state_eq:
  assumes "toml_contract crate" "versioned st"
  obtains contents where "write_state crate True path st d = d(path := FileText contents)"
    "state_of_text crate contents = st"
proof -
  obtain contents where "toml_to_string crate (TTable (state_fields st)) = Some contents" "state_of_text crate contents = st"
    using written_text [OF assms] .
  then show thesis
    by (intro that [of contents]) (simp_all add: write_state_def)
qed

lemma try_load_written:
  assumes "toml_contract crate" "versioned st"
  shows "try_load_state crate b path (write_state crate True path st d) = (Some st, write_state crate True path st d)"
proof -
  obtain contents where "write_state crate True path st d = d(path := FileText contents)" "state_of_text crate contents = st"
    using write_state_eq [OF assms] .
  then show ?thesis
    using assms(2) by (simp add: try_load_state_def versioned_def)
qed

lemma load_persisted:
  assumes "toml_contract crate" "versioned st"
  shows "fst (load_state_from_dir crate b c (persist_state crate True c st d)) = st"
  by (cases c) (simp_all add: load_state_from_dir_def persist_state_def try_load_written [OF assms] Let_def)

lemma state_of_text_cases:
  "state_of_text crate contents = default_state \<or> (\<exists>t. read_state t = Some (state_of_text crate contents))"
proof (cases "toml_from_str crate contents")
  case (Some v)
  then show ?thesis
    by (cases v) (auto simp: state_of_text_def deserialize_state_def split: option.splits)
qed (simp add: state_of_text_def)

lemma state_of_text_versioned:
  "VALIDATED_MCP_SERVER_GRANTS_VERSION \<le> ps_validated_mcp_server_grants_version (state_of_text crate contents) \<Longrightarrow>
     versioned (state_of_text crate contents)"
  "versioned ((state_of_text crate contents)\<lparr>ps_allowed_mcp_servers := [],
     ps_validated_mcp_server_grants_version := VALIDATED_MCP_SERVER_GRANTS_VERSION\<rparr>)"
proof -
  have "versioned (default_state\<lparr>ps_allowed_mcp_servers := [],
      ps_validated_mcp_server_grants_version := VALIDATED_MCP_SERVER_GRANTS_VERSION\<rparr>)"
    using default_versioned by (simp add: versioned_def)
  then show "VALIDATED_MCP_SERVER_GRANTS_VERSION \<le> ps_validated_mcp_server_grants_version (state_of_text crate contents) \<Longrightarrow>
      versioned (state_of_text crate contents)"
    "versioned ((state_of_text crate contents)\<lparr>ps_allowed_mcp_servers := [],
       ps_validated_mcp_server_grants_version := VALIDATED_MCP_SERVER_GRANTS_VERSION\<rparr>)"
    using state_of_text_cases [of crate contents] default_versioned read_state_shape read_state_validated
    by metis+
qed

lemma try_load_versioned: "try_load_state crate b path d = (Some st, d') \<Longrightarrow> versioned st"
  using state_of_text_versioned [of crate]
  by (auto simp: try_load_state_def Let_def split: state_file.splits if_splits)

lemma load_versioned: "versioned (fst (load_state_from_dir crate b c d))"
  using default_versioned
  by (auto simp: load_state_from_dir_def Let_def dest: try_load_versioned split: option.splits prod.splits)

text \<open>Loading twice gives the same: the invalidation of legacy grants is written back to the file it came from.\<close>

lemma try_load_again:
  assumes "toml_contract crate" "try_load_state crate True path d = (r, d')"
  shows "try_load_state crate b path d' = (r, d')"
proof (cases "d path")
  case NoFile
  with assms show ?thesis
    by (simp add: try_load_state_def)
next
  case (FileText contents)
  let ?st = "state_of_text crate contents"
  show ?thesis
  proof (cases "ps_validated_mcp_server_grants_version ?st < VALIDATED_MCP_SERVER_GRANTS_VERSION")
    case True
    with assms(2) FileText show ?thesis
      using try_load_written [OF assms(1) state_of_text_versioned(2) [of crate contents], of b path d]
      by (auto simp: try_load_state_def [of crate True path d] Let_def)
  next
    case False
    with assms(2) FileText have "d' = d" "r = Some ?st"
      by (simp_all add: try_load_state_def Let_def)
    with False FileText show ?thesis
      by (simp add: try_load_state_def Let_def)
  qed
qed

lemma try_load_other: "try_load_state crate b path d = (r, d') \<Longrightarrow> q \<noteq> path \<Longrightarrow> d' q = d q"
  by (auto simp: try_load_state_def write_state_def Let_def split: state_file.splits if_splits option.splits)

lemma try_load_none: "try_load_state crate b path d = (None, d') \<longleftrightarrow> d path = NoFile \<and> d' = d"
  by (auto simp: try_load_state_def Let_def split: state_file.splits if_splits)

lemma load_again:
  assumes crate: "toml_contract crate" and "load_state_from_dir crate True c d = (st, d')"
  shows "fst (load_state_from_dir crate b c d') = st" "versioned st"
proof -
  have generic: "fst (case try_load_state crate b (state_file_path None) d1' of
        (Some state, x) \<Rightarrow> (state, x) | (None, x) \<Rightarrow> (default_state, x)) = st \<and> versioned st"
    if "(case try_load_state crate True (state_file_path None) d1 of
        (Some state, x) \<Rightarrow> (state, x) | (None, x) \<Rightarrow> (default_state, x)) = (st, d1')" for d1 d1'
  proof (cases "try_load_state crate True (state_file_path None) d1")
    case (Pair r x)
    with that show ?thesis
      using try_load_again [OF crate Pair] default_versioned by (cases r) (auto dest: try_load_versioned)
  qed
  have "fst (load_state_from_dir crate b c d') = st \<and> versioned st"
  proof (cases c)
    case None
    with assms(2) generic show ?thesis
      by (simp add: load_state_from_dir_def Let_def)
  next
    case (Some client)
    obtain r x where r: "try_load_state crate True (state_file_path (Some client)) d = (r, x)"
      by (metis prod.exhaust)
    show ?thesis
    proof (cases r)
      case (Some st')
      with assms(2) r \<open>c = Some client\<close> have "st' = st" "d' = x"
        by (simp_all add: load_state_from_dir_def Let_def)
      with r Some \<open>c = Some client\<close> show ?thesis
        using try_load_again [OF crate r, of b] try_load_versioned by (auto simp: load_state_from_dir_def Let_def)
    next
      case None
      with r have none: "d (state_file_path (Some client)) = NoFile" "x = d"
        by (simp_all add: try_load_none)
      with assms(2) r None \<open>c = Some client\<close> have step: "(case try_load_state crate True (state_file_path None) d of
          (Some state, x) \<Rightarrow> (state, x) | (None, x) \<Rightarrow> (default_state, x)) = (st, d')"
        by (simp add: load_state_from_dir_def Let_def)
      have "d' (state_file_path (Some client)) = NoFile"
      proof (cases "state_file_path (Some client) = state_file_path None")
        case True
        with none step show ?thesis
          by (simp add: try_load_state_def)
      next
        case False
        with none step show ?thesis
          using try_load_other [of crate True "state_file_path None" d _ d'] by (auto split: prod.splits option.splits)
      qed
      then have "try_load_state crate b (state_file_path (Some client)) d' = (None, d')"
        by (simp add: try_load_none)
      with generic [OF step] \<open>c = Some client\<close> show ?thesis
        by (simp add: load_state_from_dir_def Let_def)
    qed
  qed
  then show "fst (load_state_from_dir crate b c d') = st" "versioned st"
    by simp_all
qed


section \<open>A text form that keeps its promise\<close>

text \<open>For the examples: every string is preceded by its length, every value by a tag, every list by its length.\<close>

fun ex_write_value :: "toml \<Rightarrow> str" where
  "ex_write_value (TString s) = 0 # length s # s"
| "ex_write_value (TInt n) = [1, unat n]"
| "ex_write_value (TBool b) = [2, if b then 1 else 0]"
| "ex_write_value (TArray vs) = 3 # length vs # concat (map (\<lambda>v. case v of TString s \<Rightarrow> length s # s | _ \<Rightarrow> []) vs)"
| "ex_write_value _ = []"

fun ex_write :: "toml \<Rightarrow> str option" where
  "ex_write (TTable t) = (if list_all (\<lambda>(k, v). flat_value v) t
     then Some (length t # concat (map (\<lambda>(k, v). length k # k @ ex_write_value v) t)) else None)"
| "ex_write _ = None"

fun ex_read_string :: "str \<Rightarrow> str \<times> str" where
  "ex_read_string [] = ([], [])"
| "ex_read_string (n # r) = (take n r, drop n r)"

fun ex_read_strings :: "nat \<Rightarrow> str \<Rightarrow> toml list \<times> str" where
  "ex_read_strings 0 r = ([], r)"
| "ex_read_strings (Suc n) r =
     (let (s, r) = ex_read_string r; (vs, r) = ex_read_strings n r in (TString s # vs, r))"

fun ex_read_value :: "str \<Rightarrow> toml \<times> str" where
  "ex_read_value (tag # n # r) =
     (if tag = 0 then (TString (take n r), drop n r)
      else if tag = 1 then (TInt (of_nat n), r)
      else if tag = 2 then (TBool (n = 1), r)
      else let (vs, r) = ex_read_strings n r in (TArray vs, r))"
| "ex_read_value r = (TOther r, [])"

fun ex_read_entries :: "nat \<Rightarrow> str \<Rightarrow> (str \<times> toml) list" where
  "ex_read_entries 0 r = []"
| "ex_read_entries (Suc n) r =
     (let (k, r) = ex_read_string r; (v, r) = ex_read_value r in (k, v) # ex_read_entries n r)"

fun ex_read :: "str \<Rightarrow> toml option" where
  "ex_read [] = None"
| "ex_read (n # r) = Some (TTable (ex_read_entries n r))"

definition ex_toml :: toml_crate where
  "ex_toml = \<lparr>toml_to_string = ex_write, toml_from_str = ex_read\<rparr>"

lemma ex_read_strings_write:
  "list_all (\<lambda>v. case v of TString s \<Rightarrow> True | _ \<Rightarrow> False) vs \<Longrightarrow>
   ex_read_strings (length vs) (concat (map (\<lambda>v. case v of TString s \<Rightarrow> length s # s | _ \<Rightarrow> []) vs) @ r) = (vs, r)"
  by (induction vs) (auto split: toml.splits)

lemma ex_read_value_write: "flat_value v \<Longrightarrow> ex_read_value (ex_write_value v @ r) = (v, r)"
  by (cases v) (simp_all add: ex_read_strings_write)

lemma ex_read_entries_write:
  "list_all (\<lambda>(k, v). flat_value v) t \<Longrightarrow>
   ex_read_entries (length t) (concat (map (\<lambda>(k, v). length k # k @ ex_write_value v) t)) = t"
  by (induction t) (auto simp: ex_read_value_write split: prod.splits)

lemma ex_toml_contract: "toml_contract ex_toml"
  unfolding toml_contract_def
proof (intro allI impI exI conjI)
  fix t :: "(str \<times> toml) list"
  assume "distinct (map fst t) \<and> list_all (\<lambda>(k, v). flat_value v) t"
  then show "toml_to_string ex_toml (TTable t) =
      Some (length t # concat (map (\<lambda>(k, v). length k # k @ ex_write_value v) t))"
    "toml_from_str ex_toml (length t # concat (map (\<lambda>(k, v). length k # k @ ex_write_value v) t)) = Some (TTable t)"
    by (simp_all add: ex_toml_def ex_read_entries_write)
qed (rule refl)

end
