(* ===== verification/Permission_Manager_Props.thy ===== *)
theory Permission_Manager_Props
  imports Permission_Manager Policy_Props State_File_Props
begin

text \<open>
  The permission manager over all its runs: the ways a request ends and what each stage changes, that every
  request is answered once and reported truly, that modes, counters and lists stay within their bounds, and that
  a restarted manager has the grants of its predecessor.
\<close>

section \<open>The ways a request ends\<close>

definition forced_by :: "auto_result \<Rightarrow> str option" where
  "forced_by r = (case r of AutoPrompt reason \<Rightarrow> Some reason | _ \<Rightarrow> None)"

definition auto_open :: "auto_result \<Rightarrow> bool" where
  "auto_open r = (case r of AutoAnswer _ \<Rightarrow> False | _ \<Rightarrow> True)"

lemma decide_request_cases:
  assumes "decide_request cfg w rq mg = (mg', src, v)"
  obtains (gone) "mg' = mg" "v = gone_verdict" "wd_closed w AtDequeue \<or> wd_closed w AfterScan"
  | (early) e where "evaluate_request cfg w rq mg = Some e" "mg' = mg"
      "early_verdict cfg w rq e (protected_edit cfg w rq) (request_preflight cfg w rq mg) mg = Some v"
  | (auto) e where "evaluate_request cfg w rq mg = Some e"
      "early_verdict cfg w rq e (protected_edit cfg w rq) (request_preflight cfg w rq mg) mg = None"
      "auto_stage w rq e (protected_edit cfg w rq) (request_preflight cfg w rq mg) mg = (mg', src, AutoAnswer v)"
  | (late) e r where "evaluate_request cfg w rq mg = Some e"
      "early_verdict cfg w rq e (protected_edit cfg w rq) (request_preflight cfg w rq mg) mg = None"
      "auto_stage w rq e (protected_edit cfg w rq) (request_preflight cfg w rq mg) mg = (mg', src, r)" "auto_open r"
      "late_verdict cfg w rq e (protected_edit cfg w rq) (request_preflight cfg w rq mg) (forced_by r \<noteq> None) mg' = Some v"
  | (prompt) e r mg1 where "evaluate_request cfg w rq mg = Some e"
      "early_verdict cfg w rq e (protected_edit cfg w rq) (request_preflight cfg w rq mg) mg = None"
      "auto_stage w rq e (protected_edit cfg w rq) (request_preflight cfg w rq mg) mg = (mg1, src, r)" "auto_open r"
      "late_verdict cfg w rq e (protected_edit cfg w rq) (request_preflight cfg w rq mg) (forced_by r \<noteq> None) mg1 = None"
      "prompt_stage cfg w rq e (request_preflight cfg w rq mg) (forced_by r) mg1 = (mg', v)"
proof -
  have scan: "wd_closed w AfterScan" if "evaluate_request cfg w rq mg = None"
    using that by (auto simp: evaluate_request_def Let_def split: access_kind.splits option.splits if_splits)
  show thesis
    using assms gone early auto late prompt scan
    by (fastforce simp: decide_request_def after_auto_def Let_def forced_by_def auto_open_def
        split: if_splits option.splits auto_result.splits prod.splits)
qed


section \<open>What the stages change\<close>

text \<open>The classifier's denials are counted, and nothing else changes.\<close>

definition denials_step :: "manager \<Rightarrow> manager \<Rightarrow> bool" where
  "denials_step mg mg' \<longleftrightarrow>
     (\<exists>c t. mg' = mg\<lparr>mg_consecutive_denials := c, mg_total_denials := t\<rparr> \<and>
        (c \<le> mg_consecutive_denials mg \<and> t = mg_total_denials mg \<or>
         c = mg_consecutive_denials mg + 1 \<and> t = mg_total_denials mg + 1 \<and>
           c \<le> AUTO_DENY_CONSECUTIVE_LIMIT \<and> t \<le> AUTO_DENY_TOTAL_LIMIT))"

lemma denials_step_refl: "denials_step mg mg"
  unfolding denials_step_def
  by (intro exI [of _ "mg_consecutive_denials mg"] exI [of _ "mg_total_denials mg"]) simp

lemma auto_verdict_of_denials:
  assumes "auto_verdict_of pf e outcome mg = (mg', r)"
  shows "denials_step mg mg'"
proof (cases "mg' = mg")
  case False
  with assms show ?thesis
    by (force simp: auto_verdict_of_def denials_step_def split: classifier_verdict.splits if_splits)
qed (simp add: denials_step_refl)

lemma auto_stage_denials: "auto_stage w rq e p pf mg = (mg', src, r) \<Longrightarrow> denials_step mg mg'"
  by (auto simp: auto_stage_def Let_def denials_step_refl dest: auto_verdict_of_denials
      split: if_splits auto_fast_path.splits option.splits prod.splits)

lemma denials_step_simps:
  assumes "denials_step mg mg'"
  shows "mg_state mg' = mg_state mg" "mg_disk mg' = mg_disk mg" "mg_yolo_mode mg' = mg_yolo_mode mg"
    "mg_auto_mode mg' = mg_auto_mode mg" "mg_classifier mg' = mg_classifier mg" "mg_recorded mg' = mg_recorded mg"
    "mg_allow_edits mg' = mg_allow_edits mg"
  using assms by (auto simp: denials_step_def)

lemma change_state_simps [simp]:
  "mg_state (change_state cfg w f mg) = f (mg_state mg)"
  "mg_yolo_mode (change_state cfg w f mg) = mg_yolo_mode mg"
  "mg_auto_mode (change_state cfg w f mg) = mg_auto_mode mg"
  "mg_classifier (change_state cfg w f mg) = mg_classifier mg"
  "mg_consecutive_denials (change_state cfg w f mg) = mg_consecutive_denials mg"
  "mg_total_denials (change_state cfg w f mg) = mg_total_denials mg"
  "mg_recorded (change_state cfg w f mg) = mg_recorded mg"
  "mg_allow_edits (change_state cfg w f mg) = mg_allow_edits mg"
  "mg_disk (change_state cfg w f mg) =
     persist_state (mc_toml cfg) (wd_writable w) (mc_client_identifier cfg) (f (mg_state mg)) (mg_disk mg)"
  by (simp_all add: change_state_def save_state_def)

text \<open>The change of the grants by one answer of the user.\<close>

definition always_mcp :: "prompt_outcome \<Rightarrow> bool" where
  "always_mcp outcome =
     (case outcome of AllowAlways \<Rightarrow> True | AllowAlwaysMcpTool _ \<Rightarrow> True | AllowAlwaysMcpServer _ \<Rightarrow> True | _ \<Rightarrow> False)"

definition granted :: "access_kind \<Rightarrow> prompt_outcome \<Rightarrow> permission_state \<Rightarrow> permission_state \<Rightarrow> bool" where
  "granted access outcome st st' \<longleftrightarrow>
     st' = st \<or>
     (case access of
        BashAccess cmd \<Rightarrow>
          st' = allow_bash cmd st \<and> outcome = AllowAlways \<or>
          (\<exists>p. st' = allow_bash p st \<and> outcome = AllowAlwaysBashCommand p) \<or>
          (\<exists>p. st' = disallow_bash p st \<and> outcome = RejectAlwaysBashCommand p)
      | MCPToolAccess name _ \<Rightarrow>
          st' = allow_mcp_tool name st \<and> always_mcp outcome \<or>
          (\<exists>server tool. st' = allow_mcp_server server st \<and> outcome = AllowAlwaysMcpServer server \<and>
             parse_mcp_qualified_name name = Some (name, server, tool))
      | WebFetchAccess _ \<Rightarrow> \<exists>d. st' = allow_domain d st \<and> outcome = AllowAlwaysDomain d
      | _ \<Rightarrow> False)"

lemma parse_mcp_qualified_name_id:
  "parse_mcp_qualified_name name = Some (name', server, tool) \<Longrightarrow> name' = name"
  by (auto simp: parse_mcp_qualified_name_def Let_def split: list.splits if_splits)

text \<open>What a prompt leaves as it is, and what it decides.\<close>

definition prompt_frame :: "'g manager_config \<Rightarrow> world \<Rightarrow> access_kind \<Rightarrow> prompt_outcome \<Rightarrow> manager \<Rightarrow> manager \<Rightarrow> bool" where
  "prompt_frame cfg w access outcome mg mg' \<longleftrightarrow>
     granted access outcome (mg_state mg) (mg_state mg') \<and>
     (mg_disk mg' = mg_disk mg \<and> mg_state mg' = mg_state mg \<or>
      mg_disk mg' = persist_state (mc_toml cfg) (wd_writable w) (mc_client_identifier cfg) (mg_state mg') (mg_disk mg)) \<and>
     mg_yolo_mode mg' = mg_yolo_mode mg \<and> mg_auto_mode mg' = mg_auto_mode mg \<and>
     mg_classifier mg' = mg_classifier mg \<and>
     (mg_allow_edits mg' \<longrightarrow> mg_allow_edits mg \<or> outcome = AllowEditsForSession \<and> \<not> is_bash access)"

definition user_decision :: "decision \<Rightarrow> bool" where
  "user_decision d = (case d of Ask \<Rightarrow> False | PolicyDeny _ \<Rightarrow> False | _ \<Rightarrow> True)"

lemma bash_prompt_frame:
  assumes "bash_prompt cfg w cmd outcome mg = (mg', d, lbl)"
  shows "prompt_frame cfg w (BashAccess cmd) outcome mg mg'" "user_decision d"
    "mg_consecutive_denials mg' = mg_consecutive_denials mg" "mg_total_denials mg' = mg_total_denials mg"
    "mg_recorded mg' = mg_recorded mg"
  using assms
  by (auto simp: bash_prompt_def prompt_frame_def granted_def user_decision_def is_bash_def split: prompt_outcome.splits)

lemma other_prompt_frame:
  assumes "other_prompt cfg w access outcome mg = (mg', d, lbl)" "\<not> is_bash access"
  shows "prompt_frame cfg w access outcome mg mg'" "user_decision d"
    "mg_consecutive_denials mg' = mg_consecutive_denials mg" "mg_total_denials mg' = mg_total_denials mg"
    "mg_recorded mg' = mg_recorded mg"
  using assms parse_mcp_qualified_name_id
  by (auto simp: other_prompt_def prompt_frame_def granted_def always_mcp_def user_decision_def is_bash_def save_state_def
      split: prompt_outcome.splits access_kind.splits option.splits prod.splits if_splits)


lemma record_decision_simps [simp]:
  "mg_state (record_decision w a b mg) = mg_state mg"
  "mg_disk (record_decision w a b mg) = mg_disk mg"
  "mg_yolo_mode (record_decision w a b mg) = mg_yolo_mode mg"
  "mg_auto_mode (record_decision w a b mg) = mg_auto_mode mg"
  "mg_classifier (record_decision w a b mg) = mg_classifier mg"
  "mg_consecutive_denials (record_decision w a b mg) = mg_consecutive_denials mg"
  "mg_total_denials (record_decision w a b mg) = mg_total_denials mg"
  "mg_allow_edits (record_decision w a b mg) = mg_allow_edits mg"
  "length (mg_recorded (record_decision w a b mg)) \<le> MAX_RECORDED_PERMISSION_DECISIONS"
  by (simp_all add: record_decision_def Let_def)

lemma prompt_frame_more:
  assumes "prompt_frame cfg w access outcome mg mg1" "mg_state mg' = mg_state mg1" "mg_disk mg' = mg_disk mg1"
    "mg_yolo_mode mg' = mg_yolo_mode mg1" "mg_auto_mode mg' = mg_auto_mode mg1" "mg_classifier mg' = mg_classifier mg1"
    "mg_allow_edits mg' = mg_allow_edits mg1"
  shows "prompt_frame cfg w access outcome mg mg'"
  using assms by (simp add: prompt_frame_def)

lemma prompt_dispatch:
  assumes "(case a of BashAccess cmd \<Rightarrow> bash_prompt cfg w cmd outcome mg | _ \<Rightarrow> other_prompt cfg w a outcome mg) =
    (mg1, d, lbl)"
  shows "prompt_frame cfg w a outcome mg mg1" "user_decision d"
    "mg_consecutive_denials mg1 = mg_consecutive_denials mg" "mg_total_denials mg1 = mg_total_denials mg"
    "mg_recorded mg1 = mg_recorded mg"
proof -
  consider cmd where "a = BashAccess cmd" | "\<not> is_bash a"
    by (cases a) (auto simp: is_bash_def)
  then have "prompt_frame cfg w a outcome mg mg1 \<and> user_decision d \<and>
    mg_consecutive_denials mg1 = mg_consecutive_denials mg \<and> mg_total_denials mg1 = mg_total_denials mg \<and>
    mg_recorded mg1 = mg_recorded mg"
  proof cases
    case 1
    with assms show ?thesis
      using bash_prompt_frame [of cfg w cmd outcome mg mg1 d lbl] by simp
  next
    case 2
    with assms have "other_prompt cfg w a outcome mg = (mg1, d, lbl)"
      by (cases a) (auto simp: is_bash_def)
    with 2 show ?thesis
      using other_prompt_frame [of cfg w a outcome mg mg1 d lbl] by simp
  qed
  then show "prompt_frame cfg w a outcome mg mg1" "user_decision d"
    "mg_consecutive_denials mg1 = mg_consecutive_denials mg" "mg_total_denials mg1 = mg_total_denials mg"
    "mg_recorded mg1 = mg_recorded mg"
    by simp_all
qed

lemma ask_user_frame:
  assumes "ask_user cfg w rq trigger mg = (mg', v)"
  shows "prompt_frame cfg w (rq_access rq) (prompt_result cfg w rq) mg mg'" "user_decision (vd_decision v)"
    "mg_consecutive_denials mg' \<le> mg_consecutive_denials mg" "mg_total_denials mg' = mg_total_denials mg"
    "length (mg_recorded mg') \<le> max (length (mg_recorded mg)) MAX_RECORDED_PERMISSION_DECISIONS"
    "vd_user_prompted v" "vd_sent v" "\<not> vd_auto_approved v"
    "vd_reason v = trigger \<or> vd_reason v = lit ''requester_gone''" "\<exists>lbl. vd_prompt_outcome v = Some lbl"
proof -
  obtain mg1 d lbl where p: "(case rq_access rq of
      BashAccess cmd \<Rightarrow> bash_prompt cfg w cmd (prompt_result cfg w rq) mg
    | _ \<Rightarrow> other_prompt cfg w (rq_access rq) (prompt_result cfg w rq) mg) = (mg1, d, lbl)"
    by (metis prod_cases3)
  then have f: "prompt_frame cfg w (rq_access rq) (prompt_result cfg w rq) mg mg1" "user_decision d"
      "mg_consecutive_denials mg1 = mg_consecutive_denials mg" "mg_total_denials mg1 = mg_total_denials mg"
      "mg_recorded mg1 = mg_recorded mg"
    using prompt_dispatch [OF p] by blast+
  define mg2 where "mg2 = (case prompted_decision_approved d lbl of
      Some approved \<Rightarrow> record_decision w (rq_access rq) approved mg1 | None \<Rightarrow> mg1)"
  have same: "mg_state mg2 = mg_state mg1" "mg_disk mg2 = mg_disk mg1" "mg_yolo_mode mg2 = mg_yolo_mode mg1"
      "mg_auto_mode mg2 = mg_auto_mode mg1" "mg_classifier mg2 = mg_classifier mg1" "mg_allow_edits mg2 = mg_allow_edits mg1"
      "mg_consecutive_denials mg2 = mg_consecutive_denials mg1" "mg_total_denials mg2 = mg_total_denials mg1"
    by (simp_all add: mg2_def split: option.splits)
  have rec: "length (mg_recorded mg2) \<le> max (length (mg_recorded mg)) MAX_RECORDED_PERMISSION_DECISIONS"
    using f(5) record_decision_simps(9) [of w "rq_access rq" _ mg1]
    by (auto simp: mg2_def le_max_iff_disj split: option.splits)
  have mg': "mg' = (if lbl \<noteq> lit ''error'' \<and> \<not> (d = Cancelled \<and> wd_closed w AfterPrompt)
      then mg2\<lparr>mg_consecutive_denials := 0\<rparr> else mg2)"
    and v: "v = \<lparr>vd_decision = d, vd_auto_approved = False, vd_user_prompted = True, vd_prompt_outcome = Some lbl,
      vd_reason = (if d = Cancelled \<and> wd_closed w AfterPrompt then lit ''requester_gone'' else trigger), vd_sent = True\<rparr>"
    using assms p by (simp_all add: ask_user_def Let_def mg2_def del: lit_simps cong: if_cong split del: if_split)
  show "prompt_frame cfg w (rq_access rq) (prompt_result cfg w rq) mg mg'"
    using f(1) by (rule prompt_frame_more) (simp_all add: mg' same)
  show "mg_consecutive_denials mg' \<le> mg_consecutive_denials mg" "mg_total_denials mg' = mg_total_denials mg"
    "length (mg_recorded mg') \<le> max (length (mg_recorded mg)) MAX_RECORDED_PERMISSION_DECISIONS"
    using f rec by (simp_all add: mg' same)
  show "user_decision (vd_decision v)" "vd_user_prompted v" "vd_sent v" "\<not> vd_auto_approved v"
    "vd_reason v = trigger \<or> vd_reason v = lit ''requester_gone''" "\<exists>lbl. vd_prompt_outcome v = Some lbl"
    using f(2) by (simp_all add: v)
qed


section \<open>Verdicts without a prompt\<close>

text \<open>The values the documentation of \<open>PermissionEvent::decision_reason\<close> lists.\<close>

definition DECISION_REASONS :: "str list" where
  "DECISION_REASONS = map lit [''yolo'', ''policy_allow'', ''policy_deny'', ''policy_ask'', ''bash_command_gate_ask'',
     ''shell_file_gate_ask'', ''auto_fast_path'', ''auto_classifier_allow'', ''auto_classifier_block'',
     ''auto_classifier_deny'', ''auto_classifier_timeout'', ''auto_classifier_unavailable'', ''auto_denial_limit'',
     ''sandbox_auto'', ''persisted_grant'', ''session_grant'', ''static_allowlist'', ''safe_command'', ''session_deny'',
     ''prompt_deny'', ''needs_user'', ''bash_request_floor'', ''opaque_shell'', ''requester_gone'']"

definition settled :: "verdict \<Rightarrow> bool" where
  "settled v \<longleftrightarrow> \<not> vd_user_prompted v \<and> vd_prompt_outcome v = None \<and> vd_decision v \<noteq> Ask \<and>
     vd_reason v \<in> set DECISION_REASONS"

lemma settled_verdicts:
  "settled (auto_verdict d reason) \<longleftrightarrow> d \<noteq> Ask \<and> reason \<in> set DECISION_REASONS"
  "settled (deny_verdict d reason) \<longleftrightarrow> d \<noteq> Ask \<and> reason \<in> set DECISION_REASONS"
  "settled gone_verdict"
  by (simp_all add: settled_def auto_verdict_def deny_verdict_def gone_verdict_def DECISION_REASONS_def del: lit_simps)

lemma verdict_simps:
  "vd_decision (auto_verdict d r) = d" "vd_decision (deny_verdict d r) = d" "vd_decision gone_verdict = Cancelled"
  "vd_reason (auto_verdict d r) = r" "vd_reason (deny_verdict d r) = r" "vd_reason gone_verdict = lit ''requester_gone''"
  "vd_sent (auto_verdict d r)" "vd_sent (deny_verdict d r)" "\<not> vd_sent gone_verdict"
  "vd_auto_approved (auto_verdict d r)" "\<not> vd_auto_approved (deny_verdict d r)" "\<not> vd_auto_approved gone_verdict"
  by (simp_all add: auto_verdict_def deny_verdict_def gone_verdict_def)

lemma bash_grant_result:
  assumes "bash_grant_pre_decision cmd e st pin opts = Some (d, reason)"
  shows "d = Allow \<and> (reason = lit ''session_grant'' \<or> reason = lit ''safe_command'') \<or>
    (\<exists>x. d = Reject x) \<and> reason = lit ''session_deny''"
  using assms
  by (auto simp: bash_grant_pre_decision_def then_some_def simp del: lit_simps
      split: segment_evaluation.splits if_splits)

lemma mcp_pre_decision_Allow: "mcp_pre_decision name st a b = Some d \<Longrightarrow> d = Allow"
  by (auto simp: mcp_pre_decision_def split: if_splits)

lemma session_grant_settled:
  assumes "session_grant_pre_decision env up access e st ae m h pin = Some (d, reason)"
  shows "d \<noteq> Ask \<and> reason \<in> set DECISION_REASONS"
  using assms
  by (auto simp: session_grant_pre_decision_def then_some_def DECISION_REASONS_def simp del: lit_simps
      dest!: bash_grant_result mcp_pre_decision_Allow split: access_kind.splits if_splits option.splits)

lemma pre_decision_settled:
  assumes "pre_decision cfg w rq e p pf forced mg = Some (d, reason)"
  shows "d \<noteq> Ask \<and> reason \<in> set DECISION_REASONS"
  using assms
  by (auto simp: pre_decision_def then_some_def DECISION_REASONS_def simp del: lit_simps
      dest!: bash_grant_result mcp_pre_decision_Allow split: access_kind.splits if_splits option.splits)

lemma reasons_mem:
  "lit ''yolo'' \<in> set DECISION_REASONS" "lit ''policy_allow'' \<in> set DECISION_REASONS"
  "lit ''policy_deny'' \<in> set DECISION_REASONS" "lit ''policy_ask'' \<in> set DECISION_REASONS"
  "lit ''bash_command_gate_ask'' \<in> set DECISION_REASONS" "lit ''shell_file_gate_ask'' \<in> set DECISION_REASONS"
  "lit ''auto_fast_path'' \<in> set DECISION_REASONS" "lit ''auto_classifier_allow'' \<in> set DECISION_REASONS"
  "lit ''auto_classifier_block'' \<in> set DECISION_REASONS" "lit ''auto_classifier_deny'' \<in> set DECISION_REASONS"
  "lit ''auto_classifier_timeout'' \<in> set DECISION_REASONS" "lit ''auto_classifier_unavailable'' \<in> set DECISION_REASONS"
  "lit ''auto_denial_limit'' \<in> set DECISION_REASONS" "lit ''sandbox_auto'' \<in> set DECISION_REASONS"
  "lit ''prompt_deny'' \<in> set DECISION_REASONS" "lit ''needs_user'' \<in> set DECISION_REASONS"
  "lit ''bash_request_floor'' \<in> set DECISION_REASONS" "lit ''opaque_shell'' \<in> set DECISION_REASONS"
  "lit ''requester_gone'' \<in> set DECISION_REASONS"
  by (simp_all add: DECISION_REASONS_def del: lit_simps)

lemma early_settled: "early_verdict cfg w rq e p pf mg = Some v \<Longrightarrow> settled v \<and> vd_sent v"
  by (auto simp: early_verdict_def undenied_verdict_def then_some_def settled_verdicts verdict_simps reasons_mem
      simp del: lit_simps dest!: session_grant_settled split: option.splits decision.splits if_splits)

lemma auto_settled: "auto_stage w rq e p pf mg = (mg', src, AutoAnswer v) \<Longrightarrow>
    settled v \<and> (vd_sent v \<or> v = gone_verdict \<and> wd_closed w DuringClassify)"
  by (auto simp: auto_stage_def Let_def auto_verdict_of_def classify_request_def settled_verdicts verdict_simps
      reasons_mem simp del: lit_simps
      split: if_splits auto_fast_path.splits option.splits prod.splits classifier_verdict.splits)

lemma auto_forced_reason: "auto_stage w rq e p pf mg = (mg', src, r) \<Longrightarrow> set_option (forced_by r) \<subseteq> set DECISION_REASONS"
  by (auto simp: auto_stage_def Let_def auto_verdict_of_def forced_by_def reasons_mem simp del: lit_simps
      split: if_splits auto_fast_path.splits option.splits prod.splits classifier_verdict.splits auto_result.splits)

lemma late_verdict_cases:
  assumes "late_verdict cfg w rq e p pf forced mg = Some v"
  obtains (sandbox) "is_bash (rq_access rq)" "sandbox_may_auto_allow_bash e (wd_sandbox w)" "\<not> policy_forced_prompt pf"
      "\<not> forced" "v = auto_verdict Allow (lit ''sandbox_auto'')"
  | (managed) d where "managed_allow e p pf = Some d" "v = auto_verdict d (lit ''policy_allow'')"
  | (pre) d reason where "pre_decision cfg w rq e p pf forced mg = Some (d, reason)"
      "d \<noteq> Allow \<or> \<not> forced \<or> is_bash (rq_access rq)" "v = auto_verdict d reason"
  | (deny) "v = deny_verdict (PolicyDeny (lit ''denied by prompt policy (tool not pre-approved)'')) (lit ''prompt_deny'')"
proof (cases "is_bash (rq_access rq) \<and> sandbox_may_auto_allow_bash e (wd_sandbox w) \<and> \<not> policy_forced_prompt pf \<and> \<not> forced")
  case True
  with assms sandbox show thesis
    by (simp add: late_verdict_def del: lit_simps)
next
  case no_sandbox: False
  show thesis
  proof (cases "managed_allow e p pf")
    case (Some d)
    with no_sandbox assms show thesis
      by (intro managed [OF Some]) (auto simp: late_verdict_def simp del: lit_simps split: if_splits)
  next
    case None
    have blocks: "auto_prompt_blocks_allow (rq_access rq) \<longleftrightarrow> \<not> is_bash (rq_access rq)"
      by (simp add: auto_prompt_blocks_allow_def is_bash_def split: access_kind.splits)
    show thesis
    proof (cases "pre_decision cfg w rq e p pf forced mg")
      case pre_none: None
      from no_sandbox None pre_none assms show thesis
        by (intro deny) (auto simp: late_verdict_def Let_def then_some_def simp del: lit_simps split: if_splits)
    next
      case (Some x)
      show thesis
      proof (cases "forced \<and> \<not> is_bash (rq_access rq) \<and> fst x = Allow")
        case True
        with no_sandbox None Some assms show thesis
          by (cases x) (auto intro!: deny simp: late_verdict_def Let_def then_some_def blocks simp del: lit_simps
              split: if_splits)
      next
        case False
        with no_sandbox None Some assms have "v = auto_verdict (fst x) (snd x)"
          by (cases x) (auto simp: late_verdict_def Let_def blocks simp del: lit_simps)
        with False Some show thesis
          by (intro pre [of "fst x" "snd x"]) auto
      qed
    qed
  qed
qed

lemma late_settled:
  assumes "late_verdict cfg w rq e p pf forced mg = Some v"
  shows "settled v \<and> vd_sent v"
  using assms
proof (cases rule: late_verdict_cases)
  case (managed d)
  then show ?thesis
    by (auto simp: managed_allow_def settled_verdicts verdict_simps reasons_mem simp del: lit_simps split: option.splits if_splits)
qed (auto simp: settled_verdicts verdict_simps reasons_mem simp del: lit_simps dest!: pre_decision_settled)


section \<open>One request\<close>

lemma prompt_trigger_reason:
  "set_option r \<subseteq> set DECISION_REASONS \<Longrightarrow> prompt_trigger pf r = Some t \<Longrightarrow> t \<in> set DECISION_REASONS"
  by (auto simp: prompt_trigger_def reasons_mem simp del: lit_simps split: if_splits)

lemma prompt_stage_cases:
  assumes "prompt_stage cfg w rq e pf r mg = (mg', v)" "set_option r \<subseteq> set DECISION_REASONS"
  obtains "mg' = mg" "v = gone_verdict" "wd_closed w BeforePrompt"
  | t where "ask_user cfg w rq t mg = (mg', v)" "t \<in> set DECISION_REASONS"
proof -
  define t where "t = (case prompt_trigger pf r of
      Some t \<Rightarrow> t
    | None \<Rightarrow> if bash_opaque_shell_floor_requires_prompt e then lit ''opaque_shell''
        else if bash_floor e then lit ''bash_request_floor'' else lit ''needs_user'')"
  have "t \<in> set DECISION_REASONS"
    using prompt_trigger_reason [OF assms(2)] by (auto simp: t_def reasons_mem simp del: lit_simps split: option.splits)
  moreover have "(mg', v) = (if wd_closed w BeforePrompt then (mg, gone_verdict) else ask_user cfg w rq t mg)"
    using assms(1) by (simp add: prompt_stage_def Let_def t_def del: lit_simps cong: if_cong split del: if_split)
  ultimately show thesis
    using that by (cases "wd_closed w BeforePrompt") (auto simp del: lit_simps)
qed

lemma decide_request_frame:
  assumes "decide_request cfg w rq mg = (mg', src, v)"
  obtains (unprompted) "denials_step mg mg'" "settled v" "vd_sent v \<or> v = gone_verdict \<and> (\<exists>m. wd_closed w m)"
  | (prompted) mg1 t where "denials_step mg mg1" "ask_user cfg w rq t mg1 = (mg', v)" "t \<in> set DECISION_REASONS"
  using assms
proof (cases rule: decide_request_cases)
  case gone
  then show thesis
    by (intro unprompted) (auto simp: denials_step_refl settled_verdicts)
next
  case (early e)
  then show thesis
    using early_settled [OF early(3)] by (intro unprompted) (auto simp: denials_step_refl)
next
  case (auto e)
  then show thesis
    using auto_settled [OF auto(3)] auto_stage_denials [OF auto(3)] by (intro unprompted) auto
next
  case (late e r)
  then show thesis
    using late_settled [OF late(5)] auto_stage_denials [OF late(3)] by (intro unprompted) auto
next
  case (prompt e r mg1)
  have step: "denials_step mg mg1"
    using prompt(3) by (rule auto_stage_denials)
  show thesis
  proof (cases rule: prompt_stage_cases [OF prompt(6) auto_forced_reason [OF prompt(3)]])
    case 1
    with step show thesis
      by (intro unprompted) (auto simp: settled_verdicts)
  next
    case (2 t)
    with step show thesis
      by (rule prompted)
  qed
qed

lemma handle_request_modes:
  assumes "decide_request cfg w rq mg = (mg', src, v)"
  shows "mg_yolo_mode mg' = mg_yolo_mode mg" "mg_auto_mode mg' = mg_auto_mode mg"
proof -
  have "mg_yolo_mode mg' = mg_yolo_mode mg \<and> mg_auto_mode mg' = mg_auto_mode mg"
    using assms
  proof (cases rule: decide_request_frame)
    case (prompted mg1 t)
    then show ?thesis
      using ask_user_frame(1) [OF prompted(2)] denials_step_simps [OF prompted(1)] by (simp add: prompt_frame_def)
  qed (simp add: denials_step_simps)
  then show "mg_yolo_mode mg' = mg_yolo_mode mg" "mg_auto_mode mg' = mg_auto_mode mg"
    by simp_all
qed

text \<open>
  C14. Every request produces one event and at most one reply.  Nothing is sent only when the requester was seen to
  be gone, an open question is never sent, a caller whose request or reply is lost is not allowed, the event tells
  the decision that was sent, its reason is one of the documented values, and it never counts a prompted decision
  as automatic.
\<close>

theorem request_answered:
  "case handle_request cfg w rq mg of (mg', ev, sent) \<Rightarrow>
     (sent = None \<longrightarrow> (\<exists>m. wd_closed w m) \<and> pv_decision ev = lit ''cancelled'') \<and>
     (\<forall>d. sent = Some d \<longrightarrow> d \<noteq> Ask \<and> (pv_decision ev, pv_reject_reason ev) = decision_text d) \<and>
     (\<forall>sh delivered. request_decision (ActorHandle sh) delivered sent = Allow \<longrightarrow> sent = Some Allow) \<and>
     pv_decision_reason ev \<in> set DECISION_REASONS \<and>
     (pv_user_prompted ev \<longleftrightarrow> pv_prompt_outcome ev \<noteq> None) \<and> \<not> (pv_user_prompted ev \<and> pv_auto_approved ev) \<and>
     pv_permission_mode ev = permission_mode_text mg"
proof -
  obtain mg' src v where d: "decide_request cfg w rq mg = (mg', src, v)"
    by (metis prod_cases3)
  have mode: "permission_mode_text mg' = permission_mode_text mg"
    using handle_request_modes [OF d] by (simp add: permission_mode_text_def)
  have verdict: "vd_reason v \<in> set DECISION_REASONS \<and> vd_decision v \<noteq> Ask \<and>
      (vd_user_prompted v \<longleftrightarrow> vd_prompt_outcome v \<noteq> None) \<and> \<not> (vd_user_prompted v \<and> vd_auto_approved v) \<and>
      (\<not> vd_sent v \<longrightarrow> v = gone_verdict \<and> (\<exists>m. wd_closed w m))"
    using d
  proof (cases rule: decide_request_frame)
    case unprompted
    then show ?thesis
      by (auto simp: settled_def)
  next
    case (prompted mg1 t)
    then show ?thesis
      using ask_user_frame [OF prompted(2)] reasons_mem(19) by (auto simp: user_decision_def simp del: lit_simps)
  qed
  then show ?thesis
    by (auto simp: handle_request_def d emit_event_def then_some_def mode gone_verdict_def decision_text_def
        request_decision_def simp del: lit_simps split: option.splits if_splits)
qed


section \<open>The grants on disk\<close>

definition grants_on_disk :: "'g manager_config \<Rightarrow> manager \<Rightarrow> bool" where
  "grants_on_disk cfg mg \<longleftrightarrow>
     (\<forall>b. fst (load_state_from_dir (mc_toml cfg) b (mc_client_identifier cfg) (mg_disk mg)) = mg_state mg)"

section \<open>Runs\<close>

text \<open>The loop of the actor on the commands it receives, with a log of the requests it served.\<close>

fun run_manager :: "'g manager_config \<Rightarrow> (world \<times> permission_command) list \<Rightarrow> manager \<Rightarrow>
    manager \<times> (world \<times> request \<times> permission_event \<times> decision option) list" where
  "run_manager cfg [] mg = (mg, [])"
| "run_manager cfg ((w, c) # cs) mg =
     (case serve cfg w c mg of
        (None, _) \<Rightarrow> (mg, [])
      | (Some mg', out) \<Rightarrow>
          (case run_manager cfg cs mg' of (mg'', served) \<Rightarrow>
             (mg'', (case (c, out) of (Request rq, Some (ev, sent)) \<Rightarrow> [(w, rq, ev, sent)] | _ \<Rightarrow> []) @ served)))"

definition manager_ok :: "'g manager_config \<Rightarrow> manager \<Rightarrow> bool" where
  "manager_ok cfg mg \<longleftrightarrow>
     (mc_yolo_pin cfg \<noteq> None \<longrightarrow> \<not> mg_yolo_mode mg) \<and>
     \<not> (mg_yolo_mode mg \<and> mg_auto_mode mg) \<and>
     mg_consecutive_denials mg \<le> AUTO_DENY_CONSECUTIVE_LIMIT \<and>
     mg_consecutive_denials mg \<le> mg_total_denials mg \<and>
     mg_total_denials mg \<le> AUTO_DENY_TOTAL_LIMIT \<and>
     length (mg_recorded mg) \<le> MAX_RECORDED_PERMISSION_DECISIONS \<and>
     ps_edit_policy (mg_state mg) \<noteq> EditAllow \<and> versioned (mg_state mg)"

lemma granted_keeps:
  assumes "granted access outcome st st'"
  shows "ps_edit_policy st' = ps_edit_policy st" "versioned st' = versioned st"
    "ps_allow_bash_execute st' = ps_allow_bash_execute st"
  using assms
  by (auto simp: granted_def allow_bash_def disallow_bash_def allow_domain_def allow_mcp_tool_def allow_mcp_server_def
      versioned_def split: access_kind.splits)

lemma denials_step_ok: "denials_step mg mg' \<Longrightarrow> manager_ok cfg mg \<Longrightarrow> manager_ok cfg mg'"
  by (auto simp: denials_step_def manager_ok_def)

lemma ask_user_ok:
  assumes "ask_user cfg w rq t mg = (mg', v)" "manager_ok cfg mg"
  shows "manager_ok cfg mg'"
proof -
  have frame: "prompt_frame cfg w (rq_access rq) (prompt_result cfg w rq) mg mg'"
    by (rule ask_user_frame [OF assms(1)])
  then have "granted (rq_access rq) (prompt_result cfg w rq) (mg_state mg) (mg_state mg')"
    by (simp add: prompt_frame_def)
  note granted_keeps [OF this]
  with assms(2) frame show ?thesis
    using ask_user_frame(3-5) [OF assms(1)] by (auto simp: manager_ok_def prompt_frame_def)
qed

lemma decide_request_ok:
  assumes "decide_request cfg w rq mg = (mg', src, v)" "manager_ok cfg mg"
  shows "manager_ok cfg mg'"
  using assms(1)
proof (cases rule: decide_request_frame)
  case unprompted
  with assms(2) show ?thesis
    using denials_step_ok by blast
next
  case (prompted mg1 t)
  with assms(2) show ?thesis
    using denials_step_ok ask_user_ok by blast
qed

lemma serve_ok:
  assumes "serve cfg w c mg = (Some mg', out)" "manager_ok cfg mg"
  shows "manager_ok cfg mg'"
proof (cases c)
  case (Request rq)
  with assms show ?thesis
    using decide_request_ok by (auto simp: handle_request_def split: prod.splits)
next
  case (SetYoloMode b)
  with assms show ?thesis
    by (auto simp: set_yolo_def Let_def manager_ok_def clamp_yolo_def split: if_splits)
next
  case (SetAutoMode b)
  with assms show ?thesis
    by (auto simp: set_auto_def Let_def manager_ok_def split: if_splits)
next
  case ResetState
  with assms show ?thesis
    using default_versioned by (auto simp: reset_state_def manager_ok_def default_state_def)
qed (use assms in \<open>auto simp: manager_ok_def\<close>)

lemma spawn_ok: "manager_ok cfg (spawn_permission_manager cfg y b d)"
proof -
  obtain st d1 where l: "load_state_from_dir (mc_toml cfg) b (mc_client_identifier cfg) d = (st, d1)"
    by (metis prod.exhaust)
  then have "versioned st"
    using load_versioned [of "mc_toml cfg" b "mc_client_identifier cfg" d] by simp
  then have "versioned st" "versioned (st\<lparr>ps_edit_policy := EditAsk\<rparr>)"
    by (simp_all add: versioned_def)
  then show ?thesis
    by (simp add: spawn_permission_manager_def l Let_def manager_ok_def clamp_yolo_def)
qed

lemma spawn_on_disk:
  assumes "toml_contract (mc_toml cfg)"
  shows "grants_on_disk cfg (spawn_permission_manager cfg y True d)"
proof -
  obtain st d1 where l: "load_state_from_dir (mc_toml cfg) True (mc_client_identifier cfg) d = (st, d1)"
    by (metis prod.exhaust)
  define st' where "st' = st\<lparr>ps_edit_policy := EditAsk\<rparr>"
  have "versioned st'"
    using load_again(2) [OF assms l] by (simp add: st'_def versioned_def)
  then show ?thesis
    using load_again(1) [OF assms l] load_persisted [OF assms]
    by (simp add: spawn_permission_manager_def l Let_def grants_on_disk_def st'_def)
qed

lemma prompt_frame_on_disk:
  assumes "prompt_frame cfg w access outcome mg mg'" "wd_writable w" "versioned (mg_state mg)" "grants_on_disk cfg mg"
    and crate: "toml_contract (mc_toml cfg)"
  shows "grants_on_disk cfg mg'"
proof -
  have "granted access outcome (mg_state mg) (mg_state mg')"
    using assms(1) by (simp add: prompt_frame_def)
  then have "versioned (mg_state mg')"
    using assms(3) granted_keeps(2) by blast
  note load_persisted [OF crate this]
  with assms(1,2,4) show ?thesis
    by (auto simp: prompt_frame_def grants_on_disk_def)
qed

lemma serve_on_disk:
  assumes "serve cfg w c mg = (Some mg', out)" "wd_writable w" "manager_ok cfg mg" "grants_on_disk cfg mg"
    and crate: "toml_contract (mc_toml cfg)"
  shows "grants_on_disk cfg mg'"
proof (cases c)
  case (Request rq)
  then obtain src v where d: "decide_request cfg w rq mg = (mg', src, v)"
    using assms(1) by (auto simp: handle_request_def split: prod.splits)
  then show ?thesis
  proof (cases rule: decide_request_frame)
    case unprompted
    with assms(4) show ?thesis
      using denials_step_simps by (simp add: grants_on_disk_def)
  next
    case (prompted mg1 t)
    have "versioned (mg_state mg1)" "grants_on_disk cfg mg1"
      using assms(3,4) denials_step_simps [OF prompted(1)] by (simp_all add: manager_ok_def grants_on_disk_def)
    then show ?thesis
      using prompt_frame_on_disk [OF ask_user_frame(1) [OF prompted(2)]] assms(2) crate by blast
  qed
next
  case ResetState
  with assms show ?thesis
    using load_persisted [OF crate default_versioned] by (auto simp: reset_state_def grants_on_disk_def)
qed (use assms in \<open>auto simp: grants_on_disk_def set_yolo_def set_auto_def Let_def split: if_splits\<close>)

lemma run_ok: "manager_ok cfg mg \<Longrightarrow> manager_ok cfg (fst (run_manager cfg tr mg))"
proof (induction cfg tr mg rule: run_manager.induct)
  case (2 cfg w c cs mg)
  show ?case
  proof (cases "serve cfg w c mg")
    case (Pair m out)
    with 2 show ?thesis
      using serve_ok [of cfg w c mg _ out] by (cases m) (auto split: prod.splits)
  qed
qed simp

lemma run_on_disk:
  "manager_ok cfg mg \<Longrightarrow> grants_on_disk cfg mg \<Longrightarrow> \<forall>(w, c) \<in> set tr. wd_writable w \<Longrightarrow> toml_contract (mc_toml cfg) \<Longrightarrow>
   grants_on_disk cfg (fst (run_manager cfg tr mg))"
proof (induction cfg tr mg rule: run_manager.induct)
  case (2 cfg w c cs mg)
  show ?case
  proof (cases "serve cfg w c mg")
    case (Pair m out)
    with 2 show ?thesis
      using serve_ok [of cfg w c mg _ out] serve_on_disk [of cfg w c mg _ out] by (cases m) (auto split: prod.splits)
  qed
qed simp

text \<open>
  C13. After any sequence of commands: under a managed pin always-approve is off, it is never on together with auto
  mode, the classifier has denied at most three requests in a row and twenty in total without asking the user,
  at most twelve decisions are kept for it, the legacy edit grant is gone, the server grants
  are validated, and the stored sets hold no element twice.
\<close>

theorem manager_invariant: "manager_ok cfg (fst (run_manager cfg tr (spawn_permission_manager cfg y b d)))"
  by (rule run_ok [OF spawn_ok])

text \<open>
  C15. The grants survive a restart.  Let the TOML crate keep what it writes, and let every write of the state file
  succeed.  Then a manager started again from the disk its predecessor left, whatever that disk held when the
  predecessor started and whatever it served, has exactly the predecessor's grants, every field written and
  read back, and not its permission to edit for the session.
\<close>

theorem restart_keeps_grants:
  assumes "toml_contract (mc_toml cfg)" and "\<forall>(w, c) \<in> set tr. wd_writable w"
    and "mg = fst (run_manager cfg tr (spawn_permission_manager cfg y True d))"
  shows "mg_state (spawn_permission_manager cfg y' b (mg_disk mg)) = mg_state mg \<and>
    \<not> mg_allow_edits (spawn_permission_manager cfg y' b (mg_disk mg))"
proof -
  have "grants_on_disk cfg mg" "manager_ok cfg mg"
    using run_on_disk [OF spawn_ok spawn_on_disk [OF assms(1)] assms(2,1)] run_ok [OF spawn_ok] by (simp_all add: assms(3))
  then obtain d' where "load_state_from_dir (mc_toml cfg) b (mc_client_identifier cfg) (mg_disk mg) = (mg_state mg, d')"
    and "ps_edit_policy (mg_state mg) \<noteq> EditAllow"
    by (metis grants_on_disk_def manager_ok_def prod.collapse)
  then show ?thesis
    by (simp add: spawn_permission_manager_def Let_def)
qed

section \<open>Examples\<close>

definition ex_world :: world where
  "ex_world = \<lparr>wd_files = \<lparr>fs_canonicalize = Some, fs_symlink_metadata = \<lambda>_. MetaOk False, fs_read_link = \<lambda>_. None\<rparr>,
     wd_tilde = id, wd_url_path = (\<lambda>_. []),
     wd_git = \<lparr>gl_discover = \<lambda>_. RepoNotFound, gl_open = \<lambda>_. OpenError, gl_parse_bool = \<lambda>_. True\<rparr>,
     wd_scan_joined = True, wd_to_json = (\<lambda>_. []), wd_sandbox = False, wd_writable = True,
     wd_answer = ClientSelected (lit ''allow-once'') None, wd_closed = (\<lambda>_. False)\<rparr>"

text \<open>A manager that may ask, with the environment of the policy examples.\<close>

definition ex_manager_config :: "permission_rule list \<Rightarrow> str manager_config" where
  "ex_manager_config rules =
     \<lparr>mc_env = ex_env, mc_cwd = lit ''/ws'', mc_client_identifier = None, mc_client_type = GrokTUI,
      mc_permission_config = Some (ex_config rules), mc_web_fetch_allowed_domains = [], mc_remember_tool_approvals = True,
      mc_yolo_pin = None, mc_toml = ex_toml, mc_default_classifier = (\<lambda>_ _ _ _. heuristic_outcome VerdictAllow)\<rparr>"

definition ex_manager :: "bool \<Rightarrow> manager" where
  "ex_manager yolo = spawn_permission_manager (ex_manager_config []) yolo True (\<lambda>_. NoFile)"

definition ex_request :: "access_kind \<Rightarrow> request" where
  "ex_request access = \<lparr>rq_access = access, rq_tool_id = [], rq_edit_path_context = None, rq_session_id = None,
     rq_subagent_type = None, rq_subagent_description = None\<rparr>"

lemma ex_manager_modes: "mg_yolo_mode (ex_manager y) = y" "\<not> mg_auto_mode (ex_manager y)"
  by (auto simp: ex_manager_def spawn_permission_manager_def ex_manager_config_def ex_config_def clamp_yolo_def Let_def
      split: prod.splits)


text \<open>The user answers the prompt for an MCP tool with ``always'' for the tool.\<close>

abbreviation ex_mcp :: request where
  "ex_mcp \<equiv> ex_request (MCPToolAccess (lit ''srv__tool'') (lit ''null''))"

definition ex_always :: world where
  "ex_always = ex_world\<lparr>wd_answer := ClientSelected (lit ''allow-always-mcp'') None\<rparr>"

lemma ex_always_granted:
  "ps_allowed_mcp_tools (mg_state (fst (handle_request (ex_manager_config []) ex_always ex_mcp (ex_manager False)))) =
     [lit ''srv__tool'']"
  by code_simp

theorem request_answered_witness:
  "case handle_request (ex_manager_config []) ex_always ex_mcp (ex_manager False) of (mg', ev, sent) \<Rightarrow>
     sent = Some Allow \<and> (pv_decision ev, pv_reject_reason ev) = decision_text Allow \<and>
     pv_decision_reason ev \<in> set DECISION_REASONS \<and> pv_permission_mode ev = permission_mode_text (ex_manager False)"
proof -
  have "snd (snd (handle_request (ex_manager_config []) ex_always ex_mcp (ex_manager False))) = Some Allow"
    by code_simp
  then show ?thesis
    using request_answered [where cfg = "ex_manager_config []" and w = ex_always and rq = ex_mcp and mg = "ex_manager False"]
    by (auto simp del: lit_simps split: prod.splits)
qed

abbreviation ex_trace :: "(world \<times> permission_command) list" where
  "ex_trace \<equiv> [(ex_always, Request ex_mcp)]"

lemma ex_trace_run:
  "fst (run_manager (ex_manager_config []) ex_trace (ex_manager False)) =
     fst (handle_request (ex_manager_config []) ex_always ex_mcp (ex_manager False))"
  by (simp split: prod.splits)

theorem restart_keeps_grants_witness:
  "ps_allowed_mcp_tools (mg_state (spawn_permission_manager (ex_manager_config []) False True
     (mg_disk (fst (run_manager (ex_manager_config []) ex_trace (ex_manager False)))))) = [lit ''srv__tool'']"
proof -
  have crate: "toml_contract (mc_toml (ex_manager_config []))"
    by (simp add: ex_manager_config_def ex_toml_contract)
  have "\<forall>(w, c) \<in> set ex_trace. wd_writable w"
    by (simp add: ex_always_def ex_world_def)
  note restart = restart_keeps_grants [OF crate this, where y = False and d = "\<lambda>_. NoFile", folded ex_manager_def, OF refl]
  show ?thesis
    using restart [of False True, THEN conjunct1] unfolding ex_trace_run by (simp only: ex_always_granted)
qed

end
