(* ===== verification/Permission_Grants.thy ===== *)
theory Permission_Grants
  imports Permission_Manager_Props
begin

text \<open>
  The grants of the permission manager: each one is traced to an answer the user gave to a prompt about that
  access, and none is stored when approvals are not to be remembered.
\<close>

section \<open>Where grants come from\<close>

text \<open>In the log, the user was asked about this access and gave this answer.\<close>

definition asked :: "'g manager_config \<Rightarrow> (world \<times> request \<times> permission_event \<times> decision option) list \<Rightarrow> access_kind \<Rightarrow>
    prompt_outcome \<Rightarrow> bool" where
  "asked cfg served access outcome \<longleftrightarrow>
     (\<exists>(w, rq, ev, sent) \<in> set served. pv_user_prompted ev \<and> rq_access rq = access \<and> prompt_result cfg w rq = outcome)"

lemma asked_append: "asked cfg (xs @ ys) a out \<longleftrightarrow> asked cfg xs a out \<or> asked cfg ys a out"
  by (auto simp: asked_def)

text \<open>The grants the answers in a log stand for.\<close>

definition answered_bash :: "'g manager_config \<Rightarrow> (world \<times> request \<times> permission_event \<times> decision option) list \<Rightarrow> str set" where
  "answered_bash cfg served =
     {x. asked cfg served (BashAccess x) AllowAlways \<or> (\<exists>cmd. asked cfg served (BashAccess cmd) (AllowAlwaysBashCommand x))}"

definition answered_tools :: "'g manager_config \<Rightarrow> (world \<times> request \<times> permission_event \<times> decision option) list \<Rightarrow> str set" where
  "answered_tools cfg served =
     {name. \<exists>input outcome. asked cfg served (MCPToolAccess name input) outcome \<and> always_mcp outcome}"

definition answered_servers :: "'g manager_config \<Rightarrow> (world \<times> request \<times> permission_event \<times> decision option) list \<Rightarrow> str set" where
  "answered_servers cfg served =
     {server. \<exists>name input tool. asked cfg served (MCPToolAccess name input) (AllowAlwaysMcpServer server) \<and>
        parse_mcp_qualified_name name = Some (name, server, tool)}"

definition answered_domains :: "'g manager_config \<Rightarrow> (world \<times> request \<times> permission_event \<times> decision option) list \<Rightarrow> str set" where
  "answered_domains cfg served = {domain. \<exists>url. asked cfg served (WebFetchAccess url) (AllowAlwaysDomain domain)}"

definition answered_edits :: "'g manager_config \<Rightarrow> (world \<times> request \<times> permission_event \<times> decision option) list \<Rightarrow> bool" where
  "answered_edits cfg served \<longleftrightarrow> (\<exists>access. asked cfg served access AllowEditsForSession)"

lemmas answered_defs = answered_bash_def answered_tools_def answered_servers_def answered_domains_def answered_edits_def

lemma answered_append:
  "answered_bash cfg (xs @ ys) = answered_bash cfg xs \<union> answered_bash cfg ys"
  "answered_tools cfg (xs @ ys) = answered_tools cfg xs \<union> answered_tools cfg ys"
  "answered_servers cfg (xs @ ys) = answered_servers cfg xs \<union> answered_servers cfg ys"
  "answered_domains cfg (xs @ ys) = answered_domains cfg xs \<union> answered_domains cfg ys"
  "answered_edits cfg (xs @ ys) \<longleftrightarrow> answered_edits cfg xs \<or> answered_edits cfg ys"
  by (auto simp: answered_defs asked_append)

definition traced :: "'g manager_config \<Rightarrow> (world \<times> request \<times> permission_event \<times> decision option) list \<Rightarrow>
    manager \<Rightarrow> manager \<Rightarrow> bool" where
  "traced cfg served mg mg' \<longleftrightarrow>
     set (ps_allowed_bash_commands (mg_state mg')) \<subseteq> set (ps_allowed_bash_commands (mg_state mg)) \<union> answered_bash cfg served \<and>
     set (ps_allowed_mcp_tools (mg_state mg')) \<subseteq> set (ps_allowed_mcp_tools (mg_state mg)) \<union> answered_tools cfg served \<and>
     set (ps_allowed_mcp_servers (mg_state mg')) \<subseteq> set (ps_allowed_mcp_servers (mg_state mg)) \<union> answered_servers cfg served \<and>
     set (ps_allowed_web_fetch_domains (mg_state mg')) \<subseteq>
       set (ps_allowed_web_fetch_domains (mg_state mg)) \<union> answered_domains cfg served \<and>
     ps_allow_bash_execute (mg_state mg') \<le> ps_allow_bash_execute (mg_state mg) \<and>
     mg_allow_edits mg' \<le> (mg_allow_edits mg \<or> answered_edits cfg served)"

lemma traced_same: "mg_state mg' = mg_state mg \<Longrightarrow> mg_allow_edits mg' = mg_allow_edits mg \<Longrightarrow> traced cfg served mg mg'"
  by (auto simp: traced_def)

lemma subset_grow: "A2 \<subseteq> A1 \<union> Q \<Longrightarrow> A1 \<subseteq> A0 \<union> P \<Longrightarrow> A2 \<subseteq> A0 \<union> (P \<union> Q)"
  by blast

lemma traced_trans:
  assumes "traced cfg xs mg mg1" "traced cfg ys mg1 mg2"
  shows "traced cfg (xs @ ys) mg mg2"
proof -
  note a = assms(1) [unfolded traced_def] and b = assms(2) [unfolded traced_def]
  show ?thesis
    unfolding traced_def answered_append
    using a b by (auto intro!: subset_grow simp del: subset_Un_eq)
qed

lemma prompt_frame_traced:
  assumes "prompt_frame cfg w (rq_access rq) (prompt_result cfg w rq) mg mg'" "pv_user_prompted ev"
  shows "traced cfg [(w, rq, ev, sent)] mg mg'"
proof -
  have asked: "asked cfg [(w, rq, ev, sent)] a out \<longleftrightarrow> rq_access rq = a \<and> prompt_result cfg w rq = out" for a out
    using assms(2) by (simp add: asked_def)
  have edits: "mg_allow_edits mg' \<longrightarrow> mg_allow_edits mg \<or> prompt_result cfg w rq = AllowEditsForSession"
    and g: "granted (rq_access rq) (prompt_result cfg w rq) (mg_state mg) (mg_state mg')"
    using assms(1) by (auto simp: prompt_frame_def)
  show ?thesis
    using g edits
    by (cases "rq_access rq")
       (auto simp: traced_def granted_def answered_defs asked allow_bash_def disallow_bash_def allow_domain_def allow_mcp_tool_def
         allow_mcp_server_def)
qed

lemma handle_request_traced:
  assumes "handle_request cfg w rq mg = (mg', ev, sent)"
  shows "traced cfg [(w, rq, ev, sent)] mg mg'"
proof -
  obtain src v where d: "decide_request cfg w rq mg = (mg', src, v)" and ev: "ev = emit_event mg' rq src v"
    using assms by (auto simp: handle_request_def split: prod.splits)
  from d show ?thesis
  proof (cases rule: decide_request_frame)
    case unprompted
    then show ?thesis
      by (simp add: traced_same denials_step_simps)
  next
    case (prompted mg1 t)
    have "pv_user_prompted ev"
      using ask_user_frame(6) [OF prompted(2)] by (simp add: ev emit_event_def)
    then have "traced cfg [(w, rq, ev, sent)] mg1 mg'"
      by (rule prompt_frame_traced [OF ask_user_frame(1) [OF prompted(2)]])
    then show ?thesis
      using denials_step_simps [OF prompted(1)] by (simp add: traced_def)
  qed
qed

lemma serve_traced:
  assumes "serve cfg w c mg = (Some mg', out)"
  shows "traced cfg (case (c, out) of (Request rq, Some (ev, sent)) \<Rightarrow> [(w, rq, ev, sent)] | _ \<Rightarrow> []) mg mg'"
proof (cases c)
  case (Request rq)
  with assms show ?thesis
    using handle_request_traced by (auto split: prod.splits)
next
  case ResetState
  with assms show ?thesis
    by (auto simp: traced_def reset_state_def default_state_def)
qed (use assms in \<open>auto simp: traced_same set_yolo_def set_auto_def Let_def split: if_splits\<close>)

lemma run_traced: "traced cfg (snd (run_manager cfg tr mg)) mg (fst (run_manager cfg tr mg))"
proof (induction cfg tr mg rule: run_manager.induct)
  case (2 cfg w c cs mg)
  show ?case
  proof (cases "serve cfg w c mg")
    case (Pair m out)
    show ?thesis
    proof (cases m)
      case None
      with Pair show ?thesis
        by (simp add: traced_same)
    next
      case (Some mg1)
      have "traced cfg (snd (run_manager cfg cs mg1)) mg1 (fst (run_manager cfg cs mg1))"
        using 2 [OF Pair [symmetric] Some] .
      with serve_traced [of cfg w c mg mg1 out] Pair Some show ?thesis
        by (auto dest: traced_trans split: prod.splits)
    qed
  qed
qed (simp add: traced_same)


text \<open>
  C11. Every grant a manager holds after any sequence of commands is one it started with or one the user gave: each
  granted command, tool, server, domain and the permission to edit stands in the log as the user's answer to a
  prompt about that very access, and the granted MCP server is the one the tool's own name spells.
\<close>

theorem grants_only_by_user:
  "case run_manager cfg tr mg of (mg', served) \<Rightarrow>
     set (ps_allowed_bash_commands (mg_state mg')) \<subseteq> set (ps_allowed_bash_commands (mg_state mg)) \<union>
       {x. asked cfg served (BashAccess x) AllowAlways \<or> (\<exists>cmd. asked cfg served (BashAccess cmd) (AllowAlwaysBashCommand x))} \<and>
     set (ps_allowed_mcp_tools (mg_state mg')) \<subseteq> set (ps_allowed_mcp_tools (mg_state mg)) \<union>
       {name. \<exists>input outcome. asked cfg served (MCPToolAccess name input) outcome \<and> always_mcp outcome} \<and>
     set (ps_allowed_mcp_servers (mg_state mg')) \<subseteq> set (ps_allowed_mcp_servers (mg_state mg)) \<union>
       {server. \<exists>name input tool. asked cfg served (MCPToolAccess name input) (AllowAlwaysMcpServer server) \<and>
          parse_mcp_qualified_name name = Some (name, server, tool)} \<and>
     set (ps_allowed_web_fetch_domains (mg_state mg')) \<subseteq> set (ps_allowed_web_fetch_domains (mg_state mg)) \<union>
       {domain. \<exists>url. asked cfg served (WebFetchAccess url) (AllowAlwaysDomain domain)} \<and>
     ps_allow_bash_execute (mg_state mg') \<le> ps_allow_bash_execute (mg_state mg) \<and>
     mg_allow_edits mg' \<le> (mg_allow_edits mg \<or> (\<exists>access. asked cfg served access AllowEditsForSession))"
  using run_traced [of cfg tr mg] by (simp add: traced_def answered_defs split_beta)

section \<open>Approvals that are not remembered\<close>

text \<open>The answers that leave the stored grants as they are.\<close>

definition unremembered :: "prompt_outcome \<Rightarrow> bool" where
  "unremembered outcome =
     (case outcome of AllowOnce \<Rightarrow> True | RejectOnce \<Rightarrow> True | AllowEditsForSession \<Rightarrow> True | PromptCancelled \<Rightarrow> True
      | PromptFollowup _ \<Rightarrow> True | PromptError _ \<Rightarrow> True | _ \<Rightarrow> False)"

lemma unremembered_simps [simp]:
  "unremembered AllowOnce" "unremembered RejectOnce" "unremembered AllowEditsForSession" "unremembered PromptCancelled"
  "unremembered (PromptFollowup m)" "unremembered (PromptError e)"
  by (simp_all add: unremembered_def)

lemma unremembered_granted: "granted access outcome st st' \<Longrightarrow> unremembered outcome \<Longrightarrow> st' = st"
  by (auto simp: granted_def unremembered_def always_mcp_def split: access_kind.splits prompt_outcome.splits)

text \<open>Without \<open>remember_tool_approvals\<close> no shown option grants anything beyond the call or the session's edits.\<close>

abbreviation ungated :: "prompt_option list \<Rightarrow> prompt_option list" where
  "ungated \<equiv> filter (\<lambda>p. po_id p \<notin> set REMEMBER_TOOL_APPROVALS_GATED_IDS)"

lemma ungated_lists:
  "ungated edit_options = edit_options" "ungated bash_options = bash_options"
  "ungated generic_bash_options = bash_options" "ungated fallback_options = tl fallback_options"
  by code_simp+

lemma gated_ids:
  "lit ''allow-always-command'' \<in> set REMEMBER_TOOL_APPROVALS_GATED_IDS"
  "lit ''reject-always-command'' \<in> set REMEMBER_TOOL_APPROVALS_GATED_IDS"
  "lit ''allow-always-domain'' \<in> set REMEMBER_TOOL_APPROVALS_GATED_IDS"
  "lit ''allow-always-mcp'' \<in> set REMEMBER_TOOL_APPROVALS_GATED_IDS"
  by code_simp+

definition modest :: "prompt_option \<Rightarrow> bool" where
  "modest p \<longleftrightarrow> po_kind p = KindAllowOnce \<or> po_kind p = KindRejectOnce \<or>
     po_kind p = KindAllowAlways \<and> po_id p = ALLOW_EDITS_SESSION_OPTION_ID"

lemma modest_lists:
  "list_all modest edit_options" "list_all modest bash_options" "list_all modest (tl fallback_options)"
  by (simp_all add: modest_def edit_options_def bash_options_def fallback_options_def option_of_def
      ALLOW_EDITS_SESSION_OPTION_ID_def del: lit_simps)

lemma ungated_inner: "list_all modest (ungated (build_options_inner env client access))"
proof (cases access)
  case (BashAccess cmd)
  then show ?thesis
    using ungated_lists modest_lists
    by (simp add: build_options_inner_def bash_scope_option_def option_of_def gated_ids del: lit_simps split: option.splits)
next
  case (WebFetchAccess url)
  then show ?thesis
    by (simp add: build_options_inner_def option_of_def gated_ids modest_def del: lit_simps)
next
  case (MCPToolAccess name input)
  then show ?thesis
    using ungated_lists(4) modest_lists(3)
    by (cases "client_supports_enable_always_approve client")
       (simp_all add: build_options_inner_def option_of_def gated_ids modest_def del: lit_simps)
qed (use ungated_lists modest_lists in \<open>simp_all add: build_options_inner_def\<close>)

lemma gated_options: "list_all modest (build_options env client False access)"
  using ungated_inner [of env client access]
  by (simp add: build_options_def prepend_enable_always_approve_def enable_always_approve_option_def option_of_def
      modest_def Let_def del: lit_simps)

lemma edits_session_outcome: "always_outcome env ALLOW_EDITS_SESSION_OPTION_ID m access = AllowEditsForSession"
proof -
  have "ALLOW_EDITS_SESSION_OPTION_ID \<noteq> ENABLE_ALWAYS_APPROVE_OPTION_ID" "ALLOW_EDITS_SESSION_OPTION_ID \<noteq> lit ''allow-always-mcp''"
    "ALLOW_EDITS_SESSION_OPTION_ID \<noteq> lit ''allow-always-domain''" "ALLOW_EDITS_SESSION_OPTION_ID \<noteq> lit ''allow-always-command''"
    by code_simp+
  then show ?thesis
    by (simp add: always_outcome_def)
qed

lemma gated_outcome:
  assumes "\<forall>r. answer \<noteq> HubAnswered r"
  shows "unremembered (prompter_request env client False access answer)"
proof (cases answer)
  case (ClientSelected i m)
  show ?thesis
  proof (cases "find (\<lambda>p. po_id p = i) (build_options env client False access)")
    case (Some p)
    then have p: "p \<in> set (build_options env client False access)" "po_id p = i"
      by (auto simp: find_Some_iff)
    then have "modest p"
      using gated_options [of env client access] by (auto simp: list_all_iff)
    with p(2) show ?thesis
      by (auto simp: ClientSelected prompter_request_def map_selected_outcome_def Some modest_def edits_session_outcome
          split: option.splits)
  qed (simp add: ClientSelected prompter_request_def map_selected_outcome_def)
qed (use assms in \<open>auto simp: prompter_request_def\<close>)

text \<open>
  C12. When tool approvals are not to be remembered, no answer a local client can give to any prompt changes the stored
  grants.
\<close>

theorem gate_off_keeps_grants:
  assumes "\<not> mc_remember_tool_approvals cfg" "\<forall>r. wd_answer w \<noteq> HubAnswered r"
  shows "mg_state (fst (handle_request cfg w rq mg)) = mg_state mg"
proof -
  obtain mg' src v where d: "decide_request cfg w rq mg = (mg', src, v)"
    by (metis prod_cases3)
  have "mg_state mg' = mg_state mg"
    using d
  proof (cases rule: decide_request_frame)
    case unprompted
    then show ?thesis
      by (simp add: denials_step_simps)
  next
    case (prompted mg1 t)
    have "unremembered (prompt_result cfg w rq)"
      by (simp add: prompt_result_def assms(1) gated_outcome [OF assms(2)])
    then show ?thesis
      using ask_user_frame(1) [OF prompted(2)] unremembered_granted denials_step_simps(1) [OF prompted(1)]
      by (auto simp: prompt_frame_def)
  qed
  then show ?thesis
    by (simp add: handle_request_def d)
qed

theorem gate_off_keeps_grants_witness:
  "mg_state (fst (handle_request ((ex_manager_config [])\<lparr>mc_remember_tool_approvals := False\<rparr>) ex_always ex_mcp
     (ex_manager False))) = mg_state (ex_manager False)"
  by (rule gate_off_keeps_grants) (simp_all add: ex_manager_config_def ex_always_def)

end
