(* ===== verification/Permission_Safety.thy ===== *)
theory Permission_Safety
  imports Permission_Manager_Props
begin

text \<open>
  What the permission manager guarantees: what it may allow without asking, that a deny rule is never overridden,
  that the flags of a handle agree with the modes of the actor, and which reads no rule reaches.
\<close>

section \<open>Floors and asks\<close>

lemma bash_grant_floor:
  "bash_grant_pre_decision cmd e st pin opts = Some (Allow, r) \<Longrightarrow> \<not> bash_request_floor_requires_prompt e"
  by (auto simp: bash_grant_pre_decision_def simp del: lit_simps split: segment_evaluation.splits if_splits)

lemma ask_floor_grant:
  "bash_grant_pre_decision cmd e st pin ASK_FLOOR_REMEMBER = Some (Allow, r) \<Longrightarrow> be_all_segments_granted e"
  by (auto simp: bash_grant_pre_decision_def ASK_FLOOR_REMEMBER_def simp del: lit_simps
      split: segment_evaluation.splits if_splits)

lemma evaluate_request_bash: "evaluate_request cfg w rq mg = Some e \<Longrightarrow> e \<noteq> None \<longleftrightarrow> is_bash (rq_access rq)"
  by (auto simp: evaluate_request_def is_bash_def Let_def split: access_kind.splits option.splits if_splits)

lemma protected_not_bash: "protected_edit cfg w rq \<Longrightarrow> \<exists>path. rq_access rq = EditAccess path"
  by (auto simp: protected_edit_def split: access_kind.splits)

lemma session_grant_Allow_floor:
  "session_grant_pre_decision env up access e st ae m h pin = Some (Allow, r) \<Longrightarrow> e \<noteq> None \<longleftrightarrow> is_bash access \<Longrightarrow>
   \<not> bash_floor e"
  by (auto simp: session_grant_pre_decision_def bash_floor_def is_bash_def dest: bash_grant_floor
      split: access_kind.splits option.splits)

text \<open>An undenied early allow, always-approve aside, meets no floor and no ask.\<close>

lemma early_allow:
  assumes "early_verdict cfg w rq e p pf mg = Some v" "vd_decision v = Allow" "\<not> mg_yolo_mode mg"
    "e \<noteq> None \<longleftrightarrow> is_bash (rq_access rq)"
  shows "\<not> p \<and> \<not> bash_floor e \<and> \<not> policy_forced_prompt pf"
proof -
  have "undenied_verdict cfg w rq e p pf mg = Some v"
    using assms(1,2) by (auto simp: early_verdict_def verdict_simps split: option.splits decision.splits)
  moreover have "\<not> bash_floor e"
    if "session_grant_pre_decision env up (rq_access rq) e st ae m h pin = Some (Allow, r)" for env :: "'a policy_env" and up st ae m h pin r
    using session_grant_Allow_floor [OF that assms(4)] .
  ultimately show ?thesis
    using assms(2,3)
    by (auto simp: undenied_verdict_def then_some_def verdict_simps simp del: lit_simps split: option.splits if_splits)
qed

lemma auto_allow:
  assumes "auto_stage w rq e p pf mg = (mg', src, AutoAnswer v)" "vd_decision v = Allow"
  shows "mg_auto_mode mg" "\<not> p" "bash_floor e \<longrightarrow> bash_defers e" "policy_forced_prompt pf \<longrightarrow> gp_defers_gate_ask pf"
  using assms
  by (auto simp: auto_stage_def Let_def admits_auto_classifier_def auto_mode_fast_path_def split: if_splits)

text \<open>The accesses an ask of the policy does not reach, when no gate of the shell defers to the classifier.\<close>

definition ask_waived :: "'g manager_config \<Rightarrow> world \<Rightarrow> request \<Rightarrow> bash_evaluation option \<Rightarrow> gate_preflight \<Rightarrow> manager \<Rightarrow> bool" where
  "ask_waived cfg w rq e pf mg =
     (case rq_access rq of
        WebSearchAccess _ \<Rightarrow> True
      | WebFetchAccess url \<Rightarrow>
          matcher_permits (mc_env cfg) (wd_url_path w) (mc_static_domain_matcher cfg) url \<or>
          (\<exists>host. pe_url_host (mc_env cfg) url = Some host \<and>
             normalize_domain (mc_env cfg) host \<in> set (ps_allowed_web_fetch_domains (mg_state mg)))
      | EditAccess _ \<Rightarrow> mg_allow_edits mg
      | MCPToolAccess name _ \<Rightarrow>
          mc_remember_tool_approvals cfg \<and>
          (name \<in> set (ps_allowed_mcp_tools (mg_state mg)) \<or>
           mcp_server_prefix_allowed name (ps_allowed_mcp_servers (mg_state mg)))
      | BashAccess cmd \<Rightarrow>
          mc_remember_tool_approvals cfg \<and> \<not> shell_file_forced_prompt pf \<and> be_all_segments_granted (the e)
      | _ \<Rightarrow> False)"

lemma pre_decision_allow:
  assumes "pre_decision cfg w rq e (protected_edit cfg w rq) pf forced mg = Some (Allow, reason)"
    "e \<noteq> None \<longleftrightarrow> is_bash (rq_access rq)"
  shows "\<not> protected_edit cfg w rq" "\<not> bash_floor e" "policy_forced_prompt pf \<longrightarrow> ask_waived cfg w rq e pf mg"
proof -
  have "\<not> protected_edit cfg w rq \<and> \<not> bash_floor e \<and> (policy_forced_prompt pf \<longrightarrow> ask_waived cfg w rq e pf mg)"
  proof (cases "rq_access rq")
    case (BashAccess cmd)
    with assms show ?thesis
      by (auto simp: pre_decision_def protected_edit_def ask_waived_def dest: ask_floor_grant split: if_splits)
  next
    case (MCPToolAccess name input)
    with assms show ?thesis
      by (auto simp: pre_decision_def protected_edit_def ask_waived_def mcp_pre_decision_def is_bash_def bash_floor_def
          split: if_splits)
  next
    case (WebFetchAccess url)
    with assms show ?thesis
      by (auto simp: pre_decision_def protected_edit_def ask_waived_def is_bash_def bash_floor_def then_some_def
          simp del: lit_simps split: if_splits option.splits)
  qed (use assms in \<open>auto simp: pre_decision_def protected_edit_def ask_waived_def is_bash_def bash_floor_def split: if_splits\<close>)
  then show "\<not> protected_edit cfg w rq" "\<not> bash_floor e" "policy_forced_prompt pf \<longrightarrow> ask_waived cfg w rq e pf mg"
    by simp_all
qed

lemma managed_allow_Allow:
  "managed_allow e p pf = Some Allow \<Longrightarrow> \<not> p \<and> \<not> bash_floor e \<and> \<not> policy_forced_prompt pf"
  by (auto simp: managed_allow_def policy_forced_prompt_def split: option.splits if_splits)

lemma ask_waived_denials: "denials_step mg mg' \<Longrightarrow> ask_waived cfg w rq e pf mg' = ask_waived cfg w rq e pf mg"
  by (simp add: ask_waived_def denials_step_simps cong: access_kind.case_cong)

lemma late_allow:
  assumes "late_verdict cfg w rq e (protected_edit cfg w rq) pf forced mg = Some v" "vd_decision v = Allow"
    "e \<noteq> None \<longleftrightarrow> is_bash (rq_access rq)"
  shows "\<not> protected_edit cfg w rq" "\<not> bash_floor e" "policy_forced_prompt pf \<longrightarrow> ask_waived cfg w rq e pf mg"
proof -
  have "\<not> protected_edit cfg w rq \<and> \<not> bash_floor e \<and> (policy_forced_prompt pf \<longrightarrow> ask_waived cfg w rq e pf mg)"
    using assms(1)
  proof (cases rule: late_verdict_cases)
    case sandbox
    then show ?thesis
      using protected_not_bash [of cfg w rq]
      by (auto simp: sandbox_may_auto_allow_bash_def bash_floor_def is_bash_def split: option.splits)
  next
    case (managed d)
    with assms(2) show ?thesis
      using managed_allow_Allow [of e "protected_edit cfg w rq" pf] by (simp add: verdict_simps)
  next
    case (pre d reason)
    with assms(2,3) show ?thesis
      using pre_decision_allow [of cfg w rq e pf forced mg reason] by (simp add: verdict_simps)
  next
    case deny
    with assms(2) show ?thesis
      by (simp add: verdict_simps)
  qed
  then show "\<not> protected_edit cfg w rq" "\<not> bash_floor e" "policy_forced_prompt pf \<longrightarrow> ask_waived cfg w rq e pf mg"
    by simp_all
qed


section \<open>Deny rules\<close>

lemma decide_allow_not_rejected:
  assumes "decide_request cfg w rq mg = (mg', src, v)" "vd_decision v = Allow"
  shows "policy_decision (request_preflight cfg w rq mg) \<noteq> Some (Reject reason)"
proof
  assume r: "policy_decision (request_preflight cfg w rq mg) = Some (Reject reason)"
  have early: "early_verdict cfg w rq e p (request_preflight cfg w rq mg) mg =
      Some (deny_verdict (PolicyDeny reason) (lit ''policy_deny''))" for e p
    by (simp add: early_verdict_def r)
  from assms(1) show False
    using assms(2) by (cases rule: decide_request_cases) (auto simp: early verdict_simps simp del: lit_simps)
qed

lemma policy_decision_no_deny: "policy_decision (preflight_evaluate env fg pol a auto) \<noteq> Some (PolicyDeny m)"
proof -
  have "gp_direct (preflight_evaluate env fg pol a auto) \<noteq> Some (PolicyDeny m)"
    by (cases pol) (auto simp: preflight_evaluate_def Let_def evaluate_cases split: prod.splits)
  moreover have "map_option into_decision g \<noteq> Some (PolicyDeny m)" for g
    by (cases g) (auto simp: into_decision_def split: gate_decision.splits)
  ultimately show ?thesis
    by (metis policy_decision_def managed.combine_selects)
qed

lemma policy_decision_rejects:
  assumes "3 \<le> opt_rank decision_rank (policy_decision (preflight_evaluate env fg pol a auto))"
  shows "\<exists>reason. policy_decision (preflight_evaluate env fg pol a auto) = Some (Reject reason)"
  using assms policy_decision_no_deny [of env fg pol a auto]
  by (cases "policy_decision (preflight_evaluate env fg pol a auto)";
      cases "the (policy_decision (preflight_evaluate env fg pol a auto))")
     (auto simp: opt_rank_def)

lemma direct_deny_rejects:
  assumes "rule_hit env pol DenyRule a"
  shows "\<exists>reason. policy_decision (preflight_evaluate env fg (Some pol) a auto) = Some (Reject reason)"
proof (rule policy_decision_rejects)
  obtain r where "gp_direct (preflight_evaluate env fg (Some pol) a auto) = Some (Reject r)"
    using assms by (auto simp: preflight_evaluate_def Let_def evaluate_cases split: prod.splits)
  then show "3 \<le> opt_rank decision_rank (policy_decision (preflight_evaluate env fg (Some pol) a auto))"
    by (simp add: policy_decision_def managed.rank_combine opt_rank_def [of _ "Some _"])
qed

lemma file_deny_rejects:
  assumes "fg pol cmd = Some (GateReject r)"
  shows "\<exists>reason. policy_decision (preflight_evaluate env fg (Some pol) (BashAccess cmd) auto) = Some (Reject reason)"
proof (rule policy_decision_rejects)
  have "gp_shell_file (preflight_evaluate env fg (Some pol) (BashAccess cmd) auto) = Some (GateReject r)"
    using assms by (simp add: preflight_evaluate_def Let_def)
  then show "3 \<le> opt_rank decision_rank (policy_decision (preflight_evaluate env fg (Some pol) (BashAccess cmd) auto))"
    by (simp add: policy_decision_def managed.rank_combine into_decision_def opt_rank_def [of _ "Some _"])
qed

text \<open>
  C9. Deny wins from end to end: what the manager allows, in any mode, under any grant and with any answer of the
  user, is hit by no deny rule, as an access; a script it allows presents no command that one hits, and opens no
  file the shell-file gate rejects.
\<close>

theorem deny_is_final:
  assumes allow: "handle_request cfg w rq mg = (mg', ev, Some Allow)"
    and pc: "mc_permission_config cfg = Some pc"
  shows "\<not> rule_hit (mc_env cfg) (policy_new (mc_env cfg) pc) DenyRule (rq_access rq) \<and>
    (\<forall>cmd. rq_access rq = BashAccess cmd \<longrightarrow>
       (\<forall>ws. presents (mc_env cfg) MAX_INLINE_SHELL_DEPTH cmd ws \<longrightarrow>
          \<not> rule_hit (mc_env cfg) (policy_new (mc_env cfg) pc) DenyRule (command_text ws)) \<and>
       (\<forall>reason. evaluate_shell_file_access_gate (mc_env cfg) (wd_files w) (mc_cwd cfg) (policy_new (mc_env cfg) pc) cmd \<noteq>
          Some (GateReject reason)))"
proof -
  obtain src v where d: "decide_request cfg w rq mg = (mg', src, v)" "vd_decision v = Allow"
    using allow by (auto simp: handle_request_def then_some_def split: prod.splits if_splits)
  have pf: "request_preflight cfg w rq mg = preflight_evaluate (mc_env cfg)
      (evaluate_shell_file_access_gate (mc_env cfg) (wd_files w) (mc_cwd cfg)) (Some (policy_new (mc_env cfg) pc))
      (rq_access rq) (mg_auto_mode mg)"
    by (simp add: request_preflight_def preflight_with_files_def mc_compiled_policy_def pc)
  note no_reject = decide_allow_not_rejected [OF d, unfolded pf]
  show ?thesis
  proof (intro conjI allI impI notI)
    assume "rule_hit (mc_env cfg) (policy_new (mc_env cfg) pc) DenyRule (rq_access rq)"
    then show False
      using direct_deny_rejects no_reject by blast
  next
    fix cmd ws
    assume "rq_access rq = BashAccess cmd" "presents (mc_env cfg) MAX_INLINE_SHELL_DEPTH cmd ws"
      "rule_hit (mc_env cfg) (policy_new (mc_env cfg) pc) DenyRule (command_text ws)"
    then show False
      using preflight_deny_absolute no_reject by metis
  next
    fix cmd reason
    assume "rq_access rq = BashAccess cmd" "evaluate_shell_file_access_gate (mc_env cfg) (wd_files w) (mc_cwd cfg)
        (policy_new (mc_env cfg) pc) cmd = Some (GateReject reason)"
    then show False
      using file_deny_rejects no_reject by metis
  qed
qed

section \<open>The handle\<close>

text \<open>What a command does to the two modes, for the actor and for the flags alike.\<close>

fun mode_change :: "'g manager_config \<Rightarrow> permission_command \<Rightarrow> bool \<times> bool \<Rightarrow> bool \<times> bool" where
  "mode_change cfg (SetYoloMode b) (yolo, auto) = (clamp_yolo b (mc_yolo_pin cfg), auto \<and> \<not> clamp_yolo b (mc_yolo_pin cfg))"
| "mode_change cfg (SetAutoMode b) (yolo, auto) = (yolo \<and> \<not> b, b)"
| "mode_change cfg _ modes = modes"

definition modes :: "manager \<Rightarrow> bool \<times> bool" where
  "modes mg = (mg_yolo_mode mg, mg_auto_mode mg)"

definition flags :: "shared \<Rightarrow> bool \<times> bool" where
  "flags sh = (sh_yolo_state sh, sh_auto_state sh)"

lemma serve_modes:
  assumes "serve cfg w c mg = (Some mg', out)"
  shows "modes mg' = mode_change cfg c (modes mg)"
proof (cases c)
  case (Request rq)
  then obtain src v where "decide_request cfg w rq mg = (mg', src, v)"
    using assms by (auto simp: handle_request_def split: prod.splits)
  note handle_request_modes [OF this]
  with Request show ?thesis
    by (simp add: modes_def)
qed (use assms in \<open>auto simp: modes_def set_yolo_def set_auto_def reset_state_def Let_def split: if_splits\<close>)

lemma publish_flags: "flags (publish cfg c sh) = mode_change cfg c (flags sh)"
  by (cases c) (auto simp: flags_def Let_def)

lemma publish_queue [simp]: "sh_queue (publish cfg c sh) = sh_queue sh"
  by (cases c) (simp_all add: Let_def)

lemma flags_queue [simp]: "flags (sh\<lparr>sh_queue := q\<rparr>) = flags sh" "flags (send c sh) = flags sh"
  by (simp_all add: flags_def send_def)

abbreviation replay :: "'g manager_config \<Rightarrow> permission_command list \<Rightarrow> bool \<times> bool \<Rightarrow> bool \<times> bool" where
  "replay cfg \<equiv> fold (mode_change cfg)"

text \<open>Each mode is set or kept without regard to the other, so a change commutes with what is repeated later.\<close>

lemma replay_fst: "fst m = fst m' \<Longrightarrow> fst (replay cfg q m) = fst (replay cfg q m')"
proof (induction q arbitrary: m m')
  case (Cons c q)
  from Cons.prems have "fst (mode_change cfg c m) = fst (mode_change cfg c m')"
    by (cases c; cases m; cases m') simp_all
  then show ?case
    using Cons.IH by fastforce
qed simp

lemma replay_snd: "snd m = snd m' \<Longrightarrow> snd (replay cfg q m) = snd (replay cfg q m')"
proof (induction q arbitrary: m m')
  case (Cons c q)
  from Cons.prems have "snd (mode_change cfg c m) = snd (mode_change cfg c m')"
    by (cases c; cases m; cases m') simp_all
  then show ?case
    using Cons.IH by fastforce
qed simp

lemma replay_repeat: "mode_change cfg c (replay cfg q (mode_change cfg c m)) = mode_change cfg c (replay cfg q m)"
proof (cases m)
  case (Pair y a)
  obtain y1 a1 y2 a2 where r: "replay cfg q (mode_change cfg c m) = (y1, a1)" "replay cfg q m = (y2, a2)"
    by fastforce
  show ?thesis
  proof (cases c)
    case (SetYoloMode b)
    then have "a1 = a2" if "\<not> clamp_yolo b (mc_yolo_pin cfg)"
      using r that replay_snd [of "(False, a)" "(y, a)" cfg q] by (simp add: Pair)
    then show ?thesis
      using r by (auto simp: SetYoloMode)
  next
    case (SetAutoMode b)
    then have "y1 = y2" if "\<not> b"
      using r that replay_fst [of "(y, False)" "(y, a)" cfg q] by (simp add: Pair)
    then show ?thesis
      using r by (auto simp: SetAutoMode)
  qed (use r in simp_all)
qed

definition handle_ok :: "'g manager_config \<Rightarrow> manager \<times> shared \<Rightarrow> bool" where
  "handle_ok cfg s = (case s of (mg, sh) \<Rightarrow>
     replay cfg (sh_queue sh) (modes mg) = replay cfg (sh_queue sh) (flags sh) \<and>
     (mc_yolo_pin cfg \<noteq> None \<longrightarrow> \<not> sh_yolo_state sh) \<and> \<not> (sh_yolo_state sh \<and> sh_auto_state sh))"

definition handle_init :: "'g manager_config \<Rightarrow> manager \<times> shared \<Rightarrow> bool" where
  "handle_init cfg s \<longleftrightarrow> (\<exists>y b d. s = (spawn_permission_manager cfg y b d, spawn_shared (spawn_permission_manager cfg y b d)))"

lemmas client_sends = handle_set_llm_side_query_wired_def handle_set_classifier_transcript_def
  handle_set_project_instructions_def handle_reset_state_def

lemma client_flags:
  "flags (handle_set_yolo_mode (mc_yolo_pin cfg) b sh) = mode_change cfg (SetYoloMode b) (flags sh)"
  "flags (handle_set_auto_mode b sh) = mode_change cfg (SetAutoMode b) (flags sh)"
  "flags (handle_set_classifier c sh) = flags sh" "flags (handle_set_classifier_with_side_query c' b sh) = flags sh"
  "flags (handle_set_llm_side_query_wired b sh) = flags sh" "flags (handle_set_classifier_transcript ts sh) = flags sh"
  "flags (handle_set_project_instructions t sh) = flags sh" "flags (handle_reset_state sh) = flags sh"
  by (auto simp: flags_def handle_set_yolo_mode_def handle_set_auto_mode_def handle_set_classifier_def
      handle_set_classifier_with_side_query_def client_sends send_def Let_def)

lemma client_queue:
  "sh_queue (handle_set_yolo_mode pin b sh) = sh_queue sh @ [SetYoloMode b]"
  "sh_queue (handle_set_auto_mode b sh) = sh_queue sh @ [SetAutoMode b]"
  "sh_queue (handle_set_classifier c sh) = sh_queue sh @ [SetClassifier c]"
  "sh_queue (handle_set_classifier_with_side_query c' b sh) = sh_queue sh @ [SetClassifier (Some c')]"
  "sh_queue (handle_set_llm_side_query_wired b sh) = sh_queue sh"
  "sh_queue (handle_set_classifier_transcript ts sh) = sh_queue sh @ [SetClassifierTranscript ts]"
  "sh_queue (handle_set_project_instructions t sh) = sh_queue sh @ [SetProjectInstructions t]"
  "sh_queue (handle_reset_state sh) = sh_queue sh @ [ResetState]"
  "sh_queue (send cmd sh) = sh_queue sh @ [cmd]"
  by (simp_all add: handle_set_yolo_mode_def handle_set_auto_mode_def handle_set_classifier_def
      handle_set_classifier_with_side_query_def client_sends send_def Let_def)

lemma handle_ok_flags:
  "handle_ok cfg (mg, sh) \<longleftrightarrow> replay cfg (sh_queue sh) (modes mg) = replay cfg (sh_queue sh) (flags sh) \<and>
     (mc_yolo_pin cfg \<noteq> None \<longrightarrow> \<not> fst (flags sh)) \<and> \<not> (fst (flags sh) \<and> snd (flags sh))"
  by (simp add: handle_ok_def flags_def)

lemma mode_change_ok:
  assumes "(mc_yolo_pin cfg \<noteq> None \<longrightarrow> \<not> fst m) \<and> \<not> (fst m \<and> snd m)"
  shows "(mc_yolo_pin cfg \<noteq> None \<longrightarrow> \<not> fst (mode_change cfg c m)) \<and> \<not> (fst (mode_change cfg c m) \<and> snd (mode_change cfg c m))"
  using assms by (cases c; cases m) (auto simp: clamp_yolo_def)

lemma handle_step_ok:
  assumes "handle_step cfg s t" "handle_ok cfg s"
  shows "handle_ok cfg t"
  using assms
proof (induction rule: handle_step.induct)
  case (client_yolo mg sh b)
  then show ?case
    using mode_change_ok [of cfg "flags sh" "SetYoloMode b"] replay_repeat [of cfg "SetYoloMode b" "sh_queue sh" "flags sh"]
    by (simp add: handle_ok_flags client_flags(1) [where cfg = cfg] client_queue(1) del: mode_change.simps)
next
  case (client_auto mg sh b)
  then show ?case
    using mode_change_ok [of cfg "flags sh" "SetAutoMode b"] replay_repeat [of cfg "SetAutoMode b" "sh_queue sh" "flags sh"]
    by (simp add: handle_ok_flags client_flags(2) [where cfg = cfg] client_queue(2) del: mode_change.simps)
next
  case (actor sh c cs w mg mg' out)
  then show ?case
    using mode_change_ok [of cfg "flags sh" c] serve_modes [OF actor(2)]
    by (simp add: handle_ok_flags publish_flags publish_queue)
qed (auto simp: handle_ok_flags client_flags client_queue)


lemma handle_init_ok: "handle_init cfg s \<Longrightarrow> handle_ok cfg s"
proof -
  assume "handle_init cfg s"
  then obtain y b d where s: "s = (spawn_permission_manager cfg y b d, spawn_shared (spawn_permission_manager cfg y b d))"
    by (auto simp: handle_init_def)
  show "handle_ok cfg s"
    using spawn_ok [of cfg y b d] by (simp add: s handle_ok_def manager_ok_def spawn_shared_def modes_def flags_def)
qed

interpretation handle: inductive_invariant "handle_init cfg" "handle_step cfg" "handle_ok cfg" for cfg :: "'g manager_config"
  by unfold_locales (auto intro: handle_init_ok handle_step_ok)

text \<open>
  C16. The handle and the actor: whatever clients call and however the actor is delayed, once the channel is empty
  the flags a client reads are the modes the actor decides by; under a managed pin no client ever sees
  always-approve on, and never together with auto mode.
\<close>

theorem handle_modes_agree:
  assumes "reach (handle_init cfg) (handle_step cfg) (mg, sh)"
  shows "(sh_queue sh = [] \<longrightarrow>
       is_yolo_mode (ActorHandle sh) = mg_yolo_mode mg \<and> is_auto_mode (ActorHandle sh) = mg_auto_mode mg) \<and>
    (mc_yolo_pin cfg \<noteq> None \<longrightarrow> \<not> is_yolo_mode (ActorHandle sh)) \<and>
    \<not> (is_yolo_mode (ActorHandle sh) \<and> is_auto_mode (ActorHandle sh))"
  using handle.reach_inv [OF assms] by (auto simp: handle_ok_def modes_def flags_def is_yolo_mode_def is_auto_mode_def)

section \<open>Reads without a path\<close>

lemma no_rule_matches:
  assumes "\<forall>rule \<in> set (pcfg_rules pc). pr_pattern rule \<notin> {None, Some (lit ''*'')}"
  shows "\<not> rule_hit env (policy_new env pc) act (ReadAccess None)"
  using assms by (auto simp: rule_hit_def policy_new_def pattern_matches_def simp del: lit_simps
      dest!: set_zip_leftD split: option.splits)

lemma pathless_preflight:
  assumes "\<forall>rule \<in> set (pcfg_rules pc). pr_pattern rule \<notin> {None, Some (lit ''*'')}"
  shows "policy_decision (preflight_evaluate env fg (Some (policy_new env pc)) (ReadAccess None) auto) = None"
    and "gp_bash_command (preflight_evaluate env fg (Some (policy_new env pc)) (ReadAccess None) auto) = None"
    and "gp_shell_file (preflight_evaluate env fg (Some (policy_new env pc)) (ReadAccess None) auto) = None"
  by (simp_all add: policy_decision_def preflight_evaluate_def Let_def evaluate_cases no_rule_matches [OF assms]
      chain_allows_def)

lemma read_fast_path:
  "auto_mode_fast_path (ReadAccess p) (tool_name_for_access (ReadAccess p))
     (access_requires_user_interaction (tool_name_for_access (ReadAccess p)) (ReadAccess p)) = FastAllow"
proof -
  have "\<not> access_requires_user_interaction (tool_name_for_access (ReadAccess p)) (ReadAccess p)"
    unfolding tool_name_for_access_def access_requires_user_interaction_def by simp code_simp
  then show ?thesis
    by (simp add: auto_mode_fast_path_def is_auto_mode_allowlisted_access_def)
qed

text \<open>
  C17. A file read of the codex toolset is requested without its path.  Where every rule gives a pattern other than
  \<open>*\<close>, no rule can match it: a request for such a read is allowed without a prompt, in every mode, even if
  deny and ask rules name the very file it reads.  Only a rule without a pattern or with the pattern \<open>*\<close> can
  stop it.
\<close>

theorem codex_reads_ungated:
  assumes "mc_permission_config cfg = Some pc"
    and "\<forall>rule \<in> set (pcfg_rules pc). pr_pattern rule \<notin> {None, Some (lit ''*'')}"
    and "rq_access rq = access_of_input (CodexReadFileInput path)" "\<forall>m. \<not> wd_closed w m"
  shows "\<exists>ev. handle_request cfg w rq mg = (mg, ev, Some Allow) \<and> \<not> pv_user_prompted ev"
proof -
  note none = pathless_preflight [OF assms(2)]
  have pf: "policy_decision (request_preflight cfg w rq mg) = None" "\<not> policy_forced_prompt (request_preflight cfg w rq mg)"
    "\<not> shell_forced_prompt (request_preflight cfg w rq mg)"
    by (simp_all add: none request_preflight_def preflight_with_files_def mc_compiled_policy_def assms(1,3)
      policy_forced_prompt_def shell_forced_prompt_def shell_file_forced_prompt_def opt_is_ask_def)
  have "\<exists>src reason. decide_request cfg w rq mg = (mg, src, auto_verdict Allow reason)"
    using pf read_fast_path [of None] assms(4)
    by (cases "mg_yolo_mode mg"; cases "mg_auto_mode mg")
       (auto simp: decide_request_def evaluate_request_def assms(3) early_verdict_def undenied_verdict_def protected_edit_def
         session_grant_pre_decision_def then_some_def auto_stage_def admits_auto_classifier_def bash_floor_def Let_def
         after_auto_def late_verdict_def is_bash_def managed_allow_def pre_decision_def simp del: lit_simps)
  then show ?thesis
    by (auto simp: handle_request_def emit_event_def auto_verdict_def then_some_def simp del: lit_simps)
qed

section \<open>Witnesses\<close>


text \<open>A script allowed under always-approve while a deny rule for another command stands.\<close>

lemma allow_not_forced:
  assumes "policy_decision pf = Some Allow"
  shows "\<not> shell_forced_prompt pf"
proof -
  have "opt_rank decision_rank (policy_decision pf) = 1"
    by (simp add: assms opt_rank_def)
  then have "opt_rank decision_rank (map_option into_decision (gp_bash_command pf)) \<le> 1"
    "opt_rank decision_rank (map_option into_decision (gp_shell_file pf)) \<le> 1"
    by (simp_all add: policy_decision_def managed.rank_combine)
  then show ?thesis
    by (auto simp: shell_forced_prompt_def shell_file_forced_prompt_def opt_is_ask_def into_decision_def opt_rank_def
        split: option.splits gate_decision.splits)
qed

abbreviation ex_guarded :: "str manager_config" where
  "ex_guarded \<equiv> ex_manager_config [ex_rule AllowRule ''ls'', ex_rule AllowRule ''rm'', ex_rule DenyRule ''dd'']"

lemma ex_guarded_preflight:
  "policy_decision (request_preflight ex_guarded ex_world (ex_request (BashAccess ex_script)) (ex_manager True)) = Some Allow"
proof -
  have "\<not> cp_has_file_restrictions ex_allowing"
    by code_simp
  with ex_allowed show ?thesis
    by (simp add: request_preflight_def preflight_with_files_def mc_compiled_policy_def ex_manager_modes ex_request_def
        ex_manager_config_def evaluate_shell_file_access_gate_def preflight_evaluate_def)
qed

lemma ex_guarded_allowed:
  "snd (snd (handle_request ex_guarded ex_world (ex_request (BashAccess ex_script)) (ex_manager True))) = Some Allow"
proof -
  have open_world: "\<not> wd_closed ex_world m" for m
    by (simp add: ex_world_def)
  then obtain e where "evaluate_request ex_guarded ex_world (ex_request (BashAccess ex_script)) (ex_manager True) = Some e"
    by (fastforce simp: evaluate_request_def Let_def split: option.splits access_kind.splits)
  then show ?thesis
    using ex_guarded_preflight allow_not_forced [OF ex_guarded_preflight]
    by (simp add: handle_request_def decide_request_def open_world early_verdict_def undenied_verdict_def ex_manager_modes
        then_some_def verdict_simps Let_def)
qed

theorem deny_is_final_witness:
  "\<not> rule_hit ex_env ex_allowing DenyRule (command_text [lit ''rm'', lit ''x''])"
proof -
  obtain mg' ev where h:
      "handle_request ex_guarded ex_world (ex_request (BashAccess ex_script)) (ex_manager True) = (mg', ev, Some Allow)"
    using ex_guarded_allowed by (metis prod.collapse)
  have cfg: "mc_permission_config ex_guarded =
      Some (ex_config [ex_rule AllowRule ''ls'', ex_rule AllowRule ''rm'', ex_rule DenyRule ''dd''])" "mc_env ex_guarded = ex_env"
    by (simp_all add: ex_manager_config_def)
  have "presents ex_env MAX_INLINE_SHELL_DEPTH ex_script [lit ''rm'', lit ''x'']"
    using presents_raw [OF ex_commands ex_rm_form(1)] unfolding ex_rm_form(2) .
  moreover have "rq_access (ex_request (BashAccess ex_script)) = BashAccess ex_script"
    by (simp add: ex_request_def)
  ultimately show ?thesis
    using deny_is_final [OF h cfg(1), unfolded cfg(2)] by blast
qed

theorem handle_modes_agree_witness:
  "is_yolo_mode (ActorHandle (handle_set_yolo_mode None True (spawn_shared (ex_manager False)))) \<and>
   \<not> is_auto_mode (ActorHandle (handle_set_yolo_mode None True (spawn_shared (ex_manager False))))"
proof -
  let ?cfg = "ex_manager_config []"
  have "handle_init ?cfg (ex_manager False, spawn_shared (ex_manager False))"
    by (auto simp: handle_init_def ex_manager_def)
  then have "reach (handle_init ?cfg) (handle_step ?cfg) (ex_manager False, spawn_shared (ex_manager False))"
    by (rule reach.intros(1))
  then have "reach (handle_init ?cfg) (handle_step ?cfg)
      (ex_manager False, handle_set_yolo_mode (mc_yolo_pin ?cfg) True (spawn_shared (ex_manager False)))"
    by (rule reach.intros(2)) (rule client_yolo)
  note handle_modes_agree [OF this]
  then show ?thesis
    by (simp add: is_yolo_mode_def ex_manager_config_def handle_set_yolo_mode_def clamp_yolo_def send_def)
qed

theorem codex_reads_ungated_witness:
  "\<exists>ev. handle_request (ex_manager_config [ex_rule DenyRule ''/ws/secret'']) ex_world
     (ex_request (access_of_input (CodexReadFileInput (lit ''/ws/secret'')))) (ex_manager False) =
       (ex_manager False, ev, Some Allow) \<and> \<not> pv_user_prompted ev"
  by (rule codex_reads_ungated [where pc = "ex_config [ex_rule DenyRule ''/ws/secret'']" and path = "lit ''/ws/secret''"])
     (simp_all add: ex_manager_config_def ex_config_def ex_rule_def ex_request_def ex_world_def)

end
