(* ===== verification/Spec2Isabelle.thy ===== *)
theory Spec2Isabelle
  imports Patch_Roundtrip Patch_Tool Coordinator_Clients Coordinator_Queries Coordinator_Lists
    Breaker_Threads Policy_Props Bash_Grants_Props Shell_Access_Props Auto_Mode_Props Token_Estimate
    Prompt_Arms Permission_Grants Permission_Safety State_File_Props
begin

text \<open>
  Verification library for Grok Build, Legion Edition, a terminal coding agent.

  \<^bold>\<open>The program.\<close>  A session runs a model that calls tools.  Of its parts the library models the
  ones that carry the program's own logic and can harm the user when they are wrong: the tool that
  edits files from a patch (\<open>apply_patch\<close>), the actor that runs subagents (the \<open>task\<close> tool), the
  permission manager that decides which calls run without asking, the queue that decides which
  prompt of the user runs next, and the circuit breaker that guards remote calls.  Prompts wait in the
  queue until the session promotes one to a turn.  In the turn the model asks for a tool; the permission
  manager sees the access first and decides by rules, grants, a classifier or the user; the tool then runs, \<open>task\<close> requests reach the coordinator as messages,
  and what completes in the background comes back to the queue as a wake or a notification.

  \<^bold>\<open>Conventions\<close> (\<open>Prelude\<close>).  Rust strings are lists of Unicode scalar values with the library
  operations the sources call; byte lengths are UTF-8 lengths.  Fallible code returns \<open>Ok\<close>,
  \<open>Err\<close> or \<open>Panic\<close>, so an index or slice out of range is a value.  A \<open>HashMap\<close> is an association list
  with distinct keys whose order stands for the unspecified iteration order.  Loops are structural
  recursion or carry a measure; where the code bounds a loop (eight wrapper layers, sixteen rounds,
  eight nested scripts) the bound is the code's own constant.  The locale \<open>inductive_invariant\<close>
  gives invariants of reachable states, \<open>map_store\<close> the laws of a map.

  \<^bold>\<open>Patches\<close> (\<open>xai-grok-tools/src/implementations/codex/apply_patch\<close>).
  \<^item> \<open>Seek_Sequence\<close> models \<open>seek_sequence.rs\<close>, the four passes that locate lines; the search is
    proved to return the first searched position of the strictest pass that matches.  An end-of-file search
    looks at the last window only; the comment promises a fallback the code does not have (finding).
  \<^item> \<open>Patch_Parser\<close> models \<open>parser.rs\<close> and \<open>errors.rs\<close>; parsing never panics.  \<open>Patch_Roundtrip\<close>
    prints a patch and proves that parsing returns it.
  \<^item> \<open>Patch_Apply\<close> models \<open>apply.rs\<close>; applying never panics and equals one splice of the original
    for ordered chunks.  Where lines up to a blank last line are replaced and an
    addition follows, its first line is lost (finding).
  \<^item> \<open>Patch_Tool\<close> models \<open>tool.rs\<close> on a file system given as a map: a patch that fails while its
    changes are computed writes nothing; of two updates of one file the last wins (finding).

  \<^bold>\<open>Permissions\<close> (\<open>xai-grok-workspace/src/permission\<close>).
  \<^item> \<open>Shell_Tree\<close> models the decomposition of a parsed script into plain commands
    (\<open>bash_command_splitting.rs\<close>).  The stack walk is proved equal to a definition by recursion on
    the tree, so no command node is lost.  Trees come from tree-sitter, a parameter; the spans of a
    tree lie in its source.
  \<^item> \<open>Shell_Words\<close> models the argument vectors: the option scanner of \<open>env\<close>, the peeling of
    wrappers and transparent prefixes, and \<open>normalize_command_words\<close>.  \<open>Shell_Normalize\<close> states
    peeling as a relation and proves the loops exact for up to eight layers; a packed \<open>env -S\<close> that
    surfaces after the last round is missed (finding).
  \<^item> \<open>Shell_Inline\<close> models \<open>shell_dash_c_script\<close> of \<open>policy.rs\<close>.
  \<^item> \<open>Policy\<close> models the rules, their matching, \<open>CompiledPolicy\<close> and \<open>GatePreflight\<close>.  \<open>policy_env\<close>
    holds what comes from other crates: globs, URL hosts, the parser, the Unicode lower-case table.
    The preflight takes the shell-file gate as an argument, so its properties hold for any gate;
    \<open>preflight_with_files\<close> gives it the one of \<open>shell_access.rs\<close>.  \<open>Policy_Props\<close> proves
    that rule order does not matter, that the bash gate is exact with respect to the relations
    \<open>presents\<close> and \<open>unclear\<close>, that deny is absolute, and that everything an allowed script launches is
    allowed and hits no restriction.  The locale \<open>ranked_combination\<close> is the contract of the two
    combinations of decisions and is interpreted on both.
  \<^item> \<open>Shell_Paths\<close> models the paths of \<open>shell_access.rs\<close>: the text of operands, the components of Unix
    paths, link resolution and the protected edit targets.  The disk is the record \<open>file_system\<close>
    (\<open>canonicalize\<close>, \<open>symlink_metadata\<close>, \<open>read_link\<close>).  \<open>fs_contract\<close> is what these calls document over
    the directories and links of a disk: each walks the path component by component, fails where a directory on
    the way is missing, and may fail at any time.  \<open>Shell_Paths_Props\<close> proves that what resolution returns is
    the file that following every link reaches, and for which existing and new paths it returns.
  \<^item> \<open>Shell_Access\<close> models the shell-file gate: the words, redirections, changes of directory and
    operands of a script, nested scripts to depth eight, and the decision on each path as written,
    anchored and resolved.  \<open>Shell_Access_Props\<close> proves the gate exact with respect to the relations
    \<open>opens\<close> and \<open>file_unclear\<close>, and that a denied file is out of reach through any links; a path under
    \<open>/c\<close> is mistaken for a drive (finding).
  \<^item> \<open>Env_Risk\<close> models the risk of environment assignments (\<open>auto_mode.rs\<close>).
  \<^item> \<open>Bash_Grants\<close> models the built-in lists of \<open>manager.rs\<close>, \<open>evaluate_bash\<close>, the floors and the bash
    grants of a session, with the command-line part of \<open>exec_risk.rs\<close>.
    \<open>Bash_Grants_Props\<close> proves the outcome exact segment by segment, the limits of a grant, and that
    the stored prefix of a safe command grants nothing new; an \<open>env\<close> with unknown options hides a
    risky command from the execution floor (finding).
  \<^item> \<open>Auto_Mode\<close> models \<open>auto_mode.rs\<close>: the heuristic, the fast path, the messages sent to the model
    classifier and the reading of its reply.  The JSON parser and printer, the system prompt and the
    query itself are arguments.  \<open>Auto_Mode_Props\<close> proves what an allowed script cannot contain and that
    untrusted text adds no heading to the request; a local program named \<open>find\<close> is allowed (finding).
  \<^item> \<open>Manager_Inputs\<close> models what the manager reads besides: the access of a tool call (\<open>types.rs\<close>), qualified
    MCP names, the web-fetch allowlist, paths written by the model, the scan of local git configuration
    (\<open>exec_risk.rs\<close>) and the state file (\<open>state.rs\<close>), which is written and read field by field as a TOML value.
    URL and tilde expansion, the git library, the disk and the text form of TOML values are arguments.
    \<open>State_File_Props\<close> proves that a written state is read back, given \<open>toml_contract\<close>: the crate keeps
    the entries of a table it writes.
  \<^item> \<open>Permission_Prompter\<close> models \<open>prompter.rs\<close> and the replies of \<open>hub_permission.rs\<close>: the options shown to
    each client and the meaning of an answer.
  \<^item> \<open>Permission_Manager\<close> models the actor of \<open>manager.rs\<close>: \<open>decide_request\<close> is the request arm with all its
    early returns, \<open>serve\<close> one command, \<open>spawn_permission_manager\<close> the start with its migration,
    \<open>handle_step\<close> the interleaving of clients and actor.  The record \<open>world\<close> holds what one request meets
    outside: files, git, the user's answer, the sandbox, and when the requester is gone.
  \<^item> \<open>Permission_Manager_Props\<close>: the ways a request ends, the invariant of all runs, one reply and one true event
    per request, grants that survive a restart while writes succeed.  \<open>Permission_Grants\<close>: every grant stands for an answer
    of the user.  \<open>Permission_Safety\<close>: what may pass without a question, deny rules that nothing overrides, flags
    that agree with the actor; reads of the codex tools carry no path, so no rule with a path pattern reaches
    them, and web searches and allowlisted web fetches ignore ask rules (findings).

  \<^bold>\<open>Subagents\<close> (\<open>xai-grok-tools/src/implementations/grok_build/task\<close>).
  \<^item> \<open>Capability\<close>: which tools a subagent keeps in each capability mode (\<open>types.rs\<close>).
  \<^item> \<open>Coordinator_Types\<close>, \<open>Coordinator\<close>: requests, records, snapshots, and every message handler,
    the reply channels, the eviction and the main loop (\<open>coordinator.rs\<close>, \<open>coordinator_state.rs\<close>,
    \<open>coordinator/query.rs\<close>).  The host that runs a child is the parameter \<open>runner\<close>; a step reads
    the clock once; \<open>select!\<close> may take any enabled branch.
  \<^item> \<open>Coordinator_Inv\<close>, \<open>Coordinator_Run\<close>: frame lemmas, the locale \<open>foreground_laws\<close> for pending and
    active children, and that every step keeps the invariant.  \<open>Coordinator_Props\<close>: the invariant of
    reachable states, a clean exit, and the refinement of an abstract registry: each event of the loop changes the
    live and finished children exactly as \<open>registry_next\<close> says.
  \<^item> \<open>Coordinator_Clients\<close>: delivery of results, isolation of cancellation, deadlines, completions
    drained once.  \<open>Coordinator_Queries\<close>: what queries answer and how outputs are capped.
    \<open>Coordinator_Lists\<close>: list requests; their counter is taken not to wrap.

  \<^bold>\<open>Prompt queue\<close> (\<open>xai-grok-shell/src/session\<close>, \<open>xai-prompt-queue\<close>, \<open>xai-interjection-core\<close>).
  \<^item> \<open>Event_Queue\<close> models the shared event queue, the framing of interjections, and how monitor events are
    wrapped, split and batched; unwrapping inverts wrapping.
  \<^item> \<open>Prompt_Queue\<close> models the queue: the record \<open>session\<close> is \<open>State\<close> with the two buffers it shares with the
    turn and a log of what goes out.  One definition per stretch of code that holds the lock (\<open>prompt_queue.rs\<close>,
    \<open>notification_drain.rs\<close>, \<open>turn_end.rs\<close>, \<open>tasks_cancel.rs\<close>, \<open>interjection.rs\<close>), then the arms of the session loop
    (\<open>run_loop.rs\<close>) composed of them.  The goal gates, the setting that merges prompts and the workflow tracker
    are arguments.  A reply channel is a number; dropping its sender is a reply of its own.
  \<^item> \<open>Prompt_Queue_Props\<close> interleaves the locked stretches in any order, with fresh channels and whatever prompt
    identifiers the clients choose, and proves that the running turn is the front of the queue and that every
    prompt is answered exactly once; then send-now, reordering and merging.  The sweep at shutdown ends the loop
    and is no step; replies to cancelled inputs belong to the step that removes the inputs.  Scheduled prompts are dropped without an answer (finding).
  \<^item> \<open>Prompt_Arms\<close> runs whole arms and proves that no prompt waits while no turn runs.

  \<^bold>\<open>Text and token budgets.\<close>
  \<^item> \<open>Truncate\<close> models \<open>xai-grok-tools/src/util/truncate.rs\<close>: cuts at character boundaries are exact and
    wrapping loses nothing; two helpers break their stated bounds (findings).
  \<^item> \<open>Token_Estimate\<close> models \<open>xai-token-estimation\<close> on 64-bit words: the compaction threshold is exact.

  \<^bold>\<open>Circuit breaker\<close> (\<open>xai-circuit-breaker/src\<close>).
  \<^item> \<open>Breaker_Window\<close>: the sliding window with its cached count, and the failure rate rounded as an
    IEEE double; the locale \<open>outcome_window\<close> is what the breaker relies on.
  \<^item> \<open>Breaker\<close>: configuration, retry policy, \<open>check\<close>, \<open>record\<close>, \<open>error_rate\<close> and the registry, one
    clock reading per call; the parser of doubles is a parameter.
  \<^item> \<open>Breaker_Threads\<close>: the same operations as sequences of atomic accesses, interleaved, with
    sequentially consistent memory.  Run alone they are the operations of \<open>Breaker\<close>; interleaved,
    a probe slot can admit two callers and the counter can wrap (findings).

  \<^bold>\<open>Not modelled.\<close>  The terminal interface, rendering, Markdown and voice; telemetry; configuration,
  accounts and updates; worktrees, file watching and the sandbox; MCP, hooks and plug-ins; the
  sampler, compaction and memory, which are I/O around a model service; vendored code.  What a turn does between two
  accesses to the queue is free in the model, so the turn loop itself and the goal bookkeeping are left out.
  Of the permission system the settings files, the transports of a prompt and the display helpers are not
  modelled: they read and merge files and carry the decisions that are.  The retry decisions of the sampler and the hunk tracker
  rest on an HTTP client and on a diff crate.
\<close>

end
